(* ===== verification/Prelude.thy ===== *)
theory Prelude
  imports
    Main
    "HOL-Library.Char_ord"
    "HOL-Library.List_Lexorder"
    "HOL-Library.Sublist"
    "HOL-Library.AList"
begin

text \<open>
  Shared vocabulary of the development: instants and durations, the byte strings of Go and the
  functions of package \<open>strings\<close> the sources call, 64-bit wrap-around, values of type
  \<open>any\<close> as \<open>encoding/json\<close> and \<open>yaml.v3\<close> build them, the sliding windows several
  trackers keep, and the interface (a locale) every window-based limiter satisfies.
\<close>

named_theorems nf_defs "definitions of small operations, unfolded by simp add: nf_defs"
named_theorems nf_maps "lookups after an update of a component's tables"

section \<open>Time and machine integers\<close>

text \<open>
  An instant (\<open>time.Time\<close>) and a \<open>time.Duration\<close> are counts of nanoseconds. A reading
  of \<open>time.Now()\<close> is an argument of the operation that takes it.
\<close>

type_synonym time = int
type_synonym duration = int

definition Second :: duration where "Second = 1000000000"
definition Minute :: duration where "Minute = 60 * Second"
definition Hour :: duration where "Hour = 60 * Minute"

lemmas duration_defs = Second_def Minute_def Hour_def

text \<open>A reading of the clock where the code also asks for the calendar day (\<open>YearDay\<close>).\<close>

record clock =
  instant :: time
  YearDay :: int

text \<open>Arithmetic of Go's \<open>int\<close> and \<open>int64\<close>: two's complement, 64 bits.\<close>

definition wrap64 :: "int \<Rightarrow> int" where
  "wrap64 x = (x + 2 ^ 63) mod 2 ^ 64 - 2 ^ 63"

lemma wrap64_id: "- (2 ^ 63) \<le> x \<Longrightarrow> x < 2 ^ 63 \<Longrightarrow> wrap64 x = x"
  by (simp add: wrap64_def)

lemma wrap64_range: "- (2 ^ 63) \<le> wrap64 x \<and> wrap64 x < 2 ^ 63"
proof -
  have "0 \<le> (x + 2 ^ 63) mod 2 ^ 64" and "(x + 2 ^ 63) mod 2 ^ 64 < (2 ^ 64 :: int)"
    by simp_all
  then show ?thesis by (simp add: wrap64_def)
qed

section \<open>Strings\<close>

text \<open>
  A Go string is a sequence of bytes, here a list of \<open>char\<close>. Case mapping is Go's on ASCII;
  a byte outside ASCII stands for itself.
\<close>

definition lower_char :: "char \<Rightarrow> char" where
  "lower_char c = (let n = of_char c :: nat in
     if 65 \<le> n \<and> n \<le> 90 then char_of (n + 32) else c)"

definition upper_char :: "char \<Rightarrow> char" where
  "upper_char c = (let n = of_char c :: nat in
     if 97 \<le> n \<and> n \<le> 122 then char_of (n - 32) else c)"

definition ToLower :: "string \<Rightarrow> string" where
  "ToLower s = map lower_char s"

definition ToUpper :: "string \<Rightarrow> string" where
  "ToUpper s = map upper_char s"

definition EqualFold :: "string \<Rightarrow> string \<Rightarrow> bool" where
  "EqualFold a b \<longleftrightarrow> ToLower a = ToLower b"

lemmas str_eval = ToLower_def ToUpper_def lower_char_def upper_char_def EqualFold_def
  char_of_def bit_0 bit_Suc_0_iff bit_simps

lemma EqualFold_refl [simp]: "EqualFold s s"
  by (simp add: EqualFold_def)

lemma EqualFold_sym: "EqualFold a b \<longleftrightarrow> EqualFold b a"
  by (auto simp: EqualFold_def)

fun HasPrefix :: "string \<Rightarrow> string \<Rightarrow> bool" where
  "HasPrefix s [] = True"
| "HasPrefix [] (p # ps) = False"
| "HasPrefix (c # s) (p # ps) = (c = p \<and> HasPrefix s ps)"

lemma HasPrefix_prefix: "HasPrefix s p \<longleftrightarrow> prefix p s"
  by (induction s p rule: HasPrefix.induct) auto

definition HasSuffix :: "string \<Rightarrow> string \<Rightarrow> bool" where
  "HasSuffix s p \<longleftrightarrow> HasPrefix (rev s) (rev p)"

lemma HasSuffix_suffix: "HasSuffix s p \<longleftrightarrow> suffix p s"
  by (simp add: HasSuffix_def HasPrefix_prefix suffix_to_prefix)

definition TrimPrefix :: "string \<Rightarrow> string \<Rightarrow> string" where
  "TrimPrefix s p = (if HasPrefix s p then drop (length p) s else s)"

definition TrimSuffix :: "string \<Rightarrow> string \<Rightarrow> string" where
  "TrimSuffix s p = (if HasSuffix s p then take (length s - length p) s else s)"

lemma TrimPrefix_append [simp]: "TrimPrefix (p @ s) p = s"
  by (simp add: TrimPrefix_def HasPrefix_prefix)

lemma TrimPrefix_eq_iff: "p \<noteq> [] \<Longrightarrow> TrimPrefix s p = s \<longleftrightarrow> \<not> prefix p s"
  by (auto simp: TrimPrefix_def HasPrefix_prefix prefix_def)

text \<open>\<open>strings.Contains\<close>: some suffix of the string starts with the pattern.\<close>

fun Contains :: "string \<Rightarrow> string \<Rightarrow> bool" where
  "Contains [] p = (p = [])"
| "Contains (c # s) p = (HasPrefix (c # s) p \<or> Contains s p)"

lemma Contains_sublist: "Contains s p \<longleftrightarrow> sublist p s"
  by (induction s) (auto simp: HasPrefix_prefix sublist_Cons_right)

text \<open>\<open>strings.Split\<close> by a one-byte separator; always at least one part.\<close>

fun Split :: "char \<Rightarrow> string \<Rightarrow> string list" where
  "Split c [] = [[]]"
| "Split c (x # xs) =
     (if x = c then [] # Split c xs
      else (case Split c xs of [] \<Rightarrow> [[x]] | p # ps \<Rightarrow> (x # p) # ps))"

lemma Split_neq_Nil [simp]: "Split c s \<noteq> []"
  by (induction s) (auto split: list.splits)

fun Join :: "string list \<Rightarrow> string \<Rightarrow> string" where
  "Join [] sep = []"
| "Join [x] sep = x"
| "Join (x # y # ys) sep = x @ sep @ Join (y # ys) sep"

lemma Split_no_sep: "c \<notin> set s \<Longrightarrow> Split c s = [s]"
  by (induction s) auto

lemma Split_append: "c \<notin> set s \<Longrightarrow> Split c (s @ c # r) = s # Split c r"
  by (induction s) auto

lemma Join_Split: "Join (Split c s) [c] = s"
proof (induction s)
  case Nil
  then show ?case by simp
next
  case (Cons x s)
  obtain p ps where "Split c s = p # ps"
    by (cases "Split c s") auto
  with Cons show ?case
    by (cases ps) auto
qed

lemma Split_Join:
  "xs \<noteq> [] \<Longrightarrow> \<forall>x \<in> set xs. c \<notin> set x \<Longrightarrow> Split c (Join xs [c]) = xs"
proof (induction xs)
  case Nil
  then show ?case by simp
next
  case (Cons x xs)
  then show ?case
    by (cases xs) (auto simp: Split_no_sep Split_append)
qed

text \<open>\<open>strings.Cut\<close> by a one-byte separator: before, after, found.\<close>

fun Cut :: "string \<Rightarrow> char \<Rightarrow> string \<times> string \<times> bool" where
  "Cut [] c = ([], [], False)"
| "Cut (x # xs) c =
     (if x = c then ([], xs, True)
      else (case Cut xs c of (b, a, f) \<Rightarrow> (x # b, a, f)))"

text \<open>\<open>strings.TrimSpace\<close> on ASCII white space, and \<open>strings.Fields\<close>.\<close>

definition is_space :: "char \<Rightarrow> bool" where
  "is_space c \<longleftrightarrow> (let n = of_char c :: nat in n = 32 \<or> (9 \<le> n \<and> n \<le> 13))"

definition TrimSpace :: "string \<Rightarrow> string" where
  "TrimSpace s = rev (dropWhile is_space (rev (dropWhile is_space s)))"

text \<open>Decimal notation (\<open>%d\<close>).\<close>

definition digit_char :: "nat \<Rightarrow> char" where
  "digit_char n = ''0123456789'' ! n"

fun nat_digits :: "nat \<Rightarrow> string" where
  "nat_digits n = (if n < 10 then [digit_char n]
     else nat_digits (n div 10) @ [digit_char (n mod 10)])"

declare nat_digits.simps [simp del]

lemma nat_digits_chars: "set (nat_digits n) \<subseteq> set ''0123456789'' \<and> nat_digits n \<noteq> []"
proof (induction n rule: nat_digits.induct)
  case (1 n)
  have "digit_char m \<in> set ''0123456789''" if "m < 10" for m
    unfolding digit_char_def using that by (intro nth_mem) simp
  from this [of n] this [of "n mod 10"] 1 show ?case
    unfolding nat_digits.simps [of n] by (cases "n < 10") simp_all
qed

text \<open>The UTF-8 bytes of the em dash, which several messages contain.\<close>

definition em_dash :: string where
  "em_dash = [CHR 0xE2, CHR 0x80, CHR 0x94]"

definition itoa :: "int \<Rightarrow> string" where
  "itoa i = (if i < 0 then CHR ''-'' # nat_digits (nat (- i)) else nat_digits (nat i))"

lemma itoa_chars: "set (itoa i) \<subseteq> insert (CHR ''-'') (set ''0123456789'') \<and> itoa i \<noteq> []"
proof -
  have "set (itoa i) = (if i < 0 then insert (CHR ''-'') (set (nat_digits (nat (- i)))) else set (nat_digits (nat i)))"
    "itoa i = [] \<longleftrightarrow> 0 \<le> i \<and> nat_digits (nat i) = []"
    by (simp_all add: itoa_def)
  with nat_digits_chars show ?thesis
    by (metis insert_mono subset_insertI2)
qed

text \<open>\<open>%q\<close> on printable ASCII: quotes around, a backslash before a quote or a backslash.\<close>

definition Quote :: "string \<Rightarrow> string" where
  "Quote s = CHR 0x22 # concat (map (\<lambda>c. if c = CHR 0x22 \<or> c = CHR 0x5C then [CHR 0x5C, c] else [c]) s)
     @ [CHR 0x22]"

section \<open>Histories of bounded length\<close>

text \<open>\<open>if len(h) > n { h = h[len(h)-n:] }\<close>\<close>

definition keep_last :: "nat \<Rightarrow> 'a list \<Rightarrow> 'a list" where
  "keep_last n xs = (if n < length xs then drop (length xs - n) xs else xs)"

lemma length_keep_last: "length (keep_last n xs) = min n (length xs)"
  by (simp add: keep_last_def)

lemma suffix_keep_last: "suffix (keep_last n xs) xs"
  by (simp add: keep_last_def suffix_drop)

lemma set_keep_last: "set (keep_last n xs) \<subseteq> set xs"
  by (simp add: set_mono_suffix suffix_keep_last)

lemma keep_last_snoc: "0 < n \<Longrightarrow> \<exists>ys. keep_last n (xs @ [x]) = ys @ [x]"
  by (auto simp: keep_last_def)

section \<open>Sliding windows\<close>

text \<open>
  The trackers keep the instants of past calls and drop those not after a cutoff:
  \<open>for _, t := range calls { if t.After(cutoff) { live = append(live, t) } }\<close>.
\<close>

definition live :: "time \<Rightarrow> time list \<Rightarrow> time list" where
  "live cutoff ts = filter (\<lambda>t. cutoff < t) ts"

lemma live_Nil [simp]: "live c [] = []"
  by (simp add: live_def)

lemma live_append [simp]: "live c (xs @ ys) = live c xs @ live c ys"
  by (simp add: live_def)

lemma live_live [simp]: "live c (live d ts) = live (max c d) ts"
  by (simp add: live_def) (rule filter_cong, auto)

lemma live_single: "live c [t] = (if c < t then [t] else [])"
  by (simp add: live_def)

lemma set_live: "set (live c ts) = {t \<in> set ts. c < t}"
  by (simp add: live_def)

lemma length_live_le: "length (live c ts) \<le> length ts"
  by (simp add: live_def)

lemma live_mono_eq: "live c xs = live c ys \<Longrightarrow> c \<le> d \<Longrightarrow> live d xs = live d ys"
  by (metis live_live max.absorb1)

lemma sorted_live: "sorted ts \<Longrightarrow> sorted (live c ts)"
  by (simp add: live_def sorted_filter [where f = id, simplified])

lemma sorted_last_le: "sorted ts \<Longrightarrow> x \<in> set ts \<Longrightarrow> x \<le> last ts"
  by (induction ts) auto

lemma live_none: "\<forall>x \<in> set ts. x \<le> c \<Longrightarrow> live c ts = []"
  by (auto simp: live_def filter_empty_conv)

text \<open>The number of entries in the window of width \<open>w\<close> that ends at \<open>t\<close>.\<close>

definition in_window :: "duration \<Rightarrow> time \<Rightarrow> time list \<Rightarrow> nat" where
  "in_window w t ts = length (filter (\<lambda>x. t - w < x \<and> x \<le> t) ts)"

lemma in_window_Nil [simp]: "in_window w t [] = 0"
  by (simp add: in_window_def)

lemma in_window_before: "t < a \<Longrightarrow> in_window w t (xs @ [a]) = in_window w t xs"
  by (simp add: in_window_def)

lemma in_window_live:
  assumes "\<forall>x \<in> set xs. x \<le> a" and "a \<le> t"
  shows "in_window w t xs \<le> length (live (a - w) xs)"
proof -
  have "filter (\<lambda>x. t - w < x \<and> x \<le> t) xs = filter (\<lambda>x. t - w < x \<and> x \<le> t) (live (a - w) xs)"
    using assms by (auto simp: live_def intro!: filter_cong)
  then show ?thesis
    by (simp add: in_window_def)
qed

lemma in_window_after:
  assumes "\<forall>x \<in> set xs. x \<le> a" and "a \<le> t"
  shows "in_window w t (xs @ [a]) \<le> Suc (length (live (a - w) xs))"
proof -
  have "in_window w t (xs @ [a]) \<le> Suc (in_window w t xs)"
    by (simp add: in_window_def)
  with in_window_live [OF assms, of w] show ?thesis by simp
qed

section \<open>The interface of a window-based limiter\<close>

text \<open>
  A run presents operations in time order; \<open>admitted_by\<close> lists when a counted one got in, and
  \<open>final_by\<close> is the state the run leaves.
\<close>

fun admitted_by ::
  "('s \<Rightarrow> 'i \<Rightarrow> time \<Rightarrow> 's \<times> bool) \<Rightarrow> ('i \<Rightarrow> bool) \<Rightarrow> 's \<Rightarrow> ('i \<times> time) list \<Rightarrow> time list" where
  "admitted_by charge counts s [] = []"
| "admitted_by charge counts s ((i, now) # cs) =
     (let (s', b) = charge s i now in
      (if b \<and> counts i then [now] else []) @ admitted_by charge counts s' cs)"

fun final_by :: "('s \<Rightarrow> 'i \<Rightarrow> time \<Rightarrow> 's \<times> bool) \<Rightarrow> 's \<Rightarrow> ('i \<times> time) list \<Rightarrow> 's" where
  "final_by charge s [] = s"
| "final_by charge s ((i, now) # cs) = final_by charge (fst (charge s i now)) cs"

lemma in_window_subseq: "subseq xs ys \<Longrightarrow> in_window w t xs \<le> in_window w t ys"
  unfolding in_window_def by (intro list_emb_length [of "(=)"] subseq_filter)

text \<open>A stricter operation on the same states admits a subsequence.\<close>

lemma admitted_by_mono_on:
  assumes "\<And>s i now. P s \<Longrightarrow> fst (f s i now) = fst (g s i now) \<and> P (fst (g s i now)) \<and> (snd (f s i now) \<and> counts i \<longrightarrow> snd (g s i now))"
    and "P s"
  shows "subseq (admitted_by f counts s cs) (admitted_by g counts s cs)"
  using assms(2)
proof (induction cs arbitrary: s)
  case (Cons c cs)
  obtain i now where c: "c = (i, now)" by (cases c)
  show ?case
    using Cons.IH [of "fst (g s i now)"] assms(1) [OF Cons.prems, of i now] by (auto simp: c split: prod.splits)
qed simp

lemma admitted_by_mono:
  assumes "\<And>s i now. fst (f s i now) = fst (g s i now)" and "\<And>s i now. snd (f s i now) \<Longrightarrow> snd (g s i now)"
  shows "subseq (admitted_by f counts s cs) (admitted_by g counts s cs)"
  by (rule admitted_by_mono_on [where P = "\<lambda>_. True"]) (simp_all add: assms)

text \<open>
  What the limiters of the program have in common. \<open>charge\<close> presents one operation at an
  instant and says whether it was admitted; \<open>recorded\<close> reads the instants kept for the key
  under consideration; \<open>counts\<close> says which operations the limit applies to, \<open>pre\<close> which
  operations a run may contain, and \<open>ok t s\<close> that \<open>s\<close> is a well-formed state all of whose
  entries lie at or before \<open>t\<close>. An admitted operation that counts found the window not full
  and is kept; no other operation changes what is live.
\<close>

locale sliding_limiter =
  fixes w :: duration
    and cap :: nat
    and recorded :: "'s \<Rightarrow> time list"
    and charge :: "'s \<Rightarrow> 'i \<Rightarrow> time \<Rightarrow> 's \<times> bool"
    and counts :: "'i \<Rightarrow> bool"
    and pre :: "'i \<Rightarrow> bool"
    and ok :: "time \<Rightarrow> 's \<Rightarrow> bool"
  assumes width_pos: "0 < w"
    and ok_later: "ok t s \<Longrightarrow> t \<le> t' \<Longrightarrow> ok t' s"
    and ok_charge: "ok now s \<Longrightarrow> pre i \<Longrightarrow> charge s i now = (s', b) \<Longrightarrow> ok now s'"
    and admit_room: "ok now s \<Longrightarrow> pre i \<Longrightarrow> counts i \<Longrightarrow> charge s i now = (s', True) \<Longrightarrow>
      length (live (now - w) (recorded s)) < cap"
    and admit_keeps: "ok now s \<Longrightarrow> pre i \<Longrightarrow> counts i \<Longrightarrow> charge s i now = (s', True) \<Longrightarrow>
      live (now - w) (recorded s') = live (now - w) (recorded s) @ [now]"
    and refuse_keeps: "ok now s \<Longrightarrow> pre i \<Longrightarrow> charge s i now = (s', False) \<Longrightarrow>
      live (now - w) (recorded s') = live (now - w) (recorded s)"
    and other_keeps: "ok now s \<Longrightarrow> pre i \<Longrightarrow> \<not> counts i \<Longrightarrow> charge s i now = (s', b) \<Longrightarrow>
      live (now - w) (recorded s') = live (now - w) (recorded s)"
begin

abbreviation admitted where "admitted \<equiv> admitted_by charge counts"
abbreviation final where "final \<equiv> final_by charge"

lemma admitted_snoc:
  "admitted s (cs @ [(i, now)]) =
     admitted s cs @ (if snd (charge (final s cs) i now) \<and> counts i then [now] else [])"
  by (induction cs arbitrary: s) (auto split: prod.splits)

lemma final_snoc: "final s (cs @ [(i, now)]) = fst (charge (final s cs) i now)"
  by (induction cs arbitrary: s) auto

lemma admitted_subset: "set (admitted s cs) \<subseteq> set (map snd cs)"
proof (induction cs arbitrary: s)
  case (Cons c cs)
  obtain i now where c: "c = (i, now)" by (cases c)
  have "set (admitted (fst (charge s i now)) cs) \<subseteq> set (map snd cs)" by (rule Cons.IH)
  then show ?case by (cases "charge s i now") (auto simp: c)
qed simp

text \<open>A run as the laws want it: from a well-formed empty state, in time order.\<close>

definition good_run :: "time \<Rightarrow> 's \<Rightarrow> ('i \<times> time) list \<Rightarrow> bool" where
  "good_run t0 s cs \<longleftrightarrow> recorded s = [] \<and> ok t0 s \<and> sorted (map snd cs) \<and>
     (\<forall>(i, t) \<in> set cs. pre i \<and> t0 \<le> t)"

lemma good_run_snocD:
  "good_run t0 s (cs @ [(i, a)]) \<Longrightarrow>
     good_run t0 s cs \<and> pre i \<and> t0 \<le> a \<and> (\<forall>x \<in> set cs. snd x \<le> a)"
  by (auto simp: good_run_def sorted_append)

lemma final_ok:
  assumes "good_run t0 s cs" and "t0 \<le> now" and "\<forall>x \<in> set cs. snd x \<le> now"
  shows "ok now (final s cs)"
  using assms
proof (induction cs arbitrary: now rule: rev_induct)
  case Nil
  then show ?case using ok_later by (auto simp: good_run_def)
next
  case (snoc c cs)
  obtain i t where c: "c = (i, t)" by (cases c)
  note run = good_run_snocD [OF snoc.prems(1) [unfolded c]]
  have "ok t (final s cs)" using run by (intro snoc.IH) auto
  then have "ok t (final s (cs @ [c]))"
    using run ok_charge by (metis c final_snoc prod.collapse)
  then show ?case by (rule ok_later) (use snoc.prems(3) c in auto)
qed

text \<open>What is live in the tracker is exactly what was admitted and is still in the window.\<close>

lemma recorded_live:
  assumes "good_run t0 s cs" and "t0 \<le> now" and "\<forall>x \<in> set cs. snd x \<le> now"
  shows "live (now - w) (recorded (final s cs)) = live (now - w) (admitted s cs)"
  using assms
proof (induction cs arbitrary: now rule: rev_induct)
  case Nil
  then show ?case by (simp add: good_run_def)
next
  case (snoc c cs)
  obtain i t where c: "c = (i, t)" by (cases c)
  note run = good_run_snocD [OF snoc.prems(1) [unfolded c]]
  have IH: "live (t - w) (recorded (final s cs)) = live (t - w) (admitted s cs)"
    using run by (intro snoc.IH) auto
  have ok: "ok t (final s cs)" using run by (intro final_ok) auto
  obtain s' b where ch: "charge (final s cs) i t = (s', b)" by fastforce
  have step: "live (t - w) (recorded s') =
      live (t - w) (recorded (final s cs)) @ (if b \<and> counts i then [t] else [])"
    using ch run admit_keeps [OF ok] refuse_keeps [OF ok] other_keeps [OF ok]
    by (cases b; cases "counts i") auto
  have "live (t - w) (recorded (final s (cs @ [c]))) = live (t - w) (admitted s (cs @ [c]))"
    using step IH width_pos by (auto simp: c final_snoc admitted_snoc ch live_single)
  then show ?case
    by (rule live_mono_eq) (use snoc.prems(3) c in simp)
qed

text \<open>No window of width \<open>w\<close> ever holds more admitted calls than the limit allows.\<close>

lemma window_bound:
  assumes "good_run t0 s cs"
  shows "in_window w t (admitted s cs) \<le> cap"
  using assms
proof (induction cs rule: rev_induct)
  case Nil
  then show ?case by simp
next
  case (snoc c cs)
  obtain i a where c: "c = (i, a)" by (cases c)
  note run = good_run_snocD [OF snoc.prems [unfolded c]]
  note IH = snoc.IH [OF conjunct1 [OF run]]
  show ?case
  proof (cases "snd (charge (final s cs) i a) \<and> counts i")
    case False
    then show ?thesis using IH by (auto simp: c admitted_snoc)
  next
    case True
    then have adm: "admitted s (cs @ [c]) = admitted s cs @ [a]"
      by (simp add: c admitted_snoc)
    have all: "\<forall>x \<in> set (admitted s cs). x \<le> a"
      using admitted_subset [of s cs] run by auto
    have ok: "ok a (final s cs)" using run by (intro final_ok) auto
    have "length (live (a - w) (admitted s cs)) < cap"
      using True run admit_room [OF ok, of i "fst (charge (final s cs) i a)"]
        recorded_live [of t0 s cs a]
      by (metis prod.collapse)
    then show ?thesis
      using IH in_window_before [of t a w] in_window_after [OF all, of t w] adm
      by (cases "t < a") auto
  qed
qed

end

end
