(* ===== verification/Values.thy ===== *)
theory Values
  imports Prelude
begin

text \<open>
  Values of Go's type \<open>any\<close>, as \<open>encoding/json\<close> (token claims, tool arguments) and
  \<open>yaml.v3\<close> (policy documents) decode them, with the type assertions and the formatting
  (\<open>fmt.Sprint\<close>) the sources apply to them.
\<close>

text \<open>
  \<open>VInt\<close> is a Go \<open>int\<close> (a YAML integer), \<open>VNum\<close> a \<open>float64\<close> with an integral
  value (a JSON number), \<open>VStrs\<close> a \<open>[]string\<close>, \<open>VArr\<close> a \<open>[]any\<close>, \<open>VMap\<close> a
  \<open>map[string]any\<close> given by its entries.
\<close>

datatype goval =
    VNil
  | VBool bool
  | VInt int
  | VNum int
  | VStr string
  | VArr "goval list"
  | VStrs "string list"
  | VMap "(string \<times> goval) list"

type_synonym gomap = "(string \<times> goval) list"

text \<open>\<open>m[k]\<close>: the zero value \<open>nil\<close> where the key is absent.\<close>

definition mget :: "gomap \<Rightarrow> string \<Rightarrow> goval" where
  "mget m k = (case map_of m k of None \<Rightarrow> VNil | Some v \<Rightarrow> v)"

text \<open>The type assertions \<open>v.(map[string]any)\<close> and \<open>v.(string)\<close>.\<close>

fun as_map :: "goval \<Rightarrow> gomap option" where
  "as_map (VMap m) = Some m"
| "as_map _ = None"

fun as_str :: "goval \<Rightarrow> string option" where
  "as_str (VStr s) = Some s"
| "as_str _ = None"

lemma as_map_Some [simp]: "as_map v = Some m \<longleftrightarrow> v = VMap m"
  by (cases v) auto

lemma as_str_Some [simp]: "as_str v = Some s \<longleftrightarrow> v = VStr s"
  by (cases v) auto

lemma mget_Nil [simp]: "mget [] k = VNil"
  by (simp add: mget_def)

lemma mget_Cons [simp]: "mget ((k', v) # m) k = (if k = k' then v else mget m k)"
  by (simp add: mget_def)

lemma size_map_of: "map_of m k = Some v \<Longrightarrow> size v < size (VMap m)"
  by (induction m) (auto split: if_splits)

lemma size_mget: "mget m k = VMap m' \<Longrightarrow> size (VMap m') < size (VMap m)"
  by (auto simp: mget_def split: option.splits dest: size_map_of)

section \<open>Formatting\<close>

text \<open>
  \<open>%v\<close> of a \<open>float64\<close> is \<open>%g\<close> with the shortest digits: exponent notation from
  \<open>1e+06\<close> on.
\<close>

definition fmt_float :: "int \<Rightarrow> string" where
  "fmt_float n =
     (let s = nat_digits (nat \<bar>n\<bar>); e = length s - 1;
          d = rev (dropWhile (\<lambda>c. c = CHR ''0'') (rev s));
          es = nat_digits e
      in (if n < 0 then ''-'' else []) @
         (if e < 6 then s
          else (case d of [] \<Rightarrow> [] | c # cs \<Rightarrow> if cs = [] then [c] else c # CHR ''.'' # cs) @
               ''e+'' @ (if length es < 2 then CHR ''0'' # es else es)))"

fun Sprint :: "goval \<Rightarrow> string" where
  "Sprint VNil = ''<nil>''"
| "Sprint (VBool b) = (if b then ''true'' else ''false'')"
| "Sprint (VInt i) = itoa i"
| "Sprint (VNum n) = fmt_float n"
| "Sprint (VStr s) = s"
| "Sprint (VArr xs) = ''['' @ Join (map Sprint xs) '' '' @ '']''"
| "Sprint (VStrs xs) = ''['' @ Join xs '' '' @ '']''"
| "Sprint (VMap m) = ''map['' @
     Join (map (\<lambda>(k, s). k @ '':'' @ s) (sort_key fst (map (\<lambda>p. (fst p, Sprint (snd p))) m))) '' '' @
     '']''"

lemma Sprint_million: "Sprint (VNum 1000000) = ''1e+06''" "Sprint (VInt 1000000) = ''1000000''"
  by (simp_all add: fmt_float_def itoa_def nat_digits.simps digit_char_def)

end
