(* ===== verification/Types.thy ===== *)
theory Types
  imports Values
begin

text \<open>
  The policy documents of \<open>api/v1alpha1/types.go\<close>: each struct is a record with the
  source's fields, each pointer field an \<open>option\<close>. A map field is given by its entries;
  \<open>nil\<close> and the empty map are both \<open>[]\<close> where the code does not tell them apart.
\<close>

type_synonym labels = "(string \<times> string) list"

record Metadata =
  md_Name :: string
  md_Namespace :: string
  md_Labels :: labels

record Selector =
  MatchLabels :: labels

text \<open>\<open>Action\<close> is a string type in the source: a document may carry any spelling.\<close>

type_synonym Action = string

definition ActionAllow :: Action where "ActionAllow = ''ALLOW''"
definition ActionDeny :: Action where "ActionDeny = ''DENY''"
definition ActionHold :: Action where "ActionHold = ''HOLD''"
definition ActionScope :: Action where "ActionScope = ''SCOPE''"

lemmas action_defs [nf_defs] = ActionAllow_def ActionDeny_def ActionHold_def ActionScope_def

lemma action_distinct [simp]:
  "ActionAllow \<noteq> ActionDeny" "ActionAllow \<noteq> ActionHold" "ActionAllow \<noteq> ActionScope"
  "ActionDeny \<noteq> ActionAllow" "ActionDeny \<noteq> ActionHold" "ActionDeny \<noteq> ActionScope"
  "ActionHold \<noteq> ActionAllow" "ActionHold \<noteq> ActionDeny" "ActionHold \<noteq> ActionScope"
  "ActionScope \<noteq> ActionAllow" "ActionScope \<noteq> ActionDeny" "ActionScope \<noteq> ActionHold"
  by (simp_all add: action_defs)

record WhenCondition =
  w_IdentityType :: string
  w_Provider :: string
  w_Claims :: gomap

record NotifyConfig =
  nc_Webhook :: string
  nc_AdminAPI :: bool

record HoldConfig =
  hc_Timeout :: string
  hc_OnTimeout :: string
  hc_Notify :: "NotifyConfig option"

record CredentialRef =
  cr_SecretRef :: string
  cr_From :: string
  cr_InjectAs :: string

record ScopeRequestConfig =
  StripArguments :: "string list"
  InjectArguments :: gomap
  InjectCredentials :: "CredentialRef list"
  BlockRedirects :: bool

record ScopeResponseConfig =
  RedactPatterns :: "string list"
  RedactReplacement :: string

record ScopeConfig =
  sc_Request :: "ScopeRequestConfig option"
  sc_Response :: "ScopeResponseConfig option"

record BudgetLimits =
  MaxCallsPerHour :: int
  MaxCallsPerDay :: int
  MaxTokensPerDay :: int

record BudgetConfig =
  PerIdentity :: "BudgetLimits option"
  PerSession :: "BudgetLimits option"
  OnExhausted :: string

record InspectionConfig =
  ic_Enabled :: bool
  ic_DetectCredentials :: bool
  ic_DetectPII :: bool
  ic_DetectPromptLeak :: bool
  ic_DetectPaths :: bool
  ic_OnFinding :: string

record RuleIdentityGuard =
  RequireActChain :: bool
  AudienceMustNarrow :: bool

record RuleDelegationGuard =
  MaxDepth :: int

record ParamRule =
  pr_Name :: string
  pr_Required :: bool
  pr_MaxLength :: int
  pr_Pattern :: string

record Rule =
  r_ID :: string
  r_Action :: Action
  r_MCPMethod :: string
  r_ToolNames :: "string list"
  r_Direction :: string
  r_Destination :: string
  r_RequireIdentity :: bool
  r_MaxCallsPerMin :: int
  r_CELExpression :: string
  r_InjectCred :: "CredentialRef option"
  r_ParamRules :: "ParamRule list"
  r_When :: "WhenCondition option"
  r_Hold :: "HoldConfig option"
  r_Scope :: "ScopeConfig option"
  r_Budget :: "BudgetConfig option"
  r_Identity :: "RuleIdentityGuard option"
  r_Delegation :: "RuleDelegationGuard option"
  r_Inspection :: "InspectionConfig option"
  r_AuditLabels :: labels
  r_Reason :: string

text \<open>The zero value of \<open>Rule\<close>, from which concrete rules are built.\<close>

definition emptyRule :: Rule where
  "emptyRule = \<lparr>r_ID = [], r_Action = [], r_MCPMethod = [], r_ToolNames = [], r_Direction = [],
     r_Destination = [], r_RequireIdentity = False, r_MaxCallsPerMin = 0, r_CELExpression = [],
     r_InjectCred = None, r_ParamRules = [], r_When = None, r_Hold = None, r_Scope = None,
     r_Budget = None, r_Identity = None, r_Delegation = None, r_Inspection = None,
     r_AuditLabels = [], r_Reason = []\<rparr>"

record IdentityProvider =
  ip_Name :: string
  ip_Issuer :: string
  ip_JWKSURI :: string
  ip_Audiences :: "string list"
  ip_ClockSkew :: string

record ValidationConfig =
  vc_RequireSignature :: bool
  vc_AllowedAlgorithms :: "string list"
  vc_RequireExpiry :: bool
  vc_MaxLifetime :: string
  vc_RequireAudience :: bool

record IdentityConfig =
  idc_Enabled :: bool
  idc_Providers :: "IdentityProvider list"
  idc_Validation :: "ValidationConfig option"

record RunTokenConfig =
  rt_JWKSURI :: string
  rt_Audience :: string
  rt_Issuer :: string
  rt_MaxLifetime :: string
  rt_ClockSkew :: string
  rt_Optional :: bool

record IntegrityConfig =
  igc_Enabled :: bool
  igc_BindToSession :: bool
  igc_DetectReplay :: bool
  igc_ChainValidation :: bool

record VelocityConfig =
  vel_Threshold :: int
  vel_AlertAction :: string

record SequencePattern =
  sp_Name :: string
  sp_Tools :: "string list"
  sp_AlertAction :: string

record AnomalyConfig =
  an_Enabled :: bool
  an_Velocity :: "VelocityConfig option"
  an_Sequences :: "SequencePattern list"

record CircuitBreaker =
  MaxToolCallsPerSession :: int
  MaxSessionDuration :: duration
  OnTrip :: string

record AuditConfig =
  EmitTo :: string
  LogLevel :: string

record NullfieldPolicySpec =
  ps_Selector :: Selector
  ps_Identity :: "IdentityConfig option"
  ps_RunToken :: "RunTokenConfig option"
  ps_Integrity :: "IntegrityConfig option"
  ps_Anomaly :: "AnomalyConfig option"
  ps_Rules :: "Rule list"
  ps_CircuitBreaker :: CircuitBreaker
  ps_Audit :: AuditConfig

record NullfieldPolicy =
  np_APIVersion :: string
  np_Kind :: string
  np_Metadata :: Metadata
  np_Spec :: NullfieldPolicySpec

record ToolRegistryEntry =
  te_Name :: string
  te_Description :: string
  te_AllowedScopes :: "string list"
  te_SignatureHash :: string
  te_MaxCallsPerMin :: int

record ToolRegistry =
  tr_APIVersion :: string
  tr_Kind :: string
  tr_Metadata :: Metadata
  tr_Tools :: "ToolRegistryEntry list"

end
