(* ===== verification/Identity.thy ===== *)
theory Identity
  imports Types
begin

text \<open>
  Package \<open>identity\<close>: the caller's identity and the verifiers that need no key material
  (\<open>identity.go\<close>, \<open>headers.go\<close>), workload attestation from a SPIFFE principal
  (\<open>attest.go\<close>), and session binding with replay detection (\<open>integrity.go\<close>). The
  attesters and the verifiers are interfaces of the source; here they are locales.
\<close>

section \<open>Identities and headers\<close>

record Identity =
  id_Subject :: string
  id_Issuer :: string
  id_SessionID :: string
  id_Scopes :: "string list"
  id_Raw :: string
  id_Type :: string
  id_Provider :: string
  id_Groups :: "string list"
  id_Claims :: "gomap option"
  id_ExpiresAt :: int
  id_JTI :: string

definition emptyIdentity :: Identity where
  "emptyIdentity = \<lparr>id_Subject = [], id_Issuer = [], id_SessionID = [], id_Scopes = [],
     id_Raw = [], id_Type = [], id_Provider = [], id_Groups = [], id_Claims = None,
     id_ExpiresAt = 0, id_JTI = []\<rparr>"

text \<open>
  \<open>http.Header\<close>: the fields in order; \<open>Get\<close> compares names without case and returns
  the first value, or the empty string. \<open>MapHeaders\<close> is Envoy's lower-cased map.
\<close>

type_synonym http_header = "(string \<times> string) list"

fun HTTPHeaders_Get :: "http_header \<Rightarrow> string \<Rightarrow> string" where
  "HTTPHeaders_Get [] name = []"
| "HTTPHeaders_Get ((k, v) # hs) name = (if EqualFold k name then v else HTTPHeaders_Get hs name)"

definition MapHeaders_Get :: "labels \<Rightarrow> string \<Rightarrow> string" where
  "MapHeaders_Get m name = (case map_of m (ToLower name) of None \<Rightarrow> [] | Some v \<Rightarrow> v)"

datatype verify_error = MissingHeader string | MalformedBearer string

definition bearer :: string where "bearer = ''Bearer ''"

lemma bearer_neq_Nil [simp]: "bearer \<noteq> []"
  by (simp add: bearer_def)

definition mcpSessionHeader :: string where "mcpSessionHeader = ''Mcp-Session-Id''"

definition HeaderVerifier_Verify :: "string \<Rightarrow> http_header \<Rightarrow> verify_error + Identity" where
  "HeaderVerifier_Verify header hs =
     (let val = HTTPHeaders_Get hs header in
      if val = [] then Inl (MissingHeader header)
      else (let token = TrimPrefix val bearer in
        if token = val then Inl (MalformedBearer header)
        else Inr (emptyIdentity\<lparr>id_Subject := token,
          id_SessionID := HTTPHeaders_Get hs mcpSessionHeader, id_Raw := token\<rparr>)))"

definition NoopVerifier_Verify :: "http_header \<Rightarrow> verify_error + Identity" where
  "NoopVerifier_Verify hs = Inr (emptyIdentity\<lparr>id_Subject := ''dev-user'',
     id_SessionID := HTTPHeaders_Get hs mcpSessionHeader\<rparr>)"

text \<open>
  The \<open>Verifier\<close> interface, as its clients rely on it: an accepted request carries the
  session the client named in the header, and verification looks at nothing but the headers.
\<close>

locale verifier =
  fixes verify :: "http_header \<Rightarrow> 'e + Identity"
  assumes session_from_header:
    "verify hs = Inr i \<Longrightarrow> id_SessionID i = HTTPHeaders_Get hs mcpSessionHeader"
begin

lemma same_session:
  "verify hs = Inr i \<Longrightarrow> verify hs' = Inr j \<Longrightarrow>
   HTTPHeaders_Get hs mcpSessionHeader = HTTPHeaders_Get hs' mcpSessionHeader \<Longrightarrow>
   id_SessionID i = id_SessionID j"
  by (simp add: session_from_header)

end

interpretation headerv: verifier "HeaderVerifier_Verify header" for header
  by unfold_locales (auto simp: HeaderVerifier_Verify_def Let_def split: if_splits)

interpretation noopv: verifier NoopVerifier_Verify
  by unfold_locales (auto simp: NoopVerifier_Verify_def)

lemma HeaderVerifier_Verify_accepts:
  "HeaderVerifier_Verify header hs = Inr i \<longleftrightarrow>
     (\<exists>token. HTTPHeaders_Get hs header = bearer @ token \<and>
        i = emptyIdentity\<lparr>id_Subject := token,
          id_SessionID := HTTPHeaders_Get hs mcpSessionHeader, id_Raw := token\<rparr>)"
  (is "?L \<longleftrightarrow> ?R")
proof
  assume L: ?L
  let ?v = "HTTPHeaders_Get hs header"
  from L have ne: "TrimPrefix ?v bearer \<noteq> ?v"
    and i: "i = emptyIdentity\<lparr>id_Subject := TrimPrefix ?v bearer,
          id_SessionID := HTTPHeaders_Get hs mcpSessionHeader, id_Raw := TrimPrefix ?v bearer\<rparr>"
    by (auto simp: HeaderVerifier_Verify_def Let_def split: if_splits)
  from ne have "prefix bearer ?v"
    by (auto simp: TrimPrefix_def HasPrefix_prefix split: if_splits)
  then obtain token where "?v = bearer @ token" by (auto simp: prefix_def)
  with i show ?R by auto
next
  assume ?R
  then show ?L by (auto simp: HeaderVerifier_Verify_def Let_def)
qed

section \<open>Workload attestation\<close>

definition AttesterMeshSPIFFE :: string where "AttesterMeshSPIFFE = ''mesh-spiffe''"
definition AttesterMeshHeader :: string where "AttesterMeshHeader = ''mesh-header''"
definition AttesterNone :: string where "AttesterNone = ''none''"
definition PeerPrincipalHeader :: string where "PeerPrincipalHeader = ''x-nullfield-peer-principal''"
definition spiffeScheme :: string where "spiffeScheme = ''spiffe://''"

record Attestation =
  at_Principal :: string
  at_TrustDomain :: string
  at_Namespace :: string
  at_ServiceAccount :: string
  at_Attester :: string

definition MeshAttester_Attest :: "string \<Rightarrow> Attestation option" where
  "MeshAttester_Attest prin =
     (if prin = [] then None
      else (case Split (CHR ''/'') (TrimPrefix prin spiffeScheme) of
          [td, n, ns, s, sa] \<Rightarrow>
            if n \<noteq> ''ns'' \<or> s \<noteq> ''sa'' then None
            else if td = [] \<or> ns = [] \<or> sa = [] then None
            else Some \<lparr>at_Principal = prin, at_TrustDomain = td, at_Namespace = ns,
                   at_ServiceAccount = sa, at_Attester = AttesterMeshSPIFFE\<rparr>
        | _ \<Rightarrow> None))"

definition MeshHeaderAttester_Attest :: "string \<Rightarrow> Attestation option" where
  "MeshHeaderAttester_Attest prin =
     (case MeshAttester_Attest prin of
        None \<Rightarrow> None
      | Some att \<Rightarrow> Some (att\<lparr>at_Attester := AttesterMeshHeader\<rparr>))"

text \<open>The path \<open>td/ns/<ns>/sa/<sa>\<close> an attestation stands for.\<close>

definition spiffe_path :: "string \<Rightarrow> string \<Rightarrow> string \<Rightarrow> string" where
  "spiffe_path td ns sa = Join [td, ''ns'', ns, ''sa'', sa] ''/''"

text \<open>
  The \<open>WorkloadAttester\<close> interface: a successful attestation names the principal it was
  given, is signed with the attester's own name, and has every part filled in.
\<close>

locale workload_attester =
  fixes attest :: "string \<Rightarrow> Attestation option"
    and name :: string
  assumes attest_principal: "attest p = Some a \<Longrightarrow> at_Principal a = p"
    and attest_name: "attest p = Some a \<Longrightarrow> at_Attester a = name"
    and attest_parts: "attest p = Some a \<Longrightarrow>
      at_TrustDomain a \<noteq> [] \<and> at_Namespace a \<noteq> [] \<and> at_ServiceAccount a \<noteq> []"
    and attest_path: "attest p = Some a \<Longrightarrow>
      p = spiffe_path (at_TrustDomain a) (at_Namespace a) (at_ServiceAccount a) \<or>
      p = spiffeScheme @ spiffe_path (at_TrustDomain a) (at_Namespace a) (at_ServiceAccount a)"
begin

lemma attest_nonempty: "attest p = Some a \<Longrightarrow> p \<noteq> []"
  using attest_path [of p a] by (auto simp: spiffe_path_def spiffeScheme_def)

text \<open>Two principals with the same parts differ at most in the scheme.\<close>

lemma attest_determined:
  assumes "attest p = Some a" and "attest q = Some b"
    and "at_TrustDomain a = at_TrustDomain b" "at_Namespace a = at_Namespace b"
      "at_ServiceAccount a = at_ServiceAccount b"
  shows "TrimPrefix p spiffeScheme = q \<or> TrimPrefix q spiffeScheme = p \<or> p = q"
  using attest_path [OF assms(1)] attest_path [OF assms(2)] assms(3-5) by auto

end

lemma MeshAttester_Attest_Some:
  "MeshAttester_Attest p = Some a \<longleftrightarrow>
     (\<exists>td ns sa. Split (CHR ''/'') (TrimPrefix p spiffeScheme) = [td, ''ns'', ns, ''sa'', sa] \<and>
        p \<noteq> [] \<and> td \<noteq> [] \<and> ns \<noteq> [] \<and> sa \<noteq> [] \<and>
        a = \<lparr>at_Principal = p, at_TrustDomain = td, at_Namespace = ns,
              at_ServiceAccount = sa, at_Attester = AttesterMeshSPIFFE\<rparr>)"
  unfolding MeshAttester_Attest_def by (auto split: list.splits if_splits)

lemma MeshAttester_path:
  assumes "MeshAttester_Attest p = Some a"
  shows "p = spiffe_path (at_TrustDomain a) (at_Namespace a) (at_ServiceAccount a) \<or>
    p = spiffeScheme @ spiffe_path (at_TrustDomain a) (at_Namespace a) (at_ServiceAccount a)"
proof -
  from assms have sp: "Split (CHR ''/'') (TrimPrefix p spiffeScheme) =
      [at_TrustDomain a, ''ns'', at_Namespace a, ''sa'', at_ServiceAccount a]"
    by (auto simp: MeshAttester_Attest_Some)
  have "TrimPrefix p spiffeScheme =
      spiffe_path (at_TrustDomain a) (at_Namespace a) (at_ServiceAccount a)"
    using Join_Split [of "CHR ''/''" "TrimPrefix p spiffeScheme"] unfolding spiffe_path_def sp ..
  then show ?thesis
    by (auto simp: TrimPrefix_def HasPrefix_prefix prefix_def split: if_splits)
qed

interpretation mesh: workload_attester MeshAttester_Attest AttesterMeshSPIFFE
  by unfold_locales (erule MeshAttester_path | force simp: MeshAttester_Attest_Some)+

lemma MeshHeaderAttester_Attest_Some:
  "MeshHeaderAttester_Attest p = Some a \<longleftrightarrow>
     (\<exists>b. MeshAttester_Attest p = Some b \<and> a = b\<lparr>at_Attester := AttesterMeshHeader\<rparr>)"
  by (auto simp: MeshHeaderAttester_Attest_def split: option.splits)

interpretation mesh_header: workload_attester MeshHeaderAttester_Attest AttesterMeshHeader
  by unfold_locales
    (auto simp: MeshHeaderAttester_Attest_Some dest: mesh.attest_principal mesh.attest_parts
      mesh.attest_path)

section \<open>Session binding and replay detection\<close>

type_synonym SessionBinder = "string \<rightharpoonup> string"

datatype integrity_error =
    IdentityChanged string string
  | TokenReplay string

definition NewSessionBinder :: SessionBinder where
  "NewSessionBinder = Map.empty"

definition SessionBinder_Bind ::
  "SessionBinder \<Rightarrow> string \<Rightarrow> string \<Rightarrow> SessionBinder \<times> integrity_error option" where
  "SessionBinder_Bind b sessionID subject =
     (if sessionID = [] then (b, None)
      else (case b sessionID of
          None \<Rightarrow> (b(sessionID \<mapsto> subject), None)
        | Some existing \<Rightarrow>
            if existing \<noteq> subject then (b, Some (IdentityChanged existing subject))
            else (b, None)))"

definition SessionBinder_Clear :: "SessionBinder \<Rightarrow> string \<Rightarrow> SessionBinder" where
  "SessionBinder_Clear b sessionID = b(sessionID := None)"

record ReplayDetector =
  rd_seen :: "string \<rightharpoonup> time"
  rd_maxAge :: duration

definition NewReplayDetector :: "duration \<Rightarrow> ReplayDetector" where
  "NewReplayDetector maxAge =
     \<lparr>rd_seen = Map.empty, rd_maxAge = (if maxAge = 0 then 10 * Minute else maxAge)\<rparr>"

definition ReplayDetector_Check ::
  "ReplayDetector \<Rightarrow> string \<Rightarrow> time \<Rightarrow> ReplayDetector \<times> integrity_error option" where
  "ReplayDetector_Check d jti now =
     (if jti = [] then (d, None)
      else (case rd_seen d jti of
          Some _ \<Rightarrow> (d, Some (TokenReplay jti))
        | None \<Rightarrow> (d\<lparr>rd_seen := (rd_seen d)(jti \<mapsto> now)\<rparr>, None)))"

definition ReplayDetector_Sweep :: "ReplayDetector \<Rightarrow> time \<Rightarrow> ReplayDetector" where
  "ReplayDetector_Sweep d now =
     (let cutoff = now - rd_maxAge d in
      d\<lparr>rd_seen := (\<lambda>jti. case rd_seen d jti of
          None \<Rightarrow> None
        | Some t \<Rightarrow> if t < cutoff then None else Some t)\<rparr>)"

text \<open>
  \<open>bindEnabled && binder != nil\<close> and its replay counterpart are set together by the
  constructor, so one option stands for both.
\<close>

record IntegrityChecker =
  ic_binder :: "SessionBinder option"
  ic_detector :: "ReplayDetector option"

definition NewIntegrityChecker :: "bool \<Rightarrow> bool \<Rightarrow> duration \<Rightarrow> IntegrityChecker" where
  "NewIntegrityChecker bindToSession detectReplay replayMaxAge =
     \<lparr>ic_binder = (if bindToSession then Some NewSessionBinder else None),
      ic_detector = (if detectReplay then Some (NewReplayDetector replayMaxAge) else None)\<rparr>"

definition IntegrityChecker_Check ::
  "IntegrityChecker \<Rightarrow> Identity \<Rightarrow> time \<Rightarrow> IntegrityChecker \<times> integrity_error option" where
  "IntegrityChecker_Check ic i now =
     (let (b', e) = (case ic_binder ic of
            None \<Rightarrow> (None, None)
          | Some b \<Rightarrow> (case SessionBinder_Bind b (id_SessionID i) (id_Subject i) of
              (b', e) \<Rightarrow> (Some b', e)));
          ic' = ic\<lparr>ic_binder := b'\<rparr>
      in case e of
           Some err \<Rightarrow> (ic', Some err)
         | None \<Rightarrow> (case ic_detector ic of
             None \<Rightarrow> (ic', None)
           | Some d \<Rightarrow> (case ReplayDetector_Check d (id_JTI i) now of
               (d', e') \<Rightarrow> (ic'\<lparr>ic_detector := Some d'\<rparr>, e'))))"

definition IntegrityChecker_Sweep :: "IntegrityChecker \<Rightarrow> time \<Rightarrow> IntegrityChecker" where
  "IntegrityChecker_Sweep ic now =
     ic\<lparr>ic_detector := map_option (\<lambda>d. ReplayDetector_Sweep d now) (ic_detector ic)\<rparr>"

section \<open>Runs of the integrity checker\<close>

text \<open>
  Checks arrive with requests and sweeps with the ticker of \<open>main\<close>; a run is any
  interleaving of the two. \<open>ic_accepted\<close> lists the identities that passed, in order.
\<close>

datatype ic_op = OpCheck Identity time | OpSweep time

fun op_time :: "ic_op \<Rightarrow> time" where
  "op_time (OpCheck i t) = t"
| "op_time (OpSweep t) = t"

fun ic_accepted :: "IntegrityChecker \<Rightarrow> ic_op list \<Rightarrow> (Identity \<times> time) list" where
  "ic_accepted ic [] = []"
| "ic_accepted ic (OpSweep t # ops) = ic_accepted (IntegrityChecker_Sweep ic t) ops"
| "ic_accepted ic (OpCheck i t # ops) =
     (let (ic', e) = IntegrityChecker_Check ic i t in
      (if e = None then [(i, t)] else []) @ ic_accepted ic' ops)"

definition bound_to :: "IntegrityChecker \<Rightarrow> string \<Rightarrow> string \<Rightarrow> bool" where
  "bound_to ic sess subj \<longleftrightarrow> (\<exists>b. ic_binder ic = Some b \<and> b sess = Some subj)"

definition seen_at :: "IntegrityChecker \<Rightarrow> string \<Rightarrow> time \<Rightarrow> bool" where
  "seen_at ic jti t \<longleftrightarrow> (\<exists>d. ic_detector ic = Some d \<and> rd_seen d jti = Some t)"

definition replay_age :: "IntegrityChecker \<Rightarrow> duration option" where
  "replay_age ic = map_option rd_maxAge (ic_detector ic)"

lemmas ic_check_defs = IntegrityChecker_Check_def SessionBinder_Bind_def ReplayDetector_Check_def
  bound_to_def seen_at_def replay_age_def

lemma Check_replay_age [simp]: "replay_age (fst (IntegrityChecker_Check ic i t)) = replay_age ic"
  by (auto simp: ic_check_defs Let_def split: prod.splits option.splits if_splits)

lemma Sweep_replay_age [simp]: "replay_age (IntegrityChecker_Sweep ic t) = replay_age ic"
  by (cases "ic_detector ic")
    (auto simp: IntegrityChecker_Sweep_def replay_age_def ReplayDetector_Sweep_def Let_def)

lemma Check_binder_on:
  "ic_binder ic \<noteq> None \<Longrightarrow> ic_binder (fst (IntegrityChecker_Check ic i t)) \<noteq> None"
  by (auto simp: ic_check_defs Let_def split: prod.splits option.splits if_splits)

lemma Check_bound:
  "bound_to ic sess subj \<Longrightarrow> bound_to (fst (IntegrityChecker_Check ic i t)) sess subj"
  by (auto simp: ic_check_defs Let_def split: prod.splits option.splits if_splits)

lemma Check_accept_binds:
  assumes "IntegrityChecker_Check ic i t = (ic', None)" and "ic_binder ic \<noteq> None"
    and "id_SessionID i \<noteq> []"
  shows "bound_to ic' (id_SessionID i) (id_Subject i)"
  using assms by (cases "ic_binder ic"; cases "ic_detector ic";
    auto simp: ic_check_defs Let_def split: prod.splits option.splits if_splits; metis)

lemma Check_accept_agrees:
  assumes "IntegrityChecker_Check ic i t = (ic', None)" and "bound_to ic (id_SessionID i) subj"
    and "id_SessionID i \<noteq> []"
  shows "id_Subject i = subj"
  using assms by (cases "ic_binder ic"; cases "ic_detector ic")
    (auto simp: ic_check_defs Let_def split: prod.splits option.splits if_splits)

lemma Check_seen:
  "seen_at ic jti u \<Longrightarrow> seen_at (fst (IntegrityChecker_Check ic i t)) jti u"
  by (auto simp: ic_check_defs Let_def split: prod.splits option.splits if_splits)

lemma Check_accept_unseen:
  assumes "IntegrityChecker_Check ic i t = (ic', None)" and "id_JTI i \<noteq> []"
  shows "\<not> seen_at ic (id_JTI i) u"
  using assms by (cases "ic_binder ic"; cases "ic_detector ic")
    (auto simp: ic_check_defs Let_def split: prod.splits option.splits if_splits)

lemma Check_accept_sees:
  assumes "IntegrityChecker_Check ic i t = (ic', None)" and "replay_age ic \<noteq> None"
    and "id_JTI i \<noteq> []"
  shows "seen_at ic' (id_JTI i) t"
  using assms by (cases "ic_binder ic"; cases "ic_detector ic")
    (auto simp: ic_check_defs Let_def split: prod.splits option.splits if_splits)

lemma Sweep_bound [simp]: "bound_to (IntegrityChecker_Sweep ic t) sess subj = bound_to ic sess subj"
  by (simp add: bound_to_def IntegrityChecker_Sweep_def)

lemma Sweep_binder [simp]: "ic_binder (IntegrityChecker_Sweep ic t) = ic_binder ic"
  by (simp add: IntegrityChecker_Sweep_def)

lemma Sweep_seen:
  assumes "seen_at ic jti u" and "replay_age ic = Some w"
  shows "u < t - w \<or> seen_at (IntegrityChecker_Sweep ic t) jti u"
  using assms
  by (auto simp: seen_at_def replay_age_def IntegrityChecker_Sweep_def ReplayDetector_Sweep_def Let_def)

lemma ic_accepted_bound:
  "bound_to ic (id_SessionID i) subj \<Longrightarrow> id_SessionID i \<noteq> [] \<Longrightarrow>
   (i, t) \<in> set (ic_accepted ic ops) \<Longrightarrow> id_Subject i = subj"
proof (induction ic ops rule: ic_accepted.induct)
  case (3 ic j u ops)
  obtain ic' e where ch: "IntegrityChecker_Check ic j u = (ic', e)" by fastforce
  with 3 show ?case
    using Check_bound [of ic "id_SessionID i" subj j u] Check_accept_agrees [of ic i u ic' subj]
    by (auto split: if_splits)
qed auto

lemma ic_accepted_times: "(j, u) \<in> set (ic_accepted ic ops) \<Longrightarrow> u \<in> set (map op_time ops)"
proof (induction ic ops rule: ic_accepted.induct)
  case (3 ic i t ops)
  then show ?case by (cases "IntegrityChecker_Check ic i t") (auto split: if_splits)
qed auto

lemma ic_accepted_replay:
  assumes "seen_at ic (id_JTI j) t" and "replay_age ic = Some w" and "id_JTI j \<noteq> []"
    and "sorted (map op_time ops)" and "(j, u) \<in> set (ic_accepted ic ops)"
  shows "w < u - t"
  using assms
proof (induction ic ops rule: ic_accepted.induct)
  case (2 ic v ops)
  have "v \<le> u"
    using ic_accepted_times [of j u _ ops] "2.prems"(4,5) by auto
  then show ?case
    using Sweep_seen [OF "2.prems"(1,2), of v] "2.IH" "2.prems" by auto
next
  case (3 ic i v ops)
  obtain ic' e where ch: "IntegrityChecker_Check ic i v = (ic', e)" by fastforce
  have "seen_at ic' (id_JTI j) t"
    using Check_seen [OF "3.prems"(1), of i v] ch by simp
  moreover have "replay_age ic' = Some w"
    using Check_replay_age [of ic i v] ch "3.prems"(2) by simp
  ultimately show ?case
    using "3.IH" ch "3.prems" Check_accept_unseen [of ic j v ic' t]
    by (auto split: if_splits)
qed auto

section \<open>Properties\<close>

lemma Split_spiffe_path:
  assumes "CHR ''/'' \<notin> set td" "CHR ''/'' \<notin> set ns" "CHR ''/'' \<notin> set sa"
  shows "Split (CHR ''/'') (spiffe_path td ns sa) = [td, ''ns'', ns, ''sa'', sa]"
  unfolding spiffe_path_def using assms by (intro Split_Join) auto

lemma Split_no_slash: "x \<in> set (Split c s) \<Longrightarrow> c \<notin> set x"
  by (induction s arbitrary: x) (auto split: if_splits list.splits)

lemma spiffe_path_no_scheme:
  assumes "CHR ''/'' \<notin> set td"
  shows "TrimPrefix (spiffe_path td ns sa) spiffeScheme = spiffe_path td ns sa"
proof -
  have "\<not> prefix spiffeScheme (spiffe_path td ns sa)"
  proof
    assume "prefix spiffeScheme (spiffe_path td ns sa)"
    then obtain r where r: "td @ CHR ''/'' # ''ns/'' @ ns @ ''/sa/'' @ sa =
        ''spiffe:'' @ CHR ''/'' # CHR ''/'' # r"
      by (auto simp: prefix_def spiffe_path_def spiffeScheme_def)
    have "Split (CHR ''/'') (td @ CHR ''/'' # ''ns/'' @ ns @ ''/sa/'' @ sa) =
        Split (CHR ''/'') (''spiffe:'' @ CHR ''/'' # CHR ''/'' # r)"
      by (simp only: r)
    then show False
      using Split_append [OF assms, of "''ns/'' @ ns @ ''/sa/'' @ sa"]
        Split_append [of "CHR ''/''" "''spiffe:''" "CHR ''/'' # r"]
      by (simp split: list.splits)
  qed
  then show ?thesis by (simp add: TrimPrefix_def HasPrefix_prefix)
qed

text \<open>
  Mesh attestation accepts exactly the two spellings (with and without the scheme) of
  \<open>spiffe://td/ns/namespace/sa/account\<close> with three non-empty parts, and returns those parts
  with the principal as presented.
\<close>

theorem MeshAttester_accepts_exactly:
  "MeshAttester_Attest p = Some a \<longleftrightarrow>
     (\<exists>td ns sa. (p = spiffe_path td ns sa \<or> p = spiffeScheme @ spiffe_path td ns sa) \<and>
        td \<noteq> [] \<and> ns \<noteq> [] \<and> sa \<noteq> [] \<and>
        CHR ''/'' \<notin> set td \<and> CHR ''/'' \<notin> set ns \<and> CHR ''/'' \<notin> set sa \<and>
        a = \<lparr>at_Principal = p, at_TrustDomain = td, at_Namespace = ns,
              at_ServiceAccount = sa, at_Attester = AttesterMeshSPIFFE\<rparr>)"
  (is "?L \<longleftrightarrow> ?R")
proof
  assume L: ?L
  then obtain td ns sa where sp: "Split (CHR ''/'') (TrimPrefix p spiffeScheme) = [td, ''ns'', ns, ''sa'', sa]"
    and parts: "td \<noteq> []" "ns \<noteq> []" "sa \<noteq> []"
    and a: "a = \<lparr>at_Principal = p, at_TrustDomain = td, at_Namespace = ns,
              at_ServiceAccount = sa, at_Attester = AttesterMeshSPIFFE\<rparr>"
    by (auto simp: MeshAttester_Attest_Some)
  have "CHR ''/'' \<notin> set td \<and> CHR ''/'' \<notin> set ns \<and> CHR ''/'' \<notin> set sa"
    using sp Split_no_slash [of _ "CHR ''/''" "TrimPrefix p spiffeScheme"] by auto
  then show ?R
    using mesh.attest_path [OF L] parts a by auto
next
  assume ?R
  then obtain td ns sa where p: "p = spiffe_path td ns sa \<or> p = spiffeScheme @ spiffe_path td ns sa"
    and parts: "td \<noteq> []" "ns \<noteq> []" "sa \<noteq> []"
    and sl: "CHR ''/'' \<notin> set td" "CHR ''/'' \<notin> set ns" "CHR ''/'' \<notin> set sa"
    and a: "a = \<lparr>at_Principal = p, at_TrustDomain = td, at_Namespace = ns,
              at_ServiceAccount = sa, at_Attester = AttesterMeshSPIFFE\<rparr>"
    by blast
  have "TrimPrefix p spiffeScheme = spiffe_path td ns sa"
    using p spiffe_path_no_scheme [OF sl(1)] by auto
  moreover have "p \<noteq> []"
    using p parts(1) by (auto simp: spiffe_path_def)
  ultimately show ?L
    using Split_spiffe_path [OF sl] parts a by (simp add: MeshAttester_Attest_Some)
qed

lemma ic_accepted_same_session:
  assumes "ic_binder ic \<noteq> None" and "id_SessionID i = id_SessionID j" and "id_SessionID i \<noteq> []"
    and "(i, t) \<in> set (ic_accepted ic ops)" and "(j, u) \<in> set (ic_accepted ic ops)"
  shows "id_Subject i = id_Subject j"
  using assms
proof (induction ic ops rule: ic_accepted.induct)
  case (3 ic k v ops)
  obtain ic' e where ch: "IntegrityChecker_Check ic k v = (ic', e)" by fastforce
  have on: "ic_binder ic' \<noteq> None"
    using Check_binder_on [OF "3.prems"(1), of k v] ch by simp
  have first: "id_Subject l = id_Subject k"
    if "e = None" and "(l, x) \<in> set (ic_accepted ic' ops)"
      and "id_SessionID l = id_SessionID k" and "id_SessionID k \<noteq> []" for l x
    using Check_accept_binds [of ic k v ic'] ch "3.prems"(1) that
      ic_accepted_bound [of ic' l "id_Subject k" x ops] by simp
  have split: "(l, x) \<in> set (ic_accepted ic' ops) \<or> e = None \<and> l = k"
    if "(l, x) \<in> set (ic_accepted ic (OpCheck k v # ops))" for l x
    using that ch by (simp split: if_splits) blast
  have IH: "id_Subject i = id_Subject j"
    if "(i, t) \<in> set (ic_accepted ic' ops)" and "(j, u) \<in> set (ic_accepted ic' ops)"
    by (rule "3.IH" [OF ch [symmetric] refl on "3.prems"(2,3) that])
  show ?case
    using split [OF "3.prems"(4)] split [OF "3.prems"(5)] IH first "3.prems"(2,3) by metis
qed auto

text \<open>
  With session binding on, a session never changes hands: any two requests the integrity
  checker accepts in one run, on the same non-empty session, have the same subject, whatever
  checks and sweeps happen in between.
\<close>

theorem session_never_changes_subject:
  assumes "ic = NewIntegrityChecker True detectReplay maxAge"
    and "(i, t) \<in> set (ic_accepted ic ops)" and "(j, u) \<in> set (ic_accepted ic ops)"
    and "id_SessionID i = id_SessionID j" and "id_SessionID i \<noteq> []"
  shows "id_Subject i = id_Subject j"
  using ic_accepted_same_session [of ic i j t ops u] assms by (simp add: NewIntegrityChecker_def)

theorem session_never_changes_subject_witness:
  "id_Subject (emptyIdentity\<lparr>id_Subject := ''alice'', id_SessionID := ''s1''\<rparr>) =
   id_Subject (emptyIdentity\<lparr>id_Subject := ''alice'', id_SessionID := ''s1'', id_JTI := ''j''\<rparr>)"
  by (rule session_never_changes_subject [OF refl,
        where ops = "[OpCheck (emptyIdentity\<lparr>id_Subject := ''alice'', id_SessionID := ''s1''\<rparr>) 1,
          OpCheck (emptyIdentity\<lparr>id_Subject := ''alice'', id_SessionID := ''s1'', id_JTI := ''j''\<rparr>) 2]"
        and detectReplay = True and maxAge = 0 and t = 1 and u = 2])
    (simp_all add: NewIntegrityChecker_def NewSessionBinder_def NewReplayDetector_def
      ic_check_defs emptyIdentity_def)

lemma ic_accepted_replay_pair:
  assumes "replay_age ic = Some w" and "sorted (map op_time ops)"
    and "ic_accepted ic ops = xs @ (i, t) # ys @ (j, u) # zs"
    and "id_JTI i = id_JTI j" and "id_JTI i \<noteq> []"
  shows "w < u - t"
  using assms
proof (induction ic ops arbitrary: xs rule: ic_accepted.induct)
  case (3 ic k v ops)
  obtain ic' e where ch: "IntegrityChecker_Check ic k v = (ic', e)" by fastforce
  have age: "replay_age ic' = Some w"
    using Check_replay_age [of ic k v] ch "3.prems"(1) by simp
  have srt: "sorted (map op_time ops)" using "3.prems"(2) by simp
  show ?case
  proof (cases "e = None \<and> xs = []")
    case True
    then have "k = i" "v = t" and acc: "ic_accepted ic' ops = ys @ (j, u) # zs"
      using "3.prems"(3) ch by auto
    then show ?thesis
      using Check_accept_sees [of ic i t ic'] ch True "3.prems"(1,4,5)
        ic_accepted_replay [OF _ age _ srt, of j t u] by auto
  next
    case False
    then have "ic_accepted ic' ops = (if e = None then tl xs else xs) @ (i, t) # ys @ (j, u) # zs"
      using "3.prems"(3) ch by (cases xs) auto
    then show ?thesis
      by (rule "3.IH" [OF ch [symmetric] refl age srt _ "3.prems"(4,5)])
  qed
qed auto

text \<open>
  Replay detection: with a clock that does not run backwards, a token identifier that was
  accepted is accepted again only after more than the configured age, whatever sweeps ran in
  between. (The age, not the lifetime of the token, is what bounds the protection.)
\<close>

theorem replay_only_after_max_age:
  assumes "ic = NewIntegrityChecker bindToSession True maxAge"
    and "sorted (map op_time ops)"
    and "ic_accepted ic ops = xs @ (i, t) # ys @ (j, u) # zs"
    and "id_JTI i = id_JTI j" and "id_JTI i \<noteq> []"
  shows "(if maxAge = 0 then 10 * Minute else maxAge) < u - t"
  by (rule ic_accepted_replay_pair [OF _ assms(2-5)])
    (simp add: assms(1) NewIntegrityChecker_def NewReplayDetector_def replay_age_def)

theorem replay_only_after_max_age_witness:
  "(if (5 :: int) = 0 then 10 * Minute else 5) < (7 :: int) - 0"
  by (rule replay_only_after_max_age [OF refl,
        where ops = "[OpCheck (emptyIdentity\<lparr>id_JTI := ''j''\<rparr>) 0, OpSweep 7,
          OpCheck (emptyIdentity\<lparr>id_JTI := ''j''\<rparr>) 7]"
        and xs = "[]" and ys = "[]" and zs = "[]" and bindToSession = False
        and i = "emptyIdentity\<lparr>id_JTI := ''j''\<rparr>" and j = "emptyIdentity\<lparr>id_JTI := ''j''\<rparr>"])
    (simp_all add: NewIntegrityChecker_def NewReplayDetector_def IntegrityChecker_Sweep_def
      ReplayDetector_Sweep_def ic_check_defs emptyIdentity_def)

end
