(* ===== verification/Policy.thy ===== *)
theory Policy
  imports Identity
begin

text \<open>
  Package \<open>policy\<close>: requests and decisions (\<open>engine.go\<close>), the CEL vocabulary
  (\<open>cel.go\<close>) and the first-match rule engine with its guards (\<open>rules.go\<close>). The CEL
  library is not part of the repository: its compiler is the argument \<open>cel_env\<close> of the
  definitions that use it. \<open>policy_engine\<close> is the interface the front doors rely on.
\<close>

section \<open>Requests and decisions\<close>

definition TransportMCP :: string where "TransportMCP = ''A''"
definition TransportWireAPI :: string where "TransportWireAPI = ''B''"

text \<open>What a verified run token says (\<open>identity/runtoken.go\<close>).\<close>

record Run =
  run_ID :: string
  run_Workload :: string
  run_Context :: gomap

record Request =
  q_Method :: string
  q_ToolName :: string
  q_Arguments :: "gomap option"
  q_Identity :: "Identity option"
  q_Transport :: string
  q_Target :: string
  q_Operation :: string
  q_Action :: string
  q_Params :: labels
  q_Run :: "Run option"

definition emptyRequest :: Request where
  "emptyRequest = \<lparr>q_Method = [], q_ToolName = [], q_Arguments = None, q_Identity = None,
     q_Transport = [], q_Target = [], q_Operation = [], q_Action = [], q_Params = [],
     q_Run = None\<rparr>"

record Decision =
  d_Allowed :: bool
  d_Held :: bool
  d_Scoped :: bool
  d_Reason :: string
  d_Gate :: string
  d_ReasonClass :: string
  d_RuleIndex :: int
  d_RuleID :: string
  d_Labels :: labels
  d_MatchedRule :: "Rule option"
  d_Counterfactual :: string

definition emptyDecision :: Decision where
  "emptyDecision = \<lparr>d_Allowed = False, d_Held = False, d_Scoped = False, d_Reason = [],
     d_Gate = [], d_ReasonClass = [], d_RuleIndex = 0, d_RuleID = [], d_Labels = [],
     d_MatchedRule = None, d_Counterfactual = []\<rparr>"

section \<open>CEL expressions\<close>

text \<open>
  \<open>prg.Eval\<close> of the library is a \<open>cel_program\<close>: it maps the input to an error or a value.
  \<open>env.Compile\<close> is a \<open>cel_env\<close>: it maps an expression to an error or to an AST with its
  output type, from which \<open>env.Program\<close> makes a program or an error.
\<close>

type_synonym cel_program = "goval \<Rightarrow> string + goval"

record cel_ast =
  ast_OutputType :: string
  ast_Program :: "string + cel_program"

type_synonym cel_env = "string \<Rightarrow> string + cel_ast"

definition compileCEL :: "cel_env \<Rightarrow> string \<Rightarrow> string + cel_program" where
  "compileCEL env expr =
     (case env expr of
        Inl err \<Rightarrow> Inl err
      | Inr ast \<Rightarrow>
          if ast_OutputType ast \<noteq> ''bool''
          then Inl (''must evaluate to a bool, not '' @ ast_OutputType ast @
                    '' (compare with == true for a boolean argument)'')
          else ast_Program ast)"

definition nonNilMap :: "gomap option \<Rightarrow> gomap" where
  "nonNilMap m = (case m of None \<Rightarrow> [] | Some m' \<Rightarrow> m')"

definition celInput :: "Request \<Rightarrow> goval" where
  "celInput req = VMap [(''request'', VMap (
     [(''method'', VStr (q_Method req)),
      (''tool'', VStr (q_ToolName req)),
      (''arguments'', VMap (nonNilMap (q_Arguments req))),
      (''transport'', VStr (q_Transport req)),
      (''target'', VStr (q_Target req)),
      (''operation'', VStr (q_Operation req))] @
     (case q_Identity req of
        None \<Rightarrow> []
      | Some i \<Rightarrow> [(''identity'', VMap
          [(''subject'', VStr (id_Subject i)),
           (''issuer'', VStr (id_Issuer i)),
           (''type'', VStr (id_Type i)),
           (''provider'', VStr (id_Provider i)),
           (''scopes'', VStrs (id_Scopes i)),
           (''groups'', VStrs (id_Groups i)),
           (''claims'', VMap (nonNilMap (id_Claims i)))])]) @
     (if q_Action req \<noteq> []
      then [(''action'', VStr (q_Action req)),
            (''params'', VMap (map (\<lambda>(k, v). (k, VStr v)) (q_Params req)))]
      else []) @
     (case q_Run req of
        None \<Rightarrow> []
      | Some run \<Rightarrow> [(''run'', VMap
          [(''id'', VStr (run_ID run)), (''workload'', VStr (run_Workload run)),
           (''context'', VMap (run_Context run))])])))]"

text \<open>The name \<open>%T\<close> prints for the native value of a CEL result.\<close>

fun celTypeName :: "goval \<Rightarrow> string" where
  "celTypeName VNil = ''structpb.NullValue''"
| "celTypeName (VBool _) = ''bool''"
| "celTypeName (VInt _) = ''int64''"
| "celTypeName (VNum _) = ''float64''"
| "celTypeName (VStr _) = ''string''"
| "celTypeName (VArr _) = ''[]ref.Val''"
| "celTypeName (VStrs _) = ''[]string''"
| "celTypeName (VMap _) = ''map[ref.Val]ref.Val''"

definition evalCEL :: "cel_program \<Rightarrow> Request \<Rightarrow> string + bool" where
  "evalCEL prg req =
     (case prg (celInput req) of
        Inl err \<Rightarrow> Inl err
      | Inr out \<Rightarrow> (case out of
            VBool b \<Rightarrow> Inr b
          | _ \<Rightarrow> Inl (''evaluated to '' @ celTypeName out @ '', not bool'')))"

section \<open>The rule engine\<close>

record RuleEngine =
  re_rules :: "Rule list"
  re_programs :: "cel_program option list"
  re_celErrs :: "string option list"

definition NewRuleEngine :: "cel_env \<Rightarrow> Rule list \<Rightarrow> RuleEngine" where
  "NewRuleEngine env rules =
     (let compiled = map (\<lambda>r. if r_CELExpression r \<noteq> [] then Some (compileCEL env (r_CELExpression r))
                              else None) rules
      in \<lparr>re_rules = rules,
          re_programs = map (\<lambda>c. case c of Some (Inr p) \<Rightarrow> Some p | _ \<Rightarrow> None) compiled,
          re_celErrs = map (\<lambda>c. case c of Some (Inl e) \<Rightarrow> Some e | _ \<Rightarrow> None) compiled\<rparr>)"

text \<open>
  A rule with an expression has an error or a program, never neither: the last case cannot
  arise from \<open>NewRuleEngine\<close> (the source would call a nil program there).
\<close>

definition matchesCEL :: "RuleEngine \<Rightarrow> nat \<Rightarrow> Request \<Rightarrow> string + bool" where
  "matchesCEL e i req =
     (if r_CELExpression (re_rules e ! i) = [] then Inr True
      else (case re_celErrs e ! i of
          Some err \<Rightarrow> Inl err
        | None \<Rightarrow> (case re_programs e ! i of
            Some prg \<Rightarrow> evalCEL prg req
          | None \<Rightarrow> Inl ''nil program'')))"

definition GatePolicy :: string where "GatePolicy = ''policy''"
definition ReasonClassAllowed :: string where "ReasonClassAllowed = ''allowed''"
definition ReasonClassPolicyDenied :: string where "ReasonClassPolicyDenied = ''policy_denied''"
definition ReasonClassPolicyHeld :: string where "ReasonClassPolicyHeld = ''policy_held''"
definition ReasonClassPolicyScoped :: string where "ReasonClassPolicyScoped = ''policy_scoped''"
definition ReasonClassDefaultDeny :: string where "ReasonClassDefaultDeny = ''default_deny''"
definition ReasonClassIdentityRequired :: string where "ReasonClassIdentityRequired = ''identity_required''"
definition ReasonClassExpressionError :: string where "ReasonClassExpressionError = ''expression_error''"

definition matchesMethod :: "Rule \<Rightarrow> Request \<Rightarrow> bool" where
  "matchesMethod rule req \<longleftrightarrow> r_MCPMethod rule = [] \<or> r_MCPMethod rule = q_Method req"

definition matchesToolName :: "Rule \<Rightarrow> Request \<Rightarrow> bool" where
  "matchesToolName rule req \<longleftrightarrow>
     r_ToolNames rule = [] \<or>
     list_ex (\<lambda>name. name = ''*'' \<or> EqualFold name (q_ToolName req)) (r_ToolNames rule)"

definition claimContains :: "gomap \<Rightarrow> string \<Rightarrow> string \<Rightarrow> bool" where
  "claimContains claims key value =
     (case mget claims key of
        VArr items \<Rightarrow> list_ex (\<lambda>item. Sprint item = value) items
      | VStrs items \<Rightarrow> list_ex (\<lambda>item. item = value) items
      | VStr s \<Rightarrow> Contains s value
      | _ \<Rightarrow> False)"

definition matchesClaim :: "gomap \<Rightarrow> string \<Rightarrow> goval \<Rightarrow> bool" where
  "matchesClaim claims key condition =
     (case condition of
        VMap cond \<Rightarrow> (case map_of cond ''contains'' of
            Some containsVal \<Rightarrow> claimContains claims key (Sprint containsVal)
          | None \<Rightarrow> True)
      | VStr cond \<Rightarrow> (case as_str (mget claims key) of None \<Rightarrow> [] | Some s \<Rightarrow> s) = cond
      | _ \<Rightarrow> True)"

definition matchesClaims :: "gomap \<Rightarrow> gomap \<Rightarrow> bool" where
  "matchesClaims expected claims = list_all (\<lambda>(key, condition). matchesClaim claims key condition) expected"

definition matchesWhen :: "Rule \<Rightarrow> Request \<Rightarrow> bool" where
  "matchesWhen rule req =
     (case r_When rule of
        None \<Rightarrow> True
      | Some w \<Rightarrow>
          (if w_IdentityType w \<noteq> [] \<and> w_IdentityType w \<noteq> ''any''
           then (case q_Identity req of None \<Rightarrow> False | Some i \<Rightarrow> id_Type i = w_IdentityType w)
           else True) \<and>
          (if w_Provider w \<noteq> []
           then (case q_Identity req of
               None \<Rightarrow> False
             | Some i \<Rightarrow>
                 if w_Provider w = ''unknown'' then id_Provider i = []
                 else EqualFold (id_Provider i) (w_Provider w))
           else True) \<and>
          (if w_Claims w \<noteq> []
           then (case q_Identity req of
               None \<Rightarrow> False
             | Some i \<Rightarrow> (case id_Claims i of
                 None \<Rightarrow> False
               | Some claims \<Rightarrow> matchesClaims (w_Claims w) claims))
           else True))"

text \<open>\<open>actChainDepth\<close> follows the nested \<open>act\<close> objects; each is smaller than the last.\<close>

function actChainDepth :: "gomap \<Rightarrow> int" where
  "actChainDepth current =
     (case as_map (mget current ''act'') of
        None \<Rightarrow> 0
      | Some act \<Rightarrow> 1 + actChainDepth act)"
  by pat_completeness auto
termination
  by (relation "measure (\<lambda>m. size (VMap m))") (auto dest!: size_mget)

declare actChainDepth.simps [simp del]

definition claimAudiences :: "gomap \<Rightarrow> string list" where
  "claimAudiences claims =
     (case mget claims ''aud'' of
        VStr v \<Rightarrow> if v = [] then [] else [v]
      | VArr v \<Rightarrow> List.map_filter (\<lambda>item. case as_str item of
            Some s \<Rightarrow> if s \<noteq> [] then Some s else None
          | None \<Rightarrow> None) v
      | VStrs v \<Rightarrow> v
      | _ \<Rightarrow> [])"

definition audienceIsSubset :: "string list \<Rightarrow> string list \<Rightarrow> bool" where
  "audienceIsSubset child parent = list_all (\<lambda>a. List.member parent a) child"

definition evaluateIdentityGuards :: "Rule \<Rightarrow> Request \<Rightarrow> bool \<times> string" where
  "evaluateIdentityGuards rule req =
     (case r_Identity rule of
        None \<Rightarrow> (True, [])
      | Some g \<Rightarrow>
          (case (case q_Identity req of None \<Rightarrow> None | Some i \<Rightarrow> id_Claims i) of
             None \<Rightarrow> (False, ''rule identity guards declared but request has no identity'')
           | Some claims \<Rightarrow>
               if RequireActChain g \<and> actChainDepth claims = 0
               then (False, ''act chain required (RFC 8693) but missing on token'')
               else if AudienceMustNarrow g
               then (case as_map (mget claims ''act'') of
                   None \<Rightarrow> (True, [])
                 | Some parentAct \<Rightarrow>
                     (let childAud = claimAudiences claims; parentAud = claimAudiences parentAct in
                      if childAud = [] \<and> parentAud = [] then (True, [])
                      else if \<not> audienceIsSubset childAud parentAud
                      then (False, ''audience widened across delegation (RFC 8707 violation)'')
                      else (True, [])))
               else (True, [])))"

definition evaluateDelegationGuards :: "Rule \<Rightarrow> Request \<Rightarrow> bool \<times> string" where
  "evaluateDelegationGuards rule req =
     (case r_Delegation rule of
        None \<Rightarrow> (True, [])
      | Some g \<Rightarrow>
          if MaxDepth g \<le> 0 then (True, [])
          else (let depth = (case (case q_Identity req of None \<Rightarrow> None | Some i \<Rightarrow> id_Claims i) of
                    None \<Rightarrow> 0
                  | Some claims \<Rightarrow> actChainDepth claims) in
                if depth > MaxDepth g
                then (False, ''act chain depth '' @ itoa depth @ '' exceeds maxDepth '' @ itoa (MaxDepth g))
                else (True, [])))"

text \<open>A copy of the labels; the copy of an empty map is \<open>nil\<close>, the same labels.\<close>

definition cloneLabels :: "labels \<Rightarrow> labels" where
  "cloneLabels ls = (if ls = [] then [] else ls)"

definition newRuleDecision ::
  "bool \<Rightarrow> bool \<Rightarrow> bool \<Rightarrow> string \<Rightarrow> string \<Rightarrow> nat \<Rightarrow> Rule \<Rightarrow> Decision" where
  "newRuleDecision allowed held scoped reason reasonClass ruleIndex rule =
     \<lparr>d_Allowed = allowed, d_Held = held, d_Scoped = scoped, d_Reason = reason,
      d_Gate = GatePolicy, d_ReasonClass = reasonClass, d_RuleIndex = int ruleIndex,
      d_RuleID = r_ID rule, d_Labels = cloneLabels (r_AuditLabels rule),
      d_MatchedRule = Some rule, d_Counterfactual = []\<rparr>"

text \<open>One iteration of \<open>Evaluate\<close>'s loop: \<open>None\<close> is \<open>continue\<close>.\<close>

definition evalRule :: "RuleEngine \<Rightarrow> nat \<Rightarrow> Rule \<Rightarrow> Request \<Rightarrow> Decision option" where
  "evalRule e i rule req =
     (if \<not> matchesMethod rule req then None
      else if \<not> matchesToolName rule req then None
      else if \<not> matchesWhen rule req then None
      else (case matchesCEL e i req of
          Inl err \<Rightarrow> Some (newRuleDecision False False False
              (''celExpression could not be evaluated: '' @ err) ReasonClassExpressionError i rule)
        | Inr ok \<Rightarrow>
            if \<not> ok then None
            else if r_RequireIdentity rule \<and> q_Identity req = None
            then Some (newRuleDecision False False False
                ''identity required but not present'' ReasonClassIdentityRequired i rule)
            else if \<not> fst (evaluateIdentityGuards rule req) then None
            else if \<not> fst (evaluateDelegationGuards rule req) then None
            else if r_Action rule = ActionAllow
            then Some (newRuleDecision True False False [] ReasonClassAllowed i rule)
            else if r_Action rule = ActionDeny
            then Some (newRuleDecision False False False
                (if r_Reason rule = [] then ''denied by rule for tool: '' @ q_ToolName req
                 else r_Reason rule) ReasonClassPolicyDenied i rule)
            else if r_Action rule = ActionHold
            then Some (newRuleDecision False True False
                (if r_Reason rule = [] then ''held for approval: '' @ q_ToolName req
                 else r_Reason rule) ReasonClassPolicyHeld i rule)
            else if r_Action rule = ActionScope
            then Some (newRuleDecision True False True [] ReasonClassPolicyScoped i rule)
            else None))"

definition defaultDeny :: Decision where
  "defaultDeny = emptyDecision\<lparr>d_Allowed := False, d_Reason := ''no matching rule (default deny)'',
     d_Gate := GatePolicy, d_ReasonClass := ReasonClassDefaultDeny, d_RuleIndex := -1\<rparr>"

fun evalFrom :: "RuleEngine \<Rightarrow> nat \<Rightarrow> Rule list \<Rightarrow> Request \<Rightarrow> Decision" where
  "evalFrom e i [] req = defaultDeny"
| "evalFrom e i (rule # rules) req =
     (case evalRule e i rule req of
        Some d \<Rightarrow> d
      | None \<Rightarrow> evalFrom e (Suc i) rules req)"

definition Evaluate :: "RuleEngine \<Rightarrow> Request \<Rightarrow> Decision" where
  "Evaluate e req = evalFrom e 0 (re_rules e) req"

section \<open>The interface of a policy engine\<close>

text \<open>
  What every front door assumes of a decision: it never both lets a call through and holds it,
  only an allowed call is scoped, and a call that is allowed or held names the rule that did it.
\<close>

definition decision_ok :: "Decision \<Rightarrow> bool" where
  "decision_ok d \<longleftrightarrow>
     (d_Allowed d \<longrightarrow> \<not> d_Held d) \<and> (d_Scoped d \<longrightarrow> d_Allowed d) \<and>
     (d_Allowed d \<or> d_Held d \<longrightarrow> (\<exists>r. d_MatchedRule d = Some r)) \<and>
     (d_MatchedRule d = None \<longleftrightarrow> d_RuleIndex d < 0)"

locale policy_engine =
  fixes evaluate :: "Request \<Rightarrow> Decision"
  assumes evaluate_ok: "decision_ok (evaluate req)"
begin

lemma held_not_allowed: "d_Held (evaluate req) \<Longrightarrow> \<not> d_Allowed (evaluate req)"
  using evaluate_ok [of req] by (auto simp: decision_ok_def)

lemma scoped_allowed: "d_Scoped (evaluate req) \<Longrightarrow> d_Allowed (evaluate req)"
  using evaluate_ok [of req] by (auto simp: decision_ok_def)

lemma allowed_rule: "d_Allowed (evaluate req) \<Longrightarrow> \<exists>r. d_MatchedRule (evaluate req) = Some r"
  using evaluate_ok [of req] by (auto simp: decision_ok_def)

lemma held_rule: "d_Held (evaluate req) \<Longrightarrow> \<exists>r. d_MatchedRule (evaluate req) = Some r"
  using evaluate_ok [of req] by (auto simp: decision_ok_def)

lemma no_rule_denied:
  "d_RuleIndex (evaluate req) < 0 \<Longrightarrow> \<not> d_Allowed (evaluate req) \<and> \<not> d_Held (evaluate req)"
  using evaluate_ok [of req] by (auto simp: decision_ok_def)

end

section \<open>What one rule decides\<close>

lemma newRuleDecision_sel [simp]:
  "d_Allowed (newRuleDecision a h s rs rc i r) = a" "d_Held (newRuleDecision a h s rs rc i r) = h"
  "d_Scoped (newRuleDecision a h s rs rc i r) = s" "d_Reason (newRuleDecision a h s rs rc i r) = rs"
  "d_Gate (newRuleDecision a h s rs rc i r) = GatePolicy"
  "d_ReasonClass (newRuleDecision a h s rs rc i r) = rc"
  "d_RuleIndex (newRuleDecision a h s rs rc i r) = int i"
  "d_MatchedRule (newRuleDecision a h s rs rc i r) = Some r"
  by (simp_all add: newRuleDecision_def)

lemma defaultDeny_sel [simp]:
  "\<not> d_Allowed defaultDeny" "\<not> d_Held defaultDeny" "\<not> d_Scoped defaultDeny"
  "d_RuleIndex defaultDeny = -1" "d_MatchedRule defaultDeny = None"
  "d_ReasonClass defaultDeny = ReasonClassDefaultDeny"
  by (simp_all add: defaultDeny_def emptyDecision_def)

text \<open>The match predicates of a rule, and its guards.\<close>

definition rule_matches :: "RuleEngine \<Rightarrow> nat \<Rightarrow> Rule \<Rightarrow> Request \<Rightarrow> bool" where
  "rule_matches e i rule req \<longleftrightarrow>
     matchesMethod rule req \<and> matchesToolName rule req \<and> matchesWhen rule req \<and>
     matchesCEL e i req = Inr True"

definition guards_pass :: "Rule \<Rightarrow> Request \<Rightarrow> bool" where
  "guards_pass rule req \<longleftrightarrow>
     (r_RequireIdentity rule \<longrightarrow> q_Identity req \<noteq> None) \<and>
     fst (evaluateIdentityGuards rule req) \<and> fst (evaluateDelegationGuards rule req)"

lemma evalRule_allowed:
  "evalRule e i rule req = Some d \<Longrightarrow> d_Allowed d \<Longrightarrow>
   rule_matches e i rule req \<and> guards_pass rule req \<and>
   (r_Action rule = ActionAllow \<and> \<not> d_Scoped d \<or> r_Action rule = ActionScope \<and> d_Scoped d)"
  unfolding evalRule_def rule_matches_def guards_pass_def
  by (auto split: if_splits sum.splits)

lemma evalRule_held:
  "evalRule e i rule req = Some d \<Longrightarrow> d_Held d \<Longrightarrow>
   rule_matches e i rule req \<and> guards_pass rule req \<and> r_Action rule = ActionHold \<and> \<not> d_Allowed d"
  unfolding evalRule_def rule_matches_def guards_pass_def
  by (auto split: if_splits sum.splits)

lemma evalRule_ok: "evalRule e i rule req = Some d \<Longrightarrow> decision_ok d"
  unfolding evalRule_def decision_ok_def by (auto split: if_splits sum.splits)

lemma evalRule_names:
  "evalRule e i rule req = Some d \<Longrightarrow> d_RuleIndex d = int i \<and> d_MatchedRule d = Some rule"
  unfolding evalRule_def by (auto split: if_splits sum.splits)

section \<open>First match\<close>

lemma evalFrom_cases:
  "(\<exists>k < length rules. evalRule e (i + k) (rules ! k) req = Some (evalFrom e i rules req) \<and>
      (\<forall>j < k. evalRule e (i + j) (rules ! j) req = None)) \<or>
   (evalFrom e i rules req = defaultDeny \<and> (\<forall>j < length rules. evalRule e (i + j) (rules ! j) req = None))"
proof (induction rules arbitrary: i)
  case Nil
  then show ?case by simp
next
  case (Cons rule rules)
  show ?case
  proof (cases "evalRule e i rule req")
    case (Some d)
    then show ?thesis by (intro disjI1 exI [of _ 0]) simp
  next
    case None
    with Cons.IH [of "Suc i"] show ?thesis
    proof (elim disjE exE conjE)
      fix k assume k: "k < length rules"
        "evalRule e (Suc i + k) (rules ! k) req = Some (evalFrom e (Suc i) rules req)"
        "\<forall>j<k. evalRule e (Suc i + j) (rules ! j) req = None"
      with None show ?thesis
        by (intro disjI1 exI [of _ "Suc k"]) (auto simp: less_Suc_eq_0_disj)
    next
      assume "evalFrom e (Suc i) rules req = defaultDeny"
        "\<forall>j<length rules. evalRule e (Suc i + j) (rules ! j) req = None"
      with None show ?thesis
        by (intro disjI2) (auto simp: less_Suc_eq_0_disj)
    qed
  qed
qed

lemma evalFrom_append:
  "evalFrom e i (xs @ ys) req =
     (if \<forall>j < length xs. evalRule e (i + j) (xs ! j) req = None
      then evalFrom e (i + length xs) ys req else evalFrom e i xs req)"
proof (induction xs arbitrary: i)
  case Nil
  then show ?case by simp
next
  case (Cons x xs)
  have "(\<forall>j < length (x # xs). evalRule e (i + j) ((x # xs) ! j) req = None) \<longleftrightarrow>
      evalRule e i x req = None \<and> (\<forall>j < length xs. evalRule e (Suc i + j) (xs ! j) req = None)"
    by (auto simp: less_Suc_eq_0_disj)
  with Cons show ?case by (auto split: option.splits)
qed

lemma Evaluate_ok: "decision_ok (Evaluate e req)"
  using evalFrom_cases [of "re_rules e" e 0 req]
  by (auto simp: Evaluate_def decision_ok_def dest: evalRule_ok)

interpretation rules: policy_engine "Evaluate e" for e
  by unfold_locales (rule Evaluate_ok)

lemma Evaluate_matched:
  assumes "d_MatchedRule (Evaluate e req) = Some r"
  obtains k where "k < length (re_rules e)" "re_rules e ! k = r"
    "evalRule e k r req = Some (Evaluate e req)" "\<forall>j < k. evalRule e j (re_rules e ! j) req = None"
  using assms evalFrom_cases [of "re_rules e" e 0 req] unfolding Evaluate_def
  by (metis (no_types, lifting) add_0 defaultDeny_sel(5) evalRule_names option.distinct(1) option.inject)

section \<open>CEL on a constructed engine\<close>

lemma matchesCEL_New:
  assumes "i < length rules" and "r_CELExpression (rules ! i) \<noteq> []"
  shows "matchesCEL (NewRuleEngine env rules) i req =
     (case compileCEL env (r_CELExpression (rules ! i)) of
        Inl err \<Rightarrow> Inl err
      | Inr prg \<Rightarrow> evalCEL prg req)"
  using assms by (auto simp: matchesCEL_def NewRuleEngine_def Let_def split: sum.splits)

lemma re_rules_New [simp]: "re_rules (NewRuleEngine env rules) = rules"
  by (simp add: NewRuleEngine_def Let_def)

section \<open>Guards\<close>

lemma audienceIsSubset_iff: "audienceIsSubset child parent \<longleftrightarrow> set child \<subseteq> set parent"
  by (auto simp: audienceIsSubset_def list_all_iff)

lemma actChainDepth_nonneg: "0 \<le> actChainDepth m"
proof (induction m rule: actChainDepth.induct)
  case (1 current)
  then show ?case by (subst actChainDepth.simps) (auto split: option.splits)
qed

lemma actChainDepth_zero_iff: "actChainDepth m = 0 \<longleftrightarrow> as_map (mget m ''act'') = None"
proof (cases "as_map (mget m ''act'')")
  case (Some act)
  then show ?thesis using actChainDepth_nonneg [of act] by (subst actChainDepth.simps) auto
qed (subst actChainDepth.simps, simp)

lemma delegation_guard_iff:
  "fst (evaluateDelegationGuards rule req) \<longleftrightarrow>
     (\<forall>g. r_Delegation rule = Some g \<longrightarrow> 0 < MaxDepth g \<longrightarrow>
        (\<forall>i claims. q_Identity req = Some i \<longrightarrow> id_Claims i = Some claims \<longrightarrow>
           actChainDepth claims \<le> MaxDepth g))"
  unfolding evaluateDelegationGuards_def by (auto simp: Let_def split: option.splits)

section \<open>What a rule means\<close>

text \<open>
  The meaning of a rule of a policy document for a request, without the engine: whom and what the rule is aimed at,
  what its expression says, which delegations it accepts, and what it then says of the call.
\<close>

definition claim_meets :: "gomap \<Rightarrow> string \<Rightarrow> goval \<Rightarrow> bool" where
  "claim_meets claims key condition \<longleftrightarrow>
     (\<forall>s. condition = VStr s \<longrightarrow> mget claims key = VStr s \<or> s = [] \<and> (\<forall>u. mget claims key \<noteq> VStr u)) \<and>
     (\<forall>m v. condition = VMap m \<longrightarrow> map_of m ''contains'' = Some v \<longrightarrow>
        (\<exists>xs. mget claims key = VArr xs \<and> (\<exists>x \<in> set xs. Sprint x = Sprint v)) \<or>
        (\<exists>xs. mget claims key = VStrs xs \<and> Sprint v \<in> set xs) \<or>
        (\<exists>s. mget claims key = VStr s \<and> sublist (Sprint v) s))"

definition when_meets :: "WhenCondition \<Rightarrow> Identity option \<Rightarrow> bool" where
  "when_meets w who \<longleftrightarrow>
     (w_IdentityType w \<notin> {[], ''any''} \<longrightarrow> (\<exists>i. who = Some i \<and> id_Type i = w_IdentityType w)) \<and>
     (w_Provider w = ''unknown'' \<longrightarrow> (\<exists>i. who = Some i \<and> id_Provider i = [])) \<and>
     (w_Provider w \<notin> {[], ''unknown''} \<longrightarrow> (\<exists>i. who = Some i \<and> EqualFold (id_Provider i) (w_Provider w))) \<and>
     (w_Claims w \<noteq> [] \<longrightarrow> (\<exists>i claims. who = Some i \<and> id_Claims i = Some claims \<and>
        (\<forall>(key, condition) \<in> set (w_Claims w). claim_meets claims key condition)))"

definition aimed_at :: "Rule \<Rightarrow> Request \<Rightarrow> bool" where
  "aimed_at r req \<longleftrightarrow> r_MCPMethod r \<in> {[], q_Method req} \<and>
     (r_ToolNames r = [] \<or> ''*'' \<in> set (r_ToolNames r) \<or> (\<exists>name \<in> set (r_ToolNames r). EqualFold name (q_ToolName req))) \<and>
     (\<forall>w. r_When r = Some w \<longrightarrow> when_meets w (q_Identity req))"

definition cel_says :: "cel_env \<Rightarrow> Rule \<Rightarrow> Request \<Rightarrow> bool \<Rightarrow> bool" where
  "cel_says env r req b \<longleftrightarrow>
     (if r_CELExpression r = [] then b
      else \<exists>prg. compileCEL env (r_CELExpression r) = Inr prg \<and> prg (celInput req) = Inr (VBool b))"

text \<open>The token was passed on at least so many times (nested \<open>act\<close> claims, RFC 8693).\<close>

inductive act_nested :: "gomap \<Rightarrow> nat \<Rightarrow> bool" where
  "act_nested m 0"
| "mget m ''act'' = VMap a \<Longrightarrow> act_nested a n \<Longrightarrow> act_nested m (Suc n)"

inductive_simps act_nested_Suc: "act_nested m (Suc n)"

definition delegation_meets :: "Rule \<Rightarrow> Identity option \<Rightarrow> bool" where
  "delegation_meets r who \<longleftrightarrow>
     (\<forall>g. r_Identity r = Some g \<longrightarrow> (\<exists>i claims. who = Some i \<and> id_Claims i = Some claims \<and>
        (RequireActChain g \<longrightarrow> act_nested claims 1) \<and>
        (AudienceMustNarrow g \<longrightarrow> (\<forall>a. mget claims ''act'' = VMap a \<longrightarrow> set (claimAudiences claims) \<subseteq> set (claimAudiences a))))) \<and>
     (\<forall>g i claims n. r_Delegation r = Some g \<longrightarrow> 0 < MaxDepth g \<longrightarrow> who = Some i \<longrightarrow> id_Claims i = Some claims \<longrightarrow>
        act_nested claims n \<longrightarrow> int n \<le> MaxDepth g)"

text \<open>
  What the rule says of the call, if it says anything: whether it is allowed, held, scoped, and the class of the reason.
\<close>

definition rule_verdict :: "cel_env \<Rightarrow> Rule \<Rightarrow> Request \<Rightarrow> (bool \<times> bool \<times> bool \<times> string) option" where
  "rule_verdict env r req =
     (if \<not> aimed_at r req \<or> cel_says env r req False then None
      else if \<not> cel_says env r req True then Some (False, False, False, ReasonClassExpressionError)
      else if r_RequireIdentity r \<and> q_Identity req = None then Some (False, False, False, ReasonClassIdentityRequired)
      else if \<not> delegation_meets r (q_Identity req) then None
      else map_of [(ActionAllow, (True, False, False, ReasonClassAllowed)), (ActionDeny, (False, False, False, ReasonClassPolicyDenied)),
        (ActionHold, (False, True, False, ReasonClassPolicyHeld)), (ActionScope, (True, False, True, ReasonClassPolicyScoped))] (r_Action r))"

lemma actChainDepth_nested: "act_nested m n \<longleftrightarrow> int n \<le> actChainDepth m"
proof (induction m arbitrary: n rule: actChainDepth.induct)
  case (1 m)
  show ?case
  proof (cases n)
    case 0
    then show ?thesis by (simp add: act_nested.intros(1) actChainDepth_nonneg)
  next
    case (Suc k)
    show ?thesis
    proof (cases "as_map (mget m ''act'')")
      case None
      then have "actChainDepth m = 0" by (simp add: actChainDepth_zero_iff)
      with None Suc show ?thesis by (auto simp: act_nested_Suc)
    next
      case (Some a)
      then have "actChainDepth m = 1 + actChainDepth a" by (subst actChainDepth.simps) simp
      with Some Suc 1 [OF Some, of k] show ?thesis by (auto simp: act_nested_Suc)
    qed
  qed
qed

lemma claim_meets_iff: "matchesClaim claims key condition \<longleftrightarrow> claim_meets claims key condition"
  unfolding matchesClaim_def claim_meets_def claimContains_def
  by (cases condition; cases "mget claims key") (auto simp: list_ex_iff Contains_sublist split: option.split)

lemma when_meets_iff: "matchesWhen rule req \<longleftrightarrow> (\<forall>w. r_When rule = Some w \<longrightarrow> when_meets w (q_Identity req))"
proof (cases "r_When rule")
  case (Some w)
  define any unk where "any = ''any''" and "unk = ''unknown''"
  have unk: "unk \<noteq> []" by (simp add: unk_def)
  have claims: "list_all (\<lambda>(key, condition). matchesClaim cl key condition) (w_Claims w) \<longleftrightarrow>
      (\<forall>(key, condition) \<in> set (w_Claims w). claim_meets cl key condition)" for cl
    by (simp add: list_all_iff claim_meets_iff)
  show ?thesis
  proof (cases "q_Identity req")
    case None
    with Some unk show ?thesis
      unfolding matchesWhen_def when_meets_def any_def [symmetric] unk_def [symmetric] by simp
  next
    case (Some i)
    with \<open>r_When rule = Some w\<close> unk claims show ?thesis
      unfolding matchesWhen_def when_meets_def matchesClaims_def any_def [symmetric] unk_def [symmetric]
      by (cases "id_Claims i") auto
  qed
qed (simp add: matchesWhen_def)

lemma aimed_at_iff: "aimed_at rule req \<longleftrightarrow> matchesMethod rule req \<and> matchesToolName rule req \<and> matchesWhen rule req"
  unfolding aimed_at_def when_meets_iff matchesMethod_def matchesToolName_def by (auto simp: list_ex_iff)

lemma delegation_meets_iff:
  "delegation_meets rule (q_Identity req) \<longleftrightarrow> fst (evaluateIdentityGuards rule req) \<and> fst (evaluateDelegationGuards rule req)"
proof -
  have "(\<forall>n. act_nested claims n \<longrightarrow> int n \<le> k) \<longleftrightarrow> actChainDepth claims \<le> k" for claims k
    using actChainDepth_nonneg [of claims] by (metis actChainDepth_nested order_refl order_trans zero_le_imp_eq_int)
  moreover have "act_nested claims 1 \<longleftrightarrow> actChainDepth claims \<noteq> 0" for claims
    using actChainDepth_nonneg [of claims] by (auto simp: actChainDepth_nested)
  ultimately show ?thesis
    unfolding delegation_meets_def delegation_guard_iff evaluateIdentityGuards_def Let_def
    by (cases "q_Identity req") (auto simp: audienceIsSubset_iff split: option.splits)
qed

lemma cel_says_iff:
  "i < length rules \<Longrightarrow> cel_says env (rules ! i) req b \<longleftrightarrow> matchesCEL (NewRuleEngine env rules) i req = Inr b"
  using matchesCEL_New [of i rules env req]
  by (cases "r_CELExpression (rules ! i) = []")
    (auto simp: cel_says_def matchesCEL_def evalCEL_def split: sum.splits goval.splits)

lemma evalRule_verdict:
  assumes "i < length rules"
  shows "map_option (\<lambda>d. (d_Allowed d, d_Held d, d_Scoped d, d_ReasonClass d)) (evalRule (NewRuleEngine env rules) i (rules ! i) req) =
    rule_verdict env (rules ! i) req"
  unfolding rule_verdict_def evalRule_def aimed_at_iff delegation_meets_iff cel_says_iff [OF assms]
  by (auto split: sum.split simp: action_distinct)

text \<open>What the first rule says that says something.\<close>

fun policy_verdict :: "cel_env \<Rightarrow> Rule list \<Rightarrow> Request \<Rightarrow> bool \<times> bool \<times> bool \<times> string" where
  "policy_verdict env [] req = (False, False, False, ReasonClassDefaultDeny)"
| "policy_verdict env (r # rules) req = (case rule_verdict env r req of None \<Rightarrow> policy_verdict env rules req | Some v \<Rightarrow> v)"

lemma evalFrom_verdict:
  assumes "drop i rules = rs"
  shows "(\<lambda>d. (d_Allowed d, d_Held d, d_Scoped d, d_ReasonClass d)) (evalFrom (NewRuleEngine env rules) i rs req) = policy_verdict env rs req"
  using assms
proof (induction rs arbitrary: i)
  case (Cons r rs)
  then have i: "i < length rules" "rules ! i = r" "drop (Suc i) rules = rs"
    by (metis drop_all linorder_not_le list.distinct(1)) (use Cons.prems in \<open>auto simp: nth_via_drop drop_Suc tl_drop [symmetric]\<close>)
  show ?case
    using evalRule_verdict [OF i(1), of env req] Cons.IH [OF i(3)] by (auto simp: i(2) split: option.splits)
qed simp

lemma Evaluate_verdict:
  "(\<lambda>d. (d_Allowed d, d_Held d, d_Scoped d, d_ReasonClass d)) (Evaluate (NewRuleEngine env rules) req) = policy_verdict env rules req"
  unfolding Evaluate_def re_rules_New by (rule evalFrom_verdict) simp

section \<open>Properties\<close>

text \<open>
  C13. First match wins. A rule says something of a call if its method, tools and when-condition are aimed at it and
  its expression is not false: that it is refused, if the expression cannot be decided or an identity is
  required and missing; otherwise nothing, if the caller's delegation does not meet the
  rule's guards or its action is unknown; otherwise what its action is. The decision of the engine is what the
  first rule says that says something, and it names that rule; a call of which no rule says anything is denied by
  default.
\<close>

theorem Evaluate_first_match:
  "let d = Evaluate (NewRuleEngine env rules) req in
   (\<exists>k < length rules. rule_verdict env (rules ! k) req = Some (d_Allowed d, d_Held d, d_Scoped d, d_ReasonClass d) \<and>
      d_RuleIndex d = int k \<and> d_MatchedRule d = Some (rules ! k) \<and> (\<forall>j < k. rule_verdict env (rules ! j) req = None)) \<or>
   (\<not> d_Allowed d \<and> \<not> d_Held d \<and> \<not> d_Scoped d \<and> d_ReasonClass d = ReasonClassDefaultDeny \<and> d_RuleIndex d = -1 \<and> d_MatchedRule d = None \<and>
      (\<forall>j < length rules. rule_verdict env (rules ! j) req = None))"
proof -
  let ?e = "NewRuleEngine env rules"
  define d where "d = Evaluate ?e req"
  have none: "rule_verdict env (rules ! j) req = None \<longleftrightarrow> evalRule ?e j (rules ! j) req = None" if "j < length rules" for j
    unfolding evalRule_verdict [OF that, symmetric] by simp
  from evalFrom_cases [of rules ?e 0 req] show ?thesis
  proof (elim disjE exE conjE)
    fix k
    assume k: "k < length rules" "evalRule ?e (0 + k) (rules ! k) req = Some (evalFrom ?e 0 rules req)"
      "\<forall>j<k. evalRule ?e (0 + j) (rules ! j) req = None"
    then have d: "evalRule ?e k (rules ! k) req = Some d" by (simp add: d_def Evaluate_def)
    have "rule_verdict env (rules ! k) req = Some (d_Allowed d, d_Held d, d_Scoped d, d_ReasonClass d)"
      unfolding evalRule_verdict [OF k(1), symmetric] d by simp
    moreover have "\<forall>j < k. rule_verdict env (rules ! j) req = None"
      using k(1,3) none by simp
    ultimately show ?thesis
      using k(1) evalRule_names [OF d] unfolding d_def [symmetric] Let_def by blast
  next
    assume "evalFrom ?e 0 rules req = defaultDeny" "\<forall>j<length rules. evalRule ?e (0 + j) (rules ! j) req = None"
    with none show ?thesis by (simp add: Evaluate_def)
  qed
qed

theorem Evaluate_first_match_witness:
  "rule_verdict (\<lambda>_. Inl []) (emptyRule\<lparr>r_Action := ActionDeny\<rparr>) emptyRequest = Some (False, False, False, ReasonClassPolicyDenied) \<and>
     d_MatchedRule (Evaluate (NewRuleEngine (\<lambda>_. Inl []) [emptyRule\<lparr>r_Action := ActionDeny\<rparr>]) emptyRequest) = Some (emptyRule\<lparr>r_Action := ActionDeny\<rparr>)"
proof -
  have "rule_verdict (\<lambda>_. Inl []) (emptyRule\<lparr>r_Action := ActionDeny\<rparr>) emptyRequest = Some (False, False, False, ReasonClassPolicyDenied)"
    by (simp add: rule_verdict_def aimed_at_def cel_says_def delegation_meets_def emptyRule_def action_distinct)
  then show ?thesis
    using Evaluate_first_match [of "\<lambda>_. Inl []" "[emptyRule\<lparr>r_Action := ActionDeny\<rparr>]" emptyRequest] by (auto simp: Let_def)
qed

text \<open>
  C14. Soundness of an allow: a call the engine allows matched some rule in method, tool and
  when-condition, that rule's CEL expression (if it has one) compiled and evaluated to true on
  the request, its identity requirement and both guards were met, its action is ALLOW or SCOPE,
  and no earlier rule decided the call.
\<close>

theorem Evaluate_allow_sound:
  assumes "d_Allowed (Evaluate (NewRuleEngine env rules) req)"
  shows "\<exists>k r. k < length rules \<and> rules ! k = r \<and>
     d_MatchedRule (Evaluate (NewRuleEngine env rules) req) = Some r \<and>
     matchesMethod r req \<and> matchesToolName r req \<and> matchesWhen r req \<and>
     (r_CELExpression r = [] \<or>
       (\<exists>prg. compileCEL env (r_CELExpression r) = Inr prg \<and> evalCEL prg req = Inr True)) \<and>
     (r_RequireIdentity r \<longrightarrow> q_Identity req \<noteq> None) \<and>
     fst (evaluateIdentityGuards r req) \<and> fst (evaluateDelegationGuards r req) \<and>
     (r_Action r = ActionAllow \<or> r_Action r = ActionScope) \<and>
     (\<forall>j < k. evalRule (NewRuleEngine env rules) j (rules ! j) req = None)"
proof -
  let ?e = "NewRuleEngine env rules"
  obtain r where "d_MatchedRule (Evaluate ?e req) = Some r"
    using rules.allowed_rule [OF assms] by blast
  then obtain k where k: "k < length rules" "rules ! k = r"
      "evalRule ?e k r req = Some (Evaluate ?e req)" "\<forall>j < k. evalRule ?e j (rules ! j) req = None"
    by (rule Evaluate_matched) auto
  note al = evalRule_allowed [OF k(3) assms]
  have "r_CELExpression r = [] \<or>
       (\<exists>prg. compileCEL env (r_CELExpression r) = Inr prg \<and> evalCEL prg req = Inr True)"
    using al k(1,2) matchesCEL_New [of k rules env req]
    by (cases "r_CELExpression r = []") (auto simp: rule_matches_def split: sum.splits)
  then show ?thesis
    using k al evalRule_names [OF k(3)] unfolding rule_matches_def guards_pass_def by blast
qed

theorem Evaluate_allow_sound_witness:
  "\<exists>r. d_MatchedRule (Evaluate (NewRuleEngine (\<lambda>_. Inl []) [emptyRule\<lparr>r_Action := ActionAllow\<rparr>]) emptyRequest) = Some r \<and>
     (r_Action r = ActionAllow \<or> r_Action r = ActionScope)"
proof -
  have "d_Allowed (Evaluate (NewRuleEngine (\<lambda>_. Inl []) [emptyRule\<lparr>r_Action := ActionAllow\<rparr>]) emptyRequest)"
    by (simp add: Evaluate_def evalRule_def matchesMethod_def matchesToolName_def matchesWhen_def
        matchesCEL_def evaluateIdentityGuards_def evaluateDelegationGuards_def emptyRule_def)
  from Evaluate_allow_sound [OF this] show ?thesis by blast
qed

text \<open>
  An expression that cannot be decided refuses the call: when the first rule to get as far
  as its CEL expression has one that does not compile, or whose evaluation errs or gives no
  boolean, the call is neither allowed nor held, and a looser rule below is never reached.
\<close>

theorem cel_error_refuses:
  assumes "k < length rules" and "r_CELExpression (rules ! k) \<noteq> []"
    and "matchesMethod (rules ! k) req" and "matchesToolName (rules ! k) req"
    and "matchesWhen (rules ! k) req"
    and "\<forall>j < k. evalRule (NewRuleEngine env rules) j (rules ! j) req = None"
    and "\<forall>prg b. compileCEL env (r_CELExpression (rules ! k)) = Inr prg \<longrightarrow> evalCEL prg req \<noteq> Inr b"
  shows "\<not> d_Allowed (Evaluate (NewRuleEngine env rules) req) \<and>
    \<not> d_Held (Evaluate (NewRuleEngine env rules) req) \<and>
    d_ReasonClass (Evaluate (NewRuleEngine env rules) req) = ReasonClassExpressionError \<and>
    d_RuleIndex (Evaluate (NewRuleEngine env rules) req) = int k"
proof -
  let ?e = "NewRuleEngine env rules"
  obtain err where cel: "matchesCEL ?e k req = Inl err"
    using matchesCEL_New [OF assms(1,2), of env req] assms(7)
    by (cases "compileCEL env (r_CELExpression (rules ! k))") (auto, metis sum.exhaust)
  obtain msg where dec: "evalRule ?e k (rules ! k) req =
      Some (newRuleDecision False False False msg ReasonClassExpressionError k (rules ! k))"
    using assms(3-5) cel by (simp add: evalRule_def)
  obtain k' where k': "k' < length rules" "evalRule ?e k' (rules ! k') req = Some (Evaluate ?e req)"
      "\<forall>j < k'. evalRule ?e j (rules ! j) req = None"
    using evalFrom_cases [of rules ?e 0 req] dec assms(1) by (auto simp: Evaluate_def)
  then have "k' = k"
    using assms(6) dec by (metis linorder_cases option.distinct(1))
  with k' dec have "Evaluate ?e req =
      newRuleDecision False False False msg ReasonClassExpressionError k (rules ! k)" by simp
  then show ?thesis by simp
qed

theorem cel_error_refuses_witness:
  "\<not> d_Allowed (Evaluate (NewRuleEngine (\<lambda>_. Inl ''syntax'')
      [emptyRule\<lparr>r_CELExpression := ''x'', r_Action := ActionDeny\<rparr>, emptyRule\<lparr>r_Action := ActionAllow\<rparr>])
      emptyRequest)"
  using cel_error_refuses [of 0 "[emptyRule\<lparr>r_CELExpression := ''x'', r_Action := ActionDeny\<rparr>,
      emptyRule\<lparr>r_Action := ActionAllow\<rparr>]" emptyRequest "\<lambda>_. Inl ''syntax''"]
  by (simp add: matchesMethod_def matchesToolName_def matchesWhen_def compileCEL_def emptyRule_def)

text \<open>
  Delegation is enforced on every allow: if the rule that allowed the call bounds the act
  chain, the caller's chain is no longer than the bound; if it demands a chain, there is one; and
  if it demands narrowing, every audience of the token is an audience of its parent.
\<close>

theorem allow_respects_delegation:
  assumes "d_Allowed (Evaluate e req)" and "d_MatchedRule (Evaluate e req) = Some r"
    and "q_Identity req = Some i" and "id_Claims i = Some claims"
  shows "(\<forall>g. r_Delegation r = Some g \<and> 0 < MaxDepth g \<longrightarrow> actChainDepth claims \<le> MaxDepth g) \<and>
    (\<forall>g. r_Identity r = Some g \<longrightarrow>
       (RequireActChain g \<longrightarrow> 0 < actChainDepth claims) \<and>
       (AudienceMustNarrow g \<longrightarrow> (\<forall>act. mget claims ''act'' = VMap act \<longrightarrow>
          set (claimAudiences claims) \<subseteq> set (claimAudiences act))))"
proof -
  obtain k where "evalRule e k r req = Some (Evaluate e req)"
    using assms(2) by (rule Evaluate_matched)
  with assms(1) have gp: "guards_pass r req" using evalRule_allowed by blast
  have del: "\<forall>g. r_Delegation r = Some g \<and> 0 < MaxDepth g \<longrightarrow> actChainDepth claims \<le> MaxDepth g"
    using gp assms(3,4) by (auto simp: guards_pass_def delegation_guard_iff)
  have "(RequireActChain g \<longrightarrow> 0 < actChainDepth claims) \<and>
      (AudienceMustNarrow g \<longrightarrow> (\<forall>act. mget claims ''act'' = VMap act \<longrightarrow>
         set (claimAudiences claims) \<subseteq> set (claimAudiences act)))" if g: "r_Identity r = Some g" for g
    using gp assms(3,4) g actChainDepth_nonneg [of claims]
    by (auto simp: guards_pass_def evaluateIdentityGuards_def audienceIsSubset_iff Let_def
        split: if_splits option.splits)
  with del show ?thesis by blast
qed

theorem allow_respects_delegation_witness:
  "actChainDepth [(''act'', VMap [])] \<le> 2"
proof -
  let ?r = "emptyRule\<lparr>r_Action := ActionAllow, r_Delegation := Some \<lparr>MaxDepth = 2\<rparr>\<rparr>"
  let ?i = "emptyIdentity\<lparr>id_Claims := Some [(''act'', VMap [])]\<rparr>"
  let ?req = "emptyRequest\<lparr>q_Identity := Some ?i\<rparr>"
  let ?e = "NewRuleEngine (\<lambda>_. Inl []) [?r]"
  have depth: "actChainDepth [(''act'', VMap [])] = 1"
    by (simp add: actChainDepth.simps)
  have "evalRule ?e 0 ?r ?req = Some (newRuleDecision True False False [] ReasonClassAllowed 0 ?r)"
    by (simp add: evalRule_def matchesMethod_def matchesToolName_def matchesWhen_def matchesCEL_def
        evaluateIdentityGuards_def evaluateDelegationGuards_def depth emptyRule_def emptyRequest_def)
  then have "Evaluate ?e ?req = newRuleDecision True False False [] ReasonClassAllowed 0 ?r"
    by (simp add: Evaluate_def)
  then show ?thesis
    using allow_respects_delegation [of ?e ?req ?r ?i "[(''act'', VMap [])]"] by simp
qed

lemma evalRule_prefix:
  assumes "i < length rules"
  shows "evalRule (NewRuleEngine env (rules @ extra)) i (rules ! i) req =
    evalRule (NewRuleEngine env rules) i (rules ! i) req"
proof -
  have "matchesCEL (NewRuleEngine env (rules @ extra)) i req = matchesCEL (NewRuleEngine env rules) i req"
  proof (cases "r_CELExpression (rules ! i) = []")
    case True
    then show ?thesis using assms by (simp add: matchesCEL_def nth_append)
  next
    case False
    then show ?thesis
      using assms matchesCEL_New [of i rules env req] matchesCEL_New [of i "rules @ extra" env req]
      by (simp add: nth_append)
  qed
  then show ?thesis by (simp add: evalRule_def)
qed

text \<open>
  Growing a policy at the end is conservative: a call that some rule of the policy decided
  gets the same decision when rules are appended.
\<close>

theorem append_rules_conservative:
  assumes "0 \<le> d_RuleIndex (Evaluate (NewRuleEngine env rules) req)"
  shows "Evaluate (NewRuleEngine env (rules @ extra)) req = Evaluate (NewRuleEngine env rules) req"
proof -
  let ?e = "NewRuleEngine env rules" and ?e' = "NewRuleEngine env (rules @ extra)"
  obtain k where k: "k < length rules" "evalRule ?e k (rules ! k) req = Some (Evaluate ?e req)"
      "\<forall>j < k. evalRule ?e j (rules ! j) req = None"
    using evalFrom_cases [of rules ?e 0 req] assms by (auto simp: Evaluate_def)
  have e': "evalRule ?e' j ((rules @ extra) ! j) req = evalRule ?e j (rules ! j) req" if "j < length rules" for j
    using evalRule_prefix [OF that] that by (simp add: nth_append)
  obtain k' where k': "evalRule ?e' k' ((rules @ extra) ! k') req = Some (Evaluate ?e' req)"
      "\<forall>j < k'. evalRule ?e' j ((rules @ extra) ! j) req = None"
    using evalFrom_cases [of "rules @ extra" ?e' 0 req] e' [OF k(1)] k(1,2)
    by (auto simp: Evaluate_def)
  have "k' = k"
    using k k' e' by (metis linorder_cases option.distinct(1) order.strict_trans)
  with k k' e' show ?thesis by simp
qed

theorem append_rules_conservative_witness:
  "Evaluate (NewRuleEngine (\<lambda>_. Inl []) ([emptyRule\<lparr>r_Action := ActionDeny\<rparr>] @ [emptyRule\<lparr>r_Action := ActionAllow\<rparr>]))
     emptyRequest =
   Evaluate (NewRuleEngine (\<lambda>_. Inl []) [emptyRule\<lparr>r_Action := ActionDeny\<rparr>]) emptyRequest"
  by (rule append_rules_conservative)
    (simp add: Evaluate_def evalRule_def matchesMethod_def matchesToolName_def matchesWhen_def
      matchesCEL_def evaluateIdentityGuards_def evaluateDelegationGuards_def emptyRule_def)

text \<open>
  A rule whose action is none of the four spellings decides nothing: it is skipped for every
  request that satisfies its identity requirement and whose expression does not fail, so a
  misspelt DENY lets the call reach the rules below.
\<close>

theorem unknown_action_is_skipped:
  assumes "r_Action rule \<notin> {ActionAllow, ActionDeny, ActionHold, ActionScope}"
    and "\<forall>err. matchesCEL e i req \<noteq> Inl err"
    and "r_RequireIdentity rule \<longrightarrow> q_Identity req \<noteq> None"
  shows "evalRule e i rule req = None"
  using assms by (auto simp: evalRule_def split: sum.splits)

theorem unknown_action_is_skipped_witness:
  "evalRule (NewRuleEngine (\<lambda>_. Inl []) [emptyRule\<lparr>r_Action := ''Deny''\<rparr>]) 0
     (emptyRule\<lparr>r_Action := ''Deny''\<rparr>) emptyRequest = None"
  by (rule unknown_action_is_skipped) (simp_all add: action_defs matchesCEL_def emptyRule_def)

text \<open>
  A when-claims condition that is neither a string nor a map with a contains entry (such as
  a boolean or a number) is not checked: it holds whatever the token claims.
\<close>

theorem nonstring_claim_condition_ignored:
  assumes "\<forall>(key, condition) \<in> set expected. as_str condition = None \<and>
      (\<forall>m. condition = VMap m \<longrightarrow> map_of m ''contains'' = None)"
  shows "matchesClaims expected claims"
  using assms by (fastforce simp: matchesClaims_def matchesClaim_def list_all_iff split: goval.splits)

theorem nonstring_claim_condition_ignored_witness:
  "matchesClaims [(''admin'', VBool True)] [(''admin'', VBool False)]"
  by (rule nonstring_claim_condition_ignored) simp

end
