(* ===== verification/Registry.thy ===== *)
theory Registry
  imports Types
begin

text \<open>
  Package \<open>registry\<close>: the set of approved tools (\<open>registry.go\<close>) and the reconciliation
  of that set against the tools an upstream server lists (\<open>lifecycle.go\<close>), with the caller in
  \<open>cmd/nullfield/main.go\<close> that builds the live set.
\<close>

section \<open>The tool registry\<close>

text \<open>The Go map by its entries; their order is the iteration order, on which nothing depends.\<close>

type_synonym Registry = "(string \<times> ToolRegistryEntry) list"

definition Registry_New :: Registry where
  "Registry_New = []"

definition Registry_IsRegistered :: "Registry \<Rightarrow> string \<Rightarrow> bool" where
  "Registry_IsRegistered r name \<longleftrightarrow> map_of r name \<noteq> None"

definition Registry_Get :: "Registry \<Rightarrow> string \<Rightarrow> ToolRegistryEntry option" where
  "Registry_Get r name = map_of r name"

definition Registry_All :: "Registry \<Rightarrow> ToolRegistryEntry list" where
  "Registry_All r = map snd r"

definition Registry_Register :: "Registry \<Rightarrow> ToolRegistryEntry \<Rightarrow> Registry" where
  "Registry_Register r entry = AList.update (te_Name entry) entry r"

text \<open>
  \<open>LoadFromFile\<close> after the file was read and decoded: \<open>Inl\<close> is a read or decode error and
  leaves the set as it was; otherwise the set is replaced.
\<close>

definition Registry_LoadFromFile :: "'e + ToolRegistry \<Rightarrow> Registry \<Rightarrow> Registry \<times> 'e option" where
  "Registry_LoadFromFile file r =
     (case file of
        Inl err \<Rightarrow> (r, Some err)
      | Inr reg \<Rightarrow> (fold (\<lambda>t r. Registry_Register r t) (tr_Tools reg) Registry_New, None))"

text \<open>Every entry is filed once, under its own name.\<close>

definition registry_ok :: "Registry \<Rightarrow> bool" where
  "registry_ok r \<longleftrightarrow> distinct (map fst r) \<and> (\<forall>(k, t) \<in> set r. te_Name t = k)"

lemma registry_ok_New [simp]: "registry_ok Registry_New"
  by (simp add: registry_ok_def Registry_New_def)

lemma set_update: "set (AList.update k v al) \<subseteq> insert (k, v) (set al)"
  by (induction al) auto

lemma registry_ok_Register: "registry_ok r \<Longrightarrow> registry_ok (Registry_Register r t)"
  using set_update [of "te_Name t" t r]
  by (auto simp: registry_ok_def Registry_Register_def distinct_update)

lemma registry_ok_fold: "registry_ok r \<Longrightarrow> registry_ok (fold (\<lambda>t r. Registry_Register r t) ts r)"
  by (induction ts arbitrary: r) (auto intro: registry_ok_Register)

lemma map_of_Register: "map_of (Registry_Register r t) = (map_of r)(te_Name t \<mapsto> t)"
  by (simp add: Registry_Register_def update_conv')

lemma Get_name: "registry_ok r \<Longrightarrow> Registry_Get r k = Some t \<Longrightarrow> te_Name t = k"
  by (auto simp: registry_ok_def Registry_Get_def dest: map_of_SomeD)

section \<open>Reconciliation\<close>

text \<open>
  \<open>computeCanonical\<close> is the SHA-256 of the JSON of name, description and scopes; the digest
  is the parameter \<open>canon\<close>, and nothing is assumed of it unless a lemma says so.
\<close>

type_synonym canon = "string \<times> string \<times> string list \<Rightarrow> string"

definition computeCanonical :: "canon \<Rightarrow> ToolRegistryEntry \<Rightarrow> string" where
  "computeCanonical canon entry =
     ''sha256:'' @ canon (te_Name entry, te_Description entry, te_AllowedScopes entry)"

definition ComputeHash :: "canon \<Rightarrow> ToolRegistryEntry \<Rightarrow> string" where
  "ComputeHash canon entry =
     (if te_SignatureHash entry \<noteq> [] then te_SignatureHash entry else computeCanonical canon entry)"

definition computeHashWithOverride :: "canon \<Rightarrow> ToolRegistryEntry \<Rightarrow> string" where
  "computeHashWithOverride canon entry =
     (if te_SignatureHash entry \<noteq> [] then te_SignatureHash entry else computeCanonical canon entry)"

datatype DriftType = DriftAdded | DriftRemoved | DriftChanged

record DriftEntry =
  de_ToolName :: string
  de_Type :: DriftType
  de_PreviousHash :: string
  de_CurrentHash :: string
  de_DetectedAt :: time

record DriftReport =
  rp_Timestamp :: time
  rp_Added :: "DriftEntry list"
  rp_Removed :: "DriftEntry list"
  rp_Changed :: "DriftEntry list"

definition IsRugPull :: "DriftEntry \<Rightarrow> bool" where
  "IsRugPull d \<longleftrightarrow> de_Type d = DriftChanged"

definition HasDrift :: "DriftReport \<Rightarrow> bool" where
  "HasDrift r \<longleftrightarrow> rp_Added r \<noteq> [] \<or> rp_Removed r \<noteq> [] \<or> rp_Changed r \<noteq> []"

definition HasRugPull :: "DriftReport \<Rightarrow> bool" where
  "HasRugPull r \<longleftrightarrow> rp_Changed r \<noteq> []"

definition RugPulls :: "DriftReport \<Rightarrow> DriftEntry list" where
  "RugPulls r = rp_Changed r"

definition liveMap :: "ToolRegistryEntry list \<Rightarrow> Registry" where
  "liveMap liveTools = fold (\<lambda>t m. AList.update (te_Name t) t m) liveTools []"

definition Reconcile :: "canon \<Rightarrow> Registry \<Rightarrow> ToolRegistryEntry list \<Rightarrow> time \<Rightarrow> DriftReport" where
  "Reconcile canon registered liveTools now =
     (let lm = liveMap liveTools;
          added = List.map_filter (\<lambda>(name, l). case map_of registered name of
              None \<Rightarrow> Some \<lparr>de_ToolName = name, de_Type = DriftAdded, de_PreviousHash = [],
                 de_CurrentHash = ComputeHash canon l, de_DetectedAt = now\<rparr>
            | Some _ \<Rightarrow> None) lm;
          changed = List.map_filter (\<lambda>(name, l). case map_of registered name of
              None \<Rightarrow> None
            | Some reg \<Rightarrow>
                if computeHashWithOverride canon reg \<noteq> ComputeHash canon l
                then Some \<lparr>de_ToolName = name, de_Type = DriftChanged,
                   de_PreviousHash = computeHashWithOverride canon reg,
                   de_CurrentHash = ComputeHash canon l, de_DetectedAt = now\<rparr>
                else None) lm;
          removed = List.map_filter (\<lambda>(name, reg). case map_of lm name of
              None \<Rightarrow> Some \<lparr>de_ToolName = name, de_Type = DriftRemoved,
                 de_PreviousHash = computeHashWithOverride canon reg,
                 de_CurrentHash = [], de_DetectedAt = now\<rparr>
            | Some _ \<Rightarrow> None) registered
      in \<lparr>rp_Timestamp = now, rp_Added = sort_key de_ToolName added,
          rp_Removed = sort_key de_ToolName removed, rp_Changed = sort_key de_ToolName changed\<rparr>)"

text \<open>
  \<open>fetchUpstreamTools\<close>: the live set carries names and descriptions only, as \<open>tools/list\<close>
  returns them; scopes and signature stay at their zero values.
\<close>

definition upstreamEntries :: "(string \<times> string) list \<Rightarrow> ToolRegistryEntry list" where
  "upstreamEntries tools = map (\<lambda>(n, d). \<lparr>te_Name = n, te_Description = d, te_AllowedScopes = [],
     te_SignatureHash = [], te_MaxCallsPerMin = 0\<rparr>) tools"

section \<open>Snapshots\<close>

record Snapshot =
  sn_Timestamp :: time
  sn_Tools :: Registry
  sn_Hashes :: labels

record LifecycleTracker =
  lt_snapshots :: "Snapshot list"
  lt_maxHist :: nat

definition NewLifecycleTracker :: "int \<Rightarrow> LifecycleTracker" where
  "NewLifecycleTracker maxHistory =
     \<lparr>lt_snapshots = [], lt_maxHist = (if maxHistory < 1 then 10 else nat maxHistory)\<rparr>"

definition LifecycleTracker_Snapshot ::
  "canon \<Rightarrow> LifecycleTracker \<Rightarrow> Registry \<Rightarrow> time \<Rightarrow> LifecycleTracker \<times> Snapshot" where
  "LifecycleTracker_Snapshot canon lt r now =
     (let snap = \<lparr>sn_Timestamp = now, sn_Tools = r,
            sn_Hashes = map (\<lambda>(name, entry). (name, ComputeHash canon entry)) r\<rparr>
      in (lt\<lparr>lt_snapshots := keep_last (lt_maxHist lt) (lt_snapshots lt @ [snap])\<rparr>, snap))"

definition LifecycleTracker_History :: "LifecycleTracker \<Rightarrow> Snapshot list" where
  "LifecycleTracker_History lt = lt_snapshots lt"

section \<open>Lemmas\<close>

lemma map_of_liveMap_gen:
  "map_of (fold (\<lambda>t m. AList.update (te_Name t) t m) ts m) =
     (map_of m) ++ map_of (rev (map (\<lambda>t. (te_Name t, t)) ts))"
  by (induction ts arbitrary: m) (auto simp: update_conv' map_add_def fun_eq_iff split: option.splits)

lemma map_of_liveMap: "map_of (liveMap ts) = map_of (rev (map (\<lambda>t. (te_Name t, t)) ts))"
  by (simp add: liveMap_def map_of_liveMap_gen)

lemma distinct_liveMap: "distinct (map fst (liveMap ts))"
proof -
  have "distinct (map fst m) \<Longrightarrow> distinct (map fst (fold (\<lambda>t m. AList.update (te_Name t) t m) ts m))"
    for m :: Registry
    by (induction ts arbitrary: m) (auto intro: distinct_update)
  then show ?thesis by (simp add: liveMap_def)
qed

lemma set_map_filter: "set (List.map_filter f xs) = {y. \<exists>x \<in> set xs. f x = Some y}"
  by (induction xs) (auto split: option.splits)

lemma in_map_filter_alist:
  assumes "distinct (map fst m)"
  shows "y \<in> set (List.map_filter f m) \<longleftrightarrow> (\<exists>k v. map_of m k = Some v \<and> f (k, v) = Some y)"
proof -
  have "(\<exists>x \<in> set m. f x = Some y) \<longleftrightarrow> (\<exists>k v. (k, v) \<in> set m \<and> f (k, v) = Some y)" by force
  also have "\<dots> \<longleftrightarrow> (\<exists>k v. map_of m k = Some v \<and> f (k, v) = Some y)"
    using assms by (metis map_of_SomeD map_of_is_SomeI)
  finally show ?thesis by (simp add: set_map_filter)
qed

lemmas reconcile_simps = Reconcile_def Let_def image_iff

lemma Reconcile_added:
  "de_ToolName ` set (rp_Added (Reconcile canon r ts now)) = dom (map_of (liveMap ts)) - dom (map_of r)"
  by (force simp: reconcile_simps in_map_filter_alist [OF distinct_liveMap] split: option.splits)

lemma Reconcile_removed:
  assumes "registry_ok r"
  shows "de_ToolName ` set (rp_Removed (Reconcile canon r ts now)) =
     dom (map_of r) - dom (map_of (liveMap ts))"
proof -
  have "distinct (map fst r)" using assms by (simp add: registry_ok_def)
  then show ?thesis
    by (force simp: reconcile_simps in_map_filter_alist split: option.splits)
qed

lemma Reconcile_changed:
  "de_ToolName ` set (rp_Changed (Reconcile canon r ts now)) =
     {n. \<exists>reg l. map_of r n = Some reg \<and> map_of (liveMap ts) n = Some l \<and>
        computeHashWithOverride canon reg \<noteq> ComputeHash canon l}"
  by (force simp: reconcile_simps in_map_filter_alist [OF distinct_liveMap]
      split: option.splits if_splits)

lemma Reconcile_sorted:
  "sorted (map de_ToolName (rp_Added (Reconcile canon r ts now))) \<and>
   sorted (map de_ToolName (rp_Removed (Reconcile canon r ts now))) \<and>
   sorted (map de_ToolName (rp_Changed (Reconcile canon r ts now)))"
  by (simp add: Reconcile_def Let_def)

lemma differ_iff:
  "map_option f a \<noteq> map_option g b \<longleftrightarrow>
     a \<noteq> None \<and> b = None \<or> a = None \<and> b \<noteq> None \<or>
     (\<exists>x y. a = Some x \<and> b = Some y \<and> f x \<noteq> g y)"
  by (cases a; cases b) auto

lemma liveMap_upstream:
  assumes "map_of (liveMap (upstreamEntries tools)) n = Some l"
  shows "te_Name l = n \<and> te_AllowedScopes l = [] \<and> te_SignatureHash l = []"
proof -
  have "(n, l) \<in> set (rev (map (\<lambda>t. (te_Name t, t)) (upstreamEntries tools)))"
    using assms by (auto simp: map_of_liveMap dest: map_of_SomeD)
  then show ?thesis by (auto simp: upstreamEntries_def)
qed

lemma dom_liveMap_upstream: "dom (map_of (liveMap (upstreamEntries tools))) = fst ` set tools"
  by (force simp: map_of_liveMap dom_map_of_conv_image_fst upstreamEntries_def)

section \<open>Properties\<close>

text \<open>
  Loading a registry file that decodes gives a registry in which every tool is filed once
  under its own name, and a lookup returns the last entry the file gives for the name; a file
  that does not decode leaves the registry as it was.
\<close>

theorem LoadFromFile_lookup:
  "Registry_LoadFromFile (Inl err) r = (r, Some err) \<and>
   (let r' = fst (Registry_LoadFromFile (Inr reg) r :: Registry \<times> 'e option) in
      registry_ok r' \<and>
      (\<forall>name. Registry_Get r' name = map_of (rev (map (\<lambda>t. (te_Name t, t)) (tr_Tools reg))) name) \<and>
      (\<forall>name. Registry_IsRegistered r' name \<longleftrightarrow> name \<in> te_Name ` set (tr_Tools reg)))"
proof -
  let ?r = "fold (\<lambda>t r. Registry_Register r t) (tr_Tools reg) Registry_New"
  have eq: "?r = liveMap (tr_Tools reg)"
    by (simp add: liveMap_def Registry_Register_def Registry_New_def)
  have "map_of ?r name \<noteq> None \<longleftrightarrow> name \<in> te_Name ` set (tr_Tools reg)" for name
    by (auto simp: eq map_of_liveMap map_of_eq_None_iff image_iff)
  moreover have "registry_ok ?r"
    by (rule registry_ok_fold) simp
  ultimately show ?thesis
    by (simp add: Registry_LoadFromFile_def Let_def Registry_Get_def Registry_IsRegistered_def
        eq map_of_liveMap)
qed

text \<open>
  Reconciliation is exact: a name is reported added iff it is live and not registered,
  removed iff it is registered and not live, and changed iff it is both and the digests differ;
  each list comes sorted by tool name.
\<close>

theorem Reconcile_exact:
  assumes "registry_ok r"
  shows "(let rep = Reconcile canon r ts now; lv = map_of (liveMap ts); reg = map_of r in
     de_ToolName ` set (rp_Added rep) = dom lv - dom reg \<and>
     de_ToolName ` set (rp_Removed rep) = dom reg - dom lv \<and>
     de_ToolName ` set (rp_Changed rep) =
       {n. \<exists>e l. reg n = Some e \<and> lv n = Some l \<and>
          computeHashWithOverride canon e \<noteq> ComputeHash canon l} \<and>
     sorted (map de_ToolName (rp_Added rep)) \<and> sorted (map de_ToolName (rp_Removed rep)) \<and>
     sorted (map de_ToolName (rp_Changed rep)) \<and>
     (HasDrift rep \<longleftrightarrow> (\<exists>n. map_option (computeHashWithOverride canon) (reg n) \<noteq>
        map_option (ComputeHash canon) (lv n))))"
proof -
  let ?rep = "Reconcile canon r ts now"
  note ex = Reconcile_added [of canon r ts now] Reconcile_removed [OF assms, of canon ts now]
    Reconcile_changed [of canon r ts now]
  have "HasDrift ?rep \<longleftrightarrow> de_ToolName ` set (rp_Added ?rep) \<noteq> {} \<or>
      de_ToolName ` set (rp_Removed ?rep) \<noteq> {} \<or> de_ToolName ` set (rp_Changed ?rep) \<noteq> {}"
    by (simp add: HasDrift_def)
  also have "\<dots> \<longleftrightarrow> (\<exists>n. map_option (computeHashWithOverride canon) (map_of r n) \<noteq>
        map_option (ComputeHash canon) (map_of (liveMap ts) n))"
    unfolding ex
    by (simp add: set_eq_iff dom_def flip: ex_disj_distrib)
      (intro arg_cong [where f = Ex] ext, auto simp: differ_iff)
  finally show ?thesis
    using ex Reconcile_sorted [of canon r ts now] by (simp add: Let_def)
qed

definition demo_tool :: "string \<Rightarrow> string \<Rightarrow> string list \<Rightarrow> ToolRegistryEntry" where
  "demo_tool n d sc = \<lparr>te_Name = n, te_Description = d, te_AllowedScopes = sc,
     te_SignatureHash = [], te_MaxCallsPerMin = 0\<rparr>"

definition demo_canon :: canon where
  "demo_canon = (\<lambda>(n, d, sc). n @ ''|'' @ d @ ''|'' @ Join sc '','')"

lemma Reconcile_exact_witness:
  "de_ToolName ` set (rp_Removed (Reconcile demo_canon [(''ls'', demo_tool ''ls'' [] [])]
      (upstreamEntries [(''cat'', [])]) 0)) = {''ls''}"
  using Reconcile_exact [of "[(''ls'', demo_tool ''ls'' [] [])]" demo_canon
      "upstreamEntries [(''cat'', [])]" 0]
  by (auto simp: Let_def registry_ok_def demo_tool_def liveMap_def upstreamEntries_def)

text \<open>
  A registered tool that declares scopes is reported as changed, a rug pull, on every
  reconciliation against an upstream that lists it, even when the upstream lists exactly the
  registered name and description: the live set carries no scopes. The digest is only assumed
  to tell the entry with scopes from the entry without.
\<close>

theorem scoped_tool_always_rug_pull:
  assumes "registry_ok r" and "Registry_Get r n = Some e" and "te_SignatureHash e = []"
    and "\<And>d. canon (n, te_Description e, te_AllowedScopes e) \<noteq> canon (n, d, [])"
    and "n \<in> fst ` set tools"
  shows "\<exists>x \<in> set (RugPulls (Reconcile canon r (upstreamEntries tools) now)).
     de_ToolName x = n \<and> IsRugPull x"
proof -
  obtain l where l: "map_of (liveMap (upstreamEntries tools)) n = Some l"
    using assms(5) dom_liveMap_upstream [of tools] by blast
  have "computeHashWithOverride canon e \<noteq> ComputeHash canon l"
    using liveMap_upstream [OF l] Get_name [OF assms(1,2)] assms(3) assms(4) [of "te_Description l"]
    by (simp add: computeHashWithOverride_def ComputeHash_def computeCanonical_def)
  then have "n \<in> de_ToolName ` set (rp_Changed (Reconcile canon r (upstreamEntries tools) now))"
    using assms(2) l by (auto simp: Reconcile_changed Registry_Get_def)
  then obtain x where "x \<in> set (rp_Changed (Reconcile canon r (upstreamEntries tools) now))"
    and "de_ToolName x = n" by auto
  moreover have "\<forall>x \<in> set (rp_Changed (Reconcile canon r (upstreamEntries tools) now)).
      de_Type x = DriftChanged"
    by (auto simp: Reconcile_def Let_def set_map_filter split: option.splits if_splits)
  ultimately show ?thesis by (auto simp: RugPulls_def IsRugPull_def)
qed

lemma scoped_tool_always_rug_pull_witness:
  "HasRugPull (Reconcile (\<lambda>(n, d, sc). if sc = [] then ''a'' else ''b'')
      [(''ls'', demo_tool ''ls'' ''list'' [''read''])] (upstreamEntries [(''ls'', ''list'')]) 0)"
  using scoped_tool_always_rug_pull [of "[(''ls'', demo_tool ''ls'' ''list'' [''read''])]" "''ls''"
      "demo_tool ''ls'' ''list'' [''read'']" "\<lambda>(n, d, sc). if sc = [] then ''a'' else ''b''"
      "[(''ls'', ''list'')]" 0]
  by (auto simp: registry_ok_def demo_tool_def Registry_Get_def RugPulls_def HasRugPull_def)

lemma Snapshot_bound:
  "length (LifecycleTracker_History (fst (LifecycleTracker_Snapshot canon lt r now))) \<le> lt_maxHist lt"
  by (simp add: LifecycleTracker_Snapshot_def LifecycleTracker_History_def length_keep_last Let_def)

end
