(* ===== verification/Circuit.thy ===== *)
theory Circuit
  imports Prelude
begin

text \<open>
  Package \<open>circuit\<close>: the session circuit breaker (\<open>breaker.go\<close>) and the resolution of
  its limits (\<open>limits.go\<close>). The breaker is a table of sessions behind a mutex; each
  operation is one critical section. \<open>Allow\<close> and \<open>Record\<close> are two of them, with policy
  evaluation between, so a step relation interleaves them and bounds how far concurrent calls
  can overshoot the limit.
\<close>

section \<open>State and operations\<close>

record sessionState =
  ss_calls :: int
  ss_started :: time
  ss_tripped :: bool

record Breaker =
  b_sessions :: "string \<rightharpoonup> sessionState"
  b_maxCalls :: int
  b_maxDuration :: duration

definition Breaker_New :: "int \<Rightarrow> duration \<Rightarrow> Breaker" where
  "Breaker_New maxCalls maxDuration =
     \<lparr>b_sessions = Map.empty, b_maxCalls = maxCalls, b_maxDuration = maxDuration\<rparr>"

definition Breaker_Allow :: "Breaker \<Rightarrow> string \<Rightarrow> time \<Rightarrow> bool" where
  "Breaker_Allow b sessionID now =
     (if sessionID = [] then True
      else case b_sessions b sessionID of
        None \<Rightarrow> True
      | Some s \<Rightarrow>
          if 0 < b_maxCalls b \<and> b_maxCalls b \<le> ss_calls s then False
          else if 0 < b_maxDuration b \<and> b_maxDuration b < now - ss_started s then False
          else True)"

definition Breaker_Record :: "Breaker \<Rightarrow> string \<Rightarrow> time \<Rightarrow> Breaker" where
  "Breaker_Record b sessionID now =
     (if sessionID = [] then b
      else case b_sessions b sessionID of
        None \<Rightarrow> b\<lparr>b_sessions := (b_sessions b)(sessionID \<mapsto>
            \<lparr>ss_calls = 1, ss_started = now, ss_tripped = False\<rparr>)\<rparr>
      | Some s \<Rightarrow> b\<lparr>b_sessions := (b_sessions b)(sessionID \<mapsto> s\<lparr>ss_calls := ss_calls s + 1\<rparr>)\<rparr>)"

definition Breaker_FirstTrip :: "Breaker \<Rightarrow> string \<Rightarrow> Breaker \<times> bool" where
  "Breaker_FirstTrip b sessionID =
     (case b_sessions b sessionID of
        None \<Rightarrow> (b, False)
      | Some s \<Rightarrow>
          if ss_tripped s then (b, False)
          else (b\<lparr>b_sessions := (b_sessions b)(sessionID \<mapsto> s\<lparr>ss_tripped := True\<rparr>)\<rparr>, True))"

definition Breaker_Reset :: "Breaker \<Rightarrow> string \<Rightarrow> Breaker" where
  "Breaker_Reset b sessionID = b\<lparr>b_sessions := (b_sessions b)(sessionID := None)\<rparr>"

text \<open>\<open>maxDuration*2\<close> is arithmetic on \<open>time.Duration\<close>, an \<open>int64\<close>.\<close>

definition Breaker_Sweep :: "Breaker \<Rightarrow> time \<Rightarrow> Breaker" where
  "Breaker_Sweep b now = b\<lparr>b_sessions := (\<lambda>id. case b_sessions b id of
      None \<Rightarrow> None
    | Some s \<Rightarrow> if 0 < b_maxDuration b \<and> wrap64 (b_maxDuration b * 2) < now - ss_started s
                then None else Some s)\<rparr>"

definition ResolveLimits :: "int \<Rightarrow> duration \<Rightarrow> int \<Rightarrow> duration \<Rightarrow> int \<times> duration \<times> bool" where
  "ResolveLimits policyCalls policyDuration envCalls envDuration =
     (let calls = envCalls; dur = envDuration; fromPolicy = False;
          (calls, fromPolicy) = (if 0 < policyCalls then (policyCalls, True) else (calls, fromPolicy));
          (dur, fromPolicy) = (if 0 < policyDuration then (policyDuration, True) else (dur, fromPolicy))
      in (calls, dur, fromPolicy))"

section \<open>What each operation keeps\<close>

lemmas breaker_defs = Breaker_New_def Breaker_Allow_def Breaker_Record_def Breaker_FirstTrip_def
  Breaker_Reset_def Breaker_Sweep_def

text \<open>The number of calls on the books of a session.\<close>

definition booked :: "Breaker \<Rightarrow> string \<Rightarrow> int" where
  "booked b k = (case b_sessions b k of None \<Rightarrow> 0 | Some s \<Rightarrow> ss_calls s)"

lemma limits_kept [simp, nf_maps]:
  "b_maxCalls (Breaker_Record b k now) = b_maxCalls b"
  "b_maxCalls (fst (Breaker_FirstTrip b k)) = b_maxCalls b"
  "b_maxCalls (Breaker_Reset b k) = b_maxCalls b"
  "b_maxCalls (Breaker_Sweep b now) = b_maxCalls b"
  "b_maxDuration (Breaker_Record b k now) = b_maxDuration b"
  "b_maxDuration (fst (Breaker_FirstTrip b k)) = b_maxDuration b"
  "b_maxDuration (Breaker_Reset b k) = b_maxDuration b"
  "b_maxDuration (Breaker_Sweep b now) = b_maxDuration b"
  by (auto simp: breaker_defs split: option.splits)

lemma booked_Record [nf_maps]:
  "booked (Breaker_Record b k now) j = booked b j + (if j = k \<and> k \<noteq> [] then 1 else 0)"
  by (auto simp: booked_def Breaker_Record_def split: option.splits)

lemma booked_FirstTrip [nf_maps]: "booked (fst (Breaker_FirstTrip b k)) j = booked b j"
  by (auto simp: booked_def Breaker_FirstTrip_def split: option.splits)

lemma booked_Reset [nf_maps]: "booked (Breaker_Reset b k) j = (if j = k then 0 else booked b j)"
  by (auto simp: booked_def Breaker_Reset_def)

lemma booked_Sweep: "booked (Breaker_Sweep b now) j = 0 \<or> booked (Breaker_Sweep b now) j = booked b j"
  by (auto simp: booked_def Breaker_Sweep_def split: option.splits)

lemma Allow_booked:
  "Breaker_Allow b k now \<Longrightarrow> k \<noteq> [] \<Longrightarrow> 0 < b_maxCalls b \<Longrightarrow> booked b k < b_maxCalls b"
  by (auto simp: Breaker_Allow_def booked_def split: option.splits if_splits)

section \<open>Interleaved calls\<close>

text \<open>
  The calls of one server as steps of the shared breaker. A call of session \<open>k\<close> that
  \<open>Allow\<close> let through is in flight until it is recorded or given up (a later gate or the
  policy refused it). At most \<open>K\<close> calls of a session are in flight at once.
\<close>

type_synonym bstate = "Breaker \<times> (string \<Rightarrow> nat)"

inductive breaker_step :: "nat \<Rightarrow> bstate \<Rightarrow> bstate \<Rightarrow> bool" for K where
  check: "Breaker_Allow b k now \<Longrightarrow> f k < K \<Longrightarrow> breaker_step K (b, f) (b, f(k := Suc (f k)))"
| record_call: "f k = Suc n \<Longrightarrow> breaker_step K (b, f) (Breaker_Record b k now, f(k := n))"
| give_up: "f k = Suc n \<Longrightarrow> breaker_step K (b, f) (b, f(k := n))"
| trip: "\<not> Breaker_Allow b k now \<Longrightarrow> breaker_step K (b, f) (fst (Breaker_FirstTrip b k), f)"
| reset: "breaker_step K (b, f) (Breaker_Reset b k, f)"
| sweep: "breaker_step K (b, f) (Breaker_Sweep b now, f)"

inductive_cases breaker_stepE: "breaker_step K (b, f) s'"

definition breaker_inv :: "nat \<Rightarrow> int \<Rightarrow> bstate \<Rightarrow> bool" where
  "breaker_inv K m = (\<lambda>(b, f). b_maxCalls b = m \<and> (\<forall>k. f k \<le> K) \<and>
     (\<forall>k. k \<noteq> [] \<longrightarrow> booked b k + int (f k) \<le> m - 1 + int K))"

lemma breaker_inv_step:
  assumes "breaker_step K s s'" and "breaker_inv K m s" and "0 < m" and "0 < K"
  shows "breaker_inv K m s'"
  using assms(1,2)
proof cases
  case (check b k now f)
  then show ?thesis
    using assms(2,3) Allow_booked [of b k now] by (auto simp: breaker_inv_def)
next
  case (sweep b f now)
  have "booked (Breaker_Sweep b now) k + int (f k) \<le> m - 1 + int K" if "k \<noteq> []" for k
    using sweep assms(2,3) that booked_Sweep [of b now k]
    by (auto simp: breaker_inv_def dest: spec [of _ k])
  then show ?thesis using sweep assms(2) by (auto simp: breaker_inv_def)
next
  case (record_call f k n b now)
  then show ?thesis
    using assms(2) by (auto simp: breaker_inv_def nf_maps dest: spec [of _ k])
next
  case (give_up f k n b)
  then show ?thesis
    using assms(2) by (auto simp: breaker_inv_def dest: spec [of _ k])
next
  case (trip b k now f)
  then show ?thesis
    using assms(2) by (auto simp: breaker_inv_def nf_maps)
next
  case (reset b f k)
  then show ?thesis
    using assms(2,3) by (auto simp: breaker_inv_def nf_maps dest: spec [of _ k])
qed

lemma breaker_inv_reachable:
  assumes "(breaker_step K)\<^sup>*\<^sup>* s s'" and "breaker_inv K m s" and "0 < m" and "0 < K"
  shows "breaker_inv K m s'"
  using assms(1,2) by (induction rule: rtranclp_induct) (auto intro: breaker_inv_step [OF _ _ assms(3,4)])

lemma breaker_inv_New: "0 < K \<Longrightarrow> 0 < m \<Longrightarrow> breaker_inv K m (Breaker_New m d, \<lambda>_. 0)"
  by (auto simp: breaker_inv_def booked_def Breaker_New_def)

section \<open>Runs without a sweep or a reset\<close>

datatype bop = OpAllow string time | OpRecord string time | OpFirstTrip string

fun bop_time :: "bop \<Rightarrow> time option" where
  "bop_time (OpAllow k t) = Some t"
| "bop_time (OpRecord k t) = Some t"
| "bop_time (OpFirstTrip k) = None"

text \<open>The state after an operation, and what \<open>FirstTrip\<close> answered where it was asked.\<close>

fun bop_exec :: "Breaker \<Rightarrow> bop \<Rightarrow> Breaker" where
  "bop_exec b (OpAllow k t) = b"
| "bop_exec b (OpRecord k t) = Breaker_Record b k t"
| "bop_exec b (OpFirstTrip k) = fst (Breaker_FirstTrip b k)"

fun trips :: "string \<Rightarrow> Breaker \<Rightarrow> bop list \<Rightarrow> bool list" where
  "trips k b [] = []"
| "trips k b (o1 # os) =
     (case o1 of OpFirstTrip j \<Rightarrow> if j = k then [snd (Breaker_FirstTrip b k)] else [] | _ \<Rightarrow> [])
      @ trips k (bop_exec b o1) os"

definition bop_run :: "Breaker \<Rightarrow> bop list \<Rightarrow> Breaker" where
  "bop_run b os = foldl bop_exec b os"

definition is_tripped :: "Breaker \<Rightarrow> string \<Rightarrow> bool" where
  "is_tripped b k = (case b_sessions b k of None \<Rightarrow> False | Some s \<Rightarrow> ss_tripped s)"

lemma is_tripped_exec: "is_tripped b k \<Longrightarrow> is_tripped (bop_exec b o1) k"
  by (cases o1) (auto simp: is_tripped_def breaker_defs split: option.splits)

lemma trips_tripped: "is_tripped b k \<Longrightarrow> True \<notin> set (trips k b os)"
proof (induction os arbitrary: b)
  case (Cons o1 os)
  have "True \<notin> set (trips k (bop_exec b o1) os)"
    by (rule Cons.IH) (rule is_tripped_exec [OF Cons.prems])
  with Cons.prems show ?case
    by (auto simp: is_tripped_def Breaker_FirstTrip_def split: bop.splits option.splits)
qed simp

lemma FirstTrip_tripped: "snd (Breaker_FirstTrip b k) \<Longrightarrow> is_tripped (fst (Breaker_FirstTrip b k)) k"
  by (auto simp: is_tripped_def Breaker_FirstTrip_def split: option.splits if_splits)

lemma refused_iff:
  "\<not> Breaker_Allow b k t \<longleftrightarrow> k \<noteq> [] \<and> (\<exists>s. b_sessions b k = Some s \<and>
     (0 < b_maxCalls b \<and> b_maxCalls b \<le> ss_calls s \<or>
      0 < b_maxDuration b \<and> b_maxDuration b < t - ss_started s))"
  by (auto simp: Breaker_Allow_def split: option.splits)

lemma exec_session:
  assumes "b_sessions b k = Some s"
  shows "\<exists>s'. b_sessions (bop_exec b o1) k = Some s' \<and> ss_calls s \<le> ss_calls s' \<and>
     ss_started s' = ss_started s"
  using assms by (cases o1) (auto simp: Breaker_Record_def Breaker_FirstTrip_def split: option.splits)

lemma refused_exec:
  assumes "\<not> Breaker_Allow b k t" and "t \<le> t'"
  shows "\<not> Breaker_Allow (bop_exec b o1) k t'"
proof -
  obtain s where s: "b_sessions b k = Some s" using assms(1) by (auto simp: refused_iff)
  have "b_maxCalls (bop_exec b o1) = b_maxCalls b \<and> b_maxDuration (bop_exec b o1) = b_maxDuration b"
    by (cases o1) auto
  then show ?thesis using exec_session [OF s, of o1] s assms by (auto simp: refused_iff)
qed

lemma refused_run:
  assumes "\<not> Breaker_Allow b k t" and "t \<le> t'"
  shows "\<not> Breaker_Allow (bop_run b os) k t'"
  using assms
proof (induction os arbitrary: b)
  case Nil
  then show ?case using refused_exec [of b k t t' "OpAllow k t"] by (simp add: bop_run_def)
next
  case (Cons o1 os)
  have "\<not> Breaker_Allow (bop_exec b o1) k t" by (rule refused_exec [OF Cons.prems(1) order.refl])
  with Cons show ?case by (simp add: bop_run_def)
qed

section \<open>Properties\<close>

text \<open>
  C28. Under any interleaving of checks, records, trips, resets and sweeps, with at most
  \<open>K\<close> calls of a session in flight at once, the calls recorded for a session never exceed
  the limit by more than \<open>K - 1\<close>; with one call at a time the limit is exact. Allowing and
  recording are separate critical sections, which is where the \<open>K - 1\<close> comes from.
\<close>

theorem breaker_overshoot_bound:
  assumes "(breaker_step K)\<^sup>*\<^sup>* (Breaker_New m d, \<lambda>_. 0) (b, f)" and "0 < m" and "0 < K" and "k \<noteq> []"
  shows "booked b k + int (f k) \<le> m + int K - 1"
  using breaker_inv_reachable [OF assms(1) breaker_inv_New [OF assms(3,2)] assms(2,3)] assms(4)
  by (auto simp: breaker_inv_def dest: spec [of _ k])

text \<open>Two calls of session \<open>a\<close> pass a limit of one together: the bound is reached.\<close>

lemma overshoot_run:
  "(breaker_step 2)\<^sup>*\<^sup>* (Breaker_New 1 0, \<lambda>_. 0)
     (Breaker_Record (Breaker_Record (Breaker_New 1 0) ''a'' 0) ''a'' 0,
      (\<lambda>_. 0)(''a'' := 0))"
proof -
  let ?b = "Breaker_New 1 0" and ?z = "\<lambda>_ :: string. 0 :: nat"
  have "breaker_step 2 (?b, ?z) (?b, ?z(''a'' := Suc 0))"
    using breaker_step.check [of ?b "''a''" 0 ?z 2] by (simp add: breaker_defs)
  moreover have "breaker_step 2 (?b, ?z(''a'' := Suc 0)) (?b, ?z(''a'' := 2))"
    using breaker_step.check [of ?b "''a''" 0 "?z(''a'' := Suc 0)" 2]
    by (simp add: breaker_defs numeral_2_eq_2)
  moreover have "breaker_step 2 (?b, ?z(''a'' := 2)) (Breaker_Record ?b ''a'' 0, ?z(''a'' := 1))"
    using breaker_step.record_call [of "?z(''a'' := 2)" "''a''" 1 2 ?b 0] by (simp add: numeral_2_eq_2)
  moreover have "breaker_step 2 (Breaker_Record ?b ''a'' 0, ?z(''a'' := 1))
      (Breaker_Record (Breaker_Record ?b ''a'' 0) ''a'' 0, ?z(''a'' := 0))"
    using breaker_step.record_call [of "?z(''a'' := 1)" "''a''" 0 2 "Breaker_Record ?b ''a'' 0" 0]
    by simp
  ultimately show ?thesis by (meson converse_rtranclp_into_rtranclp rtranclp.rtrancl_refl)
qed

lemma breaker_overshoot_bound_witness:
  "booked (Breaker_Record (Breaker_Record (Breaker_New 1 0) ''a'' 0) ''a'' 0) ''a'' \<le> 2 \<and>
   booked (Breaker_Record (Breaker_Record (Breaker_New 1 0) ''a'' 0) ''a'' 0) ''a'' = 2"
  using breaker_overshoot_bound [OF overshoot_run, of "''a''"]
  by (simp add: breaker_defs booked_def)

text \<open>
  A session the breaker refuses stays refused: whatever calls are then checked, recorded or
  reported, every later check of it is refused, until a sweep or a reset forgets the session. And
  over such a run the trip is reported at most once.
\<close>

theorem breaker_trip_is_final:
  assumes "\<not> Breaker_Allow b k t" and "t \<le> t'"
  shows "\<not> Breaker_Allow (bop_run b os) k t' \<and> length (filter id (trips k b os)) \<le> 1"
proof
  show "\<not> Breaker_Allow (bop_run b os) k t'" by (rule refused_run [OF assms])
  show "length (filter id (trips k b os)) \<le> 1"
  proof (induction os arbitrary: b)
    case (Cons o1 os)
    have IH: "length (filter id (trips k (bop_exec b o1) os)) \<le> 1" by (rule Cons.IH)
    show ?case
    proof (cases "o1 = OpFirstTrip k \<and> snd (Breaker_FirstTrip b k)")
      case True
      then have "True \<notin> set (trips k (bop_exec b o1) os)"
        using trips_tripped [OF FirstTrip_tripped] by auto
      then have "filter id (trips k (bop_exec b o1) os) = []" by (auto simp: filter_empty_conv)
      with True show ?thesis by (auto simp: id_def)
    next
      case False
      with IH show ?thesis by (auto simp: id_def split: bop.splits)
    qed
  qed simp
qed

lemma breaker_trip_is_final_witness:
  "\<not> Breaker_Allow (bop_run (Breaker_Record (Breaker_New 1 0) ''a'' 0)
       [OpFirstTrip ''a'', OpRecord ''a'' 5, OpFirstTrip ''a'']) ''a'' 9"
  using breaker_trip_is_final [of "Breaker_Record (Breaker_New 1 0) ''a'' 0" "''a''" 3 9
      "[OpFirstTrip ''a'', OpRecord ''a'' 5, OpFirstTrip ''a'']"]
  by (simp add: breaker_defs)

text \<open>
  A sweep forgets a session older than twice the maximum duration, also one that was
  refused: afterwards the breaker admits it again and a trip of it would be reported anew.
\<close>

theorem sweep_readmits_expired_session:
  assumes "0 < b_maxDuration b" and "b_maxDuration b < 2 ^ 62"
    and "b_sessions b k = Some s" and "2 * b_maxDuration b < now - ss_started s" and "k \<noteq> []"
  shows "\<not> Breaker_Allow b k now \<and> Breaker_Allow (Breaker_Sweep b now) k now \<and>
     (\<forall>t. snd (Breaker_FirstTrip (Breaker_Record (Breaker_Sweep b now) k t) k))"
proof -
  have "wrap64 (b_maxDuration b * 2) = b_maxDuration b * 2"
    using assms(1,2) by (intro wrap64_id) auto
  then show ?thesis using assms by (auto simp: breaker_defs)
qed

lemma sweep_readmits_expired_session_witness:
  "Breaker_Allow (Breaker_Sweep (Breaker_Record (Breaker_New 1 5) ''a'' 0) 11) ''a'' 11"
  using sweep_readmits_expired_session [of "Breaker_Record (Breaker_New 1 5) ''a'' 0" "''a''"
      "\<lparr>ss_calls = 1, ss_started = 0, ss_tripped = False\<rparr>" 11]
  by (simp add: breaker_defs)

text \<open>A policy's positive limit wins and each field on its own; anything else is the environment.\<close>

lemma ResolveLimits_cases:
  "ResolveLimits pc pd ec ed =
     (if 0 < pc then pc else ec, if 0 < pd then pd else ed, 0 < pc \<or> 0 < pd)"
  by (simp add: ResolveLimits_def)

lemma ResolveLimits_enabled:
  "ResolveLimits pc pd ec ed = (c, d, fp) \<Longrightarrow> 0 < ec \<Longrightarrow> 0 < ed \<Longrightarrow> 0 < c \<and> 0 < d"
  by (auto simp: ResolveLimits_cases split: if_splits)

end
