(* ===== verification/Anomaly.thy ===== *)
theory Anomaly
  imports Prelude
begin

text \<open>
  Package \<open>anomaly\<close>: the velocity tracker (\<open>velocity.go\<close>), which counts the calls of an
  identity over a sliding minute, and the sequence tracker (\<open>sequence.go\<close>), which looks for
  suspicious orders of tools in a session's recent history.
\<close>

section \<open>Velocity\<close>

definition AlertActionLog :: string where "AlertActionLog = ''LOG''"
definition AlertActionDeny :: string where "AlertActionDeny = ''DENY''"

record Alert =
  al_Identity :: string
  al_Tool :: string
  al_CallsPerMin :: nat
  al_Threshold :: int
  al_Action :: string

record VelocityConfig =
  vcf_Threshold :: int
  vcf_AlertAction :: string

record VelocityTracker =
  v_windows :: "string \<rightharpoonup> time list"
  v_threshold :: int
  v_window :: duration
  v_action :: string

definition NewVelocityTracker :: "VelocityConfig \<Rightarrow> VelocityTracker" where
  "NewVelocityTracker cfg =
     (let threshold = (if vcf_Threshold cfg \<le> 0 then 30 else vcf_Threshold cfg);
          action = (if vcf_AlertAction cfg = [] then AlertActionLog else vcf_AlertAction cfg)
      in \<lparr>v_windows = Map.empty, v_threshold = threshold, v_window = Minute, v_action = action\<rparr>)"

definition VelocityTracker_Record ::
  "VelocityTracker \<Rightarrow> string \<Rightarrow> string \<Rightarrow> time \<Rightarrow> VelocityTracker \<times> Alert option" where
  "VelocityTracker_Record v identitySubject tool now =
     (let cutoff = now - v_window v;
          w = (case v_windows v identitySubject of None \<Rightarrow> [] | Some w \<Rightarrow> w);
          calls = live cutoff w @ [now];
          v' = v\<lparr>v_windows := (v_windows v)(identitySubject \<mapsto> calls)\<rparr>
      in if v_threshold v < int (length calls)
         then (v', Some \<lparr>al_Identity = identitySubject, al_Tool = tool,
                 al_CallsPerMin = length calls, al_Threshold = v_threshold v,
                 al_Action = v_action v\<rparr>)
         else (v', None))"

definition VelocityTracker_Sweep :: "VelocityTracker \<Rightarrow> time \<Rightarrow> VelocityTracker" where
  "VelocityTracker_Sweep v now =
     (let cutoff = now - v_window v * 2
      in v\<lparr>v_windows := (\<lambda>id. case v_windows v id of
             None \<Rightarrow> None
           | Some w \<Rightarrow> if w = [] \<or> last w < cutoff then None else Some w)\<rparr>)"

section \<open>Sequences\<close>

record SequencePattern =
  sq_Name :: string
  sq_Tools :: "string list"
  sq_AlertAction :: string

record SequenceAlert =
  sa_Pattern :: string
  sa_Tools :: "string list"
  sa_Identity :: string
  sa_SessionID :: string
  sa_Action :: string

record SequenceConfig =
  scf_Patterns :: "SequencePattern list"
  scf_MaxHistory :: int

record SequenceTracker =
  st_patterns :: "SequencePattern list"
  st_sessions :: "string \<rightharpoonup> string list"
  st_maxHist :: nat

definition NewSequenceTracker :: "SequenceConfig \<Rightarrow> SequenceTracker" where
  "NewSequenceTracker cfg =
     \<lparr>st_patterns = scf_Patterns cfg, st_sessions = Map.empty,
      st_maxHist = (if scf_MaxHistory cfg \<le> 0 then 20 else nat (scf_MaxHistory cfg))\<rparr>"

text \<open>The loop of \<open>matchesSequence\<close> from position \<open>pi\<close> of the pattern.\<close>

fun matchesFrom :: "string list \<Rightarrow> string list \<Rightarrow> nat \<Rightarrow> bool" where
  "matchesFrom [] pattern pi = False"
| "matchesFrom (tool # history) pattern pi =
     (if tool = pattern ! pi
      then (if Suc pi = length pattern then True else matchesFrom history pattern (Suc pi))
      else matchesFrom history pattern pi)"

definition matchesSequence :: "string list \<Rightarrow> string list \<Rightarrow> bool" where
  "matchesSequence history pattern =
     (if pattern = [] \<or> length history < length pattern then False
      else matchesFrom history pattern 0)"

definition SequenceTracker_Record ::
  "SequenceTracker \<Rightarrow> string \<Rightarrow> string \<Rightarrow> string \<Rightarrow> SequenceTracker \<times> SequenceAlert option" where
  "SequenceTracker_Record t sessionID tool identity =
     (if sessionID = [] \<or> st_patterns t = [] then (t, None)
      else
        let hist = (case st_sessions t sessionID of None \<Rightarrow> [] | Some h \<Rightarrow> h) @ [tool];
            hist = keep_last (st_maxHist t) hist;
            t' = t\<lparr>st_sessions := (st_sessions t)(sessionID \<mapsto> hist)\<rparr>
        in (t', map_option (\<lambda>p. \<lparr>sa_Pattern = sq_Name p, sa_Tools = sq_Tools p,
                 sa_Identity = identity, sa_SessionID = sessionID,
                 sa_Action = (if sq_AlertAction p = ''DENY'' then AlertActionDeny
                              else AlertActionLog)\<rparr>)
              (List.find (\<lambda>p. matchesSequence hist (sq_Tools p)) (st_patterns t))))"

definition SequenceTracker_Sweep :: "SequenceTracker \<Rightarrow> SequenceTracker" where
  "SequenceTracker_Sweep t = t\<lparr>st_sessions := (\<lambda>id. case st_sessions t id of
      None \<Rightarrow> None | Some hist \<Rightarrow> if hist = [] then None else Some hist)\<rparr>"

section \<open>Runs of the velocity tracker\<close>

datatype vop = VRecord string string time | VSweep time

fun vop_time :: "vop \<Rightarrow> time" where
  "vop_time (VRecord s tool t) = t"
| "vop_time (VSweep t) = t"

fun vop_exec :: "VelocityTracker \<Rightarrow> vop \<Rightarrow> VelocityTracker" where
  "vop_exec v (VRecord s tool t) = fst (VelocityTracker_Record v s tool t)"
| "vop_exec v (VSweep t) = VelocityTracker_Sweep v t"

fun calls_of :: "string \<Rightarrow> vop list \<Rightarrow> time list" where
  "calls_of s [] = []"
| "calls_of s (VRecord s' tool t # os) = (if s' = s then [t] else []) @ calls_of s os"
| "calls_of s (VSweep t # os) = calls_of s os"

definition window_of :: "VelocityTracker \<Rightarrow> string \<Rightarrow> time list" where
  "window_of v s = (case v_windows v s of None \<Rightarrow> [] | Some w \<Rightarrow> w)"

lemma calls_of_append: "calls_of s (xs @ ys) = calls_of s xs @ calls_of s ys"
  by (induction s xs rule: calls_of.induct) auto

lemma calls_of_times: "set (calls_of s os) \<subseteq> vop_time ` set os"
  by (induction s os rule: calls_of.induct) auto

lemma velocity_config_kept [simp]:
  "v_window (vop_exec v o1) = v_window v"
  "v_threshold (vop_exec v o1) = v_threshold v"
  "v_action (vop_exec v o1) = v_action v"
  by (cases o1; simp add: VelocityTracker_Record_def VelocityTracker_Sweep_def Let_def)+

lemma velocity_config_run [simp]:
  "v_window (foldl vop_exec v os) = v_window v"
  "v_threshold (foldl vop_exec v os) = v_threshold v"
  "v_action (foldl vop_exec v os) = v_action v"
  by (induction os arbitrary: v) auto

lemma window_Record:
  "window_of (fst (VelocityTracker_Record v s tool t)) s' =
     (if s' = s then live (t - v_window v) (window_of v s) @ [t] else window_of v s')"
  by (simp add: window_of_def VelocityTracker_Record_def Let_def)

lemma window_Sweep:
  "window_of (VelocityTracker_Sweep v t) s = window_of v s \<or>
   window_of (VelocityTracker_Sweep v t) s = [] \<and> window_of v s \<noteq> [] \<and>
   last (window_of v s) < t - v_window v * 2"
  by (auto simp: window_of_def VelocityTracker_Sweep_def Let_def split: option.splits)

lemma velocity_windows_run:
  assumes "sorted (map vop_time os)" and "\<forall>o1 \<in> set os. vop_time o1 \<le> now" and "0 < v_window v"
    and "v_windows v = Map.empty"
  shows "sorted (window_of (foldl vop_exec v os) s) \<and>
     set (window_of (foldl vop_exec v os) s) \<subseteq> vop_time ` set os \<and>
     live (now - v_window v) (window_of (foldl vop_exec v os) s) =
       live (now - v_window v) (calls_of s os)"
  using assms
proof (induction os arbitrary: now rule: rev_induct)
  case Nil
  then show ?case by (simp add: window_of_def)
next
  case (snoc o1 os)
  let ?v = "foldl vop_exec v os" and ?w = "v_window v" and ?t = "vop_time o1"
  have le: "?t \<le> now" and pre: "sorted (map vop_time os)" "\<forall>o1 \<in> set os. vop_time o1 \<le> ?t"
    using snoc.prems by (auto simp: sorted_append)
  note IH = snoc.IH [OF pre snoc.prems(3,4)]
  have below: "\<forall>x \<in> set (window_of ?v s). x \<le> ?t" using IH pre by auto
  have main: "sorted (window_of (vop_exec ?v o1) s) \<and>
      set (window_of (vop_exec ?v o1) s) \<subseteq> insert ?t (set (window_of ?v s)) \<and>
      live (?t - ?w) (window_of (vop_exec ?v o1) s) = live (?t - ?w) (calls_of s (os @ [o1]))"
  proof (cases o1)
    case (VRecord s' tool t)
    have "sorted (live (t - ?w) (calls_of s os))"
      using IH VRecord sorted_live [of "window_of ?v s" "t - ?w"] by simp
    then show ?thesis
      using IH below VRecord snoc.prems(3)
      by (auto simp: window_Record calls_of_append live_single sorted_append sorted_live set_live)
  next
    case (VSweep t)
    have "live (t - ?w) (window_of ?v s) = []" if "last (window_of ?v s) < t - ?w * 2"
      using IH that snoc.prems(3) sorted_last_le [of "window_of ?v s"] by (intro live_none) force
    then show ?thesis
      using VSweep IH window_Sweep [of ?v t s] by (auto simp: calls_of_append)
  qed
  have "live (now - ?w) (window_of (vop_exec ?v o1) s) = live (now - ?w) (calls_of s (os @ [o1]))"
    by (rule live_mono_eq [of "?t - ?w"]) (use main le in auto)
  with main IH show ?case by auto
qed

section \<open>Sequence matching\<close>

lemma matchesFrom_subseq:
  "pi < length pattern \<Longrightarrow> matchesFrom history pattern pi \<longleftrightarrow> subseq (drop pi pattern) history"
proof (induction history pattern pi rule: matchesFrom.induct)
  case (1 pattern pi)
  then show ?case by simp
next
  case (2 tool history pattern pi)
  have d: "drop pi pattern = pattern ! pi # drop (Suc pi) pattern"
    using 2 by (simp add: Cons_nth_drop_Suc)
  show ?case
  proof (cases "tool = pattern ! pi")
    case True
    then show ?thesis using 2 by (cases "Suc pi = length pattern") (auto simp: d)
  next
    case False
    then show ?thesis using 2 by (auto simp: d)
  qed
qed

lemma matchesSequence_subseq:
  "matchesSequence history pattern \<longleftrightarrow> pattern \<noteq> [] \<and> subseq pattern history"
  using matchesFrom_subseq [of 0 pattern history] list_emb_length [of "(=)" pattern history]
  by (auto simp: matchesSequence_def)

lemma keep_last_absorb: "keep_last n (keep_last n xs @ [x]) = keep_last n (xs @ [x])"
  by (cases "n < length xs") (auto simp: keep_last_def Suc_diff_le)

text \<open>The tools a session called, in order, and the tracker after those calls.\<close>

definition sq_run :: "SequenceTracker \<Rightarrow> (string \<times> string \<times> string) list \<Rightarrow> SequenceTracker" where
  "sq_run t cs = foldl (\<lambda>t (s, tool, who). fst (SequenceTracker_Record t s tool who)) t cs"

definition tools_of :: "string \<Rightarrow> (string \<times> string \<times> string) list \<Rightarrow> string list" where
  "tools_of s cs = map (\<lambda>(_, tool, _). tool) (filter (\<lambda>(s', _, _). s' = s) cs)"

lemma sq_config [simp]:
  "st_patterns (fst (SequenceTracker_Record t s tool who)) = st_patterns t"
  "st_maxHist (fst (SequenceTracker_Record t s tool who)) = st_maxHist t"
  by (simp_all add: SequenceTracker_Record_def Let_def)

lemma sq_run_snoc: "sq_run t (cs @ [(s, tool, who)]) = fst (SequenceTracker_Record (sq_run t cs) s tool who)"
  by (simp add: sq_run_def)

lemma sq_run_config [simp]:
  "st_patterns (sq_run t cs) = st_patterns t" "st_maxHist (sq_run t cs) = st_maxHist t"
proof (induction cs rule: rev_induct)
  case Nil
  { case 1 show ?case by (simp add: sq_run_def) next case 2 show ?case by (simp add: sq_run_def) }
next
  case (snoc c cs)
  { case 1 show ?case using snoc by (cases c) (simp add: sq_run_snoc)
  next
    case 2 show ?case using snoc by (cases c) (simp add: sq_run_snoc) }
qed

lemma sq_history:
  assumes "st_sessions t = Map.empty" and "st_patterns t \<noteq> []" and "s \<noteq> []"
  shows "(case st_sessions (sq_run t cs) s of None \<Rightarrow> [] | Some h \<Rightarrow> h) =
     keep_last (st_maxHist t) (tools_of s cs)"
proof (induction cs rule: rev_induct)
  case Nil
  then show ?case by (simp add: sq_run_def assms tools_of_def keep_last_def)
next
  case (snoc c cs)
  obtain s' tool who where c: "c = (s', tool, who)" by (cases c)
  show ?case
    using snoc assms
    by (cases "s' = s") (auto simp: c sq_run_snoc SequenceTracker_Record_def Let_def tools_of_def
        keep_last_absorb)
qed

section \<open>Properties\<close>

text \<open>
  The velocity tracker is exact. After any time-ordered run of recorded calls and sweeps,
  a call of a subject raises an alert iff the calls that subject made in the last window, this
  one included, exceed the threshold, and the alert carries that count: sweeping loses nothing
  that still counts, and other subjects' calls never count.
\<close>

theorem velocity_alert_exact:
  assumes "sorted (map vop_time os)" and "\<forall>o1 \<in> set os. vop_time o1 \<le> now"
  shows "(let v = NewVelocityTracker cfg;
       n = Suc (length (live (now - v_window v) (calls_of s os)));
       alert = snd (VelocityTracker_Record (foldl vop_exec v os) s tool now)
     in (alert = None \<longleftrightarrow> int n \<le> v_threshold v) \<and>
        (\<forall>a. alert = Some a \<longrightarrow> al_CallsPerMin a = n \<and> al_Identity a = s \<and> al_Tool a = tool \<and>
           al_Threshold a = v_threshold v \<and> al_Action a = v_action v))"
proof -
  let ?v = "NewVelocityTracker cfg"
  have "0 < v_window ?v" and "v_windows ?v = Map.empty"
    by (simp_all add: NewVelocityTracker_def Let_def duration_defs)
  from velocity_windows_run [OF assms this, of s]
  have "length (live (now - v_window ?v) (window_of (foldl vop_exec ?v os) s)) =
      length (live (now - v_window ?v) (calls_of s os))" by simp
  then show ?thesis
    by (auto simp: VelocityTracker_Record_def Let_def window_of_def)
qed

lemma velocity_alert_exact_witness:
  "snd (VelocityTracker_Record
      (foldl vop_exec (NewVelocityTracker \<lparr>vcf_Threshold = 1, vcf_AlertAction = []\<rparr>)
        [VRecord ''a'' ''t'' 0, VSweep 1]) ''a'' ''t'' 2) \<noteq> None"
  using velocity_alert_exact [of "[VRecord ''a'' ''t'' 0, VSweep 1]" 2
      "\<lparr>vcf_Threshold = 1, vcf_AlertAction = []\<rparr>" "''a''" "''t''"]
  by (simp add: Let_def NewVelocityTracker_def duration_defs live_def del: foldl_Cons)

text \<open>
  The sequence tracker reports exactly the first configured pattern whose tools occur in
  order, with gaps allowed, among the session's last \<open>maxHist\<close> tools, this call included; a
  pattern with no tools never matches, and sessions do not mix.
\<close>

theorem sequence_alert_exact:
  assumes "scf_Patterns cfg \<noteq> []" and "s \<noteq> []"
  shows "(let t = NewSequenceTracker cfg;
       hist = keep_last (st_maxHist t) (tools_of s cs @ [tool])
     in map_option sa_Pattern (snd (SequenceTracker_Record (sq_run t cs) s tool who)) =
        map_option sq_Name
          (List.find (\<lambda>p. sq_Tools p \<noteq> [] \<and> subseq (sq_Tools p) hist) (scf_Patterns cfg)))"
proof -
  let ?t = "NewSequenceTracker cfg"
  have init: "st_sessions ?t = Map.empty" "st_patterns ?t = scf_Patterns cfg"
    by (simp_all add: NewSequenceTracker_def)
  then show ?thesis
    using sq_history [of ?t s cs] assms
    by (simp add: SequenceTracker_Record_def Let_def matchesSequence_subseq keep_last_absorb
        option.map_comp comp_def)
qed

lemma sequence_alert_exact_witness:
  "map_option sa_Pattern (snd (SequenceTracker_Record (sq_run (NewSequenceTracker
      \<lparr>scf_Patterns = [\<lparr>sq_Name = ''p'', sq_Tools = [''a'', ''c''], sq_AlertAction = []\<rparr>],
       scf_MaxHistory = 0\<rparr>) [(''s'', ''a'', ''u''), (''s'', ''b'', ''u'')]) ''s'' ''c'' ''u''))
   = Some ''p''"
  using sequence_alert_exact [of "\<lparr>scf_Patterns =
      [\<lparr>sq_Name = ''p'', sq_Tools = [''a'', ''c''], sq_AlertAction = []\<rparr>], scf_MaxHistory = 0\<rparr>"
      "''s''" "[(''s'', ''a'', ''u''), (''s'', ''b'', ''u'')]" "''c''" "''u''"]
  by (simp add: Let_def NewSequenceTracker_def tools_of_def keep_last_def)

end
