(* ===== verification/Budget.thy ===== *)
theory Budget
  imports Prelude Complex_Main
begin

text \<open>
  Package \<open>budget\<close>: the in-process budget tracker (\<open>tracker.go\<close>) and the cost report over
  it (\<open>cost.go\<close>). A record of use is kept per identity and per session; hourly and daily
  calls are sliding windows, tokens reset when the calendar day changes.
\<close>

section \<open>State and operations of the tracker\<close>

record usageRecord =
  hourlyCalls :: "time list"
  dailyCalls :: "time list"
  dailyTokens :: int
  lastResetDay :: int

record Tracker =
  t_identity :: "string \<rightharpoonup> usageRecord"
  t_sessions :: "string \<rightharpoonup> usageRecord"

record Limits =
  l_MaxCallsPerHour :: int
  l_MaxCallsPerDay :: int
  l_MaxTokensPerDay :: int

definition Tracker_New :: Tracker where
  "Tracker_New = \<lparr>t_identity = Map.empty, t_sessions = Map.empty\<rparr>"

definition trimTimestamps :: "usageRecord \<Rightarrow> time \<Rightarrow> usageRecord" where
  "trimTimestamps rec now =
     (let hourAgo = now - Hour; dayAgo = now - 24 * Hour
      in rec\<lparr>hourlyCalls := live hourAgo (hourlyCalls rec),
             dailyCalls := live dayAgo (dailyCalls rec)\<rparr>)"

definition getOrCreate ::
  "(string \<rightharpoonup> usageRecord) \<Rightarrow> string \<Rightarrow> clock \<Rightarrow> (string \<rightharpoonup> usageRecord) \<times> usageRecord" where
  "getOrCreate m key now =
     (case m key of
        None \<Rightarrow>
          let rec = \<lparr>hourlyCalls = [], dailyCalls = [], dailyTokens = 0, lastResetDay = YearDay now\<rparr>
          in (m(key \<mapsto> rec), rec)
      | Some rec \<Rightarrow>
          let rec = trimTimestamps rec (instant now);
              rec = (if YearDay now \<noteq> lastResetDay rec
                     then rec\<lparr>dailyTokens := 0, lastResetDay := YearDay now\<rparr> else rec)
          in (m(key \<mapsto> rec), rec))"

definition limit_msg :: "string \<Rightarrow> int \<Rightarrow> int \<Rightarrow> string" where
  "limit_msg what n m = what @ '' limit reached ('' @ itoa n @ ''/'' @ itoa m @ '')''"

definition checkLimits :: "usageRecord \<Rightarrow> Limits \<Rightarrow> time \<Rightarrow> usageRecord \<times> string option" where
  "checkLimits rec limits now =
     (let rec = trimTimestamps rec now;
          hourly = int (length (hourlyCalls rec)); daily = int (length (dailyCalls rec))
      in (rec,
          if 0 < l_MaxCallsPerHour limits \<and> l_MaxCallsPerHour limits \<le> hourly
          then Some (limit_msg ''hourly call'' hourly (l_MaxCallsPerHour limits))
          else if 0 < l_MaxCallsPerDay limits \<and> l_MaxCallsPerDay limits \<le> daily
          then Some (limit_msg ''daily call'' daily (l_MaxCallsPerDay limits))
          else if 0 < l_MaxTokensPerDay limits \<and> l_MaxTokensPerDay limits \<le> dailyTokens rec
          then Some (limit_msg ''daily token'' (dailyTokens rec) (l_MaxTokensPerDay limits))
          else None))"

text \<open>One key of one table: the record after the check, and the check's error.\<close>

definition checkKey ::
  "(string \<rightharpoonup> usageRecord) \<Rightarrow> string \<Rightarrow> Limits option \<Rightarrow> clock \<Rightarrow>
     (string \<rightharpoonup> usageRecord) \<times> string option" where
  "checkKey m key lims now =
     (case lims of
        None \<Rightarrow> (m, None)
      | Some l \<Rightarrow>
          if key = [] then (m, None)
          else let (m, rec) = getOrCreate m key now;
                   (rec, err) = checkLimits rec l (instant now)
               in (m(key \<mapsto> rec), err))"

definition appendCall ::
  "(string \<rightharpoonup> usageRecord) \<Rightarrow> string \<Rightarrow> Limits option \<Rightarrow> time \<Rightarrow> (string \<rightharpoonup> usageRecord)" where
  "appendCall m key lims now =
     (if lims \<noteq> None \<and> key \<noteq> []
      then (case m key of
          None \<Rightarrow> m
        | Some rec \<Rightarrow> m(key \<mapsto> rec\<lparr>hourlyCalls := hourlyCalls rec @ [now],
              dailyCalls := dailyCalls rec @ [now]\<rparr>))
      else m)"

definition CheckAndRecord ::
  "Tracker \<Rightarrow> string \<Rightarrow> string \<Rightarrow> Limits option \<Rightarrow> Limits option \<Rightarrow> clock \<Rightarrow> Tracker \<times> string option" where
  "CheckAndRecord t identitySubject sessionID perIdentity perSession now =
     (let (ident, err) = checkKey (t_identity t) identitySubject perIdentity now;
          t = t\<lparr>t_identity := ident\<rparr>
      in case err of
        Some e \<Rightarrow> (t, Some (''identity budget: '' @ e))
      | None \<Rightarrow>
          let (sess, err) = checkKey (t_sessions t) sessionID perSession now;
              t = t\<lparr>t_sessions := sess\<rparr>
          in case err of
            Some e \<Rightarrow> (t, Some (''session budget: '' @ e))
          | None \<Rightarrow>
              (t\<lparr>t_identity := appendCall (t_identity t) identitySubject perIdentity (instant now),
                 t_sessions := appendCall (t_sessions t) sessionID perSession (instant now)\<rparr>,
               None))"

definition addTokens :: "(string \<rightharpoonup> usageRecord) \<Rightarrow> string \<Rightarrow> int \<Rightarrow> (string \<rightharpoonup> usageRecord)" where
  "addTokens m key tokens =
     (case m key of
        None \<Rightarrow> m
      | Some rec \<Rightarrow> m(key \<mapsto> rec\<lparr>dailyTokens := wrap64 (dailyTokens rec + tokens)\<rparr>))"

definition RecordTokens :: "Tracker \<Rightarrow> string \<Rightarrow> string \<Rightarrow> int \<Rightarrow> Tracker" where
  "RecordTokens t identitySubject sessionID tokens =
     t\<lparr>t_identity := addTokens (t_identity t) identitySubject tokens,
       t_sessions := addTokens (t_sessions t) sessionID tokens\<rparr>"

definition GetUsage :: "Tracker \<Rightarrow> string \<Rightarrow> time \<Rightarrow> Tracker \<times> (nat \<times> nat \<times> int)" where
  "GetUsage t identitySubject now =
     (case t_identity t identitySubject of
        None \<Rightarrow> (t, 0, 0, 0)
      | Some rec \<Rightarrow>
          let rec = trimTimestamps rec now
          in (t\<lparr>t_identity := (t_identity t)(identitySubject \<mapsto> rec)\<rparr>,
              length (hourlyCalls rec), length (dailyCalls rec), dailyTokens rec))"

definition sweepTable :: "(string \<rightharpoonup> usageRecord) \<Rightarrow> time \<Rightarrow> (string \<rightharpoonup> usageRecord)" where
  "sweepTable m cutoff = (\<lambda>id. case m id of
      None \<Rightarrow> None
    | Some rec \<Rightarrow> if dailyCalls rec = [] \<or> last (dailyCalls rec) < cutoff then None else Some rec)"

definition Tracker_Sweep :: "Tracker \<Rightarrow> time \<Rightarrow> Tracker" where
  "Tracker_Sweep t now =
     (let cutoff = now - 24 * Hour
      in t\<lparr>t_identity := sweepTable (t_identity t) cutoff,
           t_sessions := sweepTable (t_sessions t) cutoff\<rparr>)"

section \<open>The cost report\<close>

text \<open>Amounts are reals: the rounding of \<open>float64\<close> is not modelled.\<close>

record CostRate =
  CostPerCall :: real
  CostPerToken :: real

record CostConfig =
  DefaultRate :: CostRate
  ToolRates :: "string \<rightharpoonup> CostRate"

definition RateFor :: "CostConfig \<Rightarrow> string \<Rightarrow> CostRate" where
  "RateFor c tool = (case ToolRates c tool of Some r \<Rightarrow> r | None \<Rightarrow> DefaultRate c)"

record UsageEntry =
  ue_Subject :: string
  ue_HourlyCalls :: nat
  ue_DailyCalls :: nat
  ue_DailyTokens :: int
  ue_EstCostUSD :: real

record UsageReport =
  ur_Timestamp :: time
  ur_Identities :: "UsageEntry list"
  ur_Sessions :: "UsageEntry list"
  ur_TotalCost :: real

definition usageEntry :: "CostConfig \<Rightarrow> string \<Rightarrow> usageRecord \<Rightarrow> time \<Rightarrow> UsageEntry" where
  "usageEntry cfg subj rec now =
     (let rec = trimTimestamps rec now; rate = DefaultRate cfg
      in \<lparr>ue_Subject = subj, ue_HourlyCalls = length (hourlyCalls rec),
          ue_DailyCalls = length (dailyCalls rec), ue_DailyTokens = dailyTokens rec,
          ue_EstCostUSD = real (length (dailyCalls rec)) * CostPerCall rate +
            of_int (dailyTokens rec) * CostPerToken rate\<rparr>)"

text \<open>
  The keys of the two tables come in the order \<open>ids\<close>, \<open>ss\<close> in which Go ranges over them;
  the report sorts by decreasing cost.
\<close>

definition GetUsageReport ::
  "Tracker \<Rightarrow> CostConfig \<Rightarrow> string list \<Rightarrow> string list \<Rightarrow> time \<Rightarrow> Tracker \<times> UsageReport" where
  "GetUsageReport t cfg ids ss now =
     (let trim = (\<lambda>m k. map_option (\<lambda>rec. trimTimestamps rec now) (m k));
          entries = (\<lambda>m ks. List.map_filter (\<lambda>k. map_option (\<lambda>rec. usageEntry cfg k rec now) (m k)) ks);
          identities = entries (t_identity t) ids; sess = entries (t_sessions t) ss
      in (t\<lparr>t_identity := trim (t_identity t), t_sessions := trim (t_sessions t)\<rparr>,
          \<lparr>ur_Timestamp = now,
           ur_Identities = sort_key (\<lambda>e. - ue_EstCostUSD e) identities,
           ur_Sessions = sort_key (\<lambda>e. - ue_EstCostUSD e) sess,
           ur_TotalCost = sum_list (map ue_EstCostUSD identities)\<rparr>))"

definition GetToolCost :: "CostConfig \<Rightarrow> string \<Rightarrow> int \<Rightarrow> real" where
  "GetToolCost cfg tool tokens =
     (let rate = RateFor cfg tool in CostPerCall rate + of_int tokens * CostPerToken rate)"

section \<open>Windows of a table\<close>

text \<open>
  The two windows and the two tables behave alike; a span and a side select one of the four
  limiters the tracker contains.
\<close>

datatype span = Hourly | Daily
datatype side = IdentitySide | SessionSide

fun width :: "span \<Rightarrow> duration" where
  "width Hourly = Hour"
| "width Daily = 24 * Hour"

fun spanCalls :: "span \<Rightarrow> usageRecord \<Rightarrow> time list" where
  "spanCalls Hourly r = hourlyCalls r"
| "spanCalls Daily r = dailyCalls r"

fun spanMax :: "span \<Rightarrow> Limits \<Rightarrow> int" where
  "spanMax Hourly l = l_MaxCallsPerHour l"
| "spanMax Daily l = l_MaxCallsPerDay l"

fun table :: "side \<Rightarrow> Tracker \<Rightarrow> string \<rightharpoonup> usageRecord" where
  "table IdentitySide t = t_identity t"
| "table SessionSide t = t_sessions t"

definition calls_at :: "span \<Rightarrow> (string \<rightharpoonup> usageRecord) \<Rightarrow> string \<Rightarrow> time list" where
  "calls_at sp m k = (case m k of None \<Rightarrow> [] | Some r \<Rightarrow> spanCalls sp r)"

definition rec_ok :: "time \<Rightarrow> usageRecord \<Rightarrow> bool" where
  "rec_ok t r \<longleftrightarrow> sorted (dailyCalls r) \<and> (\<forall>x \<in> set (dailyCalls r). x \<le> t) \<and>
     set (hourlyCalls r) \<subseteq> set (dailyCalls r)"

definition table_ok :: "time \<Rightarrow> (string \<rightharpoonup> usageRecord) \<Rightarrow> bool" where
  "table_ok t m \<longleftrightarrow> (\<forall>k r. m k = Some r \<longrightarrow> rec_ok t r)"

definition tracker_ok :: "time \<Rightarrow> Tracker \<Rightarrow> bool" where
  "tracker_ok t s \<longleftrightarrow> table_ok t (t_identity s) \<and> table_ok t (t_sessions s)"

lemma width_pos: "0 < width sp"
  by (cases sp) (simp_all add: duration_defs)

lemma width_le_day: "width sp \<le> 24 * Hour"
  by (cases sp) (simp_all add: duration_defs)

lemma spanCalls_trim:
  "live (now - width sp) (spanCalls sp (trimTimestamps r now)) = live (now - width sp) (spanCalls sp r)"
  "spanCalls sp (trimTimestamps r now) = live (now - width sp) (spanCalls sp r)"
  by (cases sp; simp add: trimTimestamps_def Let_def)+

lemma rec_ok_trim: "rec_ok t r \<Longrightarrow> rec_ok t (trimTimestamps r now)"
  by (auto simp: rec_ok_def trimTimestamps_def Let_def set_live duration_defs live_def
      sorted_filter [where f = "\<lambda>x. x", simplified])

lemma rec_ok_append:
  "rec_ok t r \<Longrightarrow> rec_ok t (r\<lparr>hourlyCalls := hourlyCalls r @ [t], dailyCalls := dailyCalls r @ [t]\<rparr>)"
  by (auto simp: rec_ok_def sorted_append)

lemma rec_ok_later: "rec_ok t r \<Longrightarrow> t \<le> t' \<Longrightarrow> rec_ok t' r"
  by (auto simp: rec_ok_def)

lemma tracker_ok_later: "tracker_ok t s \<Longrightarrow> t \<le> t' \<Longrightarrow> tracker_ok t' s"
  unfolding tracker_ok_def table_ok_def using rec_ok_later by blast

text \<open>What the check of one key does to a table: it may trim that key, and nothing else.\<close>

lemma spanCalls_tokens [simp]: "spanCalls sp (r\<lparr>dailyTokens := a, lastResetDay := d\<rparr>) = spanCalls sp r"
  "spanCalls sp (r\<lparr>dailyTokens := a\<rparr>) = spanCalls sp r"
  by (cases sp; simp)+

lemma rec_ok_tokens [simp]: "rec_ok t (r\<lparr>dailyTokens := a, lastResetDay := d\<rparr>) = rec_ok t r"
  "rec_ok t (r\<lparr>dailyTokens := a\<rparr>) = rec_ok t r"
  by (simp_all add: rec_ok_def)

lemma spanCalls_empty [simp]:
  "spanCalls sp \<lparr>hourlyCalls = [], dailyCalls = [], dailyTokens = a, lastResetDay = d\<rparr> = []"
  by (cases sp) auto

lemma getOrCreate_calls:
  assumes "getOrCreate m key now = (m', r)"
  shows "m' = m(key \<mapsto> r) \<and>
     live (instant now - width sp) (spanCalls sp r) = live (instant now - width sp) (calls_at sp m key)"
  using assms
  by (auto simp: getOrCreate_def calls_at_def Let_def spanCalls_trim split: option.splits if_splits)

lemma getOrCreate_ok:
  assumes "getOrCreate m key now = (m', r)" and "table_ok t m"
  shows "rec_ok t r"
proof (cases "m key")
  case None
  then show ?thesis using assms(1) by (auto simp: getOrCreate_def rec_ok_def Let_def)
next
  case (Some r0)
  then have "rec_ok t (trimTimestamps r0 (instant now))"
    using assms(2) by (auto simp: table_ok_def intro: rec_ok_trim)
  then show ?thesis using assms(1) Some by (auto simp: getOrCreate_def Let_def split: if_splits)
qed

lemma checkLimits_rec: "checkLimits r l now = (r', e) \<Longrightarrow> r' = trimTimestamps r now"
  by (simp add: checkLimits_def Let_def)

lemma checkKey_other: "checkKey m key lims now = (m', e) \<Longrightarrow> j \<noteq> key \<Longrightarrow> m' j = m j"
  by (auto simp: checkKey_def getOrCreate_def Let_def split: option.splits if_splits prod.splits)

lemma checkKey_calls:
  assumes "checkKey m key lims now = (m', e)"
  shows "live (instant now - width sp) (calls_at sp m' j) = live (instant now - width sp) (calls_at sp m j)"
proof (cases "lims = None \<or> key = [] \<or> j \<noteq> key")
  case True
  then show ?thesis
    using assms checkKey_other [OF assms] by (auto simp: checkKey_def calls_at_def split: option.splits)
next
  case False
  then obtain l m1 r1 where "lims = Some l" and g: "getOrCreate m key now = (m1, r1)"
    and "m' = m1(key \<mapsto> trimTimestamps r1 (instant now))"
    using assms by (auto simp: checkKey_def Let_def checkLimits_def split: prod.splits)
  with False getOrCreate_calls [OF g, of sp] show ?thesis
    by (simp add: calls_at_def spanCalls_trim)
qed

lemma checkKey_present:
  "checkKey m key lims now = (m', e) \<Longrightarrow> lims = None \<or> key = [] \<or> (\<exists>r. m' key = Some r)"
  by (auto simp: checkKey_def Let_def split: prod.splits if_splits)

lemma checkKey_ok:
  assumes "checkKey m key lims now = (m', e)" and "table_ok t m"
  shows "table_ok t m'"
proof -
  have "rec_ok t r'" if "m' key = Some r'" for r'
    using assms that
    by (auto simp: checkKey_def Let_def checkLimits_def table_ok_def
        split: option.splits if_splits prod.splits
        intro!: rec_ok_trim dest: getOrCreate_ok [OF _ assms(2)])
  then show ?thesis
    using assms(2) checkKey_other [OF assms(1)] unfolding table_ok_def by metis
qed

lemma checkKey_room:
  assumes "checkKey m key (Some l) now = (m', None)" and "key \<noteq> []" and "0 < spanMax sp l"
  shows "int (length (live (instant now - width sp) (calls_at sp m key))) < spanMax sp l"
proof -
  obtain m1 r1 where g: "getOrCreate m key now = (m1, r1)"
    and c: "snd (checkLimits r1 l (instant now)) = None"
    using assms(1,2) by (auto simp: checkKey_def Let_def split: prod.splits)
  have "int (length (spanCalls sp (trimTimestamps r1 (instant now)))) < spanMax sp l"
    using c assms(3) by (cases sp) (auto simp: checkLimits_def Let_def split: if_splits)
  then show ?thesis using getOrCreate_calls [OF g, of sp] by (simp add: spanCalls_trim)
qed

lemma appendCall_calls:
  "calls_at sp (appendCall m key lims now) j =
     calls_at sp m j @ (if j = key \<and> lims \<noteq> None \<and> key \<noteq> [] \<and> m key \<noteq> None then [now] else [])"
  by (cases sp) (auto simp: calls_at_def appendCall_def split: option.splits)

lemma appendCall_ok: "table_ok now m \<Longrightarrow> table_ok now (appendCall m key lims now)"
  by (auto simp: table_ok_def appendCall_def intro: rec_ok_append split: option.splits if_splits)

section \<open>The tracker as a limiter\<close>

lemma CheckAndRecord_cases:
  assumes "CheckAndRecord t subj sess li ls now = (t', e)"
  obtains (identity) m e1 where "checkKey (t_identity t) subj li now = (m, Some e1)"
      "t' = t\<lparr>t_identity := m\<rparr>" "e = Some (''identity budget: '' @ e1)"
  | (session) m m2 e2 where "checkKey (t_identity t) subj li now = (m, None)"
      "checkKey (t_sessions t) sess ls now = (m2, Some e2)"
      "t' = t\<lparr>t_identity := m, t_sessions := m2\<rparr>" "e = Some (''session budget: '' @ e2)"
  | (charged) m m2 where "checkKey (t_identity t) subj li now = (m, None)"
      "checkKey (t_sessions t) sess ls now = (m2, None)"
      "t' = t\<lparr>t_identity := appendCall m subj li (instant now),
              t_sessions := appendCall m2 sess ls (instant now)\<rparr>" "e = None"
proof -
  obtain m e1 where 1: "checkKey (t_identity t) subj li now = (m, e1)" by fastforce
  obtain m2 e2 where 2: "checkKey (t_sessions t) sess ls now = (m2, e2)" by fastforce
  show ?thesis
    using assms that 1 2 by (cases e1; cases e2) (auto simp: CheckAndRecord_def Let_def)
qed

fun keyOf :: "side \<Rightarrow> 'k \<Rightarrow> 'k \<Rightarrow> 'k" where
  "keyOf IdentitySide a b = a"
| "keyOf SessionSide a b = b"

definition recorded_at :: "span \<Rightarrow> side \<Rightarrow> string \<Rightarrow> Tracker \<Rightarrow> time list" where
  "recorded_at sp sd k t = calls_at sp (table sd t) k"

text \<open>Whether a call presented with these keys and limits is written down under \<open>k\<close>.\<close>

definition charges_key :: "side \<Rightarrow> string \<Rightarrow> string \<Rightarrow> string \<Rightarrow> Limits option \<Rightarrow> Limits option \<Rightarrow> bool" where
  "charges_key sd k subj sess li ls \<longleftrightarrow> k \<noteq> [] \<and> keyOf sd subj sess = k \<and> keyOf sd li ls \<noteq> None"

lemma CheckAndRecord_recorded:
  assumes "CheckAndRecord t subj sess li ls now = (t', e)"
  shows "live (instant now - width sp) (recorded_at sp sd k t') =
     live (instant now - width sp) (recorded_at sp sd k t) @
       (if e = None \<and> charges_key sd k subj sess li ls then [instant now] else [])"
  using assms
proof (cases rule: CheckAndRecord_cases)
  case (identity m e1)
  then show ?thesis
    using checkKey_calls [OF identity(1)] by (cases sd) (auto simp: recorded_at_def)
next
  case (session m m2 e2)
  then show ?thesis
    using checkKey_calls [OF session(1)] checkKey_calls [OF session(2)]
    by (cases sd) (auto simp: recorded_at_def)
next
  case (charged m m2)
  then show ?thesis
    using checkKey_calls [OF charged(1)] checkKey_calls [OF charged(2)] width_pos [of sp]
      checkKey_present [OF charged(1)] checkKey_present [OF charged(2)]
    by (cases sd) (auto simp: recorded_at_def appendCall_calls charges_key_def live_single)
qed

lemma CheckAndRecord_room:
  assumes "CheckAndRecord t subj sess li ls now = (t', None)"
    and "charges_key sd k subj sess li ls" and "keyOf sd li ls = Some l" and "0 < spanMax sp l"
  shows "int (length (live (instant now - width sp) (recorded_at sp sd k t))) < spanMax sp l"
  using assms(1)
proof (cases rule: CheckAndRecord_cases)
  case (charged m m2)
  then show ?thesis
    using assms checkKey_room [of "t_identity t" subj l now m sp]
      checkKey_room [of "t_sessions t" sess l now m2 sp]
    by (cases sd) (auto simp: recorded_at_def charges_key_def)
qed auto

lemma CheckAndRecord_ok:
  assumes "CheckAndRecord t subj sess li ls now = (t', e)" and "tracker_ok (instant now) t"
  shows "tracker_ok (instant now) t'"
proof -
  have ok: "table_ok (instant now) (t_identity t)" "table_ok (instant now) (t_sessions t)"
    using assms(2) by (simp_all add: tracker_ok_def)
  from assms(1) show ?thesis
  proof (cases rule: CheckAndRecord_cases)
    case (identity m e1)
    then show ?thesis using checkKey_ok [OF identity(1) ok(1)] ok by (simp add: tracker_ok_def)
  next
    case (session m m2 e2)
    then show ?thesis
      using checkKey_ok [OF session(1) ok(1)] checkKey_ok [OF session(2) ok(2)]
      by (simp add: tracker_ok_def)
  next
    case (charged m m2)
    then show ?thesis
      using checkKey_ok [OF charged(1) ok(1)] checkKey_ok [OF charged(2) ok(2)]
      by (simp add: tracker_ok_def appendCall_ok)
  qed
qed

text \<open>Every operation of the tracker, as one step of a run.\<close>

datatype budget_op =
    BCharge string string "Limits option" "Limits option" int
  | BTokens string string int
  | BUsage string
  | BSweep

fun budget_exec :: "Tracker \<Rightarrow> budget_op \<Rightarrow> time \<Rightarrow> Tracker \<times> bool" where
  "budget_exec t (BCharge subj sess li ls day) now =
     (let (t', e) = CheckAndRecord t subj sess li ls \<lparr>instant = now, YearDay = day\<rparr> in (t', e = None))"
| "budget_exec t (BTokens subj sess n) now = (RecordTokens t subj sess n, False)"
| "budget_exec t (BUsage subj) now = (fst (GetUsage t subj now), False)"
| "budget_exec t BSweep now = (Tracker_Sweep t now, False)"

fun budget_counts :: "side \<Rightarrow> string \<Rightarrow> budget_op \<Rightarrow> bool" where
  "budget_counts sd k (BCharge subj sess li ls day) = charges_key sd k subj sess li ls"
| "budget_counts sd k _ = False"

text \<open>The runs the bound is about: whoever charges \<open>k\<close> does so under a limit of at most \<open>cap\<close>.\<close>

fun budget_capped :: "span \<Rightarrow> side \<Rightarrow> string \<Rightarrow> nat \<Rightarrow> budget_op \<Rightarrow> bool" where
  "budget_capped sp sd k cap (BCharge subj sess li ls day) =
     (charges_key sd k subj sess li ls \<longrightarrow>
        (case keyOf sd li ls of None \<Rightarrow> False | Some l \<Rightarrow> 0 < spanMax sp l \<and> spanMax sp l \<le> int cap))"
| "budget_capped sp sd k cap _ = True"

lemma addTokens_calls: "calls_at sp (addTokens m key n) k = calls_at sp m k"
  by (auto simp: calls_at_def addTokens_def split: option.splits)

lemma addTokens_ok: "table_ok t m \<Longrightarrow> table_ok t (addTokens m key n)"
  by (auto simp: table_ok_def addTokens_def split: option.splits if_splits)

lemma sweepTable_ok: "table_ok t m \<Longrightarrow> table_ok t (sweepTable m c)"
  by (auto simp: table_ok_def sweepTable_def split: option.splits if_splits)

lemma rec_stale:
  assumes "rec_ok t r" and "dailyCalls r = [] \<or> last (dailyCalls r) < now - 24 * Hour"
  shows "live (now - width sp) (spanCalls sp r) = []"
proof -
  have "x \<le> now - width sp" if "x \<in> set (spanCalls sp r)" for x
  proof -
    have "x \<in> set (dailyCalls r)" using that assms(1) by (cases sp) (auto simp: rec_ok_def)
    moreover have "sorted (dailyCalls r)" using assms(1) by (simp add: rec_ok_def)
    ultimately have "x \<le> last (dailyCalls r)" and "dailyCalls r \<noteq> []"
      by (auto intro: sorted_last_le)
    with assms(2) width_le_day [of sp] show ?thesis by auto
  qed
  then show ?thesis by (intro live_none) blast
qed

lemma sweepTable_calls:
  assumes "table_ok t m"
  shows "live (now - width sp) (calls_at sp (sweepTable m (now - 24 * Hour)) k) =
     live (now - width sp) (calls_at sp m k)"
  using assms rec_stale [of t _ now sp]
  by (auto simp: calls_at_def sweepTable_def table_ok_def split: option.splits)

lemma budget_exec_other_calls:
  assumes "budget_exec t o1 now = (t', b)" and "tracker_ok now t" and "\<not> budget_counts sd k o1"
  shows "live (now - width sp) (recorded_at sp sd k t') = live (now - width sp) (recorded_at sp sd k t)"
proof (cases o1)
  case (BCharge subj sess li ls day)
  then show ?thesis
    using assms(1,3) CheckAndRecord_recorded
      [of t subj sess li ls "\<lparr>instant = now, YearDay = day\<rparr>" t' _ sp sd k]
    by (auto split: prod.splits)
next
  case (BUsage subj)
  then show ?thesis
    using assms(1) by (cases sd)
      (auto simp: GetUsage_def recorded_at_def calls_at_def Let_def spanCalls_trim split: option.splits if_splits)
next
  case BSweep
  then show ?thesis
    using assms(1,2) sweepTable_calls [of now _ now sp k]
    by (cases sd) (auto simp: recorded_at_def Tracker_Sweep_def Let_def tracker_ok_def)
next
  case (BTokens subj sess n)
  then show ?thesis
    using assms(1) by (cases sd) (auto simp: recorded_at_def RecordTokens_def addTokens_calls)
qed

lemma budget_exec_ok:
  assumes "budget_exec t o1 now = (t', b)" and "tracker_ok now t"
  shows "tracker_ok now t'"
proof (cases o1)
  case (BCharge subj sess li ls day)
  then show ?thesis
    using assms CheckAndRecord_ok [of t subj sess li ls "\<lparr>instant = now, YearDay = day\<rparr>" t']
    by (auto split: prod.splits)
next
  case (BUsage subj)
  have "\<forall>r. t_identity t subj = Some r \<longrightarrow> rec_ok now (trimTimestamps r now)"
    using assms(2) rec_ok_trim by (auto simp: tracker_ok_def table_ok_def)
  then show ?thesis
    using assms BUsage
    by (auto simp: GetUsage_def Let_def tracker_ok_def table_ok_def split: option.splits if_splits)
next
  case BSweep
  then show ?thesis
    using assms by (auto simp: Tracker_Sweep_def Let_def tracker_ok_def sweepTable_ok)
next
  case (BTokens subj sess n)
  then show ?thesis
    using assms by (auto simp: RecordTokens_def tracker_ok_def addTokens_ok)
qed

lemma budget_exec_counted:
  assumes "budget_exec t o1 now = (t', b)" and "budget_counts sd k o1"
  shows "live (now - width sp) (recorded_at sp sd k t') =
     live (now - width sp) (recorded_at sp sd k t) @ (if b then [now] else [])"
  using assms
  by (cases o1) (auto split: prod.splits dest!: CheckAndRecord_recorded [of _ _ _ _ _ _ _ _ sp sd k])

lemma budget_exec_room:
  assumes "budget_exec t o1 now = (t', True)" and "budget_counts sd k o1"
    and "budget_capped sp sd k cap o1"
  shows "length (live (now - width sp) (recorded_at sp sd k t)) < cap"
proof (cases o1)
  case (BCharge subj sess li ls day)
  then obtain l where l: "keyOf sd li ls = Some l" "0 < spanMax sp l" "spanMax sp l \<le> int cap"
    using assms(2,3) by (auto split: option.splits)
  have "CheckAndRecord t subj sess li ls \<lparr>instant = now, YearDay = day\<rparr> = (t', None)"
    using assms(1) BCharge by (auto split: prod.splits)
  from CheckAndRecord_room [OF this _ l(1,2), of k] show ?thesis
    using assms(2) BCharge l(3) by simp
qed (use assms in auto)

interpretation budget: sliding_limiter "width sp" cap "recorded_at sp sd k" budget_exec
    "budget_counts sd k" "budget_capped sp sd k cap" tracker_ok
  for sp cap sd k
proof unfold_locales
  fix now t o1 t'
  assume "tracker_ok now t" and "budget_exec t o1 now = (t', False)"
  then show "live (now - width sp) (recorded_at sp sd k t') =
      live (now - width sp) (recorded_at sp sd k t)"
    by (cases "budget_counts sd k o1") (auto simp: budget_exec_counted budget_exec_other_calls)
qed (auto intro: width_pos tracker_ok_later budget_exec_ok budget_exec_room budget_exec_other_calls
    simp: budget_exec_counted)

section \<open>Exactness of a refusal\<close>

text \<open>The tokens on the books of a key today, and when a limit leaves no room.\<close>

definition tokens_today :: "(string \<rightharpoonup> usageRecord) \<Rightarrow> string \<Rightarrow> clock \<Rightarrow> int" where
  "tokens_today m k now = (case m k of
      None \<Rightarrow> 0
    | Some r \<Rightarrow> if YearDay now \<noteq> lastResetDay r then 0 else dailyTokens r)"

definition exhausted :: "(string \<rightharpoonup> usageRecord) \<Rightarrow> string \<Rightarrow> Limits \<Rightarrow> clock \<Rightarrow> bool" where
  "exhausted m k l now \<longleftrightarrow>
     (\<exists>sp. 0 < spanMax sp l \<and>
        spanMax sp l \<le> int (length (live (instant now - width sp) (calls_at sp m k)))) \<or>
     0 < l_MaxTokensPerDay l \<and> l_MaxTokensPerDay l \<le> tokens_today m k now"

lemma ex_span: "(\<exists>sp. P sp) \<longleftrightarrow> P Hourly \<or> P Daily"
  by (metis span.exhaust)

lemma checkKey_exact:
  assumes "checkKey m key lims now = (m', e)"
  shows "e \<noteq> None \<longleftrightarrow> key \<noteq> [] \<and> (\<exists>l. lims = Some l \<and> exhausted m key l now)"
proof (cases "lims = None \<or> key = []")
  case True
  then show ?thesis using assms by (auto simp: checkKey_def split: option.splits)
next
  case False
  then obtain l where l: "lims = Some l" "key \<noteq> []" by auto
  obtain m1 r1 where g: "getOrCreate m key now = (m1, r1)" by fastforce
  then have "snd (checkLimits r1 l (instant now)) = e"
    using assms l by (auto simp: checkKey_def Let_def split: prod.splits)
  moreover have "dailyTokens r1 = tokens_today m key now"
    using g by (auto simp: getOrCreate_def tokens_today_def Let_def trimTimestamps_def
        split: option.splits if_splits)
  moreover have "spanCalls sp (trimTimestamps r1 (instant now)) =
      live (instant now - width sp) (calls_at sp m key)" for sp
    using getOrCreate_calls [OF g, of sp] by (simp add: spanCalls_trim)
  note this [of Hourly] this [of Daily]
  moreover have "dailyTokens (trimTimestamps r1 (instant now)) = dailyTokens r1"
    by (simp add: trimTimestamps_def Let_def)
  ultimately show ?thesis
    by (auto simp: l exhausted_def ex_span checkLimits_def Let_def split: if_splits)
qed

text \<open>Runs that only charge calls never put a token on the books.\<close>

definition tokenless :: "(string \<rightharpoonup> usageRecord) \<Rightarrow> bool" where
  "tokenless m \<longleftrightarrow> (\<forall>k r. m k = Some r \<longrightarrow> dailyTokens r = 0)"

definition no_tokens :: "Tracker \<Rightarrow> bool" where
  "no_tokens t \<longleftrightarrow> (\<forall>sd. tokenless (table sd t))"

lemma tokenless_upd: "tokenless m \<Longrightarrow> dailyTokens r = 0 \<Longrightarrow> tokenless (m(k \<mapsto> r))"
  by (simp add: tokenless_def)

lemma checkKey_no_tokens:
  assumes "checkKey m key lims now = (m', e)" and "tokenless m"
  shows "tokenless m'"
proof -
  obtain m1 r1 where g: "getOrCreate m key now = (m1, r1)" by fastforce
  have "dailyTokens r1 = 0"
    using g assms(2) by (auto simp: getOrCreate_def tokenless_def trimTimestamps_def Let_def
        split: option.splits if_splits)
  moreover have "m1 = m(key \<mapsto> r1)" using getOrCreate_calls [OF g] by simp
  ultimately show ?thesis
    using assms g by (auto simp: checkKey_def checkLimits_def trimTimestamps_def Let_def
        intro!: tokenless_upd split: option.splits if_splits prod.splits)
qed

lemma appendCall_no_tokens: "tokenless m \<Longrightarrow> tokenless (appendCall m key lims now)"
  by (auto simp: appendCall_def tokenless_def split: option.splits)

lemma all_side: "(\<forall>sd. P sd) \<longleftrightarrow> P IdentitySide \<and> P SessionSide"
  by (metis side.exhaust)

lemma CheckAndRecord_no_tokens:
  assumes "CheckAndRecord t subj sess li ls now = (t', e)" and "no_tokens t"
  shows "no_tokens t'"
  using assms(1)
proof (cases rule: CheckAndRecord_cases)
  case (identity m e1)
  then show ?thesis
    using checkKey_no_tokens [OF identity(1)] assms(2) by (simp add: no_tokens_def all_side)
next
  case (session m m2 e2)
  then show ?thesis
    using checkKey_no_tokens [OF session(1)] checkKey_no_tokens [OF session(2)] assms(2)
    by (simp add: no_tokens_def all_side)
next
  case (charged m m2)
  then show ?thesis
    using checkKey_no_tokens [OF charged(1)] checkKey_no_tokens [OF charged(2)] assms(2)
    by (simp add: no_tokens_def all_side appendCall_no_tokens)
qed

lemma CheckAndRecord_refused:
  "snd (CheckAndRecord t subj sess li ls now) \<noteq> None \<longleftrightarrow>
     (\<exists>sd l. keyOf sd subj sess \<noteq> [] \<and> keyOf sd li ls = Some l \<and>
        exhausted (table sd t) (keyOf sd subj sess) l now)"
proof -
  have ex_side: "(\<exists>sd. P sd) \<longleftrightarrow> P IdentitySide \<or> P SessionSide" for P
    by (metis side.exhaust)
  obtain t' e where c: "CheckAndRecord t subj sess li ls now = (t', e)" by fastforce
  then show ?thesis
  proof (cases rule: CheckAndRecord_cases)
    case (identity m e1)
    then show ?thesis using checkKey_exact [OF identity(1)] c by (auto simp: ex_side)
  next
    case (session m m2 e2)
    then show ?thesis using checkKey_exact [OF session(2)] c by (auto simp: ex_side)
  next
    case (charged m m2)
    then show ?thesis
      using checkKey_exact [OF charged(1)] checkKey_exact [OF charged(2)] c by (auto simp: ex_side)
  qed
qed

section \<open>Properties\<close>

text \<open>
  C23. Budgets hold over every window. In any time-ordered run of the tracker from its empty
  state (charged calls, token records, usage queries, sweeps, for any identities and sessions),
  if every call charged to a key is charged under an hourly (daily) limit of at most \<open>cap\<close>,
  then no hour (day), wherever it starts, holds more than \<open>cap\<close> admitted calls of that key.
\<close>

theorem budget_window_bound:
  assumes "sorted (map snd cs)" and "\<forall>(o1, t) \<in> set cs. budget_capped sp sd k cap o1"
  shows "in_window (width sp) t (admitted_by budget_exec (budget_counts sd k) Tracker_New cs) \<le> cap"
proof -
  define t0 where "t0 = (case cs of [] \<Rightarrow> 0 | c # _ \<Rightarrow> snd c)"
  have "budget.good_run sp sd k cap t0 Tracker_New cs"
    using assms unfolding budget.good_run_def t0_def
    by (cases cs; cases sd) (auto simp: Tracker_New_def recorded_at_def calls_at_def tracker_ok_def
        table_ok_def)
  then show ?thesis by (rule budget.window_bound)
qed

definition demo_limits :: Limits where
  "demo_limits = \<lparr>l_MaxCallsPerHour = 1, l_MaxCallsPerDay = 0, l_MaxTokensPerDay = 0\<rparr>"

lemma budget_window_bound_witness:
  "in_window Hour 9 (admitted_by budget_exec (budget_counts IdentitySide ''a'') Tracker_New
      [(BCharge ''a'' [] (Some demo_limits) None 1, 0), (BSweep, 4),
       (BCharge ''a'' [] (Some demo_limits) None 1, 8)]) \<le> 1"
  using budget_window_bound [of "[(BCharge ''a'' [] (Some demo_limits) None 1, 0), (BSweep, 4),
      (BCharge ''a'' [] (Some demo_limits) None 1, 8)]" Hourly IdentitySide "''a''" 1 9]
  by (simp add: demo_limits_def del: admitted_by.simps)

text \<open>
  A call is charged to all of its keys or to none. When the check fails, what is live in
  every window of every identity and session is what it was; when it succeeds, exactly the
  identity and the session that carry a limit gain this call, and nobody else.
\<close>

theorem CheckAndRecord_all_or_nothing:
  assumes "CheckAndRecord t subj sess li ls now = (t', e)"
  shows "(e \<noteq> None \<longrightarrow> (\<forall>sp sd k. live (instant now - width sp) (recorded_at sp sd k t') =
            live (instant now - width sp) (recorded_at sp sd k t))) \<and>
     (e = None \<longrightarrow> (\<forall>sp sd k. live (instant now - width sp) (recorded_at sp sd k t') =
            live (instant now - width sp) (recorded_at sp sd k t) @
              (if charges_key sd k subj sess li ls then [instant now] else [])))"
  using CheckAndRecord_recorded [OF assms] by auto

lemma CheckAndRecord_all_or_nothing_witness:
  "live (5 - Hour) (recorded_at Hourly IdentitySide ''a'' (fst (CheckAndRecord Tracker_New ''a'' ''s''
      (Some demo_limits) (Some demo_limits) \<lparr>instant = 5, YearDay = 1\<rparr>))) = [5]"
  using CheckAndRecord_all_or_nothing [of Tracker_New "''a''" "''s''" "Some demo_limits"
      "Some demo_limits" "\<lparr>instant = 5, YearDay = 1\<rparr>"
      "fst (CheckAndRecord Tracker_New ''a'' ''s'' (Some demo_limits) (Some demo_limits)
         \<lparr>instant = 5, YearDay = 1\<rparr>)" None]
  by (simp add: CheckAndRecord_def checkKey_def getOrCreate_def checkLimits_def trimTimestamps_def
      demo_limits_def Tracker_New_def recorded_at_def calls_at_def appendCall_def Let_def live_def
      duration_defs)

text \<open>
  A refusal is never spurious and never missed: the check fails iff the identity or the
  session that carries a limit has no room left, in its hour, its day or its tokens of today.
\<close>

theorem CheckAndRecord_exact:
  "snd (CheckAndRecord t subj sess li ls now) \<noteq> None \<longleftrightarrow>
     (\<exists>sd l. keyOf sd subj sess \<noteq> [] \<and> keyOf sd li ls = Some l \<and>
        exhausted (table sd t) (keyOf sd subj sess) l now)"
  by (rule CheckAndRecord_refused)

end
