(* ===== verification/Gates.thy ===== *)
theory Gates
  imports Policy Registry Circuit Anomaly Budget
begin

text \<open>
  Package \<open>gates\<close>: the checks every front door runs around a policy decision. The struct
  holds pointers to shared state; here it holds the state itself, \<open>None\<close> for a nil member, and
  each operation returns it updated. The readings of the clock within one call are one
  argument.
\<close>

section \<open>Names of gates and reason classes\<close>

definition GateRegistry :: string where "GateRegistry = ''registry''"
definition GateCircuit :: string where "GateCircuit = ''circuit''"
definition GateBudget :: string where "GateBudget = ''budget''"
definition GateAnomaly :: string where "GateAnomaly = ''anomaly''"
definition GateRate :: string where "GateRate = ''rate''"

definition ReasonToolNotRegistered :: string where "ReasonToolNotRegistered = ''tool_not_registered''"
definition ReasonCircuitOpen :: string where "ReasonCircuitOpen = ''circuit_open''"
definition ReasonBudgetExhausted :: string where "ReasonBudgetExhausted = ''budget_exhausted''"
definition ReasonBudgetUnattributable :: string where
  "ReasonBudgetUnattributable = ''budget_unattributable''"
definition ReasonVelocityLimit :: string where "ReasonVelocityLimit = ''velocity_limit''"
definition ReasonRateLimited :: string where "ReasonRateLimited = ''rate_limited''"
definition ReasonRateUnattributable :: string where "ReasonRateUnattributable = ''rate_unattributable''"

lemmas gate_defs [nf_defs] = GateRegistry_def GateCircuit_def GateBudget_def GateAnomaly_def
  GateRate_def ReasonToolNotRegistered_def ReasonCircuitOpen_def ReasonBudgetExhausted_def
  ReasonBudgetUnattributable_def ReasonVelocityLimit_def ReasonRateLimited_def
  ReasonRateUnattributable_def

section \<open>Rate limits\<close>

record Rates =
  rt_calls :: "string \<Rightarrow> time list"

definition NewRates :: Rates where
  "NewRates = \<lparr>rt_calls = (\<lambda>_. [])\<rparr>"

record rateLimit =
  rl_scope :: string
  rl_max :: int

definition rateKey :: "rateLimit \<Rightarrow> string \<Rightarrow> string" where
  "rateKey l subject = rl_scope l @ CHR 0x00 # subject"

text \<open>The first loop trims and tests each limit in turn; the second records the call.\<close>

fun takeTrim :: "(string \<Rightarrow> time list) \<Rightarrow> string \<Rightarrow> rateLimit list \<Rightarrow> time \<Rightarrow>
    (string \<Rightarrow> time list) \<times> rateLimit option" where
  "takeTrim calls subject [] now = (calls, None)"
| "takeTrim calls subject (l # ls) now =
     (let key = rateKey l subject;
          lv = live (now - Minute) (calls key);
          calls = calls(key := lv)
      in if rl_max l \<le> int (length lv) then (calls, Some l)
         else takeTrim calls subject ls now)"

fun takeRecord :: "(string \<Rightarrow> time list) \<Rightarrow> string \<Rightarrow> rateLimit list \<Rightarrow> time \<Rightarrow> (string \<Rightarrow> time list)" where
  "takeRecord calls subject [] now = calls"
| "takeRecord calls subject (l # ls) now =
     takeRecord (calls(rateKey l subject := calls (rateKey l subject) @ [now])) subject ls now"

text \<open>\<open>None\<close> is success; \<open>Some l\<close> names the limit that is full.\<close>

definition Rates_take :: "Rates \<Rightarrow> string \<Rightarrow> rateLimit list \<Rightarrow> time \<Rightarrow> Rates \<times> rateLimit option" where
  "Rates_take r subject limits now =
     (case takeTrim (rt_calls r) subject limits now of
        (calls, Some l) \<Rightarrow> (r\<lparr>rt_calls := calls\<rparr>, Some l)
      | (calls, None) \<Rightarrow> (r\<lparr>rt_calls := takeRecord calls subject limits now\<rparr>, None))"

section \<open>The gates\<close>

record Gates =
  g_Registry :: "Registry option"
  g_Breaker :: "Breaker option"
  g_Budgets :: "Tracker option"
  g_Velocity :: "VelocityTracker option"
  g_Rates :: "Rates option"

record Call =
  c_Tool :: string
  c_Subject :: string
  c_Session :: string

record Refusal =
  rf_Gate :: string
  rf_ReasonClass :: string
  rf_Reason :: string

definition circuit_msg :: string where
  "circuit_msg = ''circuit breaker open '' @ em_dash @ '' session limit exceeded''"

definition Gates_Admit :: "Gates \<Rightarrow> Call \<Rightarrow> time \<Rightarrow> Refusal option" where
  "Gates_Admit g c now =
     (if (case g_Registry g of None \<Rightarrow> False
          | Some r \<Rightarrow> c_Tool c \<noteq> [] \<and> \<not> Registry_IsRegistered r (c_Tool c))
      then Some \<lparr>rf_Gate = GateRegistry, rf_ReasonClass = ReasonToolNotRegistered,
                 rf_Reason = ''tool not registered''\<rparr>
      else if (case g_Breaker g of None \<Rightarrow> False | Some b \<Rightarrow> \<not> Breaker_Allow b (c_Session c) now)
      then Some \<lparr>rf_Gate = GateCircuit, rf_ReasonClass = ReasonCircuitOpen, rf_Reason = circuit_msg\<rparr>
      else None)"

definition ruleLimits :: "Decision \<Rightarrow> rateLimit list" where
  "ruleLimits d =
     (case d_MatchedRule d of
        None \<Rightarrow> []
      | Some rule \<Rightarrow>
          if 0 < r_MaxCallsPerMin rule
          then let key = (if r_ID rule = [] then ''#'' @ itoa (d_RuleIndex d) else r_ID rule)
               in [\<lparr>rl_scope = ''rule '' @ key, rl_max = r_MaxCallsPerMin rule\<rparr>]
          else [])"

definition toolLimits :: "Registry option \<Rightarrow> Call \<Rightarrow> rateLimit list" where
  "toolLimits reg c =
     (case reg of
        None \<Rightarrow> []
      | Some r \<Rightarrow>
          if c_Tool c \<noteq> []
          then (case Registry_Get r (c_Tool c) of
                  None \<Rightarrow> []
                | Some entry \<Rightarrow>
                    if 0 < te_MaxCallsPerMin entry
                    then [\<lparr>rl_scope = ''tool '' @ c_Tool c, rl_max = te_MaxCallsPerMin entry\<rparr>]
                    else [])
          else [])"

definition rateMsg :: "rateLimit \<Rightarrow> string" where
  "rateMsg l = ''rate limit exceeded: '' @ rl_scope l @ '' allows '' @ itoa (rl_max l) @ '' calls/min''"

definition chargeRates :: "Gates \<Rightarrow> Call \<Rightarrow> Decision \<Rightarrow> time \<Rightarrow> Gates \<times> Refusal option" where
  "chargeRates g c d now =
     (let limits = ruleLimits d @ toolLimits (g_Registry g) c
      in if limits = [] then (g, None)
         else if c_Subject c = []
         then (g, Some \<lparr>rf_Gate = GateRate, rf_ReasonClass = ReasonRateUnattributable,
            rf_Reason = ''rate limit cannot be charged: the call has no identity to charge it to''\<rparr>)
         else case g_Rates g of
           None \<Rightarrow> (g, Some \<lparr>rf_Gate = GateRate, rf_ReasonClass = ReasonRateLimited,
             rf_Reason = ''rate limit configured but not counted''\<rparr>)
         | Some r \<Rightarrow>
             (case Rates_take r (c_Subject c) limits now of
                (r', None) \<Rightarrow> (g\<lparr>g_Rates := Some r'\<rparr>, None)
              | (r', Some l) \<Rightarrow> (g\<lparr>g_Rates := Some r'\<rparr>,
                  Some \<lparr>rf_Gate = GateRate, rf_ReasonClass = ReasonRateLimited,
                        rf_Reason = rateMsg l\<rparr>)))"

definition toLimits :: "BudgetLimits option \<Rightarrow> Limits option" where
  "toLimits l = map_option (\<lambda>l. \<lparr>l_MaxCallsPerHour = MaxCallsPerHour l,
     l_MaxCallsPerDay = MaxCallsPerDay l, l_MaxTokensPerDay = MaxTokensPerDay l\<rparr>) l"

definition chargeBudget :: "Gates \<Rightarrow> Call \<Rightarrow> Rule option \<Rightarrow> clock \<Rightarrow> Gates \<times> Refusal option" where
  "chargeBudget g c rule now =
     (case (g_Budgets g, Option.bind rule r_Budget) of
        (Some t, Some bc) \<Rightarrow>
          if (PerIdentity bc \<noteq> None \<and> c_Subject c = []) \<or> (PerSession bc \<noteq> None \<and> c_Session c = [])
          then (g, Some \<lparr>rf_Gate = GateBudget, rf_ReasonClass = ReasonBudgetUnattributable,
             rf_Reason = ''budget cannot be charged: the call has no identity or session to charge it to''\<rparr>)
          else (case CheckAndRecord t (c_Subject c) (c_Session c) (toLimits (PerIdentity bc))
                       (toLimits (PerSession bc)) now of
              (t', Some err) \<Rightarrow> (g\<lparr>g_Budgets := Some t'\<rparr>,
                 Some \<lparr>rf_Gate = GateBudget, rf_ReasonClass = ReasonBudgetExhausted,
                       rf_Reason = ''budget exhausted: '' @ err\<rparr>)
            | (t', None) \<Rightarrow> (g\<lparr>g_Budgets := Some t'\<rparr>, None))
      | _ \<Rightarrow> (g, None))"

definition velocityMsg :: "Alert \<Rightarrow> string" where
  "velocityMsg a = ''velocity '' @ itoa (int (al_CallsPerMin a)) @ ''/min exceeds threshold '' @
     itoa (al_Threshold a)"

text \<open>The result is the state with the refusal and the warning.\<close>

definition Gates_Charge ::
  "Gates \<Rightarrow> Call \<Rightarrow> Decision \<Rightarrow> clock \<Rightarrow> Gates \<times> Refusal option \<times> Refusal option" where
  "Gates_Charge g c d now =
     (case chargeRates g c d (instant now) of
        (g, Some r) \<Rightarrow> (g, Some r, None)
      | (g, None) \<Rightarrow>
     (case chargeBudget g c (d_MatchedRule d) now of
        (g, Some r) \<Rightarrow> (g, Some r, None)
      | (g, None) \<Rightarrow>
          let g = g\<lparr>g_Breaker := map_option (\<lambda>b. Breaker_Record b (c_Session c) (instant now)) (g_Breaker g)\<rparr>
          in case g_Velocity g of
               None \<Rightarrow> (g, None, None)
             | Some v \<Rightarrow>
                 (case VelocityTracker_Record v (c_Subject c) (c_Tool c) (instant now) of
                    (v', None) \<Rightarrow> (g\<lparr>g_Velocity := Some v'\<rparr>, None, None)
                  | (v', Some alert) \<Rightarrow>
                      let g = g\<lparr>g_Velocity := Some v'\<rparr>;
                          r = \<lparr>rf_Gate = GateAnomaly, rf_ReasonClass = ReasonVelocityLimit,
                               rf_Reason = velocityMsg alert\<rparr>
                      in if al_Action alert = AlertActionDeny then (g, Some r, None)
                         else (g, None, Some r))))"

section \<open>Taking a rate\<close>

lemma takeTrim_live:
  "takeTrim calls subject ls now = (calls', e) \<Longrightarrow>
   live (now - Minute) (calls' k) = live (now - Minute) (calls k)"
proof (induction ls arbitrary: calls)
  case (Cons l ls)
  let ?c = "calls(rateKey l subject := live (now - Minute) (calls (rateKey l subject)))"
  have "live (now - Minute) (?c k) = live (now - Minute) (calls k)" by simp
  with Cons.IH [of ?c] Cons.prems show ?case
    by (auto simp: Let_def simp del: fun_upd_apply split: if_splits)
qed simp

lemma takeTrim_room:
  "takeTrim calls subject ls now = (calls', None) \<Longrightarrow> l \<in> set ls \<Longrightarrow>
   int (length (live (now - Minute) (calls (rateKey l subject)))) < rl_max l"
proof (induction ls arbitrary: calls)
  case (Cons l' ls)
  let ?c = "calls(rateKey l' subject := live (now - Minute) (calls (rateKey l' subject)))"
  have "live (now - Minute) (?c (rateKey l subject)) = live (now - Minute) (calls (rateKey l subject))"
    by simp
  with Cons.IH [of ?c] Cons.prems show ?case
    by (auto simp: Let_def simp del: fun_upd_apply split: if_splits)
qed simp

lemma takeTrim_full:
  "takeTrim calls subject ls now = (calls', Some l) \<Longrightarrow>
   l \<in> set ls \<and> rl_max l \<le> int (length (live (now - Minute) (calls (rateKey l subject))))"
proof (induction ls arbitrary: calls)
  case (Cons l' ls)
  let ?c = "calls(rateKey l' subject := live (now - Minute) (calls (rateKey l' subject)))"
  have "live (now - Minute) (?c (rateKey l subject)) = live (now - Minute) (calls (rateKey l subject))"
    by simp
  with Cons.IH [of ?c] Cons.prems show ?case
    by (auto simp: Let_def simp del: fun_upd_apply split: if_splits)
qed simp

lemma takeRecord_calls:
  "distinct (map (\<lambda>l. rateKey l subject) ls) \<Longrightarrow>
   takeRecord calls subject ls now k =
     calls k @ (if k \<in> (\<lambda>l. rateKey l subject) ` set ls then [now] else [])"
  by (induction calls subject ls now rule: takeRecord.induct) auto

lemma Rates_take_live:
  assumes "Rates_take r subject ls now = (r', e)" and "distinct (map (\<lambda>l. rateKey l subject) ls)"
  shows "live (now - Minute) (rt_calls r' k) = live (now - Minute) (rt_calls r k) @
     (if e = None \<and> k \<in> (\<lambda>l. rateKey l subject) ` set ls then [now] else [])"
proof -
  obtain calls e' where t: "takeTrim (rt_calls r) subject ls now = (calls, e')" by fastforce
  then show ?thesis
    using assms takeTrim_live [OF t, of k]
    by (cases e') (auto simp: Rates_take_def takeRecord_calls live_single duration_defs)
qed

lemma Rates_take_room:
  assumes "Rates_take r subject ls now = (r', None)" and "l \<in> set ls"
  shows "int (length (live (now - Minute) (rt_calls r (rateKey l subject)))) < rl_max l"
proof -
  obtain calls where "takeTrim (rt_calls r) subject ls now = (calls, None)"
    using assms(1) by (auto simp: Rates_take_def split: prod.splits option.splits)
  then show ?thesis by (rule takeTrim_room [OF _ assms(2)])
qed

lemma Rates_take_full:
  "Rates_take r subject ls now = (r', Some l) \<Longrightarrow>
   l \<in> set ls \<and> rl_max l \<le> int (length (live (now - Minute) (rt_calls r (rateKey l subject))))"
  by (auto simp: Rates_take_def split: prod.splits option.splits dest: takeTrim_full)

section \<open>Charging, gate by gate\<close>

definition limitsOf :: "Registry option \<Rightarrow> Call \<Rightarrow> Decision \<Rightarrow> rateLimit list" where
  "limitsOf reg c d = ruleLimits d @ toolLimits reg c"

lemma ruleLimits_shape:
  "ruleLimits d = [] \<or> (\<exists>k m. 0 < m \<and> ruleLimits d = [\<lparr>rl_scope = ''rule '' @ k, rl_max = m\<rparr>])"
  by (cases "d_MatchedRule d") (simp_all add: ruleLimits_def Let_def)

lemma toolLimits_shape:
  "toolLimits reg c = [] \<or> (\<exists>k m. 0 < m \<and> toolLimits reg c = [\<lparr>rl_scope = ''tool '' @ k, rl_max = m\<rparr>])"
  by (cases reg; cases "Registry_Get (the reg) (c_Tool c)") (simp_all add: toolLimits_def)

lemma limitsOf_distinct: "distinct (map (\<lambda>l. rateKey l s) (limitsOf reg c d))"
  using ruleLimits_shape [of d] toolLimits_shape [of reg c]
  by (elim disjE exE conjE) (simp_all add: limitsOf_def rateKey_def)

lemma limitsOf_pos: "l \<in> set (limitsOf reg c d) \<Longrightarrow> 0 < rl_max l"
  using ruleLimits_shape [of d] toolLimits_shape [of reg c]
  by (elim disjE exE conjE) (auto simp: limitsOf_def)

definition ratesAt :: "string \<Rightarrow> Gates \<Rightarrow> time list" where
  "ratesAt k g = (case g_Rates g of None \<Rightarrow> [] | Some r \<Rightarrow> rt_calls r k)"

lemma chargeRates_frame:
  assumes "chargeRates g c d now = (g', e)"
  shows "g_Registry g' = g_Registry g \<and> g_Breaker g' = g_Breaker g \<and> g_Budgets g' = g_Budgets g \<and>
     g_Velocity g' = g_Velocity g"
  using assms by (auto simp: chargeRates_def Let_def split: if_splits option.splits prod.splits)

lemma chargeRates_live:
  assumes "chargeRates g c d now = (g', e)"
  shows "live (now - Minute) (ratesAt k g') = live (now - Minute) (ratesAt k g) @
     (if e = None \<and> (\<exists>l \<in> set (limitsOf (g_Registry g) c d). rateKey l (c_Subject c) = k)
      then [now] else [])"
  using assms Rates_take_live [of _ "c_Subject c" "limitsOf (g_Registry g) c d" now _ _ k]
    limitsOf_distinct [of "c_Subject c" "g_Registry g" c d]
  by (auto simp: chargeRates_def limitsOf_def [symmetric] ratesAt_def Let_def
      split: if_splits option.splits prod.splits)

lemma chargeRates_room:
  assumes "chargeRates g c d now = (g', None)" and "l \<in> set (limitsOf (g_Registry g) c d)"
  shows "int (length (live (now - Minute) (ratesAt (rateKey l (c_Subject c)) g))) < rl_max l \<and>
     c_Subject c \<noteq> [] \<and> g_Rates g \<noteq> None"
  using assms Rates_take_room [of _ "c_Subject c" "limitsOf (g_Registry g) c d" now _ l]
  by (auto simp: chargeRates_def limitsOf_def [symmetric] ratesAt_def Let_def
      split: if_splits option.splits prod.splits)

lemma chargeBudget_frame:
  assumes "chargeBudget g c rule now = (g', e)"
  shows "g_Registry g' = g_Registry g \<and> g_Breaker g' = g_Breaker g \<and> g_Rates g' = g_Rates g \<and>
     g_Velocity g' = g_Velocity g"
  using assms by (auto simp: chargeBudget_def split: if_splits option.splits prod.splits)

text \<open>How a charge ends: at the rate gate, at the budget gate, or past both.\<close>

lemma Gates_Charge_cases:
  assumes "Gates_Charge g c d now = (g', r, w)"
  obtains (rate) r1 where "chargeRates g c d (instant now) = (g', Some r1)" "r = Some r1" "w = None"
  | (budget) g1 r1 where "chargeRates g c d (instant now) = (g1, None)"
      "chargeBudget g1 c (d_MatchedRule d) now = (g', Some r1)" "r = Some r1" "w = None"
  | (charged) g1 g2 where "chargeRates g c d (instant now) = (g1, None)"
      "chargeBudget g1 c (d_MatchedRule d) now = (g2, None)"
      "g_Registry g' = g_Registry g2" "g_Rates g' = g_Rates g2" "g_Budgets g' = g_Budgets g2"
      "g_Breaker g' = map_option (\<lambda>b. Breaker_Record b (c_Session c) (instant now)) (g_Breaker g)"
      "g_Velocity g' = map_option (\<lambda>v. fst (VelocityTracker_Record v (c_Subject c) (c_Tool c)
         (instant now))) (g_Velocity g)"
      "r \<noteq> None \<longrightarrow> (\<exists>v a. g_Velocity g = Some v \<and> al_Action a = AlertActionDeny \<and>
         snd (VelocityTracker_Record v (c_Subject c) (c_Tool c) (instant now)) = Some a)"
      "\<forall>r1. r = Some r1 \<longrightarrow> rf_Gate r1 = GateAnomaly"
proof -
  obtain g1 e1 where 1: "chargeRates g c d (instant now) = (g1, e1)" by fastforce
  obtain g2 e2 where 2: "chargeBudget g1 c (d_MatchedRule d) now = (g2, e2)" by fastforce
  show ?thesis
  proof (cases "e1 = None \<and> e2 = None")
    case False
    then show ?thesis
      using assms that(1,2) 1 2 by (cases e1; cases e2) (auto simp: Gates_Charge_def)
  next
    case True
    note fr = chargeRates_frame [OF 1] chargeBudget_frame [OF 2]
    show ?thesis
      by (rule that(3) [of g1 g2])
        (use assms True 1 2 fr in \<open>auto simp: Gates_Charge_def Let_def
           split: option.splits prod.splits if_splits\<close>)
  qed
qed

lemma Gates_Charge_rates:
  assumes "Gates_Charge g c d now = (g', r, w)"
  shows "g_Registry g' = g_Registry g \<and>
     ratesAt k g' = ratesAt k (fst (chargeRates g c d (instant now))) \<and>
     (r = None \<longrightarrow> snd (chargeRates g c d (instant now)) = None)"
  using assms
proof (cases rule: Gates_Charge_cases)
  case (rate r1)
  then show ?thesis using chargeRates_frame [OF rate(1)] by (auto simp: ratesAt_def)
next
  case (budget g1 r1)
  then show ?thesis
    using chargeRates_frame [OF budget(1)] chargeBudget_frame [OF budget(2)] by (auto simp: ratesAt_def)
next
  case (charged g1 g2)
  then show ?thesis
    using chargeRates_frame [OF charged(1)] chargeBudget_frame [OF charged(2)] by (auto simp: ratesAt_def)
qed

section \<open>The gates as a limiter per minute\<close>

type_synonym charge_input = "Call \<times> Decision \<times> int"

definition gates_exec :: "Gates \<Rightarrow> charge_input \<Rightarrow> time \<Rightarrow> Gates \<times> bool" where
  "gates_exec g i now = (case i of (c, d, day) \<Rightarrow>
     (case Gates_Charge g c d \<lparr>instant = now, YearDay = day\<rparr> of (g', r, w) \<Rightarrow> (g', r = None)))"

definition rates_exec :: "Gates \<Rightarrow> charge_input \<Rightarrow> time \<Rightarrow> Gates \<times> bool" where
  "rates_exec g i now = (case i of (c, d, day) \<Rightarrow>
     (fst (Gates_Charge g c d \<lparr>instant = now, YearDay = day\<rparr>), snd (chargeRates g c d now) = None))"

definition rates_count :: "Registry option \<Rightarrow> string \<Rightarrow> charge_input \<Rightarrow> bool" where
  "rates_count reg k i = (case i of (c, d, day) \<Rightarrow>
     \<exists>l \<in> set (limitsOf reg c d). rateKey l (c_Subject c) = k)"

definition rates_capped :: "Registry option \<Rightarrow> string \<Rightarrow> nat \<Rightarrow> charge_input \<Rightarrow> bool" where
  "rates_capped reg k cap i = (case i of (c, d, day) \<Rightarrow>
     \<forall>l \<in> set (limitsOf reg c d). rateKey l (c_Subject c) = k \<longrightarrow> rl_max l \<le> int cap)"

lemma rates_exec_live:
  assumes "rates_exec g i now = (g', b)"
  shows "live (now - Minute) (ratesAt k g') = live (now - Minute) (ratesAt k g) @
     (if b \<and> rates_count (g_Registry g) k i then [now] else []) \<and> g_Registry g' = g_Registry g"
proof -
  obtain c d day where i: "i = (c, d, day)" by (cases i)
  obtain r w where ch: "Gates_Charge g c d \<lparr>instant = now, YearDay = day\<rparr> = (g', r, w)"
    and b: "b \<longleftrightarrow> snd (chargeRates g c d now) = None"
    using assms by (cases "Gates_Charge g c d \<lparr>instant = now, YearDay = day\<rparr>")
      (auto simp: rates_exec_def i)
  obtain g1 e1 where r: "chargeRates g c d now = (g1, e1)" by fastforce
  show ?thesis
    using Gates_Charge_rates [OF ch, of k] chargeRates_live [OF r, of k] b r
    by (simp add: rates_count_def i)
qed

lemma rates_exec_room:
  assumes "rates_exec g i now = (g', True)" and "rates_count (g_Registry g) k i"
    and "rates_capped (g_Registry g) k cap i"
  shows "length (live (now - Minute) (ratesAt k g)) < cap"
proof -
  obtain c d day where i: "i = (c, d, day)" by (cases i)
  obtain l where l: "l \<in> set (limitsOf (g_Registry g) c d)" "rateKey l (c_Subject c) = k"
    "rl_max l \<le> int cap"
    using assms(2,3) by (auto simp: rates_count_def rates_capped_def i)
  obtain g1 where "chargeRates g c d now = (g1, None)"
    using assms(1) by (cases "chargeRates g c d now") (auto simp: rates_exec_def i)
  from chargeRates_room [OF this l(1)] l show ?thesis by auto
qed

interpretation rates: sliding_limiter Minute cap "ratesAt k" rates_exec "rates_count reg k"
    "rates_capped reg k cap" "\<lambda>t g. g_Registry g = reg"
  for cap k reg
proof unfold_locales
  show "0 < Minute" by (simp add: duration_defs)
qed (auto dest: rates_exec_live [of _ _ _ _ _ k] rates_exec_room)

lemma gates_exec_rates:
  "fst (gates_exec g i now) = fst (rates_exec g i now) \<and>
   (snd (gates_exec g i now) \<longrightarrow> snd (rates_exec g i now))"
  using Gates_Charge_rates
  by (fastforce simp: gates_exec_def rates_exec_def split: prod.splits)

section \<open>Budgets behind the gates\<close>

definition budgetAt :: "span \<Rightarrow> side \<Rightarrow> string \<Rightarrow> Gates \<Rightarrow> time list" where
  "budgetAt sp sd k g = (case g_Budgets g of None \<Rightarrow> [] | Some t \<Rightarrow> recorded_at sp sd k t)"

lemma chargeBudget_refused_live:
  assumes "chargeBudget g c rule now = (g', Some r)"
  shows "live (instant now - width sp) (budgetAt sp sd k g') =
     live (instant now - width sp) (budgetAt sp sd k g)"
proof -
  obtain t where "g_Budgets g = Some t"
    using assms by (auto simp: chargeBudget_def split: option.splits)
  then show ?thesis
    using assms CheckAndRecord_recorded [of t "c_Subject c" "c_Session c" _ _ now _ _ sp sd k]
    by (auto simp: chargeBudget_def budgetAt_def split: option.splits if_splits prod.splits)
qed

lemma rf_gates_distinct [simp]:
  "GateRate \<noteq> GateBudget" "GateRate \<noteq> GateAnomaly" "GateBudget \<noteq> GateAnomaly"
  "GateBudget \<noteq> GateRate" "GateAnomaly \<noteq> GateRate" "GateAnomaly \<noteq> GateBudget"
  "GateRegistry \<noteq> GateCircuit" "GateCircuit \<noteq> GateRegistry"
  "GateRegistry \<noteq> GateRate" "GateRegistry \<noteq> GateBudget" "GateRegistry \<noteq> GateAnomaly"
  "GateCircuit \<noteq> GateRate" "GateCircuit \<noteq> GateBudget" "GateCircuit \<noteq> GateAnomaly"
  by (simp_all add: gate_defs)

lemma chargeRates_gate: "chargeRates g c d now = (g', Some r) \<Longrightarrow> rf_Gate r = GateRate"
  by (auto simp: chargeRates_def Let_def split: if_splits option.splits prod.splits)

lemma chargeBudget_gate: "chargeBudget g c rule now = (g', Some r) \<Longrightarrow> rf_Gate r = GateBudget"
  by (auto simp: chargeBudget_def split: if_splits option.splits prod.splits)

text \<open>Token counters stay at zero under the gates: nothing behind them records tokens.\<close>

definition gates_tokenless :: "Gates \<Rightarrow> bool" where
  "gates_tokenless g \<longleftrightarrow> (\<forall>t. g_Budgets g = Some t \<longrightarrow> no_tokens t)"

lemma chargeBudget_tokenless:
  assumes "chargeBudget g c rule now = (g', e)" and "gates_tokenless g"
  shows "gates_tokenless g'"
proof -
  have "no_tokens t'" if "g_Budgets g = Some t" "CheckAndRecord t a b li ls now = (t', x)"
    for t t' a b li ls x
    using CheckAndRecord_no_tokens [OF that(2)] that(1) assms(2) by (simp add: gates_tokenless_def)
  then show ?thesis
    using assms
    by (auto simp: chargeBudget_def gates_tokenless_def split: if_splits option.splits prod.splits)
qed

lemma Gates_Charge_tokenless:
  assumes "Gates_Charge g c d now = (g', r, w)" and "gates_tokenless g"
  shows "gates_tokenless g'"
  using assms(1)
proof (cases rule: Gates_Charge_cases)
  case (rate r1)
  then show ?thesis using chargeRates_frame [OF rate(1)] assms(2) by (simp add: gates_tokenless_def)
next
  case (budget g1 r1)
  have "gates_tokenless g1"
    using chargeRates_frame [OF budget(1)] assms(2) by (simp add: gates_tokenless_def)
  from chargeBudget_tokenless [OF budget(2) this] show ?thesis .
next
  case (charged g1 g2)
  have "gates_tokenless g1"
    using chargeRates_frame [OF charged(1)] assms(2) by (simp add: gates_tokenless_def)
  from chargeBudget_tokenless [OF charged(2) this] show ?thesis
    using charged(5) by (simp add: gates_tokenless_def)
qed

lemma gates_run_tokenless:
  "gates_tokenless g \<Longrightarrow> gates_tokenless (final_by gates_exec g cs)"
proof (induction cs arbitrary: g)
  case (Cons x cs)
  obtain c d day now where x: "x = ((c, d, day), now)" by (cases x) auto
  obtain g' r w where ch: "Gates_Charge g c d \<lparr>instant = now, YearDay = day\<rparr> = (g', r, w)"
    by (cases "Gates_Charge g c d \<lparr>instant = now, YearDay = day\<rparr>")
  show ?case
    using Cons.IH [OF Gates_Charge_tokenless [OF ch Cons.prems]] by (simp add: x gates_exec_def ch)
qed simp

lemma exhausted_tokenless:
  assumes "tokenless m" and "exhausted m k l now"
  shows "\<exists>sp. 0 < spanMax sp l \<and>
     spanMax sp l \<le> int (length (live (instant now - width sp) (calls_at sp m k)))"
proof -
  have "tokens_today m k now = 0"
    using assms(1) by (auto simp: tokens_today_def tokenless_def split: option.splits)
  then show ?thesis using assms(2) by (auto simp: exhausted_def)
qed

section \<open>Properties\<close>

text \<open>
  C22. \<open>maxCallsPerMinute\<close> holds over every minute. In any time-ordered run of charged calls,
  whatever else the gates do to them, if every limit that counts a call under a key is at most
  \<open>cap\<close>, no minute, wherever it starts, holds more than \<open>cap\<close> calls the gates let through
  under that key.
\<close>

theorem rate_window_bound:
  assumes "g_Registry g = reg" and "ratesAt k g = []" and "sorted (map snd cs)"
    and "\<forall>(i, t) \<in> set cs. rates_capped reg k cap i"
  shows "in_window Minute t (admitted_by gates_exec (rates_count reg k) g cs) \<le> cap"
proof -
  define t0 where "t0 = (case cs of [] \<Rightarrow> 0 | c # _ \<Rightarrow> snd c)"
  have "rates.good_run k reg cap t0 g cs"
    using assms unfolding rates.good_run_def t0_def by (cases cs) auto
  note bound = rates.window_bound [OF this, of t]
  have "subseq (admitted_by gates_exec (rates_count reg k) g cs)
      (admitted_by rates_exec (rates_count reg k) g cs)"
    by (rule admitted_by_mono) (use gates_exec_rates in blast)+
  from in_window_subseq [OF this, of Minute t] bound show ?thesis by simp
qed

definition demo_rate_decision :: Decision where
  "demo_rate_decision = emptyDecision\<lparr>d_Allowed := True,
     d_MatchedRule := Some (emptyRule\<lparr>r_ID := ''r'', r_MaxCallsPerMin := 1\<rparr>)\<rparr>"

definition demo_call :: Call where
  "demo_call = \<lparr>c_Tool = ''ls'', c_Subject = ''u'', c_Session = ''s''\<rparr>"

definition demo_gates :: Gates where
  "demo_gates = \<lparr>g_Registry = None, g_Breaker = None, g_Budgets = None, g_Velocity = None,
     g_Rates = Some NewRates\<rparr>"

lemma rate_window_bound_witness:
  "in_window Minute 7 (admitted_by gates_exec
      (rates_count None (rateKey \<lparr>rl_scope = ''rule r'', rl_max = 1\<rparr> ''u'')) demo_gates
      [((demo_call, demo_rate_decision, 1), 0), ((demo_call, demo_rate_decision, 1), 5)]) \<le> 1"
  by (rule rate_window_bound)
    (simp_all add: demo_gates_def NewRates_def ratesAt_def rates_capped_def demo_call_def
      demo_rate_decision_def emptyDecision_def emptyRule_def limitsOf_def ruleLimits_def
      toolLimits_def Let_def)

text \<open>
  Nothing passes uncounted. A call the gates let through under a limit that has to be
  counted names what it is counted against: a subject under a rate limit (and a counter exists),
  and, where a budget tracker is present, a subject under a per-identity budget and a session
  under a per-session budget.
\<close>

theorem Charge_attributable:
  assumes "Gates_Charge g c d now = (g', None, w)"
  shows "(limitsOf (g_Registry g) c d \<noteq> [] \<longrightarrow> c_Subject c \<noteq> [] \<and> g_Rates g \<noteq> None) \<and>
     (\<forall>rule bc. g_Budgets g \<noteq> None \<longrightarrow> d_MatchedRule d = Some rule \<longrightarrow> r_Budget rule = Some bc \<longrightarrow>
        (PerIdentity bc \<noteq> None \<longrightarrow> c_Subject c \<noteq> []) \<and> (PerSession bc \<noteq> None \<longrightarrow> c_Session c \<noteq> []))"
  using assms
proof (cases rule: Gates_Charge_cases)
  case (charged g1 g2)
  have "\<forall>l \<in> set (limitsOf (g_Registry g) c d). c_Subject c \<noteq> [] \<and> g_Rates g \<noteq> None"
    using chargeRates_room [OF charged(1)] by blast
  then have 1: "limitsOf (g_Registry g) c d \<noteq> [] \<longrightarrow> c_Subject c \<noteq> [] \<and> g_Rates g \<noteq> None"
    by (cases "limitsOf (g_Registry g) c d") auto
  show ?thesis
    using 1 charged(2) chargeRates_frame [OF charged(1)]
    by (auto simp: chargeBudget_def split: if_splits)
qed auto

lemma Charge_attributable_witness:
  "c_Subject demo_call \<noteq> [] \<and> limitsOf None demo_call demo_rate_decision \<noteq> []"
  using Charge_attributable [of demo_gates demo_call demo_rate_decision
      "\<lparr>instant = 0, YearDay = 1\<rparr>"
      "fst (Gates_Charge demo_gates demo_call demo_rate_decision \<lparr>instant = 0, YearDay = 1\<rparr>)" None]
  by (simp add: demo_gates_def NewRates_def demo_call_def demo_rate_decision_def emptyDecision_def
      emptyRule_def limitsOf_def ruleLimits_def toolLimits_def Let_def Gates_Charge_def
      chargeRates_def Rates_take_def chargeBudget_def rateKey_def)

text \<open>
  What a refused call costs. Refused at the rate gate, it uses up nothing: no rate window,
  budget, breaker or velocity count changes. Refused at the budget gate, budgets, breaker and
  velocity are as before, but the rate windows of its limits have counted it. Refused by the
  velocity gate, it has been counted everywhere, on the breaker too.
\<close>

theorem Charge_refusal_effects:
  assumes "Gates_Charge g c d now = (g', Some r, w)"
  shows "(rf_Gate r = GateRate \<longrightarrow>
        (\<forall>k. live (instant now - Minute) (ratesAt k g') = live (instant now - Minute) (ratesAt k g)) \<and>
        g_Budgets g' = g_Budgets g \<and> g_Breaker g' = g_Breaker g \<and> g_Velocity g' = g_Velocity g) \<and>
     (rf_Gate r = GateBudget \<longrightarrow>
        (\<forall>k. live (instant now - Minute) (ratesAt k g') = live (instant now - Minute) (ratesAt k g) @
           (if \<exists>l \<in> set (limitsOf (g_Registry g) c d). rateKey l (c_Subject c) = k
            then [instant now] else [])) \<and>
        (\<forall>sp sd k. live (instant now - width sp) (budgetAt sp sd k g') =
           live (instant now - width sp) (budgetAt sp sd k g)) \<and>
        g_Breaker g' = g_Breaker g \<and> g_Velocity g' = g_Velocity g) \<and>
     (rf_Gate r \<noteq> GateRate \<and> rf_Gate r \<noteq> GateBudget \<longrightarrow>
        rf_Gate r = GateAnomaly \<and>
        g_Breaker g' = map_option (\<lambda>b. Breaker_Record b (c_Session c) (instant now)) (g_Breaker g) \<and>
        g_Velocity g' = map_option (\<lambda>v. fst (VelocityTracker_Record v (c_Subject c) (c_Tool c)
           (instant now))) (g_Velocity g))"
  using assms
proof (cases rule: Gates_Charge_cases)
  case (rate r1)
  then show ?thesis
    using chargeRates_frame [OF rate(1)] chargeRates_live [OF rate(1)] chargeRates_gate [OF rate(1)]
    by simp
next
  case (budget g1 r1)
  have "g_Rates g' = g_Rates g1" using chargeBudget_frame [OF budget(2)] by simp
  then have "ratesAt k g' = ratesAt k g1" for k by (simp add: ratesAt_def)
  moreover have "budgetAt sp sd k g1 = budgetAt sp sd k g" for sp sd k
    using chargeRates_frame [OF budget(1)] by (simp add: budgetAt_def)
  ultimately show ?thesis
    using budget(3) chargeRates_frame [OF budget(1)] chargeBudget_frame [OF budget(2)]
      chargeRates_live [OF budget(1)] chargeBudget_refused_live [OF budget(2)]
      chargeBudget_gate [OF budget(2)]
    by simp
next
  case (charged g1 g2)
  then show ?thesis by simp
qed

lemma Charge_refusal_effects_witness:
  "g_Breaker (fst (Gates_Charge (demo_gates\<lparr>g_Rates := None\<rparr>) demo_call demo_rate_decision
      \<lparr>instant = 0, YearDay = 1\<rparr>)) = None"
  using Charge_refusal_effects [of "demo_gates\<lparr>g_Rates := None\<rparr>" demo_call demo_rate_decision
      "\<lparr>instant = 0, YearDay = 1\<rparr>"
      "fst (Gates_Charge (demo_gates\<lparr>g_Rates := None\<rparr>) demo_call demo_rate_decision
        \<lparr>instant = 0, YearDay = 1\<rparr>)"
      "\<lparr>rf_Gate = GateRate, rf_ReasonClass = ReasonRateLimited,
        rf_Reason = ''rate limit configured but not counted''\<rparr>" None]
  by (simp add: demo_gates_def demo_call_def demo_rate_decision_def emptyDecision_def emptyRule_def
      limitsOf_def ruleLimits_def toolLimits_def Let_def Gates_Charge_def chargeRates_def)

text \<open>
  A token budget never refuses a call. From a fresh tracker and after any run of charged
  calls, every refusal as exhausted comes from a count of calls: some hourly or daily limit of
  the identity or the session is full. No caller of the gates records tokens.
\<close>

theorem token_budget_never_refuses:
  assumes "g_Budgets g0 = Some Tracker_New" and "g = final_by gates_exec g0 cs"
    and "g_Budgets g = Some t" and "r_Budget rule = Some bc"
    and "chargeBudget g c (Some rule) now = (g', Some r)" and "rf_ReasonClass r = ReasonBudgetExhausted"
  shows "\<exists>sp sd l. keyOf sd (PerIdentity bc) (PerSession bc) = Some l \<and>
     0 < spanMax sp (the (toLimits (Some l))) \<and>
     spanMax sp (the (toLimits (Some l))) \<le>
       int (length (live (instant now - width sp)
         (recorded_at sp sd (keyOf sd (c_Subject c) (c_Session c)) t)))"
proof -
  have "gates_tokenless g0"
    using assms(1) by (auto simp: gates_tokenless_def no_tokens_def tokenless_def Tracker_New_def all_side)
  then have nt: "no_tokens t"
    using gates_run_tokenless [of g0 cs] assms(2,3) by (simp add: gates_tokenless_def)
  have "snd (CheckAndRecord t (c_Subject c) (c_Session c) (toLimits (PerIdentity bc))
      (toLimits (PerSession bc)) now) \<noteq> None"
    using assms(3-6)
    by (auto simp: chargeBudget_def gate_defs split: if_splits prod.splits option.splits)
  then obtain sd l where l: "keyOf sd (toLimits (PerIdentity bc)) (toLimits (PerSession bc)) = Some l"
    and ex: "exhausted (table sd t) (keyOf sd (c_Subject c) (c_Session c)) l now"
    using CheckAndRecord_refused by blast
  obtain l' where l': "keyOf sd (PerIdentity bc) (PerSession bc) = Some l'" "toLimits (Some l') = Some l"
    using l by (cases sd) (auto simp: toLimits_def)
  have "tokenless (table sd t)" using nt by (simp add: no_tokens_def)
  from exhausted_tokenless [OF this ex] obtain sp where "0 < spanMax sp l"
    "spanMax sp l \<le> int (length (live (instant now - width sp)
       (calls_at sp (table sd t) (keyOf sd (c_Subject c) (c_Session c)))))" by blast
  with l' show ?thesis by (intro exI [of _ sp] exI [of _ sd] exI [of _ l']) (simp add: recorded_at_def)
qed

definition demo_budget :: BudgetConfig where
  "demo_budget = \<lparr>PerIdentity = Some \<lparr>MaxCallsPerHour = 1, MaxCallsPerDay = 0, MaxTokensPerDay = 1\<rparr>,
     PerSession = None, OnExhausted = []\<rparr>"

definition demo_budget_decision :: Decision where
  "demo_budget_decision = emptyDecision\<lparr>d_Allowed := True,
     d_MatchedRule := Some (emptyRule\<lparr>r_Budget := Some demo_budget\<rparr>)\<rparr>"

lemmas budget_eval = CheckAndRecord_def checkKey_def getOrCreate_def checkLimits_def
  trimTimestamps_def appendCall_def Tracker_New_def recorded_at_def calls_at_def toLimits_def

lemma token_budget_never_refuses_witness:
  "\<exists>sp sd l. keyOf sd (PerIdentity demo_budget) (PerSession demo_budget) = Some l \<and>
     0 < spanMax sp (the (toLimits (Some l)))"
  using token_budget_never_refuses
    [of "demo_gates\<lparr>g_Budgets := Some Tracker_New\<rparr>"
      "final_by gates_exec (demo_gates\<lparr>g_Budgets := Some Tracker_New\<rparr>)
         [((demo_call, demo_budget_decision, 1), 0)]"
      "[((demo_call, demo_budget_decision, 1), 0)]"
      "the (g_Budgets (final_by gates_exec (demo_gates\<lparr>g_Budgets := Some Tracker_New\<rparr>)
         [((demo_call, demo_budget_decision, 1), 0)]))"
      "emptyRule\<lparr>r_Budget := Some demo_budget\<rparr>" demo_budget demo_call "\<lparr>instant = 5, YearDay = 1\<rparr>"
      "fst (chargeBudget (final_by gates_exec (demo_gates\<lparr>g_Budgets := Some Tracker_New\<rparr>)
         [((demo_call, demo_budget_decision, 1), 0)]) demo_call
         (Some (emptyRule\<lparr>r_Budget := Some demo_budget\<rparr>)) \<lparr>instant = 5, YearDay = 1\<rparr>)"
      "\<lparr>rf_Gate = GateBudget, rf_ReasonClass = ReasonBudgetExhausted,
         rf_Reason = ''budget exhausted: identity budget: '' @ limit_msg ''hourly call'' 1 1\<rparr>"]
  by (force simp: demo_gates_def demo_budget_def demo_call_def demo_budget_decision_def
      emptyDecision_def emptyRule_def ruleLimits_def toolLimits_def Let_def gates_exec_def
      Gates_Charge_def chargeRates_def chargeBudget_def budget_eval live_def duration_defs)

end
