(* ===== verification/Mcp.thy ===== *)
theory Mcp
  imports Values
begin

text \<open>
  Package \<open>mcp\<close> (\<open>envelope.go\<close>): the JSON-RPC envelope. \<open>encoding/json\<close> is modelled in
  two layers. The text layer is an argument: \<open>js_unmarshal\<close> parses a body into a value with
  the keys of each object in document order (no key twice), \<open>js_marshal\<close> prints one. The
  struct layer is defined here: a key of the document sets the field whose tag it equals up to
  letter case, and \<open>null\<close> leaves a field of type string as it was.
\<close>

record json_lib =
  js_unmarshal :: "string \<Rightarrow> string + goval"
  js_marshal :: "goval \<Rightarrow> string + string"

text \<open>Text of the error for a value of the wrong type; the library's wording is not modelled.\<close>

definition jsonTypeError :: string where
  "jsonTypeError = ''json: cannot unmarshal value''"

definition jsonEndError :: string where
  "jsonEndError = ''unexpected end of JSON input''"

section \<open>Methods and error codes\<close>

definition MethodToolsCall :: string where "MethodToolsCall = ''tools/call''"
definition MethodToolsList :: string where "MethodToolsList = ''tools/list''"
definition MethodInitialize :: string where "MethodInitialize = ''initialize''"
definition MethodPing :: string where "MethodPing = ''ping''"

definition ErrCodeParse :: int where "ErrCodeParse = -32700"
definition ErrCodeInvalidReq :: int where "ErrCodeInvalidReq = -32600"
definition ErrCodeMethodNF :: int where "ErrCodeMethodNF = -32601"
definition ErrCodeInvalidPar :: int where "ErrCodeInvalidPar = -32602"
definition ErrCodeInternal :: int where "ErrCodeInternal = -32603"
definition ErrCodePolicyDenied :: int where "ErrCodePolicyDenied = -32000"
definition ErrCodeIdentityFailed :: int where "ErrCodeIdentityFailed = -32001"
definition ErrCodeCircuitOpen :: int where "ErrCodeCircuitOpen = -32002"
definition ErrCodeToolUnknown :: int where "ErrCodeToolUnknown = -32003"
definition ErrCodeRateLimited :: int where "ErrCodeRateLimited = -32004"
definition ErrCodeHoldTimeout :: int where "ErrCodeHoldTimeout = -32005"
definition ErrCodeScopeViolation :: int where "ErrCodeScopeViolation = -32006"
definition ErrCodeInspectionBlock :: int where "ErrCodeInspectionBlock = -32007"

lemmas errcode_defs = ErrCodeParse_def ErrCodeInvalidReq_def ErrCodeMethodNF_def
  ErrCodeInvalidPar_def ErrCodeInternal_def ErrCodePolicyDenied_def ErrCodeIdentityFailed_def
  ErrCodeCircuitOpen_def ErrCodeToolUnknown_def ErrCodeRateLimited_def ErrCodeHoldTimeout_def
  ErrCodeScopeViolation_def ErrCodeInspectionBlock_def

section \<open>Requests\<close>

record JSONRPCRequest =
  jr_JSONRPC :: string
  jr_ID :: goval
  jr_Method :: string
  jr_Params :: "goval option"

record JSONRPCError =
  je_Code :: int
  je_Message :: string

record JSONRPCResponse =
  jp_JSONRPC :: string
  jp_ID :: goval
  jp_Error :: JSONRPCError

record ToolsCallParams =
  tc_Name :: string
  tc_Arguments :: "gomap option"

definition NewErrorResponse :: "goval \<Rightarrow> int \<Rightarrow> string \<Rightarrow> JSONRPCResponse" where
  "NewErrorResponse i code message =
     \<lparr>jp_JSONRPC = ''2.0'', jp_ID = i, jp_Error = \<lparr>je_Code = code, je_Message = message\<rparr>\<rparr>"

text \<open>A field of type string: a string sets it, null keeps it, anything else is an error.\<close>

definition decodeString :: "string \<Rightarrow> goval \<Rightarrow> string + string" where
  "decodeString old v = (case v of VStr s \<Rightarrow> Inr s | VNil \<Rightarrow> Inr old | _ \<Rightarrow> Inl jsonTypeError)"

definition emptyRPC :: JSONRPCRequest where
  "emptyRPC = \<lparr>jr_JSONRPC = [], jr_ID = VNil, jr_Method = [], jr_Params = None\<rparr>"

fun decodeRPC :: "gomap \<Rightarrow> JSONRPCRequest \<Rightarrow> string + JSONRPCRequest" where
  "decodeRPC [] r = Inr r"
| "decodeRPC ((k, v) # kvs) r =
     (if EqualFold k ''jsonrpc''
      then (case decodeString (jr_JSONRPC r) v of Inl e \<Rightarrow> Inl e | Inr s \<Rightarrow> decodeRPC kvs (r\<lparr>jr_JSONRPC := s\<rparr>))
      else if EqualFold k ''id'' then decodeRPC kvs (r\<lparr>jr_ID := v\<rparr>)
      else if EqualFold k ''method''
      then (case decodeString (jr_Method r) v of Inl e \<Rightarrow> Inl e | Inr s \<Rightarrow> decodeRPC kvs (r\<lparr>jr_Method := s\<rparr>))
      else if EqualFold k ''params'' then decodeRPC kvs (r\<lparr>jr_Params := Some v\<rparr>)
      else decodeRPC kvs r)"

text \<open>\<open>json.Unmarshal(body, &req)\<close>: an object or null, anything else is an error.\<close>

definition unmarshalRPC :: "json_lib \<Rightarrow> string \<Rightarrow> string + JSONRPCRequest" where
  "unmarshalRPC js body =
     (case js_unmarshal js body of
        Inl e \<Rightarrow> Inl e
      | Inr (VMap m) \<Rightarrow> decodeRPC m emptyRPC
      | Inr VNil \<Rightarrow> Inr emptyRPC
      | Inr _ \<Rightarrow> Inl jsonTypeError)"

fun decodeParams :: "gomap \<Rightarrow> ToolsCallParams \<Rightarrow> string + ToolsCallParams" where
  "decodeParams [] p = Inr p"
| "decodeParams ((k, v) # kvs) p =
     (if EqualFold k ''name''
      then (case decodeString (tc_Name p) v of Inl e \<Rightarrow> Inl e | Inr s \<Rightarrow> decodeParams kvs (p\<lparr>tc_Name := s\<rparr>))
      else if EqualFold k ''arguments''
      then (case v of
              VMap m \<Rightarrow> decodeParams kvs (p\<lparr>tc_Arguments := Some (AList.merge
                (case tc_Arguments p of None \<Rightarrow> [] | Some m0 \<Rightarrow> m0) m)\<rparr>)
            | VNil \<Rightarrow> decodeParams kvs (p\<lparr>tc_Arguments := None\<rparr>)
            | _ \<Rightarrow> Inl jsonTypeError)
      else decodeParams kvs p)"

definition ParseToolsCall :: "JSONRPCRequest \<Rightarrow> string + ToolsCallParams" where
  "ParseToolsCall req =
     (if jr_Method req \<noteq> MethodToolsCall then Inl (''not a tools/call request: '' @ jr_Method req)
      else
        let params = (case jr_Params req of
              None \<Rightarrow> Inl jsonEndError
            | Some (VMap m) \<Rightarrow> decodeParams m \<lparr>tc_Name = [], tc_Arguments = None\<rparr>
            | Some VNil \<Rightarrow> Inr \<lparr>tc_Name = [], tc_Arguments = None\<rparr>
            | Some _ \<Rightarrow> Inl jsonTypeError)
        in case params of
             Inl e \<Rightarrow> Inl (''invalid tools/call params: '' @ e)
           | Inr p \<Rightarrow> if tc_Name p = [] then Inl ''tools/call missing tool name'' else Inr p)"

lemma ParseToolsCall_named: "ParseToolsCall req = Inr tc \<Longrightarrow> tc_Name tc \<noteq> [] \<and> jr_Method req = MethodToolsCall"
  by (auto simp: ParseToolsCall_def Let_def split: if_splits sum.splits)

section \<open>Rebuilding a request\<close>

text \<open>
  \<open>RebuildRequestBody\<close> of \<open>scope/modifier.go\<close>: it decodes into a map, whose key has to be
  exactly \<open>params\<close>, and leaves the body alone when that is not an object. A nil map of
  arguments prints as null.
\<close>

definition RebuildRequestBody ::
  "json_lib \<Rightarrow> string \<Rightarrow> gomap option \<Rightarrow> (string \<times> string) + string" where
  "RebuildRequestBody js originalBody modifiedArgs =
     (case js_unmarshal js originalBody of
        Inl e \<Rightarrow> Inl (originalBody, e)
      | Inr v \<Rightarrow>
          (case v of
             VMap req \<Rightarrow>
               (case as_map (mget req ''params'') of
                  None \<Rightarrow> Inr originalBody
                | Some params \<Rightarrow>
                    let params = AList.update ''arguments''
                          (case modifiedArgs of None \<Rightarrow> VNil | Some a \<Rightarrow> VMap a) params;
                        req = AList.update ''params'' (VMap params) req
                    in (case js_marshal js (VMap req) of Inl e \<Rightarrow> Inl ([], e) | Inr b \<Rightarrow> Inr b))
           | VNil \<Rightarrow> Inr originalBody
           | _ \<Rightarrow> Inl (originalBody, jsonTypeError)))"

section \<open>The keys of a well-spelt call\<close>

text \<open>No other spelling of a field name occurs.\<close>

definition plain_keys :: "string list \<Rightarrow> gomap \<Rightarrow> bool" where
  "plain_keys names m \<longleftrightarrow> distinct (map fst m) \<and>
     (\<forall>n \<in> set names. \<forall>k \<in> fst ` set m. EqualFold k n \<longrightarrow> k = n)"

lemma plain_keys_Cons:
  "plain_keys ns ((k, v) # kvs) \<Longrightarrow>
   plain_keys ns kvs \<and> (\<forall>n \<in> set ns. EqualFold k n \<longrightarrow> k = n) \<and> k \<notin> fst ` set kvs"
  by (auto simp: plain_keys_def)

lemma fold_names [simp]:
  "\<not> EqualFold ''params'' ''jsonrpc''" "\<not> EqualFold ''params'' ''id''" "\<not> EqualFold ''params'' ''method''"
  "\<not> EqualFold ''arguments'' ''name''"
  by (simp_all add: str_eval)

lemma update_present: "k \<in> fst ` set m \<Longrightarrow> fst ` set (AList.update k v m) = fst ` set m"
  by (simp add: dom_update insert_absorb)

lemma rpc_upd_commute:
  "r\<lparr>jr_Params := x, jr_JSONRPC := s\<rparr> = r\<lparr>jr_JSONRPC := s, jr_Params := x\<rparr>"
  "r\<lparr>jr_Params := x, jr_ID := v\<rparr> = r\<lparr>jr_ID := v, jr_Params := x\<rparr>"
  "r\<lparr>jr_Params := x, jr_Method := s\<rparr> = r\<lparr>jr_Method := s, jr_Params := x\<rparr>"
  by simp_all

lemma tc_upd_commute: "p\<lparr>tc_Arguments := x, tc_Name := s\<rparr> = p\<lparr>tc_Name := s, tc_Arguments := x\<rparr>"
  by simp

text \<open>Rewriting the parameters of a document rewrites that field of the request and nothing else.\<close>

lemma decodeRPC_no_params:
  "''params'' \<notin> fst ` set m \<Longrightarrow> plain_keys [''params''] m \<Longrightarrow>
   decodeRPC m (r\<lparr>jr_Params := x\<rparr>) = map_sum id (\<lambda>r. r\<lparr>jr_Params := x\<rparr>) (decodeRPC m r)"
proof (induction m arbitrary: r)
  case (Cons kv m)
  obtain k v where kv: "kv = (k, v)" by (cases kv)
  note pk = plain_keys_Cons [OF Cons.prems(2) [unfolded kv]]
  have "\<not> EqualFold k ''params''" using pk Cons.prems(1) kv by auto
  then show ?case
    using Cons.IH Cons.prems pk
    by (auto simp: kv rpc_upd_commute simp del: JSONRPCRequest.update_convs split: sum.splits)
qed simp

lemma decodeRPC_update:
  "''params'' \<in> fst ` set m \<Longrightarrow> plain_keys [''params''] m \<Longrightarrow>
   decodeRPC (AList.update ''params'' x m) r = map_sum id (\<lambda>r. r\<lparr>jr_Params := Some x\<rparr>) (decodeRPC m r)"
proof (induction m arbitrary: r)
  case (Cons kv m)
  obtain k v where kv: "kv = (k, v)" by (cases kv)
  note pk = plain_keys_Cons [OF Cons.prems(2) [unfolded kv]]
  show ?case
  proof (cases "k = ''params''")
    case True
    then have out: "''params'' \<notin> fst ` set m" using pk by simp
    show ?thesis
      using decodeRPC_no_params [OF out conjunct1 [OF pk], where r = r]
      by (cases "decodeRPC m r") (auto simp: kv True)
  next
    case False
    then have "\<not> EqualFold k ''params''" using pk by auto
    with False show ?thesis
      using Cons.IH Cons.prems pk by (auto simp: kv split: sum.splits)
  qed
qed simp

lemma decodeParams_no_args:
  "''arguments'' \<notin> fst ` set m \<Longrightarrow> plain_keys [''arguments''] m \<Longrightarrow>
   decodeParams m (p\<lparr>tc_Arguments := x\<rparr>) = map_sum id (\<lambda>p. p\<lparr>tc_Arguments := x\<rparr>) (decodeParams m p)"
proof (induction m arbitrary: p)
  case (Cons kv m)
  obtain k v where kv: "kv = (k, v)" by (cases kv)
  note pk = plain_keys_Cons [OF Cons.prems(2) [unfolded kv]]
  have "\<not> EqualFold k ''arguments''" using pk Cons.prems(1) kv by auto
  then show ?case
    using Cons.IH Cons.prems pk by (auto simp: kv tc_upd_commute split: sum.splits)
qed simp

definition argsValue :: "gomap option \<Rightarrow> goval" where
  "argsValue a = (case a of None \<Rightarrow> VNil | Some m \<Rightarrow> VMap m)"

definition sameArgs :: "gomap option \<Rightarrow> gomap option \<Rightarrow> bool" where
  "sameArgs a b \<longleftrightarrow> map_option map_of a = map_option map_of b"

lemma map_of_merge_Nil: "map_of (AList.merge [] m) = map_of m"
  by (simp add: merge_conv')

lemma decodeParams_update:
  "plain_keys [''arguments''] m \<Longrightarrow> decodeParams m p = Inr p' \<Longrightarrow> tc_Arguments p = None \<Longrightarrow>
   \<exists>p''. decodeParams (AList.update ''arguments'' (argsValue a) m) p = Inr p'' \<and>
     tc_Name p'' = tc_Name p' \<and> sameArgs (tc_Arguments p'') a"
proof (induction m arbitrary: p)
  case Nil
  then show ?case
    by (cases a) (auto simp: argsValue_def sameArgs_def map_of_merge_Nil)
next
  case (Cons kv m)
  obtain k v where kv: "kv = (k, v)" by (cases kv)
  note pk = plain_keys_Cons [OF Cons.prems(1) [unfolded kv]]
  show ?case
  proof (cases "k = ''arguments''")
    case True
    then have out: "''arguments'' \<notin> fst ` set m" using pk by simp
    note nx = decodeParams_no_args [OF out conjunct1 [OF pk], where p = p]
    obtain q where q: "decodeParams m p = Inr q" "tc_Name q = tc_Name p'"
    proof (cases v)
      case (VMap m1)
      then show ?thesis using Cons.prems that nx by (cases "decodeParams m p") (auto simp: kv True)
    next
      case VNil
      then show ?thesis using Cons.prems that nx by (cases "decodeParams m p") (auto simp: kv True)
    qed (use Cons.prems in \<open>auto simp: kv True\<close>)
    show ?thesis
      using nx q Cons.prems(3)
      by (cases a) (auto simp: kv True argsValue_def sameArgs_def map_of_merge_Nil)
  next
    case False
    then have "\<not> EqualFold k ''arguments''" using pk by auto
    with False Cons show ?thesis
      using pk by (auto simp: kv split: if_splits sum.splits)
  qed
qed

section \<open>Properties\<close>

text \<open>
  C32. Rebuilding a request changes its arguments and nothing else. For a tools/call whose keys are spelt as the protocol
  spells them, the body that is sent instead is the encoding of a document that is read as a request with the same version,
  id and method, for the same tool, and with exactly the new arguments. (No claim is made of the JSON library: how
  it spells numbers, or orders keys, when it encodes that document is its own.)
\<close>

theorem rebuild_keeps_call:
  assumes "js_unmarshal js body = Inr (VMap doc)" and "plain_keys [''params''] doc"
    and "map_of doc ''params'' = Some (VMap ps)" and "plain_keys [''arguments''] ps"
    and "decodeRPC doc emptyRPC = Inr req" and "jr_Params req = Some (VMap ps)"
    and "ParseToolsCall req = Inr tc"
    and "RebuildRequestBody js body args = Inr body'"
  shows "\<exists>doc' req' tc'. js_marshal js (VMap doc') = Inr body' \<and> decodeRPC doc' emptyRPC = Inr req' \<and>
     jr_JSONRPC req' = jr_JSONRPC req \<and> jr_ID req' = jr_ID req \<and> jr_Method req' = jr_Method req \<and>
     ParseToolsCall req' = Inr tc' \<and> tc_Name tc' = tc_Name tc \<and> sameArgs (tc_Arguments tc') args"
proof -
  let ?ps = "AList.update ''arguments'' (argsValue args) ps"
  let ?doc = "AList.update ''params'' (VMap ?ps) doc"
  have "mget doc ''params'' = VMap ps" using assms(3) by (simp add: mget_def)
  then have body: "js_marshal js (VMap ?doc) = Inr body'"
    using assms(1,8) by (auto simp: RebuildRequestBody_def argsValue_def Let_def split: sum.splits)
  have "''params'' \<in> fst ` set doc" using assms(3) by (force dest: map_of_SomeD)
  from decodeRPC_update [OF this assms(2), of "VMap ?ps" emptyRPC]
  have rpc: "decodeRPC ?doc emptyRPC = Inr (req\<lparr>jr_Params := Some (VMap ?ps)\<rparr>)"
    using assms(5) by simp
  have "decodeParams ps \<lparr>tc_Name = [], tc_Arguments = None\<rparr> = Inr tc" and "tc_Name tc \<noteq> []"
    and "jr_Method req = MethodToolsCall"
    using assms(6,7) by (auto simp: ParseToolsCall_def split: if_splits sum.splits)
  with decodeParams_update [OF assms(4) this(1), of args]
  obtain tc' where "decodeParams ?ps \<lparr>tc_Name = [], tc_Arguments = None\<rparr> = Inr tc'"
    "tc_Name tc' = tc_Name tc" "sameArgs (tc_Arguments tc') args" by auto
  then show ?thesis
    using body rpc \<open>tc_Name tc \<noteq> []\<close> \<open>jr_Method req = MethodToolsCall\<close>
    by (intro exI [of _ ?doc] exI [of _ "req\<lparr>jr_Params := Some (VMap ?ps)\<rparr>"] exI [of _ tc'])
      (simp add: ParseToolsCall_def)
qed

definition demo_doc :: "gomap \<Rightarrow> gomap" where
  "demo_doc ps = [(''id'', VInt 7), (''method'', VStr ''tools/call''), (''params'', VMap ps)]"

definition demo_json :: json_lib where
  "demo_json = (let new = VMap (demo_doc [(''name'', VStr ''ls''), (''arguments'', VMap [(''x'', VInt 1)])]) in
     \<lparr>js_unmarshal = (\<lambda>b. if b = ''A'' then Inr (VMap (demo_doc [(''name'', VStr ''ls'')]))
        else if b = ''B'' then Inr new else Inl ''syntax''),
      js_marshal = (\<lambda>v. if v = new then Inr ''B'' else Inl ''unsupported'')\<rparr>)"

lemma rebuild_keeps_call_witness:
  "\<exists>doc' req' tc'. js_marshal demo_json (VMap doc') = Inr ''B'' \<and> decodeRPC doc' emptyRPC = Inr req' \<and> jr_ID req' = VInt 7 \<and>
     ParseToolsCall req' = Inr tc' \<and> tc_Name tc' = ''ls'' \<and>
     sameArgs (tc_Arguments tc') (Some [(''x'', VInt 1)])"
proof -
  let ?ps = "[(''name'', VStr ''ls'')]"
  let ?req = "\<lparr>jr_JSONRPC = [], jr_ID = VInt 7, jr_Method = ''tools/call'', jr_Params = Some (VMap ?ps)\<rparr>"
  have "js_unmarshal demo_json ''A'' = Inr (VMap (demo_doc ?ps))" "plain_keys [''params''] (demo_doc ?ps)"
    "map_of (demo_doc ?ps) ''params'' = Some (VMap ?ps)" "plain_keys [''arguments''] ?ps" "decodeRPC (demo_doc ?ps) emptyRPC = Inr ?req"
    "jr_Params ?req = Some (VMap ?ps)" "ParseToolsCall ?req = Inr \<lparr>tc_Name = ''ls'', tc_Arguments = None\<rparr>"
    "RebuildRequestBody demo_json ''A'' (Some [(''x'', VInt 1)]) = Inr ''B''"
    by (simp_all add: demo_json_def demo_doc_def plain_keys_def str_eval decodeString_def emptyRPC_def
      ParseToolsCall_def MethodToolsCall_def RebuildRequestBody_def Let_def)
  from rebuild_keeps_call [OF this] show ?thesis by simp blast
qed

end
