(* ===== verification/Hold.thy ===== *)
theory Hold
  imports Types
begin

text \<open>
  Package \<open>hold\<close>: the manager of held requests (\<open>manager.go\<close>), its admin endpoints
  (\<open>admin.go\<close>), the webhook payload (\<open>notify.go\<close>) and the client side of a hold kept by
  the controller (\<open>remote.go\<close>). The controller's own store has the same contract, so the
  contract is a locale: every hold is answered at most once, and exactly once when its timeout
  has run. A channel is the message sent on it; the goroutine of \<open>startTimeout\<close> is the
  operation it performs after its sleep.
\<close>

section \<open>The contract of a store of holds\<close>

text \<open>
  \<open>step\<close> performs one operation (one critical section and the send that follows it) and
  gives what it sent on the channel of which hold. \<open>creates\<close> and \<open>expires\<close> say which hold
  an operation opens, and which hold it closes if it is still open.
\<close>

fun deliveries :: "('s \<Rightarrow> 'op \<Rightarrow> 's \<times> (string \<times> 'm) option) \<Rightarrow> 's \<Rightarrow> 'op list \<Rightarrow> (string \<times> 'm) list" where
  "deliveries step s [] = []"
| "deliveries step s (x # xs) =
     (case step s x of (s', m) \<Rightarrow>
        (case m of None \<Rightarrow> [] | Some d \<Rightarrow> [d]) @ deliveries step s' xs)"

fun store_after :: "('s \<Rightarrow> 'op \<Rightarrow> 's \<times> (string \<times> 'm) option) \<Rightarrow> 's \<Rightarrow> 'op list \<Rightarrow> 's" where
  "store_after step s [] = s"
| "store_after step s (x # xs) = store_after step (fst (step s x)) xs"

lemma distinct_once:
  "distinct (map fst ds) \<Longrightarrow> i \<in> fst ` set ds \<Longrightarrow> length (filter (\<lambda>d. fst d = i) ds) = 1"
proof (induction ds)
  case (Cons d ds)
  show ?case
  proof (cases "fst d = i")
    case True
    then have "filter (\<lambda>d. fst d = i) ds = []"
      using Cons.prems by (auto simp: filter_empty_conv image_iff)
    with True show ?thesis by simp
  next
    case False
    with Cons show ?thesis by auto
  qed
qed simp

locale hold_store =
  fixes is_open :: "'s \<Rightarrow> string \<Rightarrow> bool"
    and step :: "'s \<Rightarrow> 'op \<Rightarrow> 's \<times> (string \<times> 'm) option"
    and creates :: "'op \<Rightarrow> string option"
    and expires :: "'op \<Rightarrow> string option"
  assumes create_opens: "creates x = Some i \<Longrightarrow> step s x = (s', m) \<Longrightarrow>
      m = None \<and> (\<forall>j. is_open s' j \<longleftrightarrow> j = i \<or> is_open s j)"
    and send_closes: "step s x = (s', Some (i, a)) \<Longrightarrow>
      is_open s i \<and> \<not> is_open s' i \<and> (\<forall>j. j \<noteq> i \<longrightarrow> is_open s' j = is_open s j)"
    and quiet_keeps: "creates x = None \<Longrightarrow> step s x = (s', None) \<Longrightarrow> is_open s' j = is_open s j"
    and expiry_sends: "expires x = Some i \<Longrightarrow> is_open s i \<Longrightarrow> \<exists>s' a. step s x = (s', Some (i, a))"
begin

abbreviation sent where "sent \<equiv> deliveries step"
abbreviation after where "after \<equiv> store_after step"

definition created :: "'op list \<Rightarrow> string list" where
  "created xs = List.map_filter creates xs"

lemma created_Cons: "created (x # xs) = (case creates x of None \<Rightarrow> [] | Some i \<Rightarrow> [i]) @ created xs"
  by (simp add: created_def split: option.splits)

text \<open>What was opened, by the state or by the run, is answered once or still open.\<close>

lemma conservation:
  assumes "distinct (created xs)" and "\<forall>i \<in> set (created xs). \<not> is_open s i"
  shows "distinct (map fst (sent s xs)) \<and>
     (\<forall>i. i \<in> fst ` set (sent s xs) \<or> is_open (after s xs) i \<longleftrightarrow> is_open s i \<or> i \<in> set (created xs)) \<and>
     (\<forall>i. \<not> (i \<in> fst ` set (sent s xs) \<and> is_open (after s xs) i))"
  using assms
proof (induction xs arbitrary: s)
  case Nil
  then show ?case by (simp add: created_def)
next
  case (Cons x xs)
  obtain s' m where st: "step s x = (s', m)" by fastforce
  show ?case
  proof (cases "creates x")
    case (Some i)
    note o1 = create_opens [OF Some st]
    have "\<forall>i \<in> set (created xs). \<not> is_open s' i"
      using o1 Cons.prems Some by (auto simp: created_Cons)
    with Cons.IH [of s'] Cons.prems o1 Some st show ?thesis by (simp add: created_Cons) blast
  next
    case None
    show ?thesis
    proof (cases m)
      case m: None
      have "is_open s' j = is_open s j" for j using quiet_keeps [OF None] st m by blast
      with Cons.IH [of s'] Cons.prems None st m show ?thesis by (simp add: created_Cons)
    next
      case (Some d)
      obtain i a where d: "d = (i, a)" by (cases d)
      note c = send_closes [OF st [unfolded Some d]]
      have fresh: "\<forall>i \<in> set (created xs). \<not> is_open s' i"
        using c Cons.prems None by (auto simp: created_Cons)
      have "i \<notin> set (created xs)" using c Cons.prems None by (auto simp: created_Cons)
      have dist: "distinct (created xs)" using Cons.prems None by (simp add: created_Cons)
      note IH = Cons.IH [OF dist fresh]
      have out: "i \<notin> fst ` set (sent s' xs)" "\<not> is_open (after s' xs) i"
        using IH c \<open>i \<notin> set (created xs)\<close> by blast+
      have "(j \<in> fst ` set (sent s (x # xs)) \<or> is_open (after s (x # xs)) j) =
          (is_open s j \<or> j \<in> set (created (x # xs)))" for j
        using IH c None st Some d by (cases "j = i") (simp_all add: created_Cons)
      moreover have "\<not> (j \<in> fst ` set (sent s (x # xs)) \<and> is_open (after s (x # xs)) j)" for j
        using IH out st Some d by (cases "j = i") simp_all
      ultimately show ?thesis using IH out st Some d by simp
    qed
  qed
qed

lemma open_preserved:
  assumes "is_open s i" and "i \<notin> fst ` set (sent s xs)" and "distinct (created xs)"
    and "\<forall>i \<in> set (created xs). \<not> is_open s i"
  shows "is_open (after s xs) i"
  using conservation [OF assms(3,4)] assms(1,2) by blast

lemma sent_append: "sent s (xs @ ys) = sent s xs @ sent (after s xs) ys"
  by (induction xs arbitrary: s) (auto split: prod.splits)

text \<open>Once the timeout of a hold has run, the hold has been answered exactly once.\<close>

lemma answered_once:
  assumes "creates x = Some i" and "expires y = Some i"
    and "distinct (created (xs @ x # ys @ y # zs))"
    and "\<forall>j \<in> set (created (xs @ x # ys @ y # zs)). \<not> is_open s j"
  shows "length (filter (\<lambda>d. fst d = i) (sent s (xs @ x # ys @ y # zs))) = 1"
proof -
  let ?run = "xs @ x # ys @ y # zs" and ?s1 = "after s (xs @ [x])"
  have dist: "distinct (map fst (sent s ?run))"
    using conservation [OF assms(3,4)] by blast
  have split: "created ?run = created (xs @ [x] @ ys) @ created (y # zs)"
    by (simp add: created_def map_filter_def)
  have pre: "distinct (created (xs @ [x] @ ys))" "\<forall>j \<in> set (created (xs @ [x] @ ys)). \<not> is_open s j"
    using assms(3,4) by (auto simp: split)
  have i: "i \<in> set (created (xs @ [x] @ ys))"
    using assms(1) by (simp add: created_def map_filter_def)
  have "i \<in> fst ` set (sent s ?run)"
  proof (cases "i \<in> fst ` set (sent s (xs @ [x] @ ys))")
    case True
    then show ?thesis
      using sent_append [of s "xs @ [x] @ ys" "y # zs"] by auto
  next
    case False
    then have "is_open (after s (xs @ [x] @ ys)) i"
      using conservation [OF pre] i by blast
    from expiry_sends [OF assms(2) this] obtain s' a
      where "step (after s (xs @ [x] @ ys)) y = (s', Some (i, a))" by blast
    then show ?thesis
      using sent_append [of s "xs @ [x] @ ys" "y # zs"] by auto
  qed
  with dist show ?thesis by (rule distinct_once)
qed

end

section \<open>The hold manager\<close>

datatype Status = StatusPending | StatusApproved | StatusDenied | StatusTimeout

record HeldRequest =
  hr_ID :: string
  hr_Tool :: string
  hr_Arguments :: "gomap option"
  hr_Identity :: string
  hr_SessionID :: string
  hr_Reason :: string
  hr_Status :: Status
  hr_CreatedAt :: time
  hr_ResolvedAt :: "time option"
  hr_ResolvedBy :: string

record Resolution =
  rs_Approved :: bool
  rs_By :: string

record Manager =
  hm_pending :: "string \<rightharpoonup> HeldRequest"
  hm_history :: "HeldRequest list"
  hm_maxHist :: nat

definition NewManager :: Manager where
  "NewManager = \<lparr>hm_pending = Map.empty, hm_history = [], hm_maxHist = 100\<rparr>"

text \<open>\<open>generateID\<close> is the prefix with random hexadecimal digits, the argument here.\<close>

definition generateID :: "string \<Rightarrow> string" where
  "generateID hex = ''hold-'' @ hex"

definition Manager_Hold ::
  "Manager \<Rightarrow> string \<Rightarrow> string \<Rightarrow> gomap option \<Rightarrow> string \<Rightarrow> string \<Rightarrow> string \<Rightarrow> time \<Rightarrow> Manager \<times> string" where
  "Manager_Hold m hex tool args identitySubject sessionID reason now =
     (let hid = generateID hex;
          req = \<lparr>hr_ID = hid, hr_Tool = tool, hr_Arguments = args, hr_Identity = identitySubject,
                 hr_SessionID = sessionID, hr_Reason = reason, hr_Status = StatusPending,
                 hr_CreatedAt = now, hr_ResolvedAt = None, hr_ResolvedBy = []\<rparr>
      in (m\<lparr>hm_pending := (hm_pending m)(hid \<mapsto> req)\<rparr>, hid))"

definition archiveHold :: "Manager \<Rightarrow> string \<Rightarrow> HeldRequest \<Rightarrow> Manager" where
  "archiveHold m hid req =
     m\<lparr>hm_pending := (hm_pending m)(hid := None),
       hm_history := keep_last (hm_maxHist m) (hm_history m @ [req])\<rparr>"

text \<open>The resolution comes with the identifier of the hold whose channel it is sent on.\<close>

definition Manager_resolve ::
  "Manager \<Rightarrow> string \<Rightarrow> bool \<Rightarrow> string \<Rightarrow> time \<Rightarrow> Manager \<times> (string + (string \<times> Resolution))" where
  "Manager_resolve m hid approved who now =
     (case hm_pending m hid of
        None \<Rightarrow> (m, Inl (''hold '' @ hid @ '' not found or already resolved''))
      | Some req \<Rightarrow>
          let req = req\<lparr>hr_ResolvedAt := Some now, hr_ResolvedBy := who,
                hr_Status := (if approved then StatusApproved else StatusDenied)\<rparr>
          in (archiveHold m hid req, Inr (hid, \<lparr>rs_Approved = approved, rs_By = who\<rparr>)))"

definition Manager_Approve where
  "Manager_Approve m hid approvedBy now = Manager_resolve m hid True approvedBy now"

definition Manager_Deny where
  "Manager_Deny m hid deniedBy now = Manager_resolve m hid False deniedBy now"

definition Manager_startTimeout ::
  "Manager \<Rightarrow> string \<Rightarrow> time \<Rightarrow> Manager \<times> (string \<times> Resolution) option" where
  "Manager_startTimeout m hid now =
     (case hm_pending m hid of
        None \<Rightarrow> (m, None)
      | Some req \<Rightarrow>
          (archiveHold m hid (req\<lparr>hr_ResolvedAt := Some now, hr_Status := StatusTimeout\<rparr>),
           Some (hid, \<lparr>rs_Approved = False, rs_By = ''timeout''\<rparr>)))"

definition Manager_List :: "Manager \<Rightarrow> string list \<Rightarrow> HeldRequest list" where
  "Manager_List m ids = List.map_filter (hm_pending m) ids"

definition Manager_History :: "Manager \<Rightarrow> HeldRequest list" where
  "Manager_History m = hm_history m"

definition Manager_Get :: "Manager \<Rightarrow> string \<Rightarrow> HeldRequest option" where
  "Manager_Get m hid =
     (case hm_pending m hid of
        Some req \<Rightarrow> Some req
      | None \<Rightarrow> List.find (\<lambda>h. hr_ID h = hid) (hm_history m))"

section \<open>Admin endpoints\<close>

datatype reply =
    HttpError string nat
  | HoldsReply "HeldRequest list"
  | HoldReply HeldRequest
  | StatusReply string string

text \<open>
  The three routes; \<open>ids\<close> is the order in which Go ranges over the pending table. An exact
  pattern wins over the subtree pattern, as in \<open>http.ServeMux\<close>; other paths are not ours.
\<close>

definition admin_item ::
  "Manager \<Rightarrow> string \<Rightarrow> string \<Rightarrow> string \<Rightarrow> time \<Rightarrow> Manager \<times> reply \<times> (string \<times> Resolution) option" where
  "admin_item m meth path xApprover now =
     (let parts = Split CHR ''/'' path in
      if parts ! 0 = [] then (m, HttpError ''hold ID required'' 400, None)
      else
        let holdID = parts ! 0 in
        if length parts = 1
        then (if meth \<noteq> ''GET'' then (m, HttpError ''method not allowed'' 405, None)
              else case Manager_Get m holdID of
                None \<Rightarrow> (m, HttpError ''hold not found'' 404, None)
              | Some req \<Rightarrow> (m, HoldReply req, None))
        else
          let action = parts ! 1 in
          if meth \<noteq> ''POST'' then (m, HttpError ''method not allowed'' 405, None)
          else
            let approver = (if xApprover = [] then ''admin-api'' else xApprover) in
            if action = ''approve''
            then (case Manager_Approve m holdID approver now of
                    (m', Inl err) \<Rightarrow> (m', HttpError err 404, None)
                  | (m', Inr d) \<Rightarrow> (m', StatusReply ''approved'' holdID, Some d))
            else if action = ''deny''
            then (case Manager_Deny m holdID approver now of
                    (m', Inl err) \<Rightarrow> (m', HttpError err 404, None)
                  | (m', Inr d) \<Rightarrow> (m', StatusReply ''denied'' holdID, Some d))
            else (m, HttpError (''unknown action: '' @ action) 400, None))"

definition admin_holds ::
  "Manager \<Rightarrow> string list \<Rightarrow> string \<Rightarrow> string \<Rightarrow> string \<Rightarrow> time \<Rightarrow>
     (Manager \<times> reply \<times> (string \<times> Resolution) option) option" where
  "admin_holds m ids meth path xApprover now =
     (if path = ''/admin/holds''
      then Some (m, if meth \<noteq> ''GET'' then HttpError ''method not allowed'' 405
                    else HoldsReply (Manager_List m ids), None)
      else if path = ''/admin/holds/history''
      then Some (m, if meth \<noteq> ''GET'' then HttpError ''method not allowed'' 405
                    else HoldsReply (Manager_History m), None)
      else if HasPrefix path ''/admin/holds/''
      then Some (admin_item m meth (TrimPrefix path ''/admin/holds/'') xApprover now)
      else None)"

section \<open>Notification and the remote client\<close>

record webhookPayload =
  wp_Event :: string
  wp_HoldID :: string
  wp_Tool :: string
  wp_Identity :: string
  wp_Reason :: string
  wp_ApproveURL :: string
  wp_DenyURL :: string
  wp_ExpiresAt :: time
  wp_Arguments :: "gomap option"

definition holdPayload :: "HeldRequest \<Rightarrow> webhookPayload" where
  "holdPayload req = \<lparr>wp_Event = ''hold.created'', wp_HoldID = hr_ID req, wp_Tool = hr_Tool req,
     wp_Identity = hr_Identity req, wp_Reason = hr_Reason req,
     wp_ApproveURL = ''/admin/holds/'' @ hr_ID req @ ''/approve'',
     wp_DenyURL = ''/admin/holds/'' @ hr_ID req @ ''/deny'',
     wp_ExpiresAt = hr_CreatedAt req + 5 * Minute, wp_Arguments = hr_Arguments req\<rparr>"

text \<open>\<open>post\<close> is the HTTP client: an error or a status code. A status of 300 or more is only logged.\<close>

definition WebhookNotifier_Notify :: "(webhookPayload \<Rightarrow> string + nat) \<Rightarrow> HeldRequest \<Rightarrow> string option" where
  "WebhookNotifier_Notify post req =
     (case post (holdPayload req) of Inl err \<Rightarrow> Some err | Inr _ \<Rightarrow> None)"

definition RemoteHoldManager_Create ::
  "(string \<Rightarrow> string \<Rightarrow> string \<Rightarrow> string \<Rightarrow> string \<Rightarrow> string \<Rightarrow> string + string) \<Rightarrow>
     string \<Rightarrow> string \<Rightarrow> string \<Rightarrow> string \<Rightarrow> HoldConfig option \<Rightarrow> string + string" where
  "RemoteHoldManager_Create createHold tool identity sessionID reason cfg =
     (let timeout = (case cfg of None \<Rightarrow> ''5m''
            | Some c \<Rightarrow> if hc_Timeout c \<noteq> [] then hc_Timeout c else ''5m'');
          onTimeout = (case cfg of None \<Rightarrow> ''DENY''
            | Some c \<Rightarrow> if hc_OnTimeout c \<noteq> [] then hc_OnTimeout c else ''DENY'')
      in createHold tool identity sessionID reason timeout onTimeout)"

section \<open>The manager keeps the contract\<close>

datatype hold_op =
    OpHold string string "gomap option" string string string time
  | OpApprove string string time
  | OpDeny string string time
  | OpTimeout string time

definition sent_of :: "'s \<times> ('e + 'd) \<Rightarrow> 's \<times> 'd option" where
  "sent_of r = (case r of (s, Inl _) \<Rightarrow> (s, None) | (s, Inr d) \<Rightarrow> (s, Some d))"

fun hold_exec :: "Manager \<Rightarrow> hold_op \<Rightarrow> Manager \<times> (string \<times> Resolution) option" where
  "hold_exec m (OpHold hex tool args subj sess reason now) =
     (fst (Manager_Hold m hex tool args subj sess reason now), None)"
| "hold_exec m (OpApprove i who now) = sent_of (Manager_Approve m i who now)"
| "hold_exec m (OpDeny i who now) = sent_of (Manager_Deny m i who now)"
| "hold_exec m (OpTimeout i now) = Manager_startTimeout m i now"

fun hold_creates :: "hold_op \<Rightarrow> string option" where
  "hold_creates (OpHold hex tool args subj sess reason now) = Some (generateID hex)"
| "hold_creates _ = None"

fun hold_expires :: "hold_op \<Rightarrow> string option" where
  "hold_expires (OpTimeout i now) = Some i"
| "hold_expires _ = None"

definition hold_open :: "Manager \<Rightarrow> string \<Rightarrow> bool" where
  "hold_open m i \<longleftrightarrow> hm_pending m i \<noteq> None"

lemmas hold_defs = Manager_Hold_def Manager_resolve_def Manager_Approve_def Manager_Deny_def
  Manager_startTimeout_def archiveHold_def sent_of_def hold_open_def Let_def

interpretation holds: hold_store hold_open hold_exec hold_creates hold_expires
proof unfold_locales
  fix x i s s' m assume "hold_creates x = Some i" "hold_exec s x = (s', m)"
  then show "m = None \<and> (\<forall>j. hold_open s' j = (j = i \<or> hold_open s j))"
    by (cases x) (auto simp: hold_defs)
next
  fix s x s' i a assume "hold_exec s x = (s', Some (i, a))"
  then show "hold_open s i \<and> \<not> hold_open s' i \<and> (\<forall>j. j \<noteq> i \<longrightarrow> hold_open s' j = hold_open s j)"
    by (cases x) (auto simp: hold_defs split: option.splits)
next
  fix x s s' j assume "hold_creates x = None" "hold_exec s x = (s', None)"
  then show "hold_open s' j = hold_open s j"
    by (cases x) (auto simp: hold_defs split: option.splits)
next
  fix x i s assume "hold_expires x = Some i" "hold_open s i"
  then show "\<exists>s' a. hold_exec s x = (s', Some (i, a))"
    by (cases x) (auto simp: hold_defs)
qed

text \<open>What the tables hold: pending requests under their own name, resolved ones bounded.\<close>

definition manager_inv :: "Manager \<Rightarrow> bool" where
  "manager_inv m \<longleftrightarrow>
     (\<forall>i r. hm_pending m i = Some r \<longrightarrow> hr_ID r = i \<and> hr_Status r = StatusPending) \<and>
     (\<forall>r \<in> set (hm_history m). hr_Status r \<noteq> StatusPending \<and> hr_ResolvedAt r \<noteq> None) \<and>
     length (hm_history m) \<le> hm_maxHist m"

lemma manager_inv_archive:
  assumes "manager_inv m" and "hr_Status r \<noteq> StatusPending" and "hr_ResolvedAt r \<noteq> None"
  shows "manager_inv (archiveHold m i r)"
  using assms set_keep_last [of "hm_maxHist m" "hm_history m @ [r]"]
  by (auto simp: manager_inv_def archiveHold_def length_keep_last)

lemma manager_inv_exec: "manager_inv m \<Longrightarrow> manager_inv (fst (hold_exec m x))"
proof (cases x)
  case (OpHold hex tool args subj sess reason now)
  then show "manager_inv m \<Longrightarrow> ?thesis" by (auto simp: manager_inv_def Manager_Hold_def Let_def)
qed (auto simp: Manager_resolve_def Manager_Approve_def Manager_Deny_def Manager_startTimeout_def
    sent_of_def Let_def intro!: manager_inv_archive split: option.splits)

lemma manager_inv_New: "manager_inv NewManager"
  by (simp add: manager_inv_def NewManager_def)

lemma manager_inv_run: "manager_inv m \<Longrightarrow> manager_inv (store_after hold_exec m xs)"
  by (induction xs arbitrary: m) (auto intro: manager_inv_exec)

text \<open>An approval is only ever the work of an \<open>Approve\<close>.\<close>

lemma sent_from:
  "(i, a) \<in> set (deliveries hold_exec m xs) \<Longrightarrow>
   \<exists>x \<in> set xs. (\<exists>who now. x = OpApprove i who now \<and> a = \<lparr>rs_Approved = True, rs_By = who\<rparr>) \<or>
     (\<exists>who now. x = OpDeny i who now \<and> a = \<lparr>rs_Approved = False, rs_By = who\<rparr>) \<or>
     (\<exists>now. x = OpTimeout i now \<and> a = \<lparr>rs_Approved = False, rs_By = ''timeout''\<rparr>)"
proof (induction xs arbitrary: m)
  case (Cons x xs)
  obtain m' d where st: "hold_exec m x = (m', d)" by fastforce
  show ?case
  proof (cases "d = Some (i, a)")
    case True
    then show ?thesis using st by (cases x) (auto simp: hold_defs split: option.splits)
  next
    case False
    then show ?thesis using Cons st by (auto split: option.splits)
  qed
qed simp

section \<open>Properties\<close>

text \<open>
  C24. A held call is answered exactly once. Take any sequence of the manager's operations, in
  any order, with approvals, denials and timeouts racing for any of the holds, in which no
  identifier is issued twice. If it contains a hold and, later, the timeout that hold started,
  then exactly one resolution is ever sent to the waiting caller; and it says approved only if
  an operator's approval of that hold is among the operations.
\<close>

theorem hold_answered_once:
  assumes "distinct (List.map_filter hold_creates ops)"
    and "ops = xs @ OpHold hex tool args subj sess reason now # ys @ OpTimeout (generateID hex) now' # zs"
  shows "(\<exists>a. filter (\<lambda>d. fst d = generateID hex) (deliveries hold_exec NewManager ops) =
        [(generateID hex, a)] \<and>
        (rs_Approved a \<longrightarrow> (\<exists>who t. OpApprove (generateID hex) who t \<in> set ops)))"
proof -
  let ?i = "generateID hex" and ?ds = "deliveries hold_exec NewManager ops"
  have "\<forall>j \<in> set (holds.created ops). \<not> hold_open NewManager j"
    by (simp add: hold_open_def NewManager_def)
  then have "length (filter (\<lambda>d. fst d = ?i) ?ds) = 1"
    using holds.answered_once [of "OpHold hex tool args subj sess reason now" ?i
        "OpTimeout ?i now'" xs ys zs NewManager] assms
    by (simp add: holds.created_def)
  then obtain d where d: "filter (\<lambda>d. fst d = ?i) ?ds = [d]"
    by (auto simp: length_Suc_conv)
  have "set (filter (\<lambda>d. fst d = ?i) ?ds) = {d}" unfolding d by simp
  then have "d \<in> {x \<in> set ?ds. fst x = ?i}" by simp
  then obtain a where a: "d = (?i, a)" and "(?i, a) \<in> set ?ds"
    by (metis (mono_tags, lifting) mem_Collect_eq prod.collapse)
  from sent_from [OF this(2)] have "rs_Approved a \<longrightarrow> (\<exists>who t. OpApprove ?i who t \<in> set ops)"
    by auto
  with d a show ?thesis by simp
qed

lemma hold_answered_once_witness:
  "\<exists>a. filter (\<lambda>d. fst d = generateID ''1'') (deliveries hold_exec NewManager
      [OpHold ''1'' ''rm'' None ''u'' ''s'' ''r'' 0, OpDeny (generateID ''1'') ''op'' 1,
       OpApprove (generateID ''1'') ''op'' 2, OpTimeout (generateID ''1'') 9]) = [(generateID ''1'', a)]"
  using hold_answered_once
    [of "[OpHold ''1'' ''rm'' None ''u'' ''s'' ''r'' 0, OpDeny (generateID ''1'') ''op'' 1,
       OpApprove (generateID ''1'') ''op'' 2, OpTimeout (generateID ''1'') 9]" "[]" "''1''" "''rm''" None
      "''u''" "''s''" "''r''" 0
      "[OpDeny (generateID ''1'') ''op'' 1, OpApprove (generateID ''1'') ''op'' 2]" 9 "[]"]
  by (simp del: deliveries.simps hold_exec.simps add: generateID_def)

text \<open>
  A resolution can be looked up. In every reachable state, resolving a pending hold removes
  it from the pending table and a later \<open>Get\<close> of its identifier finds it in the history with
  its verdict, the resolver and the instant, unless an older hold of the same identifier is
  still remembered; the history never exceeds its bound.
\<close>

theorem resolve_then_get:
  assumes "m = store_after hold_exec NewManager ops" and "hm_pending m i = Some req"
    and "\<forall>h \<in> set (hm_history m). hr_ID h \<noteq> i"
  shows "let m' = fst (Manager_resolve m i approved who now) in
     hm_pending m' i = None \<and>
     Manager_Get m' i = Some (req\<lparr>hr_ResolvedAt := Some now, hr_ResolvedBy := who,
        hr_Status := (if approved then StatusApproved else StatusDenied)\<rparr>) \<and>
     length (Manager_History m') \<le> 100"
proof -
  have inv: "manager_inv m" using assms(1) manager_inv_run [OF manager_inv_New] by simp
  have max: "hm_maxHist m = 100"
  proof -
    have "hm_maxHist (store_after hold_exec m0 xs) = hm_maxHist m0" for m0 xs
    proof (induction xs arbitrary: m0)
      case (Cons x xs)
      have "hm_maxHist (fst (hold_exec m0 x)) = hm_maxHist m0"
        by (cases x) (auto simp: hold_defs split: option.splits)
      with Cons show ?case by simp
    qed simp
    then show ?thesis using assms(1) by (simp add: NewManager_def)
  qed
  let ?r = "req\<lparr>hr_ResolvedAt := Some now, hr_ResolvedBy := who,
      hr_Status := (if approved then StatusApproved else StatusDenied)\<rparr>"
  have hid: "hr_ID req = i" using inv assms(2) by (simp add: manager_inv_def)
  obtain ys where ys: "keep_last 100 (hm_history m @ [?r]) = ys @ [?r]"
    using keep_last_snoc [of 100 "hm_history m" ?r] by auto
  have "set ys \<subseteq> set (hm_history m)"
    using suffix_keep_last [of 100 "hm_history m @ [?r]"] ys by (auto simp: suffix_def)
  then have "List.find (\<lambda>h. hr_ID h = i) ys = None"
    using assms(3) by (auto simp: find_None_iff)
  then have "List.find (\<lambda>h. hr_ID h = i) (ys @ [?r]) = Some ?r"
    using hid by (induction ys) (auto split: if_splits)
  then show ?thesis
    using assms(2) ys max length_keep_last [of 100 "hm_history m @ [?r]"]
    by (simp add: Manager_resolve_def archiveHold_def Manager_Get_def Manager_History_def Let_def)
qed

lemma resolve_then_get_witness:
  "map_option hr_Status (Manager_Get (fst (Manager_resolve
      (store_after hold_exec NewManager [OpHold ''1'' ''rm'' None ''u'' ''s'' ''r'' 0])
      (generateID ''1'') True ''op'' 5)) (generateID ''1'')) = Some StatusApproved"
  using resolve_then_get
    [of "store_after hold_exec NewManager [OpHold ''1'' ''rm'' None ''u'' ''s'' ''r'' 0]"
      "[OpHold ''1'' ''rm'' None ''u'' ''s'' ''r'' 0]" "generateID ''1''"
      "\<lparr>hr_ID = generateID ''1'', hr_Tool = ''rm'', hr_Arguments = None, hr_Identity = ''u'',
        hr_SessionID = ''s'', hr_Reason = ''r'', hr_Status = StatusPending,
        hr_CreatedAt = 0, hr_ResolvedAt = None, hr_ResolvedBy = []\<rparr>" True "''op''" 5]
  by (simp add: Manager_Hold_def NewManager_def Let_def)

end
