(* ===== verification/AuditLog.thy ===== *)
theory AuditLog
  imports Policy Hold
begin

text \<open>
  Package \<open>audit\<close>: events (\<open>audit.go\<close>), the fan-out to several sinks, and the labels the
  metrics sink derives from an event (\<open>metrics.go\<close>); with the helpers of
  \<open>proxy/audit_context.go\<close> that complete an event from the identity and the decision.
\<close>

section \<open>Events\<close>

datatype EventType =
    EventMCPRequest | EventToolAllowed | EventToolDenied | EventIdentityFailed
  | EventCircuitTripped | EventUpstreamError | EventAnomalyVelocity | EventHoldCreated
  | EventHoldApproved | EventScopeModified | EventAnomalySequence | EventClaimsDrift
  | EventInspectionFinding | EventInspectionRedact | EventToolDrift | EventToolRugPull
  | EventArbiterDecision

record Event =
  ev_Type :: EventType
  ev_Method :: string
  ev_ToolName :: string
  ev_Identity :: string
  ev_SessionID :: string
  ev_Target :: string
  ev_Gate :: string
  ev_ReasonClass :: string
  ev_RuleIndex :: "int option"
  ev_RuleID :: string
  ev_PolicyRef :: string
  ev_RegistryRef :: string
  ev_Route :: string
  ev_Labels :: labels
  ev_Reason :: string
  ev_Error :: string
  ev_Args :: "gomap option"
  ev_WorkloadPrincipal :: string
  ev_Attester :: string
  ev_Assurance :: string
  ev_Transport :: string
  ev_Counterfactual :: string
  ev_RunID :: string
  ev_Action :: string
  ev_Time :: "time option"

definition event :: "EventType \<Rightarrow> Event" where
  "event t = \<lparr>ev_Type = t, ev_Method = [], ev_ToolName = [], ev_Identity = [], ev_SessionID = [],
     ev_Target = [], ev_Gate = [], ev_ReasonClass = [], ev_RuleIndex = None, ev_RuleID = [],
     ev_PolicyRef = [], ev_RegistryRef = [], ev_Route = [], ev_Labels = [], ev_Reason = [],
     ev_Error = [], ev_Args = None, ev_WorkloadPrincipal = [], ev_Attester = [], ev_Assurance = [],
     ev_Transport = [], ev_Counterfactual = [], ev_RunID = [], ev_Action = [], ev_Time = None\<rparr>"

lemma event_Type [simp]: "ev_Type (event t) = t"
  by (simp add: event_def)

text \<open>\<open>MultiEmitter.Emit\<close>: the event, stamped once, goes to every sink.\<close>

definition MultiEmitter_Emit :: "(Event \<Rightarrow> 's \<Rightarrow> 's) list \<Rightarrow> Event \<Rightarrow> time \<Rightarrow> 's list \<Rightarrow> 's list" where
  "MultiEmitter_Emit emitters e now sinks =
     (let e = (if ev_Time e = None then e\<lparr>ev_Time := Some now\<rparr> else e)
      in map2 (\<lambda>emit s. emit e s) emitters sinks)"

section \<open>Completing an event\<close>

definition eventWithIdentity :: "Event \<Rightarrow> Identity option \<Rightarrow> Event" where
  "eventWithIdentity e i =
     (case i of
        None \<Rightarrow> e
      | Some i \<Rightarrow>
          let e = (if ev_Identity e = [] then e\<lparr>ev_Identity := id_Subject i\<rparr> else e);
              e = (if ev_SessionID e = [] then e\<lparr>ev_SessionID := id_SessionID i\<rparr> else e)
          in e)"

definition addLabels :: "labels \<Rightarrow> labels \<Rightarrow> labels" where
  "addLabels old new = fold (\<lambda>(k, v) m. if map_of m k = None then AList.update k v m else m) new old"

definition eventWithDecision :: "Event \<Rightarrow> Decision \<Rightarrow> Identity option \<Rightarrow> Event" where
  "eventWithDecision e d i =
     (let e = eventWithIdentity e i;
          e = (if ev_Gate e = [] then e\<lparr>ev_Gate := d_Gate d\<rparr> else e);
          e = (if ev_ReasonClass e = [] then e\<lparr>ev_ReasonClass := d_ReasonClass d\<rparr> else e);
          e = (if ev_RuleID e = [] then e\<lparr>ev_RuleID := d_RuleID d\<rparr> else e);
          e = (if 0 \<le> d_RuleIndex d \<and> ev_RuleIndex e = None
               then e\<lparr>ev_RuleIndex := Some (d_RuleIndex d)\<rparr> else e);
          e = (if d_Labels d \<noteq> [] then e\<lparr>ev_Labels := addLabels (ev_Labels e) (d_Labels d)\<rparr> else e)
      in e)"

definition holdReasonClass :: "string \<Rightarrow> string" where
  "holdReasonClass resolvedBy = (if resolvedBy = ''timeout'' then ''hold_timeout'' else ''hold_denied'')"

lemma eventWithIdentity_Type [simp]: "ev_Type (eventWithIdentity e i) = ev_Type e"
  by (simp add: eventWithIdentity_def Let_def split: option.splits)

lemma eventWithDecision_Type [simp]: "ev_Type (eventWithDecision e d i) = ev_Type e"
  by (simp add: eventWithDecision_def Let_def)

lemma eventWithIdentity_subject:
  "ev_Identity (eventWithIdentity e (Some i)) = (if ev_Identity e = [] then id_Subject i else ev_Identity e)"
  by (simp add: eventWithIdentity_def Let_def)

section \<open>Metric labels\<close>

record toolCallLabels =
  tl_tool :: string
  tl_action :: string
  tl_gate :: string
  tl_reasonClass :: string

definition metricToolLabel :: "Event \<Rightarrow> string" where
  "metricToolLabel e =
     (if ev_Gate e = ''registry'' then ''unregistered''
      else if ev_Gate e = ''route'' then ''unrouted'' else ev_ToolName e)"

definition inferGate :: "Event \<Rightarrow> string" where
  "inferGate e = (case ev_Type e of EventToolDenied \<Rightarrow> ''policy'' | EventToolAllowed \<Rightarrow> ''policy'' | _ \<Rightarrow> ''unknown'')"

definition classifyReason :: "Event \<Rightarrow> string" where
  "classifyReason e =
     (if ev_ReasonClass e \<noteq> [] then ev_ReasonClass e
      else
        let reason = ToLower (ev_Reason e) in
        if ev_Type e = EventToolAllowed then ''allowed''
        else if Contains reason ''tool not registered'' then ''tool_not_registered''
        else if Contains reason ''budget exhausted'' then ''budget_exhausted''
        else if Contains reason ''hold timed out'' then ''hold_timeout''
        else if Contains reason ''hold'' \<and> Contains reason ''denied'' then ''hold_denied''
        else if Contains reason ''circuit breaker'' then ''circuit_open''
        else if Contains reason ''no route for tool'' then ''no_route''
        else if reason = [] then ''unspecified''
        else ''policy_denied'')"

definition toolCallMetricLabels :: "Event \<Rightarrow> toolCallLabels" where
  "toolCallMetricLabels e =
     \<lparr>tl_tool = metricToolLabel e,
      tl_action = (if ev_Type e = EventToolDenied then ''denied'' else ''allowed''),
      tl_gate = (if ev_Gate e = [] then inferGate e else ev_Gate e),
      tl_reasonClass = classifyReason e\<rparr>"

text \<open>The counters of \<open>MetricsEmitter\<close>, as maps from label values to counts.\<close>

record metrics =
  toolCallsTotal :: "toolCallLabels \<Rightarrow> nat"
  requestsTotal :: "string \<Rightarrow> nat"
  identityFailuresTotal :: nat
  circuitTripsTotal :: nat
  anomalyAlertsTotal :: "string \<Rightarrow> nat"

definition inc :: "('a \<Rightarrow> nat) \<Rightarrow> 'a \<Rightarrow> 'a \<Rightarrow> nat" where
  "inc f k = f(k := Suc (f k))"

definition MetricsEmitter_Emit :: "Event \<Rightarrow> metrics \<Rightarrow> metrics" where
  "MetricsEmitter_Emit e m =
     (case ev_Type e of
        EventToolAllowed \<Rightarrow> m\<lparr>toolCallsTotal := inc (toolCallsTotal m) (toolCallMetricLabels e),
            requestsTotal := inc (requestsTotal m) (ev_Method e)\<rparr>
      | EventToolDenied \<Rightarrow> m\<lparr>toolCallsTotal := inc (toolCallsTotal m) (toolCallMetricLabels e),
            requestsTotal := inc (requestsTotal m) (ev_Method e)\<rparr>
      | EventMCPRequest \<Rightarrow> m\<lparr>requestsTotal := inc (requestsTotal m) (ev_Method e)\<rparr>
      | EventIdentityFailed \<Rightarrow> m\<lparr>identityFailuresTotal := Suc (identityFailuresTotal m),
            requestsTotal := inc (requestsTotal m) (ev_Method e)\<rparr>
      | EventCircuitTripped \<Rightarrow> m\<lparr>circuitTripsTotal := Suc (circuitTripsTotal m),
            requestsTotal := inc (requestsTotal m) (ev_Method e)\<rparr>
      | EventAnomalyVelocity \<Rightarrow> m\<lparr>anomalyAlertsTotal := inc (anomalyAlertsTotal m) ''velocity''\<rparr>
      | _ \<Rightarrow> m)"

text \<open>
  Caller-chosen names never become label values when the call was refused for naming a tool
  the registry or the router does not know, so such refusals share one series per action,
  gate and reason class.
\<close>

lemma unregistered_series:
  assumes "ev_Gate e \<in> {''registry'', ''route''}" and "ev_Gate e' = ev_Gate e"
    and "ev_Type e' = ev_Type e" and "ev_ReasonClass e' = ev_ReasonClass e" and "ev_ReasonClass e \<noteq> []"
  shows "toolCallMetricLabels e' = toolCallMetricLabels e"
  using assms by (auto simp: toolCallMetricLabels_def metricToolLabel_def classifyReason_def)

end
