(* ===== verification/Operations.thy ===== *)
theory Operations
  imports Types
begin

text \<open>
  Package \<open>operations\<close> (\<open>operations.go\<close>): naming a call from its target's operation map. The
  parsing of the standard library the package relies on (\<open>net.SplitHostPort\<close>,
  \<open>url.PathUnescape\<close>) is defined first.
\<close>

section \<open>Addresses and escapes\<close>

fun last_index :: "char \<Rightarrow> string \<Rightarrow> nat option" where
  "last_index c [] = None"
| "last_index c (x # xs) =
     (case last_index c xs of Some i \<Rightarrow> Some (Suc i) | None \<Rightarrow> if x = c then Some 0 else None)"

fun first_index :: "char \<Rightarrow> string \<Rightarrow> nat option" where
  "first_index c [] = None"
| "first_index c (x # xs) = (if x = c then Some 0 else map_option Suc (first_index c xs))"

text \<open>\<open>net.SplitHostPort\<close>: \<open>None\<close> where it returns an error.\<close>

definition SplitHostPort :: "string \<Rightarrow> (string \<times> string) option" where
  "SplitHostPort hp =
     (case last_index CHR '':'' hp of
        None \<Rightarrow> None
      | Some i \<Rightarrow>
          (if hp ! 0 = CHR ''[''
           then (case first_index CHR '']'' hp of
                   None \<Rightarrow> None
                 | Some e \<Rightarrow>
                     if Suc e \<noteq> i then None
                     else if CHR ''['' \<in> set (drop 1 hp) \<or> CHR '']'' \<in> set (drop (Suc e) hp) then None
                     else Some (take (e - 1) (drop 1 hp), drop (Suc i) hp))
           else if CHR '':'' \<in> set (take i hp) then None
           else if CHR ''['' \<in> set hp \<or> CHR '']'' \<in> set hp then None
           else Some (take i hp, drop (Suc i) hp)))"

definition hex_value :: "char \<Rightarrow> nat option" where
  "hex_value c = (let n = of_char c :: nat in
     if 48 \<le> n \<and> n \<le> 57 then Some (n - 48)
     else if 97 \<le> n \<and> n \<le> 102 then Some (n - 87)
     else if 65 \<le> n \<and> n \<le> 70 then Some (n - 55)
     else None)"

text \<open>\<open>url.PathUnescape\<close>: percent escapes decoded, \<open>None\<close> for a malformed one.\<close>

fun PathUnescape :: "string \<Rightarrow> string option" where
  "PathUnescape [] = Some []"
| "PathUnescape (c # s) =
     (if c = CHR ''%''
      then (case s of
              h # l # rest \<Rightarrow>
                (case (hex_value h, hex_value l) of
                   (Some a, Some b) \<Rightarrow> map_option (\<lambda>r. char_of (16 * a + b) # r) (PathUnescape rest)
                 | _ \<Rightarrow> None)
            | _ \<Rightarrow> None)
      else map_option (\<lambda>r. c # r) (PathUnescape s))"

section \<open>Operation maps\<close>

record Operation =
  op_Name :: string
  op_Method :: string
  op_Path :: string

record File =
  f_Target :: string
  f_Operations :: "Operation list"

type_synonym Map = "(string \<times> Operation list) list"

definition opHost :: "string \<Rightarrow> string" where
  "opHost target =
     TrimSuffix (ToLower (case SplitHostPort target of Some (h, p) \<Rightarrow> h | None \<Rightarrow> target)) ''.''"

definition splitPath :: "string \<Rightarrow> string list option" where
  "splitPath path =
     (if \<not> HasPrefix path ''/'' then None
      else if path = ''/'' then Some []
      else let segs = Split CHR ''/'' (drop 1 path) in
           if \<exists>s \<in> set segs. s = [] \<or> s = ''.'' \<or> s = ''..'' then None else Some segs)"

definition opParam :: "string \<Rightarrow> string option" where
  "opParam seg =
     (if HasPrefix seg ''{'' \<and> HasSuffix seg ''}'' then Some (take (length seg - 2) (drop 1 seg)) else None)"

text \<open>The errors of \<open>validate\<close>, without their texts.\<close>

datatype op_error = NameMethodRequired | BadPath string | BadParams string

definition Operation_validate :: "Operation \<Rightarrow> op_error option" where
  "Operation_validate op1 =
     (if op_Name op1 = [] \<or> op_Method op1 = [] then Some NameMethodRequired
      else case splitPath (op_Path op1) of
        None \<Rightarrow> Some (BadPath (op_Path op1))
      | Some segs \<Rightarrow>
          let ps = List.map_filter opParam segs in
          if [] \<in> set ps \<or> \<not> distinct ps then Some (BadParams (op_Path op1)) else None)"

datatype load_error =
    BadTarget string
  | NoOperations
  | BadOperation nat op_error
  | MappedTwice string
  | NoMaps
  | DecodeError string

definition loadFile :: "string + File \<Rightarrow> load_error + File" where
  "loadFile decoded =
     (case decoded of
        Inl err \<Rightarrow> Inl (DecodeError err)
      | Inr f \<Rightarrow>
          if f_Target f = [] \<or> f_Target f \<noteq> opHost (f_Target f) then Inl (BadTarget (f_Target f))
          else if f_Operations f = [] then Inl NoOperations
          else (case List.find (\<lambda>(i, op1). Operation_validate op1 \<noteq> None)
                       (List.enumerate 0 (f_Operations f)) of
                  Some (i, op1) \<Rightarrow> Inl (BadOperation i (the (Operation_validate op1)))
                | None \<Rightarrow> Inr f))"

text \<open>\<open>LoadDir\<close> over the decoded files of the directory that end in .yaml or .yml, in order.\<close>

fun loadFiles :: "(string + File) list \<Rightarrow> Map \<Rightarrow> load_error + Map" where
  "loadFiles [] m = (if m = [] then Inl NoMaps else Inr m)"
| "loadFiles (d # ds) m =
     (case loadFile d of
        Inl err \<Rightarrow> Inl err
      | Inr f \<Rightarrow>
          if map_of m (f_Target f) \<noteq> None then Inl (MappedTwice (f_Target f))
          else loadFiles ds (AList.update (f_Target f) (f_Operations f) m))"

definition LoadDir :: "(string + File) list \<Rightarrow> load_error + Map" where
  "LoadDir files = loadFiles files []"

fun matchSegs :: "string list \<Rightarrow> string list \<Rightarrow> labels \<Rightarrow> labels option" where
  "matchSegs [] [] params = Some params"
| "matchSegs (t # ts) (s # ss) params =
     (case opParam t of
        Some p \<Rightarrow> matchSegs ts ss (AList.update p s params)
      | None \<Rightarrow> if t \<noteq> s then None else matchSegs ts ss params)"
| "matchSegs _ _ params = None"

definition Operation_match :: "Operation \<Rightarrow> string \<Rightarrow> string list \<Rightarrow> labels option" where
  "Operation_match op1 meth segs =
     (let tmpl = (case splitPath (op_Path op1) of Some ts \<Rightarrow> ts | None \<Rightarrow> []) in
      if \<not> EqualFold meth (op_Method op1) \<or> length tmpl \<noteq> length segs then None
      else matchSegs tmpl segs [])"

definition unescapeSeg :: "string \<Rightarrow> string option" where
  "unescapeSeg s =
     (case PathUnescape s of
        None \<Rightarrow> None
      | Some d \<Rightarrow> if d = ''.'' \<or> d = ''..'' \<or> Contains d ''/'' then None else Some d)"

fun unescapeAll :: "string list \<Rightarrow> string list option" where
  "unescapeAll [] = Some []"
| "unescapeAll (s # ss) =
     (case unescapeSeg s of
        None \<Rightarrow> None
      | Some d \<Rightarrow> map_option (\<lambda>ds. d # ds) (unescapeAll ss))"

fun firstMatch :: "Operation list \<Rightarrow> string \<Rightarrow> string list \<Rightarrow> (string \<times> labels) option" where
  "firstMatch [] meth segs = None"
| "firstMatch (op1 # ops) meth segs =
     (case Operation_match op1 meth segs of
        Some params \<Rightarrow> Some (op_Name op1, params)
      | None \<Rightarrow> firstMatch ops meth segs)"

text \<open>\<open>None\<close> is \<open>ErrAmbiguous\<close>; a call the map does not name is the empty name.\<close>

definition Map_Resolve :: "Map \<Rightarrow> string \<Rightarrow> string \<Rightarrow> (string \<times> labels) option" where
  "Map_Resolve m target operation =
     (case map_of m (opHost target) of
        None \<Rightarrow> Some ([], [])
      | Some ops \<Rightarrow>
          let (meth, path, _) = Cut operation CHR '' '';
              (path, _, _) = Cut path CHR ''?''
          in (case splitPath path of
                None \<Rightarrow> None
              | Some raw \<Rightarrow>
                  (case unescapeAll raw of
                     None \<Rightarrow> None
                   | Some segs \<Rightarrow>
                       (case firstMatch ops meth segs of
                          Some r \<Rightarrow> Some r
                        | None \<Rightarrow> Some ([], [])))))"

section \<open>Spellings of a path\<close>

text \<open>
  \<open>spelled s d\<close>: \<open>s\<close> is one of the percent-encoded spellings of the segment \<open>d\<close>. It is the
  specification of \<open>PathUnescape\<close>.
\<close>

inductive spelled :: "string \<Rightarrow> string \<Rightarrow> bool" where
  spelled_Nil: "spelled [] []"
| spelled_plain: "c \<noteq> CHR ''%'' \<Longrightarrow> spelled s d \<Longrightarrow> spelled (c # s) (c # d)"
| spelled_escape: "hex_value h = Some a \<Longrightarrow> hex_value l = Some b \<Longrightarrow> spelled s d \<Longrightarrow>
    spelled (CHR ''%'' # h # l # s) (char_of (16 * a + b) # d)"

inductive_cases spelled_NilE [elim!]: "spelled [] d"

lemma spelled_unescape: "spelled s d \<Longrightarrow> PathUnescape s = Some d"
  by (induction rule: spelled.induct) auto

lemma unescape_spelled: "PathUnescape s = Some d \<Longrightarrow> spelled s d"
  by (induction s arbitrary: d rule: PathUnescape.induct)
    (auto intro: spelled.intros split: if_splits list.splits option.splits)

lemma PathUnescape_iff: "PathUnescape s = Some d \<longleftrightarrow> spelled s d"
  using spelled_unescape unescape_spelled by blast

lemma spelled_same_empty: "spelled s d \<Longrightarrow> s = [] \<longleftrightarrow> d = []"
  by (auto elim: spelled.cases)

lemma spelled_refl: "CHR ''%'' \<notin> set s \<Longrightarrow> spelled s s"
  by (induction s) (auto intro: spelled.intros)

text \<open>A decoded segment the map cannot read one way only.\<close>

definition unsafe_seg :: "string \<Rightarrow> bool" where
  "unsafe_seg d \<longleftrightarrow> d = [] \<or> d = ''.'' \<or> d = ''..'' \<or> CHR ''/'' \<in> set d"

lemma Contains_char: "Contains s [c] \<longleftrightarrow> c \<in> set s"
  by (induction s) auto

lemma spelled_dots: "spelled ''.'' d \<Longrightarrow> d = ''.''" "spelled ''..'' d \<Longrightarrow> d = ''..''"
  using spelled_unescape by fastforce+

lemma spelled_dot_segment:
  assumes "spelled s d" and "s = [] \<or> s = ''.'' \<or> s = ''..''"
  shows "unsafe_seg d"
  using assms spelled_dots spelled_same_empty unfolding unsafe_seg_def by blast

lemma unescapeSeg_spelled:
  "spelled s d \<Longrightarrow> s \<noteq> [] \<Longrightarrow> unescapeSeg s = (if unsafe_seg d then None else Some d)"
  using spelled_same_empty [of s d]
  by (auto simp: unescapeSeg_def unsafe_seg_def spelled_unescape Contains_char)

lemma unescapeAll_spelled:
  "list_all2 spelled raw ds \<Longrightarrow> [] \<notin> set raw \<Longrightarrow>
     unescapeAll raw = (if \<exists>d \<in> set ds. unsafe_seg d then None else Some ds)"
  by (induction rule: list_all2_induct) (auto simp: unescapeSeg_spelled)

lemma unescapeAll_Some:
  "unescapeAll raw = Some ds \<longleftrightarrow> list_all2 (\<lambda>s d. unescapeSeg s = Some d) raw ds"
  by (induction raw arbitrary: ds) (auto simp: list_all2_Cons1 split: option.splits)

lemma splitPath_Join:
  assumes "\<forall>s \<in> set raw. CHR ''/'' \<notin> set s" and "raw \<noteq> [[]]"
  shows "splitPath (CHR ''/'' # Join raw ''/'') =
    (if \<exists>s \<in> set raw. s = [] \<or> s = ''.'' \<or> s = ''..'' then None else Some raw)"
proof (cases "raw = []")
  case False
  have sp: "Split CHR ''/'' (Join raw ''/'') = raw"
    using Split_Join [of raw "CHR ''/''"] assms(1) False by auto
  have "Join raw ''/'' \<noteq> []"
    using sp assms(2) by auto
  then show ?thesis
    using sp by (auto simp: splitPath_def)
qed (simp add: splitPath_def)

lemma decode_path:
  assumes "list_all2 spelled raw ds" and "\<forall>s \<in> set raw. CHR ''/'' \<notin> set s" and "raw \<noteq> [[]]"
  shows "(case splitPath (CHR ''/'' # Join raw ''/'') of None \<Rightarrow> None | Some segs \<Rightarrow> unescapeAll segs) =
    (if \<exists>d \<in> set ds. unsafe_seg d then None else Some ds)"
proof (cases "\<exists>s \<in> set raw. s = [] \<or> s = ''.'' \<or> s = ''..''")
  case True
  then obtain i where "i < length raw" "raw ! i = [] \<or> raw ! i = ''.'' \<or> raw ! i = ''..''"
    by (metis in_set_conv_nth)
  with assms(1) have "i < length ds" "unsafe_seg (ds ! i)"
    by (auto simp: list_all2_conv_all_nth intro: spelled_dot_segment)
  then have "\<exists>d \<in> set ds. unsafe_seg d"
    using nth_mem by blast
  then show ?thesis
    using True by (simp add: splitPath_Join assms(2,3))
next
  case False
  then have "[] \<notin> set raw"
    by blast
  then show ?thesis
    using False by (simp add: splitPath_Join assms(2,3) unescapeAll_spelled [OF assms(1)])
qed

lemma Cut_absent: "c \<notin> set s \<Longrightarrow> Cut s c = (s, [], False)"
  by (induction s) auto

lemma Cut_append: "c \<notin> set s \<Longrightarrow> Cut (s @ c # r) c = (s, r, True)"
  by (induction s) auto

text \<open>How a call is read, for every spelling of its path and every query.\<close>

lemma Map_Resolve_reads:
  assumes ops: "map_of m (opHost target) = Some ops"
    and raw: "list_all2 spelled raw ds" "raw \<noteq> [[]]"
      "\<forall>s \<in> set raw. CHR ''/'' \<notin> set s \<and> CHR ''?'' \<notin> set s"
    and meth: "CHR '' '' \<notin> set meth"
    and q: "q = [] \<or> (\<exists>r. q = CHR ''?'' # r)"
  shows "Map_Resolve m target (meth @ '' /'' @ Join raw ''/'' @ q) =
    (if \<exists>d \<in> set ds. unsafe_seg d then None
     else Some (case firstMatch ops meth ds of Some r \<Rightarrow> r | None \<Rightarrow> ([], [])))"
proof -
  have noq: "CHR ''?'' \<notin> set (CHR ''/'' # Join raw ''/'')"
    using raw(3) by (induction raw "''/''" rule: Join.induct) auto
  have "fst (Cut ((CHR ''/'' # Join raw ''/'') @ q) CHR ''?'') = CHR ''/'' # Join raw ''/''"
    using q noq Cut_absent [OF noq] Cut_append [OF noq] by auto
  then obtain a b where path: "Cut ((CHR ''/'' # Join raw ''/'') @ q) CHR ''?'' =
      (CHR ''/'' # Join raw ''/'', a, b)"
    by (cases "Cut ((CHR ''/'' # Join raw ''/'') @ q) CHR ''?''") auto
  have op: "Cut (meth @ '' /'' @ Join raw ''/'' @ q) CHR '' '' =
      (meth, (CHR ''/'' # Join raw ''/'') @ q, True)"
    using Cut_append [OF meth, of "''/'' @ Join raw ''/'' @ q"] by simp
  have "Map_Resolve m target (meth @ '' /'' @ Join raw ''/'' @ q) =
      (case (case splitPath (CHR ''/'' # Join raw ''/'') of None \<Rightarrow> None | Some segs \<Rightarrow> unescapeAll segs) of
         None \<Rightarrow> None
       | Some segs \<Rightarrow> Some (case firstMatch ops meth segs of Some r \<Rightarrow> r | None \<Rightarrow> ([], [])))"
    unfolding Map_Resolve_def ops op option.case Let_def prod.case path
    by (simp split: option.splits)
  also have "\<dots> = (if \<exists>d \<in> set ds. unsafe_seg d then None
     else Some (case firstMatch ops meth ds of Some r \<Rightarrow> r | None \<Rightarrow> ([], [])))"
    using raw by (subst decode_path [OF raw(1)]) auto
  finally show ?thesis .
qed

lemma EqualFold_trans: "EqualFold a b \<Longrightarrow> EqualFold b c = EqualFold a c"
  by (simp add: EqualFold_def)

lemma firstMatch_fold: "EqualFold a b \<Longrightarrow> firstMatch ops a segs = firstMatch ops b segs"
proof (induction ops)
  case (Cons o1 ops)
  then have "Operation_match o1 a segs = Operation_match o1 b segs"
    by (simp add: Operation_match_def EqualFold_trans [of a b])
  then show ?case
    using Cons by (simp split: option.split)
qed simp

section \<open>The name of a call and its parameters\<close>

text \<open>A template segment filled with the parameters of a match.\<close>

definition fill :: "labels \<Rightarrow> string \<Rightarrow> string" where
  "fill params t = (case opParam t of None \<Rightarrow> t | Some p \<Rightarrow> the (map_of params p))"

lemma matchSegs_length: "matchSegs ts ss ps = Some qs \<Longrightarrow> length ts = length ss"
  by (induction ts ss ps rule: matchSegs.induct) (auto split: option.splits if_splits)

lemma matchSegs_keeps:
  "matchSegs ts ss ps = Some qs \<Longrightarrow> p \<notin> set (List.map_filter opParam ts) \<Longrightarrow> map_of qs p = map_of ps p"
  by (induction ts ss ps rule: matchSegs.induct)
    (auto simp: map_filter_simps update_conv' split: option.splits if_splits)

lemma matchSegs_fill:
  "matchSegs ts ss ps = Some qs \<Longrightarrow> distinct (List.map_filter opParam ts) \<Longrightarrow> map (fill qs) ts = ss"
proof (induction ts ss ps rule: matchSegs.induct)
  case (2 t ts s ss params)
  show ?case
  proof (cases "opParam t")
    case None
    then show ?thesis
      using 2 by (auto simp: fill_def map_filter_simps split: if_splits)
  next
    case (Some p)
    then have m: "matchSegs ts ss (AList.update p s params) = Some qs"
        and d: "p \<notin> set (List.map_filter opParam ts)" "distinct (List.map_filter opParam ts)"
      using 2 by (simp_all add: map_filter_simps)
    have "map_of qs p = Some s"
      using matchSegs_keeps [OF m d(1)] by (simp add: update_conv')
    then show ?thesis
      using "2.IH"(2) [OF Some m d(2)] Some by (simp add: fill_def)
  qed
qed simp_all

lemma firstMatch_Some:
  "firstMatch ops meth segs = Some (nm, ps) \<Longrightarrow>
     \<exists>pre o1 post. ops = pre @ o1 # post \<and> (\<forall>o2 \<in> set pre. Operation_match o2 meth segs = None) \<and>
       op_Name o1 = nm \<and> Operation_match o1 meth segs = Some ps"
proof (induction ops)
  case (Cons o1 ops)
  then show ?case
  proof (cases "Operation_match o1 meth segs")
    case None
    with Cons obtain pre o2 post where "ops = pre @ o2 # post"
      "\<forall>o2 \<in> set pre. Operation_match o2 meth segs = None"
      "op_Name o2 = nm" "Operation_match o2 meth segs = Some ps"
      by auto
    with None show ?thesis
      by (intro exI [of _ "o1 # pre"] exI [of _ o2] exI [of _ post]) simp
  qed (intro exI [of _ "[]"] exI [of _ o1] exI [of _ ops], simp)
qed simp

text \<open>What loading guarantees of every target's map.\<close>

definition Map_ok :: "Map \<Rightarrow> bool" where
  "Map_ok m \<longleftrightarrow> (\<forall>(h, ops) \<in> set m. h = opHost h \<and> ops \<noteq> [] \<and> (\<forall>o1 \<in> set ops. Operation_validate o1 = None))"

lemma loadFile_ok:
  "loadFile d = Inr f \<Longrightarrow> f_Target f = opHost (f_Target f) \<and> f_Operations f \<noteq> [] \<and>
     (\<forall>o1 \<in> set (f_Operations f). Operation_validate o1 = None)"
proof -
  assume l: "loadFile d = Inr f"
  then have d: "d = Inr f" "f_Target f = opHost (f_Target f)" "f_Operations f \<noteq> []"
    by (auto simp: loadFile_def split: sum.splits if_splits option.splits)
  have "List.find (\<lambda>(i, o1). Operation_validate o1 \<noteq> None) (List.enumerate 0 (f_Operations f)) = None"
    using l by (auto simp: loadFile_def split: sum.splits if_splits option.splits)
  then have "\<forall>x \<in> set (List.enumerate 0 (f_Operations f)). Operation_validate (snd x) = None"
    by (auto simp: find_None_iff case_prod_beta)
  moreover have "set (f_Operations f) = snd ` set (List.enumerate 0 (f_Operations f))"
    by (metis map_snd_enumerate set_map)
  ultimately show ?thesis
    using d by simp
qed

lemma AList_update_fresh: "map_of m k = None \<Longrightarrow> AList.update k v m = m @ [(k, v)]"
  by (induction m) (auto split: if_splits)

lemma loadFiles_ok: "loadFiles ds m = Inr m' \<Longrightarrow> Map_ok m \<Longrightarrow> Map_ok m'"
proof (induction ds arbitrary: m)
  case (Cons d ds)
  then obtain f where f: "loadFile d = Inr f" "map_of m (f_Target f) = None"
      "loadFiles ds (AList.update (f_Target f) (f_Operations f) m) = Inr m'"
    by (auto split: sum.splits if_splits)
  have "Map_ok (m @ [(f_Target f, f_Operations f)])"
    using Cons.prems(2) loadFile_ok [OF f(1)] by (simp add: Map_ok_def)
  then show ?case
    using Cons.IH f by (simp add: AList_update_fresh)
qed (simp split: if_splits)

lemma LoadDir_ok: "LoadDir files = Inr m \<Longrightarrow> Map_ok m"
  unfolding LoadDir_def by (erule loadFiles_ok) (simp add: Map_ok_def)

lemma Map_ok_valid: "Map_ok m \<Longrightarrow> map_of m h = Some ops \<Longrightarrow> o1 \<in> set ops \<Longrightarrow> Operation_validate o1 = None"
  unfolding Map_ok_def by (blast dest: map_of_SomeD)

section \<open>Properties\<close>

text \<open>
  C30. A rule on a named operation cannot be dodged by another spelling of the same call: on a
  mapped target, two paths whose segments are percent-encoded spellings of the same decoded
  segments, with methods equal up to case and any query, get the same answer (the same name
  and parameters, or both are refused as ambiguous); they are refused exactly when a decoded
  segment is empty, a dot segment, or contains a slash.\<close>

theorem Resolve_spelling_invariant:
  assumes "map_of m (opHost t1) = Some ops" and "opHost t1 = opHost t2"
    and "list_all2 spelled raw1 ds" and "list_all2 spelled raw2 ds" and "ds \<noteq> [[]]"
    and "\<forall>s \<in> set raw1 \<union> set raw2. CHR ''/'' \<notin> set s \<and> CHR ''?'' \<notin> set s"
    and "EqualFold meth1 meth2" and "CHR '' '' \<notin> set meth1 \<union> set meth2"
  shows "Map_Resolve m t1 (meth1 @ '' /'' @ Join raw1 ''/'') =
      Map_Resolve m t2 (meth2 @ '' /'' @ Join raw2 ''/'' @ ''?'' @ query) \<and>
    (Map_Resolve m t1 (meth1 @ '' /'' @ Join raw1 ''/'') = None \<longleftrightarrow> (\<exists>d \<in> set ds. unsafe_seg d))"
proof -
  have ne: "raw1 \<noteq> [[]]" "raw2 \<noteq> [[]]"
    using assms(3-5) by (auto simp: list_all2_Cons1)
  note r1 = Map_Resolve_reads [OF assms(1,3) ne(1), of meth1 "[]"]
  note r2 = Map_Resolve_reads [OF assms(1) [unfolded assms(2)] assms(4) ne(2), of meth2 "''?'' @ query"]
  show ?thesis
    using r1 r2 assms(6-8) by (simp add: firstMatch_fold [OF assms(7)])
qed

definition demo_map :: Map where
  "demo_map = [(''api.x'', [\<lparr>op_Name = ''repos.delete'', op_Method = ''DELETE'', op_Path = ''/repos/{repo}''\<rparr>])]"

lemma Resolve_spelling_invariant_witness:
  "\<exists>raw1 raw2 ds. list_all2 spelled raw1 ds \<and> list_all2 spelled raw2 ds \<and> raw1 \<noteq> raw2 \<and>
     Map_Resolve demo_map ''api.x'' (''DELETE'' @ '' /'' @ Join raw1 ''/'') =
     Map_Resolve demo_map ''API.X:443'' (''delete'' @ '' /'' @ Join raw2 ''/'' @ ''?'' @ ''a=b'')"
proof (intro exI conjI)
  show s1: "list_all2 spelled [''repos'', ''core''] [''repos'', ''core'']"
    by (simp add: spelled_refl)
  have c: "char_of (114 :: nat) = CHR ''r''"
    by code_simp
  show s2: "list_all2 spelled [''%72epos'', ''core''] [''repos'', ''core'']"
    by (simp add: c PathUnescape_iff [symmetric] hex_value_def)
  have h: "opHost ''api.x'' = ''api.x''" "opHost ''API.X:443'' = ''api.x''"
    by (simp_all add: opHost_def SplitHostPort_def str_eval TrimSuffix_def HasSuffix_def)
  show "[''repos'', ''core''] \<noteq> [''%72epos'', ''core'']"
    by simp
  show "Map_Resolve demo_map ''api.x'' (''DELETE'' @ '' /'' @ Join [''repos'', ''core''] ''/'') =
     Map_Resolve demo_map ''API.X:443'' (''delete'' @ '' /'' @ Join [''%72epos'', ''core''] ''/'' @ ''?'' @ ''a=b'')"
    by (rule conjunct1 [OF Resolve_spelling_invariant [OF _ _ s1 s2]])
      (simp_all add: h demo_map_def str_eval)
qed

text \<open>
  C31. The name of a call describes the call: when a loaded map names an operation, the name is
  that of the first entry of the target's map that accepts the call, its method is the call's
  up to case, and its path template with the returned parameters filled in is the decoded
  path, segment by segment.\<close>

theorem Resolve_names_the_call:
  assumes "LoadDir files = Inr m" and "Map_Resolve m target operation = Some (nm, params)" and "nm \<noteq> []"
  shows "\<exists>ops pre o1 post tmpl raw segs.
    map_of m (opHost target) = Some ops \<and> ops = pre @ o1 # post \<and> op_Name o1 = nm \<and>
    EqualFold (fst (Cut operation CHR '' '')) (op_Method o1) \<and>
    splitPath (fst (Cut (fst (snd (Cut operation CHR '' ''))) CHR ''?'')) = Some raw \<and>
    list_all2 spelled raw segs \<and> (\<forall>s \<in> set segs. CHR ''/'' \<notin> set s) \<and>
    splitPath (op_Path o1) = Some tmpl \<and> map (fill params) tmpl = segs \<and>
    (\<forall>o2 \<in> set pre. Operation_match o2 (fst (Cut operation CHR '' '')) segs = None)"
proof -
  obtain meth rest f1 where c1: "Cut operation CHR '' '' = (meth, rest, f1)"
    by (cases "Cut operation CHR '' ''")
  obtain path q f2 where c2: "Cut rest CHR ''?'' = (path, q, f2)"
    by (cases "Cut rest CHR ''?''")
  obtain ops raw segs where r: "map_of m (opHost target) = Some ops" "splitPath path = Some raw"
      "unescapeAll raw = Some segs" "firstMatch ops meth segs = Some (nm, params)"
    using assms(2,3) by (auto simp: Map_Resolve_def c1 c2 split: option.splits)
  obtain pre o1 post where o1: "ops = pre @ o1 # post" "op_Name o1 = nm"
      "\<forall>o2 \<in> set pre. Operation_match o2 meth segs = None" "Operation_match o1 meth segs = Some params"
    using firstMatch_Some [OF r(4)] by blast
  have "Operation_validate o1 = None"
    using Map_ok_valid [OF LoadDir_ok [OF assms(1)] r(1)] o1(1) by simp
  then obtain tmpl where t: "splitPath (op_Path o1) = Some tmpl" "distinct (List.map_filter opParam tmpl)"
    by (auto simp: Operation_validate_def Let_def split: if_splits option.splits)
  have m: "EqualFold meth (op_Method o1)" "matchSegs tmpl segs [] = Some params"
    using o1(4) t(1) by (auto simp: Operation_match_def split: if_splits)
  have sp: "list_all2 (\<lambda>s d. unescapeSeg s = Some d) raw segs"
    using r(3) unescapeAll_Some by blast
  have "list_all2 spelled raw segs"
    using sp by (rule list_all2_mono) (auto simp: unescapeSeg_def PathUnescape_iff split: option.splits if_splits)
  moreover have "\<forall>s \<in> set segs. CHR ''/'' \<notin> set s"
  proof
    fix d assume "d \<in> set segs"
    then obtain s where "unescapeSeg s = Some d"
      using sp by (auto simp: list_all2_conv_all_nth in_set_conv_nth)
    then show "CHR ''/'' \<notin> set d"
      by (auto simp: unescapeSeg_def Contains_char split: option.splits if_splits)
  qed
  ultimately show ?thesis
    using r(1,2) o1 m(1) t(1) matchSegs_fill [OF m(2) t(2)] c1 c2
    by (intro exI [of _ ops] exI [of _ pre] exI [of _ o1] exI [of _ post] exI [of _ tmpl]
      exI [of _ raw] exI [of _ segs]) simp
qed

definition demo_file :: File where
  "demo_file = \<lparr>f_Target = ''api.x'', f_Operations =
     [\<lparr>op_Name = ''repos.delete'', op_Method = ''DELETE'', op_Path = ''/repos/{repo}''\<rparr>]\<rparr>"

lemma Resolve_names_the_call_witness:
  "\<exists>m. LoadDir [Inr demo_file] = Inr m \<and>
     Map_Resolve m ''api.x'' ''DELETE /repos/core'' = Some (''repos.delete'', [(''repo'', ''core'')]) \<and>
     (\<exists>tmpl. map (fill [(''repo'', ''core'')]) tmpl = [''repos'', ''core''])"
proof -
  have h: "opHost ''api.x'' = ''api.x''"
    by (simp add: opHost_def SplitHostPort_def str_eval TrimSuffix_def HasSuffix_def)
  have l: "LoadDir [Inr demo_file] = Inr demo_map"
    by (simp add: LoadDir_def loadFile_def demo_file_def h Operation_validate_def splitPath_def
      opParam_def HasSuffix_def map_filter_simps demo_map_def)
  have r: "Map_Resolve demo_map ''api.x'' ''DELETE /repos/core'' = Some (''repos.delete'', [(''repo'', ''core'')])"
    by (simp add: Map_Resolve_def demo_map_def h splitPath_def unescapeSeg_def Operation_match_def
      opParam_def HasSuffix_def str_eval)
  obtain tmpl raw segs where t: "splitPath ''/repos/core'' = Some raw" "list_all2 spelled raw segs"
      "map (fill [(''repo'', ''core'')]) tmpl = segs"
    using Resolve_names_the_call [OF l r] by auto
  have "raw = [''repos'', ''core'']"
    using t(1) by (simp add: splitPath_def)
  then have "segs = [''repos'', ''core'']"
    using t(2) by (auto simp: list_all2_Cons1 PathUnescape_iff [symmetric])
  with l r t(3) show ?thesis
    by (intro exI [of _ demo_map] conjI exI [of _ tmpl]) simp_all
qed

end
