(* ===== verification/RunToken.thy ===== *)
theory RunToken
  imports Policy
begin

text \<open>
  Run tokens (\<open>identity/runtoken.go\<close>): what a verified token says about a run, and its binding
  to the attested workload that presents it. The signature, audience, expiry and type checks are
  the verifier's \<open>jwks\<close> member, a function of the header value.
\<close>

definition RunTokenHeader :: string where "RunTokenHeader = ''Txn-Token''"

record RunTokenVerifier =
  rv_jwks :: "string \<Rightarrow> string + Identity"

definition claimString :: "gomap \<Rightarrow> string \<Rightarrow> string" where
  "claimString claims key = (case as_str (mget claims key) of Some s \<Rightarrow> s | None \<Rightarrow> [])"

datatype run_token_error =
    ErrRunTokenMissing
  | ErrRunTokenUnbound string string
  | RunTokenRejected string
  | RunTokenNoClaim string
  | RunTokenBadClaims

fun run_token_text :: "run_token_error \<Rightarrow> string" where
  "run_token_text ErrRunTokenMissing = ''run token missing''"
| "run_token_text (ErrRunTokenUnbound wl caller) =
     ''run token not issued to this workload: issued to '' @ Quote wl @ '', presented by '' @ Quote caller"
| "run_token_text (RunTokenRejected err) = ''run token: '' @ err"
| "run_token_text (RunTokenNoClaim c) = ''run token: missing '' @ c @ '' claim''"
| "run_token_text RunTokenBadClaims = ''run token: txn and req_wl must be non-empty strings''"

text \<open>The token itself, then its binding to the caller.\<close>

definition readRun :: "RunTokenVerifier \<Rightarrow> string \<Rightarrow> run_token_error + (Identity \<times> Run)" where
  "readRun v token =
     (if token = [] then Inl ErrRunTokenMissing
      else case rv_jwks v token of
        Inl err \<Rightarrow> Inl (RunTokenRejected err)
      | Inr i \<Rightarrow>
          let claims = (case id_Claims i of None \<Rightarrow> [] | Some m \<Rightarrow> m) in
          (case List.find (\<lambda>c. map_of claims c = None) [''iat'', ''txn'', ''req_wl''] of
             Some c \<Rightarrow> Inl (RunTokenNoClaim c)
           | None \<Rightarrow>
               let run = \<lparr>run_ID = claimString claims ''txn'', run_Workload = claimString claims ''req_wl'',
                          run_Context = (case as_map (mget claims ''tctx'') of Some m \<Rightarrow> m | None \<Rightarrow> [])\<rparr>
               in if run_ID run = [] \<or> run_Workload run = [] then Inl RunTokenBadClaims
                  else Inr (i, run)))"

definition RunTokenVerifier_Verify ::
  "RunTokenVerifier \<Rightarrow> string \<Rightarrow> string \<Rightarrow> run_token_error + (Identity \<times> Run)" where
  "RunTokenVerifier_Verify v token workload =
     (case readRun v token of
        Inl err \<Rightarrow> Inl err
      | Inr (i, run) \<Rightarrow>
          if workload = [] \<or> run_Workload run \<noteq> workload
          then Inl (ErrRunTokenUnbound (run_Workload run) workload)
          else Inr (i\<lparr>id_SessionID := run_ID run\<rparr>, run))"

lemma readRun_named: "readRun v token = Inr (i, run) \<Longrightarrow> run_ID run \<noteq> [] \<and> run_Workload run \<noteq> []"
  unfolding readRun_def Let_def by (simp split: if_splits sum.splits option.splits) auto

section \<open>Binding\<close>

text \<open>A token that verifies is bound to the caller, and its run is the identity's session.\<close>

lemma Verify_bound:
  "RunTokenVerifier_Verify v token workload = Inr (i, run) \<Longrightarrow>
     run_Workload run = workload \<and> workload \<noteq> [] \<and> run_ID run \<noteq> [] \<and> id_SessionID i = run_ID run"
  using readRun_named [of v token]
  by (auto simp: RunTokenVerifier_Verify_def split: if_splits sum.splits prod.splits)

text \<open>
  A run token accepted for one workload is accepted for no other: a token copied out of a pod
  fails with the unbound error everywhere else, whatever else verifies.\<close>

theorem run_token_bound:
  assumes "RunTokenVerifier_Verify v token workload = Inr (i, run)" and "other \<noteq> workload"
  shows "RunTokenVerifier_Verify v token other = Inl (ErrRunTokenUnbound workload other)"
proof -
  obtain i' run' where "readRun v token = Inr (i', run')" "run_Workload run' = workload"
    using assms(1) by (auto simp: RunTokenVerifier_Verify_def split: if_splits sum.splits prod.splits)
  then show ?thesis
    using assms(2) by (simp add: RunTokenVerifier_Verify_def)
qed

definition demo_run_verifier :: RunTokenVerifier where
  "demo_run_verifier = \<lparr>rv_jwks = (\<lambda>t. if t = ''tok'' then Inr (emptyIdentity\<lparr>id_Subject := ''alice'',
     id_Claims := Some [(''iat'', VNum 1), (''txn'', VStr ''run-1''), (''req_wl'', VStr ''td/ns/a/sa/b'')]\<rparr>)
     else Inl ''bad signature'')\<rparr>"

lemma run_token_bound_witness:
  "\<exists>r. RunTokenVerifier_Verify demo_run_verifier ''tok'' ''td/ns/a/sa/b'' = Inr r \<and>
     RunTokenVerifier_Verify demo_run_verifier ''tok'' ''td/ns/a/sa/c'' =
       Inl (ErrRunTokenUnbound ''td/ns/a/sa/b'' ''td/ns/a/sa/c'')"
proof -
  obtain i run where r: "RunTokenVerifier_Verify demo_run_verifier ''tok'' ''td/ns/a/sa/b'' = Inr (i, run)"
    by (simp add: RunTokenVerifier_Verify_def readRun_def demo_run_verifier_def emptyIdentity_def claimString_def)
  show ?thesis
    using r run_token_bound [OF r, of "''td/ns/a/sa/c''"] by blast
qed

end
