(* ===== verification/Extauthz.thy ===== *)
theory Extauthz
  imports Gates Mcp AuditLog Operations RunToken
begin

text \<open>
  Package \<open>extauthz\<close>: Envoy's external authorization checks answered with the same gates and
  policy engine as the proxy. \<open>translate.go\<close>, \<open>response.go\<close> and \<open>server.go\<close>, in that order. A nil
  pointer dereference is the outcome \<open>None\<close> of \<open>Server_decide\<close> and \<open>Server_Check\<close>.
\<close>

section \<open>Requests\<close>

text \<open>
  The fields of Envoy's \<open>CheckRequest\<close> the sources read. The getters of a generated message
  return zero values through nil pointers.
\<close>

record HttpRequest =
  hr_Method :: string
  hr_Path :: string
  hr_Host :: string
  hr_Headers :: labels
  hr_Size :: int
  hr_Body :: string
  hr_RawBody :: string

record CheckRequest =
  ck_Http :: "HttpRequest option"
  ck_SourcePrincipal :: string
  ck_DestinationAddress :: string

record Translated =
  tr_Policy :: Request
  tr_Attestation :: "Attestation option"
  tr_Headers :: labels
  tr_RawPrincipal :: string
  tr_Destination :: string
  tr_Service :: string

definition PartialBodyHeader :: string where "PartialBodyHeader = ''x-envoy-auth-partial-body''"

text \<open>\<open>strconv.Atoi\<close>: \<open>None\<close> for a syntax or range error.\<close>

definition digit_value :: "char \<Rightarrow> nat option" where
  "digit_value c = (let n = of_char c :: nat in if 48 \<le> n \<and> n \<le> 57 then Some (n - 48) else None)"

fun parse_digits :: "string \<Rightarrow> nat \<Rightarrow> nat option" where
  "parse_digits [] acc = Some acc"
| "parse_digits (c # s) acc =
     (case digit_value c of None \<Rightarrow> None | Some d \<Rightarrow> parse_digits s (10 * acc + d))"

definition Atoi :: "string \<Rightarrow> int option" where
  "Atoi s =
     (let (neg, ds) = (case s of [] \<Rightarrow> (False, [])
        | c # r \<Rightarrow> if c = CHR ''-'' then (True, r) else if c = CHR ''+'' then (False, r) else (False, s))
      in if ds = [] then None
         else case parse_digits ds 0 of
           None \<Rightarrow> None
         | Some n \<Rightarrow> let i = (if neg then - int n else int n)
                     in if - (2 ^ 63) \<le> i \<and> i < 2 ^ 63 then Some i else None)"

definition BodyTruncated :: "int \<Rightarrow> labels \<Rightarrow> string \<Rightarrow> bool" where
  "BodyTruncated declaredSize headers body =
     (case map_of headers PartialBodyHeader of
        Some partial \<Rightarrow> partial = ''true''
      | None \<Rightarrow>
          if 0 < declaredSize then int (length body) < declaredSize
          else (case map_of headers ''content-length'' of
                  None \<Rightarrow> False
                | Some raw \<Rightarrow> (case Atoi raw of None \<Rightarrow> False | Some declared \<Rightarrow> int (length body) < declared)))"

definition bodyOf :: "HttpRequest \<Rightarrow> string" where
  "bodyOf attrs = (if hr_Body attrs \<noteq> [] then hr_Body attrs else hr_RawBody attrs)"

definition parseMCPToolsCall :: "json_lib \<Rightarrow> string \<Rightarrow> (ToolsCallParams \<times> string) option" where
  "parseMCPToolsCall js body =
     (if body = [] then None
      else case unmarshalRPC js body of
        Inl err \<Rightarrow> None
      | Inr envelope \<Rightarrow>
          if jr_Method envelope \<noteq> MethodToolsCall then None
          else (case ParseToolsCall envelope of
                  Inl err \<Rightarrow> None
                | Inr tc \<Rightarrow> Some (tc, jr_Method envelope)))"

definition truncatedMsg :: "int \<Rightarrow> nat \<Rightarrow> string" where
  "truncatedMsg declared received =
     ''request body truncated by the ext_authz buffer (declared '' @ itoa declared @ '' bytes, received '' @
     itoa (int received) @ ''); refusing to decide on partial data''"

text \<open>Attestation: the peer certificate, else the header a waypoint republished.\<close>

definition attestPeer :: "string \<Rightarrow> labels \<Rightarrow> string \<times> Attestation option" where
  "attestPeer prin headers =
     (let att = (if prin \<noteq> [] then MeshAttester_Attest prin else None)
      in if att \<noteq> None then (prin, att)
         else let injected = MapHeaders_Get headers PeerPrincipalHeader
              in if injected \<noteq> [] then (injected, MeshHeaderAttester_Attest injected) else (prin, None))"

text \<open>The translated request, if any, and the error, if any.\<close>

definition Translate :: "json_lib \<Rightarrow> CheckRequest \<Rightarrow> Translated option \<times> string option" where
  "Translate js req =
     (case ck_Http req of
        None \<Rightarrow> (None, Some ''check request carries no HTTP attributes'')
      | Some attrs \<Rightarrow>
          let (raw, att) = attestPeer (ck_SourcePrincipal req) (hr_Headers attrs);
              out = \<lparr>tr_Policy = emptyRequest\<lparr>q_Target := hr_Host attrs,
                       q_Operation := TrimSpace (hr_Method attrs @ '' '' @ hr_Path attrs),
                       q_Transport := TransportWireAPI\<rparr>,
                     tr_Attestation = att, tr_Headers = hr_Headers attrs, tr_RawPrincipal = raw,
                     tr_Destination = ck_DestinationAddress req, tr_Service = []\<rparr>;
              body = bodyOf attrs
          in if BodyTruncated (hr_Size attrs) (hr_Headers attrs) body
             then (Some out, Some (truncatedMsg (hr_Size attrs) (length body)))
             else (case parseMCPToolsCall js body of
                     None \<Rightarrow> (Some out, None)
                   | Some (tc, meth) \<Rightarrow>
                       (Some (out\<lparr>tr_Policy := (tr_Policy out)\<lparr>q_Transport := TransportMCP,
                          q_Method := meth, q_ToolName := tc_Name tc, q_Arguments := tc_Arguments tc\<rparr>\<rparr>), None)))"

section \<open>Modes and responses\<close>

type_synonym Mode = string

definition ModeNoOp :: Mode where "ModeNoOp = ''no-op''"
definition ModeObserve :: Mode where "ModeObserve = ''observe''"
definition ModeEnforce :: Mode where "ModeEnforce = ''enforce''"

lemma mode_distinct [simp]: "ModeNoOp \<noteq> ModeObserve" "ModeNoOp \<noteq> ModeEnforce" "ModeObserve \<noteq> ModeEnforce"
    "ModeObserve \<noteq> ModeNoOp" "ModeEnforce \<noteq> ModeNoOp" "ModeEnforce \<noteq> ModeObserve"
  by (simp_all add: ModeNoOp_def ModeObserve_def ModeEnforce_def)

definition Mode_Valid :: "Mode \<Rightarrow> bool" where
  "Mode_Valid m \<longleftrightarrow> m = ModeNoOp \<or> m = ModeObserve \<or> m = ModeEnforce"

definition Counterfactual :: "Decision \<Rightarrow> string" where
  "Counterfactual d =
     (if \<not> d_Allowed d then ''DENY'' else if d_Held d then ''HOLD''
      else if d_Scoped d then ''SCOPE'' else ''ALLOW'')"

definition CounterfactualFor :: "Mode \<Rightarrow> Decision \<Rightarrow> string" where
  "CounterfactualFor mode d = (if mode = ModeEnforce then [] else Counterfactual d)"

text \<open>The gRPC status code with the response Envoy applies.\<close>

datatype HttpResponse = OkHttpResponse "string list" | DeniedHttpResponse int string

record CheckResponse =
  cs_Code :: int
  cs_Http :: HttpResponse

definition okResponse :: CheckResponse where
  "okResponse = \<lparr>cs_Code = 0, cs_Http = OkHttpResponse []\<rparr>"

definition denied :: "string \<Rightarrow> CheckResponse" where
  "denied reason = \<lparr>cs_Code = 7, cs_Http = DeniedHttpResponse 403 reason\<rparr>"

definition Respond :: "Mode \<Rightarrow> Decision \<Rightarrow> CheckResponse" where
  "Respond mode d = (if mode \<noteq> ModeEnforce \<or> d_Allowed d then okResponse else denied (d_Reason d))"

section \<open>The server\<close>

definition AssuranceMedium :: string where "AssuranceMedium = ''MEDIUM''"
definition AssuranceAttested :: string where "AssuranceAttested = ''ATTESTED''"
definition AssuranceNone :: string where "AssuranceNone = ''NONE''"

definition GateRunToken :: string where "GateRunToken = ''run_token''"
definition ReasonRunTokenMissing :: string where "ReasonRunTokenMissing = ''run_token_missing''"
definition ReasonRunTokenUnbound :: string where "ReasonRunTokenUnbound = ''run_token_unbound''"
definition ReasonRunTokenInvalid :: string where "ReasonRunTokenInvalid = ''run_token_invalid''"
definition GateOperation :: string where "GateOperation = ''operation''"
definition ReasonOperationAmbiguous :: string where "ReasonOperationAmbiguous = ''operation_ambiguous''"
definition GateTarget :: string where "GateTarget = ''target''"
definition ReasonTargetMismatch :: string where "ReasonTargetMismatch = ''target_mismatch''"

text \<open>
  \<open>audit\<close> says whether an emitter is configured; \<open>lookupAddr\<close> is the reverse resolver, its
  error ignored as the caller does. The peer log is not modelled.
\<close>

record Config =
  cfg_Mode :: Mode
  cfg_Engine :: "Request \<Rightarrow> Decision"
  cfg_Audit :: bool
  cfg_Gates :: Gates
  cfg_RunTokens :: "RunTokenVerifier option"
  cfg_RunTokenOptional :: bool
  cfg_Operations :: "Map option"
  cfg_LookupAddr :: "(string \<Rightarrow> string list) option"

record Server =
  sv_mode :: Mode
  sv_engine :: "Request \<Rightarrow> Decision"
  sv_gates :: Gates
  sv_audit :: bool
  sv_runTokens :: "RunTokenVerifier option"
  sv_runTokenOptional :: bool
  sv_operations :: "Map option"
  sv_lookupAddr :: "(string \<Rightarrow> string list) option"

definition NewServer :: "Config \<Rightarrow> Server" where
  "NewServer cfg =
     \<lparr>sv_mode = (if Mode_Valid (cfg_Mode cfg) then cfg_Mode cfg else ModeObserve),
      sv_engine = cfg_Engine cfg, sv_gates = cfg_Gates cfg, sv_audit = cfg_Audit cfg,
      sv_runTokens = cfg_RunTokens cfg, sv_runTokenOptional = cfg_RunTokenOptional cfg,
      sv_operations = cfg_Operations cfg, sv_lookupAddr = cfg_LookupAddr cfg\<rparr>"

definition emit :: "Server \<Rightarrow> Event \<Rightarrow> Event list" where
  "emit s e = (if sv_audit s then [e] else [])"

definition Server_respond :: "Server \<Rightarrow> Decision \<Rightarrow> CheckResponse" where
  "Server_respond s d =
     (let resp = Respond (sv_mode s) d in
      case cs_Http resp of
        OkHttpResponse hs \<Rightarrow>
          (if sv_runTokens s \<noteq> None
           then resp\<lparr>cs_Http := OkHttpResponse (hs @ [ToLower RunTokenHeader])\<rparr> else resp)
      | DeniedHttpResponse c b \<Rightarrow> resp)"

text \<open>The run token: the updated request, or the refusal.\<close>

definition verifyRun :: "Server \<Rightarrow> RunTokenVerifier \<Rightarrow> Translated \<Rightarrow> Refusal + Translated" where
  "verifyRun s v t =
     (let prin = (case tr_Attestation t of None \<Rightarrow> [] | Some a \<Rightarrow> at_Principal a) in
      case RunTokenVerifier_Verify v (MapHeaders_Get (tr_Headers t) RunTokenHeader) prin of
        Inr (i, run) \<Rightarrow> Inr (t\<lparr>tr_Policy := (tr_Policy t)\<lparr>q_Identity := Some i, q_Run := Some run\<rparr>\<rparr>)
      | Inl err \<Rightarrow>
          (case err of
             ErrRunTokenMissing \<Rightarrow>
               if sv_runTokenOptional s then Inr t
               else Inl \<lparr>rf_Gate = GateRunToken, rf_ReasonClass = ReasonRunTokenMissing,
                         rf_Reason = ''a run token is required''\<rparr>
           | ErrRunTokenUnbound a b \<Rightarrow>
               Inl \<lparr>rf_Gate = GateRunToken, rf_ReasonClass = ReasonRunTokenUnbound,
                    rf_Reason = run_token_text err\<rparr>
           | _ \<Rightarrow> Inl \<lparr>rf_Gate = GateRunToken, rf_ReasonClass = ReasonRunTokenInvalid,
                       rf_Reason = run_token_text err\<rparr>))"

definition isService :: "string \<Rightarrow> bool" where
  "isService name = (let parts = Split CHR ''.'' name in 4 \<le> length parts \<and> parts ! 2 = ''svc'')"

definition hostOf :: "string \<Rightarrow> string" where
  "hostOf target =
     (let target = (case SplitHostPort target of Some (h, p) \<Rightarrow> h | None \<Rightarrow> target);
          target = TrimSuffix (TrimPrefix target ''['') '']''
      in TrimSuffix (ToLower target) ''.'')"

definition namesHost :: "string \<Rightarrow> string \<Rightarrow> string \<Rightarrow> bool" where
  "namesHost dest h n \<longleftrightarrow> h = dest \<or> h = n \<or> HasPrefix n (h @ ''.'')"

definition verifyTarget :: "Server \<Rightarrow> Translated \<Rightarrow> Refusal + Translated" where
  "verifyTarget s t =
     (case sv_lookupAddr s of
        None \<Rightarrow> Inr t
      | Some lookup \<Rightarrow>
          if tr_Destination t = [] then Inr t
          else
            let names = filter (\<lambda>n. isService (hostOf n)) (lookup (tr_Destination t));
                h = hostOf (q_Target (tr_Policy t))
            in if names = [] then Inr t
               else (case List.find (namesHost (tr_Destination t) h) (map hostOf names) of
                       Some n \<Rightarrow> Inr (t\<lparr>tr_Service := n\<rparr>)
                     | None \<Rightarrow> Inl \<lparr>rf_Gate = GateTarget, rf_ReasonClass = ReasonTargetMismatch,
                          rf_Reason = ''Host '' @ Quote (q_Target (tr_Policy t)) @ '' does not name '' @
                            hostOf (names ! 0) @ '', where the call is routed''\<rparr>))"

definition refuse :: "Decision \<Rightarrow> Refusal \<Rightarrow> Decision" where
  "refuse d r = d\<lparr>d_Allowed := False, d_Held := False, d_Scoped := False, d_Gate := rf_Gate r,
     d_ReasonClass := rf_ReasonClass r, d_Reason := rf_Reason r\<rparr>"

definition noRule :: Decision where
  "noRule = emptyDecision\<lparr>d_RuleIndex := -1\<rparr>"

text \<open>The naming of the operation, which writes the name even when it refuses.\<close>

definition nameOperation :: "Server \<Rightarrow> Translated \<Rightarrow> Translated \<times> Refusal option" where
  "nameOperation s t =
     (case sv_operations s of
        None \<Rightarrow> (t, None)
      | Some m \<Rightarrow>
          (case Map_Resolve m (q_Target (tr_Policy t)) (q_Operation (tr_Policy t)) of
             Some (action, params) \<Rightarrow>
               (t\<lparr>tr_Policy := (tr_Policy t)\<lparr>q_Action := action, q_Params := params\<rparr>\<rparr>, None)
           | None \<Rightarrow>
               (t\<lparr>tr_Policy := (tr_Policy t)\<lparr>q_Action := [], q_Params := []\<rparr>\<rparr>,
                Some \<lparr>rf_Gate = GateOperation, rf_ReasonClass = ReasonOperationAmbiguous,
                      rf_Reason = ''operations: ambiguous path''\<rparr>)))"

definition checkRun :: "Server \<Rightarrow> Translated \<Rightarrow> Refusal + Translated" where
  "checkRun s t = (case sv_runTokens s of None \<Rightarrow> Inr t | Some v \<Rightarrow> verifyRun s v t)"

definition callFor :: "Server \<Rightarrow> Translated \<Rightarrow> Call" where
  "callFor s t = \<lparr>c_Tool = q_ToolName (tr_Policy t),
     c_Subject = (case tr_Attestation t of None \<Rightarrow> [] | Some a \<Rightarrow> at_Principal a),
     c_Session = (if sv_runTokens s = None then []
       else case q_Run (tr_Policy t) of None \<Rightarrow> [] | Some r \<Rightarrow> run_ID r)\<rparr>"

record decided =
  dc_Server :: Server
  dc_Translated :: Translated
  dc_Decision :: Decision
  dc_Events :: "Event list"

text \<open>
  A circuit refusal: the first one of a session is announced. The event reads the identity and
  the attestation through their pointers.
\<close>

definition announceTrip :: "Server \<Rightarrow> Translated \<Rightarrow> Call \<Rightarrow> Refusal \<Rightarrow> (Server \<times> Event list) option" where
  "announceTrip s t call r =
     (if rf_Gate r = GateCircuit
      then (case g_Breaker (sv_gates s) of
              None \<Rightarrow> None
            | Some b \<Rightarrow>
                (case Breaker_FirstTrip b (c_Session call) of
                   (b', first) \<Rightarrow>
                     let s' = s\<lparr>sv_gates := (sv_gates s)\<lparr>g_Breaker := Some b'\<rparr>\<rparr>
                     in if \<not> first then Some (s', [])
                        else (case (q_Identity (tr_Policy t), tr_Attestation t) of
                                (Some i, Some a) \<Rightarrow>
                                  Some (s', emit s ((event EventCircuitTripped)\<lparr>ev_Target := q_Target (tr_Policy t),
                                    ev_ToolName := q_ToolName (tr_Policy t), ev_Gate := rf_Gate r,
                                    ev_ReasonClass := rf_ReasonClass r, ev_Reason := rf_Reason r,
                                    ev_RunID := c_Session call, ev_SessionID := c_Session call,
                                    ev_Identity := id_Subject i, ev_WorkloadPrincipal := tr_RawPrincipal t,
                                    ev_Attester := at_Attester a, ev_Assurance := AssuranceMedium\<rparr>))
                              | _ \<Rightarrow> None)))
      else Some (s, []))"

text \<open>Policy and the charging gates, for a call admitted by the registry and the breaker.\<close>

definition decideAdmitted :: "Server \<Rightarrow> Translated \<Rightarrow> Call \<Rightarrow> clock \<Rightarrow> decided" where
  "decideAdmitted s t call now =
     (let d = sv_engine s (tr_Policy t) in
      if \<not> d_Allowed d then \<lparr>dc_Server = s, dc_Translated = t, dc_Decision = d, dc_Events = []\<rparr>
      else case Gates_Charge (sv_gates s) call d now of
        (g, Some r, _) \<Rightarrow> \<lparr>dc_Server = s\<lparr>sv_gates := g\<rparr>, dc_Translated = t,
           dc_Decision = refuse d r, dc_Events = []\<rparr>
      | (g, None, warning) \<Rightarrow> \<lparr>dc_Server = s\<lparr>sv_gates := g\<rparr>, dc_Translated = t, dc_Decision = d,
           dc_Events = (case warning of None \<Rightarrow> []
             | Some wn \<Rightarrow> emit s ((event EventAnomalyVelocity)\<lparr>ev_ToolName := q_ToolName (tr_Policy t),
                 ev_Target := q_Target (tr_Policy t), ev_Gate := rf_Gate wn,
                 ev_ReasonClass := rf_ReasonClass wn, ev_Reason := rf_Reason wn,
                 ev_WorkloadPrincipal := tr_RawPrincipal t\<rparr>))\<rparr>)"

definition Server_decide :: "Server \<Rightarrow> Translated \<Rightarrow> clock \<Rightarrow> decided option" where
  "Server_decide s t now =
     (let stop = (\<lambda>t r. Some \<lparr>dc_Server = s, dc_Translated = t, dc_Decision = refuse noRule r, dc_Events = []\<rparr>) in
      case verifyTarget s t of
        Inl r \<Rightarrow> stop t r
      | Inr t \<Rightarrow>
          (case nameOperation s t of
             (t, Some r) \<Rightarrow> stop t r
           | (t, None) \<Rightarrow>
               (case checkRun s t of
                  Inl r \<Rightarrow> stop t r
                | Inr t \<Rightarrow>
                    let call = callFor s t in
                    (case Gates_Admit (sv_gates s) call (instant now) of
                       Some r \<Rightarrow>
                         (case announceTrip s t call r of
                            None \<Rightarrow> None
                          | Some (s', evs) \<Rightarrow> Some \<lparr>dc_Server = s', dc_Translated = t,
                              dc_Decision = refuse noRule r, dc_Events = evs\<rparr>)
                     | None \<Rightarrow> Some (decideAdmitted s t call now)))))"

definition attestedEvent :: "Translated \<Rightarrow> Event \<Rightarrow> Event" where
  "attestedEvent t e = (case tr_Attestation t of None \<Rightarrow> e
     | Some a \<Rightarrow> e\<lparr>ev_Attester := at_Attester a, ev_Assurance := AssuranceAttested\<rparr>)"

definition decisionEvent :: "Mode \<Rightarrow> Translated \<Rightarrow> Decision \<Rightarrow> Event" where
  "decisionEvent mode t d =
     attestedEvent t ((event EventArbiterDecision)\<lparr>ev_Method := q_Method (tr_Policy t),
       ev_ToolName := q_ToolName (tr_Policy t), ev_Target := q_Target (tr_Policy t),
       ev_Action := q_Action (tr_Policy t), ev_Transport := q_Transport (tr_Policy t),
       ev_Gate := d_Gate d, ev_ReasonClass := d_ReasonClass d, ev_RuleID := d_RuleID d,
       ev_Reason := d_Reason d, ev_Labels := d_Labels d, ev_Counterfactual := CounterfactualFor mode d,
       ev_WorkloadPrincipal := tr_RawPrincipal t, ev_Attester := AttesterNone,
       ev_Assurance := AssuranceNone\<rparr>)"

definition translateEvent :: "Mode \<Rightarrow> Translated option \<Rightarrow> string \<Rightarrow> Event" where
  "translateEvent mode translated err =
     (let e = (event EventArbiterDecision)\<lparr>ev_Gate := ''translate'', ev_ReasonClass := ''body_truncated'',
            ev_Reason := err, ev_Attester := AttesterNone, ev_Assurance := AssuranceNone,
            ev_Counterfactual := CounterfactualFor mode emptyDecision\<rparr>
      in case translated of
           None \<Rightarrow> e
         | Some t \<Rightarrow> attestedEvent t (e\<lparr>ev_Target := q_Target (tr_Policy t),
             ev_WorkloadPrincipal := tr_RawPrincipal t\<rparr>))"

text \<open>The server after the check, the audit events in order, and the response.\<close>

definition Server_Check ::
  "json_lib \<Rightarrow> Server \<Rightarrow> CheckRequest \<Rightarrow> clock \<Rightarrow> (Server \<times> Event list \<times> CheckResponse) option" where
  "Server_Check js s req now =
     (case Translate js req of
        (translated, Some err) \<Rightarrow>
          Some (s, emit s (translateEvent (sv_mode s) translated err),
                Server_respond s (emptyDecision\<lparr>d_Reason := err\<rparr>))
      | (None, None) \<Rightarrow> None
      | (Some t, None) \<Rightarrow>
          (case Server_decide s t now of
             None \<Rightarrow> None
           | Some dc \<Rightarrow>
               let t = dc_Translated dc; d = dc_Decision dc; e = decisionEvent (sv_mode s) t d in
               (case (q_Run (tr_Policy t), q_Identity (tr_Policy t)) of
                  (Some run, None) \<Rightarrow> None
                | (Some run, Some i) \<Rightarrow>
                    Some (dc_Server dc, dc_Events dc @ emit s (e\<lparr>ev_RunID := run_ID run,
                        ev_SessionID := run_ID run, ev_Identity := id_Subject i, ev_Assurance := AssuranceMedium\<rparr>),
                      Server_respond s d)
                | (None, _) \<Rightarrow> Some (dc_Server dc, dc_Events dc @ emit s e, Server_respond s d))))"

section \<open>Lemmas\<close>

lemma attestPeer_principal:
  "attestPeer prin headers = (raw, Some a) \<Longrightarrow> at_Principal a = raw \<and> raw \<noteq> []"
  unfolding attestPeer_def Let_def
  using mesh.attest_principal mesh.attest_nonempty mesh_header.attest_principal mesh_header.attest_nonempty
  by (auto split: if_splits)

text \<open>A request is translated without error iff its body was seen whole.\<close>

lemma Translate_ok_iff:
  "(\<exists>t. Translate js req = (Some t, None)) \<longleftrightarrow>
     (\<exists>attrs. ck_Http req = Some attrs \<and> \<not> BodyTruncated (hr_Size attrs) (hr_Headers attrs) (bodyOf attrs))"
  unfolding Translate_def Let_def by (auto split: option.splits prod.splits)

lemma Translate_some: "Translate js req \<noteq> (None, None)"
  unfolding Translate_def Let_def by (auto split: option.splits prod.splits if_splits)

lemma Translate_run:
  "Translate js req = (Some t, err) \<Longrightarrow> q_Run (tr_Policy t) = None \<and> q_Identity (tr_Policy t) = None \<and>
     (tr_Attestation t = Some a \<longrightarrow> at_Principal a = tr_RawPrincipal t)"
  unfolding Translate_def Let_def
  by (auto split: option.splits prod.splits if_splits simp: emptyRequest_def dest: attestPeer_principal)

definition unbound :: "Translated \<Rightarrow> bool" where
  "unbound t \<longleftrightarrow> q_Run (tr_Policy t) = None \<and> q_Identity (tr_Policy t) = None"

lemma verifyTarget_keeps:
  "verifyTarget s t = Inr t' \<Longrightarrow> tr_Policy t' = tr_Policy t \<and> tr_Attestation t' = tr_Attestation t \<and>
     tr_Headers t' = tr_Headers t \<and> tr_RawPrincipal t' = tr_RawPrincipal t"
  unfolding verifyTarget_def Let_def by (auto split: option.splits if_splits)

lemma nameOperation_keeps:
  "nameOperation s t = (t', r) \<Longrightarrow> q_Run (tr_Policy t') = q_Run (tr_Policy t) \<and>
     q_Identity (tr_Policy t') = q_Identity (tr_Policy t) \<and> tr_Attestation t' = tr_Attestation t \<and>
     tr_Headers t' = tr_Headers t \<and> tr_RawPrincipal t' = tr_RawPrincipal t"
  unfolding nameOperation_def by (auto split: option.splits prod.splits)

text \<open>What a run on the request rests on.\<close>

definition run_bound :: "Server \<Rightarrow> Translated \<Rightarrow> bool" where
  "run_bound s t \<longleftrightarrow> (\<forall>run. q_Run (tr_Policy t) = Some run \<longrightarrow>
     (\<exists>v i a. sv_runTokens s = Some v \<and> q_Identity (tr_Policy t) = Some i \<and> tr_Attestation t = Some a \<and>
        RunTokenVerifier_Verify v (MapHeaders_Get (tr_Headers t) RunTokenHeader) (at_Principal a) = Inr (i, run)))"

lemma run_bound_unbound: "unbound t \<Longrightarrow> run_bound s t"
  by (simp add: unbound_def run_bound_def)

lemma checkRun_bound:
  assumes "checkRun s t = Inr t'" and "unbound t"
  shows "run_bound s t'"
proof (cases "sv_runTokens s")
  case None
  then show ?thesis
    using assms by (simp add: checkRun_def run_bound_unbound)
next
  case (Some v)
  define prin where "prin = (case tr_Attestation t of None \<Rightarrow> [] | Some a \<Rightarrow> at_Principal a)"
  show ?thesis
  proof (cases "RunTokenVerifier_Verify v (MapHeaders_Get (tr_Headers t) RunTokenHeader) prin")
    case (Inl err)
    then have "t' = t"
      using assms(1) Some by (auto simp: checkRun_def verifyRun_def prin_def split: run_token_error.splits if_splits)
    then show ?thesis
      using assms(2) run_bound_unbound by blast
  next
    case (Inr r)
    obtain i run where r: "r = (i, run)"
      by (cases r)
    then have t': "t' = t\<lparr>tr_Policy := (tr_Policy t)\<lparr>q_Identity := Some i, q_Run := Some run\<rparr>\<rparr>"
      using assms(1) Some Inr by (simp add: checkRun_def verifyRun_def prin_def)
    have "prin \<noteq> []"
      using Verify_bound [OF Inr [unfolded r]] by simp
    then obtain a where "tr_Attestation t = Some a" "prin = at_Principal a"
      by (auto simp: prin_def split: option.splits)
    then show ?thesis
      using Some Inr r by (simp add: run_bound_def t')
  qed
qed

lemma checkRun_keeps:
  "checkRun s t = Inr t' \<Longrightarrow> tr_Attestation t' = tr_Attestation t \<and>
     tr_Headers t' = tr_Headers t \<and> tr_RawPrincipal t' = tr_RawPrincipal t"
  unfolding checkRun_def verifyRun_def Let_def
  by (auto split: option.splits sum.splits prod.splits run_token_error.splits if_splits)

text \<open>The stages before the gates add the operation and the run; what was asked for stays what it was.\<close>

lemma settled_request:
  "verifyTarget s u = Inr u1 \<Longrightarrow> nameOperation s u1 = (u2, r) \<Longrightarrow> checkRun s u2 = Inr t \<Longrightarrow>
   tr_Policy t = (tr_Policy u)\<lparr>q_Action := q_Action (tr_Policy t), q_Params := q_Params (tr_Policy t),
     q_Identity := q_Identity (tr_Policy t), q_Run := q_Run (tr_Policy t)\<rparr> \<and> tr_Attestation t = tr_Attestation u \<and> tr_Headers t = tr_Headers u"
  unfolding verifyTarget_def nameOperation_def checkRun_def verifyRun_def Let_def
  by (auto split: option.splits sum.splits prod.splits run_token_error.splits if_splits)

text \<open>Only a call with a session is refused by the circuit breaker.\<close>

lemma Admit_circuit:
  "Gates_Admit g c now = Some r \<Longrightarrow> rf_Gate r = GateCircuit \<Longrightarrow> g_Breaker g \<noteq> None \<and> c_Session c \<noteq> []"
  by (auto simp: Gates_Admit_def Breaker_Allow_def gate_defs split: if_splits option.splits)

lemma announceTrip_total:
  assumes "Gates_Admit (sv_gates s) (callFor s t) now = Some r" and "run_bound s t"
  shows "announceTrip s t (callFor s t) r \<noteq> None"
proof (cases "rf_Gate r = GateCircuit")
  case True
  note c = Admit_circuit [OF assms(1) True]
  then obtain run where "q_Run (tr_Policy t) = Some run"
    by (auto simp: callFor_def split: if_splits option.splits)
  then obtain i a where "q_Identity (tr_Policy t) = Some i" "tr_Attestation t = Some a"
    using assms(2) by (auto simp: run_bound_def)
  then show ?thesis
    using c by (auto simp: announceTrip_def Let_def split: prod.splits option.splits)
qed (simp add: announceTrip_def)

lemma decideAdmitted_translated [simp]: "dc_Translated (decideAdmitted s t c now) = t"
  unfolding decideAdmitted_def Let_def by (simp split: prod.splits option.splits)

text \<open>The stages of a decision, one after the other.\<close>

lemma Server_decide_cases:
  assumes "unbound t"
  obtains (stopped) t' r where
      "Server_decide s t now = Some \<lparr>dc_Server = s, dc_Translated = t', dc_Decision = refuse noRule r, dc_Events = []\<rparr>"
      "unbound t'" "tr_Attestation t' = tr_Attestation t" "tr_Headers t' = tr_Headers t"
      "tr_RawPrincipal t' = tr_RawPrincipal t"
      "\<forall>t1 t2 t3. verifyTarget s t = Inr t1 \<longrightarrow> nameOperation s t1 = (t2, None) \<longrightarrow> checkRun s t2 \<noteq> Inr t3"
    | (unadmitted) t1 t2 t3 r s' evs where "verifyTarget s t = Inr t1" "nameOperation s t1 = (t2, None)"
      "checkRun s t2 = Inr t3" "run_bound s t3"
      "Gates_Admit (sv_gates s) (callFor s t3) (instant now) = Some r"
      "announceTrip s t3 (callFor s t3) r = Some (s', evs)"
      "Server_decide s t now = Some \<lparr>dc_Server = s', dc_Translated = t3, dc_Decision = refuse noRule r, dc_Events = evs\<rparr>"
    | (admitted) t1 t2 t3 where "verifyTarget s t = Inr t1" "nameOperation s t1 = (t2, None)"
      "checkRun s t2 = Inr t3" "run_bound s t3"
      "Gates_Admit (sv_gates s) (callFor s t3) (instant now) = None"
      "Server_decide s t now = Some (decideAdmitted s t3 (callFor s t3) now)"
proof (cases "verifyTarget s t")
  case (Inl r)
  then show ?thesis
    using assms stopped [of t r] by (simp add: Server_decide_def)
next
  case (Inr t1)
  note k1 = verifyTarget_keeps [OF Inr]
  obtain t2 r2 where n: "nameOperation s t1 = (t2, r2)"
    by (cases "nameOperation s t1")
  note k2 = nameOperation_keeps [OF n]
  have u2: "unbound t2"
    using assms k1 k2 by (simp add: unbound_def)
  show ?thesis
  proof (cases r2)
    case (Some r)
    then show ?thesis
      using Inr n u2 k1 k2 stopped [of t2 r] by (simp add: Server_decide_def)
  next
    case None
    show ?thesis
    proof (cases "checkRun s t2")
      case (Inl r)
      then show ?thesis
        using Inr n u2 k1 k2 None stopped [of t2 r] by (simp add: Server_decide_def)
    next
      case t3: (Inr t3)
      note b = checkRun_bound [OF t3 u2]
      show ?thesis
      proof (cases "Gates_Admit (sv_gates s) (callFor s t3) (instant now)")
        case None': None
        show ?thesis
          by (rule admitted [OF Inr _ t3 b None']) (use Inr n None t3 None' in \<open>simp_all add: Server_decide_def\<close>)
      next
        case (Some r)
        obtain s' evs where a: "announceTrip s t3 (callFor s t3) r = Some (s', evs)"
          using announceTrip_total [OF Some b] by (cases "announceTrip s t3 (callFor s t3) r") auto
        show ?thesis
          by (rule unadmitted [OF Inr _ t3 b Some a]) (use Inr n None t3 Some a in \<open>simp_all add: Server_decide_def\<close>)
      qed
    qed
  qed
qed

lemma refuse_sel [simp]: "\<not> d_Allowed (refuse d r)" "\<not> d_Held (refuse d r)" "\<not> d_Scoped (refuse d r)"
  by (simp_all add: refuse_def)

lemma decideAdmitted_allowed:
  "d_Allowed (dc_Decision (decideAdmitted s t c now)) \<longleftrightarrow>
     d_Allowed (sv_engine s (tr_Policy t)) \<and>
     (\<exists>g w. Gates_Charge (sv_gates s) c (sv_engine s (tr_Policy t)) now = (g, None, w))"
  unfolding decideAdmitted_def Let_def by (auto split: prod.splits option.splits)

text \<open>The events of a check and the state it leaves, from the decision.\<close>

definition finalEvent :: "Mode \<Rightarrow> decided \<Rightarrow> Event" where
  "finalEvent mode dc =
     (let t = dc_Translated dc; e = decisionEvent mode t (dc_Decision dc) in
      case (q_Run (tr_Policy t), q_Identity (tr_Policy t)) of
        (Some run, Some i) \<Rightarrow> e\<lparr>ev_RunID := run_ID run, ev_SessionID := run_ID run,
           ev_Identity := id_Subject i, ev_Assurance := AssuranceMedium\<rparr>
      | _ \<Rightarrow> e)"

lemma decide_run_bound:
  assumes "unbound t" and "Server_decide s t now = Some dc"
  shows "run_bound s (dc_Translated dc)"
  using assms(1)
  by (cases rule: Server_decide_cases [where s = s and now = now]) (use assms(2) run_bound_unbound in auto)

lemma decide_total: "unbound t \<Longrightarrow> \<exists>dc. Server_decide s t now = Some dc"
  by (erule Server_decide_cases [where s = s and now = now]) auto

lemma Translate_unbound: "Translate js req = (Some t, err) \<Longrightarrow> unbound t"
  using Translate_run by (simp add: unbound_def)

lemma Server_Check_decided:
  assumes "Translate js req = (Some t, None)" and "Server_decide s t now = Some dc"
  shows "Server_Check js s req now =
    Some (dc_Server dc, dc_Events dc @ emit s (finalEvent (sv_mode s) dc), Server_respond s (dc_Decision dc))"
proof -
  have "run_bound s (dc_Translated dc)"
    by (rule decide_run_bound [OF Translate_unbound [OF assms(1)] assms(2)])
  then have "q_Run (tr_Policy (dc_Translated dc)) \<noteq> None \<longrightarrow> q_Identity (tr_Policy (dc_Translated dc)) \<noteq> None"
    by (auto simp: run_bound_def)
  then show ?thesis
    unfolding Server_Check_def assms finalEvent_def
    by (cases "q_Run (tr_Policy (dc_Translated dc))"; cases "q_Identity (tr_Policy (dc_Translated dc))")
      (simp_all add: Let_def assms(2))
qed

text \<open>Every check ends in one of two ways.\<close>

lemma Server_Check_cases:
  obtains (unread) tr err where "Translate js req = (tr, Some err)"
      "Server_Check js s req now = Some (s, emit s (translateEvent (sv_mode s) tr err),
         Server_respond s (emptyDecision\<lparr>d_Reason := err\<rparr>))"
    | (decided) t dc where "Translate js req = (Some t, None)" "unbound t" "Server_decide s t now = Some dc"
      "Server_Check js s req now =
         Some (dc_Server dc, dc_Events dc @ emit s (finalEvent (sv_mode s) dc), Server_respond s (dc_Decision dc))"
proof -
  obtain tr err where tr: "Translate js req = (tr, err)"
    by (cases "Translate js req")
  show ?thesis
  proof (cases err)
    case (Some e)
    then show ?thesis
      using unread [of tr e] tr by (cases tr) (simp_all add: Server_Check_def)
  next
    case None
    then obtain t where t: "tr = Some t"
      using tr Translate_some [of js req] by (cases tr) auto
    obtain dc where "Server_decide s t now = Some dc"
      using decide_total [OF Translate_unbound [OF tr [unfolded t]]] by blast
    then show ?thesis
      using decided [of t dc] tr t None Server_Check_decided Translate_unbound by blast
  qed
qed

lemma respond_ok_iff:
  "(\<exists>hs. cs_Http (Server_respond s d) = OkHttpResponse hs) \<longleftrightarrow> sv_mode s \<noteq> ModeEnforce \<or> d_Allowed d"
  unfolding Server_respond_def Respond_def okResponse_def denied_def Let_def by auto

lemma respond_refused: "sv_mode s = ModeEnforce \<Longrightarrow> \<not> d_Allowed d \<Longrightarrow> Server_respond s d = denied (d_Reason d)"
  unfolding Server_respond_def Respond_def denied_def Let_def by simp

text \<open>A response Envoy forwards removes the run token.\<close>

lemma respond_strips:
  "sv_runTokens s \<noteq> None \<Longrightarrow> cs_Http (Server_respond s d) = OkHttpResponse hs \<Longrightarrow> ''txn-token'' \<in> set hs"
  unfolding Server_respond_def Respond_def okResponse_def denied_def
  by (auto simp: RunTokenHeader_def str_eval split: if_splits)

subsection \<open>The mode and the decision\<close>

text \<open>No stage of a decision looks at the mode.\<close>

lemma mode_irrelevant [simp]:
  "verifyTarget (s\<lparr>sv_mode := m\<rparr>) = verifyTarget s" "nameOperation (s\<lparr>sv_mode := m\<rparr>) = nameOperation s"
  "checkRun (s\<lparr>sv_mode := m\<rparr>) = checkRun s" "callFor (s\<lparr>sv_mode := m\<rparr>) = callFor s"
  "emit (s\<lparr>sv_mode := m\<rparr>) = emit s"
  by (intro ext, simp add: verifyTarget_def nameOperation_def checkRun_def verifyRun_def callFor_def emit_def
      cong: option.case_cong)+

lemma mode_gates_commute: "s\<lparr>sv_mode := m, sv_gates := g\<rparr> = s\<lparr>sv_gates := g, sv_mode := m\<rparr>"
  by simp

definition under :: "Mode \<Rightarrow> decided \<Rightarrow> decided" where
  "under m dc = dc\<lparr>dc_Server := (dc_Server dc)\<lparr>sv_mode := m\<rparr>\<rparr>"

lemma under_sel [simp]:
  "dc_Server (under m dc) = (dc_Server dc)\<lparr>sv_mode := m\<rparr>" "dc_Translated (under m dc) = dc_Translated dc"
  "dc_Decision (under m dc) = dc_Decision dc" "dc_Events (under m dc) = dc_Events dc"
  by (simp_all add: under_def)

lemma announceTrip_mode:
  "announceTrip (s\<lparr>sv_mode := m\<rparr>) t c r =
     map_option (\<lambda>(s', evs). (s'\<lparr>sv_mode := m\<rparr>, evs)) (announceTrip s t c r)"
  unfolding announceTrip_def Let_def by (simp split: option.split prod.split)

lemma decideAdmitted_mode: "decideAdmitted (s\<lparr>sv_mode := m\<rparr>) t c now = under m (decideAdmitted s t c now)"
  unfolding decideAdmitted_def Let_def under_def by (simp split: option.split prod.split)

lemma Server_decide_mode: "Server_decide (s\<lparr>sv_mode := m\<rparr>) t now = map_option (under m) (Server_decide s t now)"
  unfolding Server_decide_def Let_def
  by (simp add: announceTrip_mode decideAdmitted_mode under_def split: option.split prod.split sum.split)

text \<open>A check changes the gates and nothing else of the server.\<close>

lemma decide_server:
  assumes "Server_decide s t now = Some dc"
  shows "dc_Server dc = s\<lparr>sv_gates := sv_gates (dc_Server dc)\<rparr>"
  using assms unfolding Server_decide_def Let_def announceTrip_def decideAdmitted_def
  by (simp split: option.splits prod.splits sum.splits if_splits) auto

lemma Check_server:
  assumes "Server_Check js s req now = Some (s', evs, resp)"
  shows "s' = s\<lparr>sv_gates := sv_gates s'\<rparr>"
proof (cases rule: Server_Check_cases [of js req s now])
  case (unread tr err)
  then show ?thesis using assms by simp
next
  case (decided t dc)
  then show ?thesis using assms decide_server [OF decided(3)] by simp
qed

text \<open>A sequence of checks: the events and the response of each.\<close>

fun check_run :: "json_lib \<Rightarrow> Server \<Rightarrow> (CheckRequest \<times> clock) list \<Rightarrow> (Event list \<times> CheckResponse) list" where
  "check_run js s [] = []"
| "check_run js s ((req, now) # rest) =
     (case Server_Check js s req now of
        None \<Rightarrow> []
      | Some (s', evs, resp) \<Rightarrow> (evs, resp) # check_run js s' rest)"

definition is_denied :: "CheckResponse \<Rightarrow> bool" where
  "is_denied resp = (case cs_Http resp of OkHttpResponse hs \<Rightarrow> False | DeniedHttpResponse c b \<Rightarrow> True)"

lemma respond_denied: "is_denied (Server_respond s d) \<longleftrightarrow> sv_mode s = ModeEnforce \<and> \<not> d_Allowed d"
  unfolding is_denied_def Server_respond_def Respond_def okResponse_def denied_def Let_def by auto

lemma Counterfactual_deny [simp]: "Counterfactual d = ''DENY'' \<longleftrightarrow> \<not> d_Allowed d"
  by (simp add: Counterfactual_def)

lemma attestedEvent_cf [simp]: "ev_Counterfactual (attestedEvent t e) = ev_Counterfactual e"
  by (simp add: attestedEvent_def split: option.split)

lemma finalEvent_cf [simp]: "ev_Counterfactual (finalEvent mode dc) = CounterfactualFor mode (dc_Decision dc)"
  by (simp add: finalEvent_def decisionEvent_def Let_def split: option.split)

lemma translateEvent_cf [simp]: "ev_Counterfactual (translateEvent mode tr err) = CounterfactualFor mode emptyDecision"
  by (simp add: translateEvent_def Let_def split: option.split)

text \<open>One check under enforcement beside the same check in another mode.\<close>

lemma Check_shadow:
  assumes "sv_mode s = ModeEnforce" and "m \<noteq> ModeEnforce" and "sv_audit s"
  obtains s' evs resp evs' resp' where
    "Server_Check js s req now = Some (s', evs, resp)"
    "Server_Check js (s\<lparr>sv_mode := m\<rparr>) req now = Some (s'\<lparr>sv_mode := m\<rparr>, evs', resp')"
    "is_denied resp \<longleftrightarrow> ev_Counterfactual (last evs') = ''DENY''" "evs' \<noteq> []" "\<not> is_denied resp'"
    "sv_mode s' = ModeEnforce" "sv_audit s'"
proof (cases rule: Server_Check_cases [of js req s now])
  case (unread tr err)
  then have c2: "Server_Check js (s\<lparr>sv_mode := m\<rparr>) req now =
      Some (s\<lparr>sv_mode := m\<rparr>, emit s (translateEvent m tr err),
            Server_respond (s\<lparr>sv_mode := m\<rparr>) (emptyDecision\<lparr>d_Reason := err\<rparr>))"
    by (cases tr) (simp_all add: Server_Check_def)
  have "\<not> d_Allowed (emptyDecision\<lparr>d_Reason := err\<rparr>)" "\<not> d_Allowed emptyDecision"
    by (simp_all add: emptyDecision_def)
  then show ?thesis
    using assms by (intro that [OF unread(2) c2]) (simp_all add: respond_denied emit_def CounterfactualFor_def)
next
  case (decided t dc)
  have c2: "Server_Check js (s\<lparr>sv_mode := m\<rparr>) req now =
      Some ((dc_Server dc)\<lparr>sv_mode := m\<rparr>, dc_Events dc @ emit s (finalEvent m (under m dc)),
            Server_respond (s\<lparr>sv_mode := m\<rparr>) (dc_Decision dc))"
    using Server_Check_decided [OF decided(1), of "s\<lparr>sv_mode := m\<rparr>" now "under m dc"] decided(3)
    by (simp add: Server_decide_mode)
  have "sv_mode (dc_Server dc) = ModeEnforce" "sv_audit (dc_Server dc)"
    using decide_server [OF decided(3)] assms by (metis Server.select_convs(1,4) Server.surjective Server.update_convs(3))+
  then show ?thesis
    using assms by (intro that [OF decided(4) c2]) (simp_all add: respond_denied emit_def CounterfactualFor_def)
qed

lemma Check_answers: "\<exists>s' evs resp. Server_Check js s req now = Some (s', evs, resp)"
  by (rule Server_Check_cases [of js req s now]) auto

lemma decide_keeps:
  assumes "unbound t" and "Server_decide s t now = Some dc"
  shows "tr_Attestation (dc_Translated dc) = tr_Attestation t \<and> tr_Headers (dc_Translated dc) = tr_Headers t \<and>
    tr_RawPrincipal (dc_Translated dc) = tr_RawPrincipal t"
  using assms(1)
proof (cases rule: Server_decide_cases [where s = s and now = now])
  case (stopped t' r)
  then show ?thesis using assms(2) by simp
next
  case (unadmitted t1 t2 t3 r s' evs)
  then show ?thesis
    using assms(2) verifyTarget_keeps [OF unadmitted(1)] nameOperation_keeps [OF unadmitted(2)]
      checkRun_keeps [OF unadmitted(3)] by simp
next
  case (admitted t1 t2 t3)
  then show ?thesis
    using assms(2) verifyTarget_keeps [OF admitted(1)] nameOperation_keeps [OF admitted(2)]
      checkRun_keeps [OF admitted(3)] by auto
qed

lemma medium_distinct [simp]: "AssuranceNone \<noteq> AssuranceMedium" "AssuranceAttested \<noteq> AssuranceMedium" "AssuranceMedium \<noteq> []"
    "[] \<noteq> AssuranceMedium"
  by (simp_all add: AssuranceNone_def AssuranceMedium_def AssuranceAttested_def)

lemma finalEvent_medium:
  assumes "ev_Assurance (finalEvent mode dc) = AssuranceMedium"
  shows "\<exists>run i. q_Run (tr_Policy (dc_Translated dc)) = Some run \<and> q_Identity (tr_Policy (dc_Translated dc)) = Some i \<and>
    ev_RunID (finalEvent mode dc) = run_ID run \<and> ev_Identity (finalEvent mode dc) = id_Subject i \<and>
    ev_WorkloadPrincipal (finalEvent mode dc) = tr_RawPrincipal (dc_Translated dc)"
  using assms
  by (cases "tr_Attestation (dc_Translated dc)"; cases "q_Run (tr_Policy (dc_Translated dc))";
      cases "q_Identity (tr_Policy (dc_Translated dc))")
    (simp_all add: finalEvent_def decisionEvent_def attestedEvent_def Let_def)

text \<open>Of the other events only a circuit trip claims MEDIUM, and it has a run.\<close>

lemma decide_medium:
  assumes "unbound t" and "Server_decide s t now = Some dc"
    and "ev \<in> set (dc_Events dc)" and "ev_Assurance ev = AssuranceMedium"
  shows "\<exists>run i. q_Run (tr_Policy (dc_Translated dc)) = Some run \<and> q_Identity (tr_Policy (dc_Translated dc)) = Some i \<and>
    ev_RunID ev = run_ID run \<and> ev_Identity ev = id_Subject i \<and>
    ev_WorkloadPrincipal ev = tr_RawPrincipal (dc_Translated dc)"
  using assms(1)
proof (cases rule: Server_decide_cases [where s = s and now = now])
  case (stopped t' r)
  then show ?thesis using assms(2,3) by simp
next
  case (unadmitted t1 t2 t3 r s' evs)
  have dc: "dc_Translated dc = t3" "dc_Events dc = evs"
    using unadmitted(7) assms(2) by simp_all
  have circ: "rf_Gate r = GateCircuit"
    using unadmitted(6) dc assms(3) by (auto simp: announceTrip_def split: if_splits)
  obtain run where run: "q_Run (tr_Policy t3) = Some run" "c_Session (callFor s t3) = run_ID run"
    using Admit_circuit [OF unadmitted(5) circ] by (auto simp: callFor_def split: if_splits option.splits)
  obtain i a where "q_Identity (tr_Policy t3) = Some i" "tr_Attestation t3 = Some a"
    using unadmitted(4) run(1) by (auto simp: run_bound_def)
  moreover have "ev \<in> set evs"
    using assms(3) dc(2) by simp
  ultimately show ?thesis
    unfolding dc(1) using unadmitted(6) circ run
    by (auto simp: announceTrip_def Let_def emit_def split: option.splits prod.splits if_splits)
next
  case (admitted t1 t2 t3)
  then have "dc = decideAdmitted s t3 (callFor s t3) now"
    using assms(2) by simp
  then have "ev_Assurance ev = []"
    using assms(3) by (auto simp: decideAdmitted_def Let_def emit_def event_def split: if_splits prod.splits option.splits)
  then show ?thesis
    using assms(4) by simp
qed

section \<open>Properties\<close>

text \<open>
  C12. The decision server always answers: no check dereferences a nil pointer, although the
  circuit event reads the identity and the attestation unguarded. A breaker refusal needs a
  session, a session needs a verified run token, and a verified token is bound to an attested
  principal.\<close>

theorem Check_never_panics: "Server_Check js s req now \<noteq> None"
  using Check_answers [of js s req now] by auto


text \<open>A server that requires run tokens and allows every call, and a request it forwards.\<close>

definition demo_js :: json_lib where
  "demo_js = \<lparr>js_unmarshal = (\<lambda>_. Inl ''syntax''), js_marshal = (\<lambda>_. Inl ''unsupported'')\<rparr>"

definition demo_config :: "Mode \<Rightarrow> Config" where
  "demo_config m = \<lparr>cfg_Mode = m,
     cfg_Engine = Evaluate (NewRuleEngine (\<lambda>_. Inl []) [emptyRule\<lparr>r_Action := ActionAllow\<rparr>]),
     cfg_Audit = True, cfg_Gates = \<lparr>g_Registry = None, g_Breaker = None, g_Budgets = None,
       g_Velocity = None, g_Rates = None\<rparr>,
     cfg_RunTokens = Some demo_run_verifier, cfg_RunTokenOptional = False,
     cfg_Operations = None, cfg_LookupAddr = None\<rparr>"

definition demo_check :: "string \<Rightarrow> CheckRequest" where
  "demo_check peer = \<lparr>ck_Http = Some \<lparr>hr_Method = ''GET'', hr_Path = ''/'', hr_Host = ''api.x'',
       hr_Headers = [(''txn-token'', ''tok'')], hr_Size = 0, hr_Body = [], hr_RawBody = []\<rparr>,
     ck_SourcePrincipal = peer, ck_DestinationAddress = []\<rparr>"

definition demo_now :: clock where
  "demo_now = \<lparr>instant = 0, YearDay = 1\<rparr>"

definition demo_peer :: string where
  "demo_peer = ''td/ns/a/sa/b''"

lemma demo_attest: "MeshAttester_Attest demo_peer = Some \<lparr>at_Principal = demo_peer, at_TrustDomain = ''td'',
    at_Namespace = ''a'', at_ServiceAccount = ''b'', at_Attester = AttesterMeshSPIFFE\<rparr>"
  by (simp add: MeshAttester_Attest_def demo_peer_def TrimPrefix_def spiffeScheme_def)

definition demo_translated :: Translated where
  "demo_translated = \<lparr>tr_Policy = emptyRequest\<lparr>q_Target := ''api.x'', q_Operation := ''GET /'',
       q_Transport := TransportWireAPI\<rparr>,
     tr_Attestation = MeshAttester_Attest demo_peer, tr_Headers = [(''txn-token'', ''tok'')],
     tr_RawPrincipal = demo_peer, tr_Destination = [], tr_Service = []\<rparr>"

lemma demo_translate: "Translate demo_js (demo_check demo_peer) = (Some demo_translated, None)"
  by (simp add: Translate_def demo_check_def attestPeer_def demo_attest BodyTruncated_def PartialBodyHeader_def
      bodyOf_def parseMCPToolsCall_def demo_translated_def TrimSpace_def is_space_def)
    (simp add: demo_peer_def)

lemma demo_verify: "\<exists>i run. RunTokenVerifier_Verify demo_run_verifier ''tok'' demo_peer = Inr (i, run) \<and>
    run_ID run = ''run-1'' \<and> id_Subject i = ''alice''"
  by (simp add: RunTokenVerifier_Verify_def readRun_def demo_run_verifier_def claimString_def
      emptyIdentity_def demo_peer_def)

lemma demo_checkRun:
  "\<exists>i run. checkRun (NewServer (demo_config m)) demo_translated =
     Inr (demo_translated\<lparr>tr_Policy := (tr_Policy demo_translated)\<lparr>q_Identity := Some i, q_Run := Some run\<rparr>\<rparr>) \<and>
     run_ID run = ''run-1'' \<and> id_Subject i = ''alice''"
proof -
  obtain i run where "RunTokenVerifier_Verify demo_run_verifier ''tok'' demo_peer = Inr (i, run)"
      and n: "run_ID run = ''run-1''" "id_Subject i = ''alice''"
    using demo_verify by blast
  then have "checkRun (NewServer (demo_config m)) demo_translated =
     Inr (demo_translated\<lparr>tr_Policy := (tr_Policy demo_translated)\<lparr>q_Identity := Some i, q_Run := Some run\<rparr>\<rparr>)"
    by (simp add: checkRun_def NewServer_def demo_config_def verifyRun_def MapHeaders_Get_def RunTokenHeader_def
      str_eval demo_translated_def demo_attest)
  with n show ?thesis
    by blast
qed

lemma demo_allows: "d_Allowed (cfg_Engine (demo_config m) req)"
  by (simp add: demo_config_def Evaluate_def evalRule_def matchesMethod_def matchesToolName_def matchesWhen_def
        matchesCEL_def evaluateIdentityGuards_def evaluateDelegationGuards_def emptyRule_def)

lemma demo_clear:
  "\<exists>t t1 t2 t3 g w. Translate demo_js (demo_check demo_peer) = (Some t, None) \<and>
      verifyTarget (NewServer (demo_config m)) t = Inr t1 \<and> nameOperation (NewServer (demo_config m)) t1 = (t2, None) \<and>
      checkRun (NewServer (demo_config m)) t2 = Inr t3 \<and>
      Gates_Admit (sv_gates (NewServer (demo_config m))) (callFor (NewServer (demo_config m)) t3) (instant demo_now) = None \<and>
      d_Allowed (sv_engine (NewServer (demo_config m)) (tr_Policy t3)) \<and>
      Gates_Charge (sv_gates (NewServer (demo_config m))) (callFor (NewServer (demo_config m)) t3)
        (sv_engine (NewServer (demo_config m)) (tr_Policy t3)) demo_now = (g, None, w)"
proof -
  let ?s = "NewServer (demo_config m)"
  obtain i run where r: "checkRun ?s demo_translated =
     Inr (demo_translated\<lparr>tr_Policy := (tr_Policy demo_translated)\<lparr>q_Identity := Some i, q_Run := Some run\<rparr>\<rparr>)"
    using demo_checkRun by blast
  let ?t = "demo_translated\<lparr>tr_Policy := (tr_Policy demo_translated)\<lparr>q_Identity := Some i, q_Run := Some run\<rparr>\<rparr>"
  have v: "verifyTarget ?s demo_translated = Inr demo_translated" "nameOperation ?s demo_translated = (demo_translated, None)"
    by (simp_all add: verifyTarget_def nameOperation_def NewServer_def demo_config_def)
  have g: "sv_gates ?s = \<lparr>g_Registry = None, g_Breaker = None, g_Budgets = None, g_Velocity = None, g_Rates = None\<rparr>"
    by (simp add: NewServer_def demo_config_def)
  have a: "Gates_Admit (sv_gates ?s) c now = None" for c now
    by (simp add: g Gates_Admit_def)
  have e: "sv_engine ?s = cfg_Engine (demo_config m)"
    by (simp add: NewServer_def)
  have rl: "ruleLimits (cfg_Engine (demo_config m) q) = []" "\<exists>r. d_MatchedRule (cfg_Engine (demo_config m) q) = Some r \<and> r_Budget r = None" for q
    by (simp_all add: ruleLimits_def demo_config_def Evaluate_def evalRule_def matchesMethod_def matchesToolName_def matchesWhen_def
        matchesCEL_def evaluateIdentityGuards_def evaluateDelegationGuards_def emptyRule_def)
  have "\<exists>h w. Gates_Charge (sv_gates ?s) c (sv_engine ?s q) demo_now = (h, None, w)" for c q
    using rl [of q] by (auto simp: g e Gates_Charge_def chargeRates_def chargeBudget_def toolLimits_def)
  then show ?thesis
    using demo_translate v r a demo_allows [of m] by (metis e)
qed


text \<open>
  Only a server configured to enforce ever refuses a call: with any other configured mode, a
  misspelt one included, every check of every sequence of checks is answered OK, whatever the
  gates and the policy decide.\<close>

theorem only_enforce_denies:
  assumes "cfg_Mode cfg \<noteq> ModeEnforce"
  shows "length (check_run js (NewServer cfg) reqs) = length reqs \<and>
    (\<forall>(evs, resp) \<in> set (check_run js (NewServer cfg) reqs). \<not> is_denied resp)"
proof -
  have "length (check_run js s reqs) = length reqs \<and> (\<forall>(evs, resp) \<in> set (check_run js s reqs). \<not> is_denied resp)"
    if "sv_mode s \<noteq> ModeEnforce" for s
    using that
  proof (induction reqs arbitrary: s)
    case (Cons rq reqs)
    obtain req now where rq: "rq = (req, now)"
      by (cases rq)
    obtain s' evs resp where c: "Server_Check js s req now = Some (s', evs, resp)"
      using Check_answers [of js s req now] by auto
    have "sv_mode s' = sv_mode s"
      using arg_cong [OF Check_server [OF c], of sv_mode] by simp
    moreover have "\<not> is_denied resp"
      by (rule Server_Check_cases [of js req s now]) (use c Cons.prems in \<open>simp_all add: respond_denied\<close>)
    ultimately show ?case
      using Cons.IH [of s'] Cons.prems c rq by simp
  qed simp
  moreover have "sv_mode (NewServer cfg) \<noteq> ModeEnforce"
    using assms by (simp add: NewServer_def)
  ultimately show ?thesis
    by blast
qed

lemma only_enforce_denies_witness:
  "\<exists>resp. (\<exists>evs. check_run demo_js (NewServer (demo_config ''enforcing'')) [(demo_check [], demo_now)] = [(evs, resp)]) \<and>
     \<not> is_denied resp"
proof -
  have m: "cfg_Mode (demo_config ''enforcing'') \<noteq> ModeEnforce"
    by (simp add: demo_config_def ModeEnforce_def)
  note r = only_enforce_denies [OF m, of demo_js "[(demo_check [], demo_now)]"]
  then obtain evs resp where "check_run demo_js (NewServer (demo_config ''enforcing'')) [(demo_check [], demo_now)] = [(evs, resp)]"
    by (auto simp: length_Suc_conv)
  then show ?thesis
    using r by auto
qed



text \<open>
  A HOLD never shows as a counterfactual: with the rule engine, which refuses a held call
  until it is approved, the audit trail of a shadow deployment reports DENY for it, and no event
  ever carries the counterfactual HOLD.\<close>

theorem counterfactual_never_hold:
  assumes "sv_engine s = Evaluate e" and "Server_Check js s req now = Some (s', evs, resp)" and "ev \<in> set evs"
  shows "ev_Counterfactual ev \<noteq> ''HOLD''"
proof -
  have cf: "Counterfactual (refuse d r) \<noteq> ''HOLD''" "Counterfactual (Evaluate e q) \<noteq> ''HOLD''"
      "Counterfactual emptyDecision \<noteq> ''HOLD''" for d r q
    using rules.held_not_allowed [of e q] by (auto simp: Counterfactual_def emptyDecision_def)
  have trip: "ev_Counterfactual x = []" if "announceTrip s t c r = Some (s1, xs)" "x \<in> set xs" for t c r s1 xs x
    using that by (auto simp: announceTrip_def Let_def emit_def event_def split: if_splits option.splits prod.splits)
  have adm: "(dc_Decision (decideAdmitted s t c now) = Evaluate e (tr_Policy t) \<or>
      (\<exists>r. dc_Decision (decideAdmitted s t c now) = refuse (Evaluate e (tr_Policy t)) r)) \<and>
      (\<forall>x \<in> set (dc_Events (decideAdmitted s t c now)). ev_Counterfactual x = [])" for t c
    using assms(1)
    by (auto simp: decideAdmitted_def Let_def emit_def event_def split: if_splits option.splits prod.splits)
  show ?thesis
  proof (cases rule: Server_Check_cases [of js req s now])
    case (unread tr err)
    then show ?thesis
      using assms(2,3) cf by (auto simp: emit_def CounterfactualFor_def split: if_splits)
  next
    case (decided t dc)
    have "(\<forall>x \<in> set (dc_Events dc). ev_Counterfactual x = []) \<and> Counterfactual (dc_Decision dc) \<noteq> ''HOLD''"
      using decided(2)
    proof (cases rule: Server_decide_cases [where s = s and now = now])
      case (stopped t' r)
      then show ?thesis
        using decided(3) cf by simp
    next
      case (unadmitted t1 t2 t3 r s1 xs)
      then show ?thesis
        using decided(3) cf trip [OF unadmitted(6)] by simp
    next
      case (admitted t1 t2 t3)
      then have "dc = decideAdmitted s t3 (callFor s t3) now"
        using decided(3) by simp
      then show ?thesis
        using cf adm [of t3 "callFor s t3"] by metis
    qed
    then show ?thesis
      using assms(2,3) decided(4) by (auto simp: emit_def CounterfactualFor_def split: if_splits)
  qed
qed

lemma counterfactual_never_hold_witness:
  "\<exists>s' evs resp. Server_Check demo_js (NewServer (demo_config ModeObserve)) (demo_check []) demo_now = Some (s', evs, resp) \<and>
     evs \<noteq> [] \<and> ''HOLD'' \<notin> ev_Counterfactual ` set evs"
proof -
  let ?s = "NewServer (demo_config ModeObserve)"
  obtain s' evs resp where c: "Server_Check demo_js ?s (demo_check []) demo_now = Some (s', evs, resp)"
    using Check_answers by blast
  have e: "sv_engine ?s = Evaluate (NewRuleEngine (\<lambda>_. Inl []) [emptyRule\<lparr>r_Action := ActionAllow\<rparr>])"
      and "sv_audit ?s"
    by (simp_all add: NewServer_def demo_config_def)
  have "evs \<noteq> []"
    by (rule Server_Check_cases [of demo_js "demo_check []" ?s demo_now])
      (use c \<open>sv_audit ?s\<close> in \<open>simp_all add: emit_def\<close>)
  moreover have "''HOLD'' \<notin> ev_Counterfactual ` set evs"
    using counterfactual_never_hold [OF e c] by (metis imageE)
  ultimately show ?thesis
    using c by blast
qed

text \<open>
  Assurance MEDIUM is never claimed without a bound token: every audit event at that level
  comes from a check whose run token verified for the very principal the mesh attested, and
  names that token's run and subject and that principal.\<close>

theorem medium_assurance_is_bound:
  assumes "Server_Check js s req now = Some (s', evs, resp)" and "ev \<in> set evs" and "ev_Assurance ev = AssuranceMedium"
  shows "\<exists>t v i a run. Translate js req = (Some t, None) \<and> sv_runTokens s = Some v \<and> tr_Attestation t = Some a \<and>
    RunTokenVerifier_Verify v (MapHeaders_Get (tr_Headers t) RunTokenHeader) (at_Principal a) = Inr (i, run) \<and>
    run_Workload run = at_Principal a \<and> ev_RunID ev = run_ID run \<and> ev_Identity ev = id_Subject i \<and>
    ev_WorkloadPrincipal ev = at_Principal a"
proof (cases rule: Server_Check_cases [of js req s now])
  case (unread tr err)
  have "AssuranceNone \<noteq> AssuranceMedium" "AssuranceAttested \<noteq> AssuranceMedium"
    by (simp_all add: AssuranceNone_def AssuranceMedium_def AssuranceAttested_def)
  then show ?thesis
    using unread assms by (auto simp: emit_def translateEvent_def attestedEvent_def Let_def split: if_splits option.splits)
next
  case (decided t dc)
  define t' where "t' = dc_Translated dc"
  have b: "run_bound s t'"
    unfolding t'_def by (rule decide_run_bound [OF decided(2,3)])
  have k: "tr_Attestation t' = tr_Attestation t" "tr_Headers t' = tr_Headers t" "tr_RawPrincipal t' = tr_RawPrincipal t"
    unfolding t'_def using decide_keeps [OF decided(2,3)] by simp_all
  have ev: "ev \<in> set (dc_Events dc) \<or> ev = finalEvent (sv_mode s) dc"
    using assms(1,2) decided(4) by (auto simp: emit_def split: if_splits)
  have "\<exists>run i. q_Run (tr_Policy t') = Some run \<and> q_Identity (tr_Policy t') = Some i \<and> ev_RunID ev = run_ID run \<and>
      ev_Identity ev = id_Subject i \<and> ev_WorkloadPrincipal ev = tr_RawPrincipal t'"
    using ev decide_medium [OF decided(2,3) _ assms(3)] finalEvent_medium [of "sv_mode s" dc] assms(3)
    by (auto simp: t'_def)
  then obtain run i where r: "q_Run (tr_Policy t') = Some run" "q_Identity (tr_Policy t') = Some i"
      "ev_RunID ev = run_ID run" "ev_Identity ev = id_Subject i" "ev_WorkloadPrincipal ev = tr_RawPrincipal t'"
    by blast
  then obtain v a where v: "sv_runTokens s = Some v" "tr_Attestation t' = Some a"
      "RunTokenVerifier_Verify v (MapHeaders_Get (tr_Headers t') RunTokenHeader) (at_Principal a) = Inr (i, run)"
    using b by (auto simp: run_bound_def)
  then show ?thesis
    using decided(1) r k Verify_bound [OF v(3)] Translate_run [OF decided(1), of a] by auto
qed

lemma medium_assurance_is_bound_witness:
  "\<exists>s' evs resp ev run. Server_Check demo_js (NewServer (demo_config ModeEnforce)) (demo_check demo_peer) demo_now =
     Some (s', evs, resp) \<and> ev \<in> set evs \<and> ev_Assurance ev = AssuranceMedium \<and>
     ev_RunID ev = run_ID run \<and> run_Workload (run :: Run) = demo_peer"
proof -
  let ?s = "NewServer (demo_config ModeEnforce)"
  obtain i run where cr: "checkRun ?s demo_translated =
     Inr (demo_translated\<lparr>tr_Policy := (tr_Policy demo_translated)\<lparr>q_Identity := Some i, q_Run := Some run\<rparr>\<rparr>)"
    using demo_checkRun by blast
  let ?t = "demo_translated\<lparr>tr_Policy := (tr_Policy demo_translated)\<lparr>q_Identity := Some i, q_Run := Some run\<rparr>\<rparr>"
  define dc where "dc = decideAdmitted ?s ?t (callFor ?s ?t) demo_now"
  have "Server_decide ?s demo_translated demo_now = Some dc"
    using cr by (simp add: dc_def Server_decide_def verifyTarget_def nameOperation_def NewServer_def demo_config_def Gates_Admit_def)
  note c = Server_Check_decided [OF demo_translate this]
  define ev where "ev = finalEvent (sv_mode ?s) dc"
  have i: "ev \<in> set (dc_Events dc @ emit ?s ev)"
    by (simp add: emit_def NewServer_def demo_config_def)
  have m: "ev_Assurance ev = AssuranceMedium"
    by (simp add: ev_def dc_def finalEvent_def Let_def)
  obtain t a and run' :: Run where "Translate demo_js (demo_check demo_peer) = (Some t, None)" "tr_Attestation t = Some a"
      "run_Workload run' = at_Principal a" "ev_RunID ev = run_ID run'"
    using medium_assurance_is_bound [OF c [folded ev_def] i m] by blast
  then have "run_Workload run' = demo_peer" "ev_RunID ev = run_ID run'"
    by (auto simp: demo_translate demo_translated_def demo_attest)
  then show ?thesis
    using c [folded ev_def] i m by blast
qed

end
