(* ===== verification/Durations.thy ===== *)
theory Durations
  imports Prelude
begin

text \<open>
  \<open>time.ParseDuration\<close>, which the policy loader, the controller and the binaries call on
  configured text. A fraction is taken exactly, where Go multiplies in \<open>float64\<close>.
\<close>

definition is_digit :: "char \<Rightarrow> bool" where
  "is_digit c \<longleftrightarrow> (let n = of_char c :: nat in 48 \<le> n \<and> n \<le> 57)"

definition digit_val :: "char \<Rightarrow> nat" where
  "digit_val c = of_char c - 48"

fun leadingInt :: "nat \<Rightarrow> string \<Rightarrow> (nat \<times> string) option" where
  "leadingInt x [] = Some (x, [])"
| "leadingInt x (c # s) =
     (if \<not> is_digit c then Some (x, c # s)
      else if 2 ^ 63 div 10 < x then None
      else let y = x * 10 + digit_val c in if 2 ^ 63 < y then None else leadingInt y s)"

text \<open>The digits of the fraction, their scale, the rest; digits past the range are skipped.\<close>

fun leadingFraction :: "nat \<Rightarrow> nat \<Rightarrow> bool \<Rightarrow> string \<Rightarrow> nat \<times> nat \<times> string" where
  "leadingFraction x scale over [] = (x, scale, [])"
| "leadingFraction x scale over (c # s) =
     (if \<not> is_digit c then (x, scale, c # s)
      else if over \<or> (2 ^ 63 - 1) div 10 < x \<or> 2 ^ 63 < x * 10 + digit_val c then leadingFraction x scale True s
      else leadingFraction (x * 10 + digit_val c) (scale * 10) False s)"

definition unitMap :: "string \<rightharpoonup> nat" where
  "unitMap = map_of [(''ns'', 1), (''us'', 1000), ([CHR 0xC2, CHR 0xB5, CHR ''s''], 1000),
     ([CHR 0xCE, CHR 0xBC, CHR ''s''], 1000), (''ms'', 1000000), (''s'', 1000000000),
     (''m'', 60 * 1000000000), (''h'', 3600 * 1000000000)]"

definition dur_char :: "char \<Rightarrow> bool" where
  "dur_char c \<longleftrightarrow> c = CHR ''.'' \<or> is_digit c"

text \<open>One number with its unit, off the front of the text: its nanoseconds and the rest.\<close>

definition parseTerm :: "string \<Rightarrow> string \<Rightarrow> string + (nat \<times> string)" where
  "parseTerm orig s =
     (let invalid = ''time: invalid duration '' @ Quote orig in
      if s = [] \<or> \<not> dur_char (s ! 0) then Inl invalid
      else case leadingInt 0 s of
        None \<Rightarrow> Inl invalid
      | Some (v, s1) \<Rightarrow>
          let (f, scale, s2) = (if s1 \<noteq> [] \<and> s1 ! 0 = CHR ''.'' then leadingFraction 0 1 False (tl s1) else (0, 1, s1));
              pre = length s1 \<noteq> length s;
              post = s1 \<noteq> [] \<and> s1 ! 0 = CHR ''.'' \<and> length s2 \<noteq> length (tl s1);
              u = takeWhile (\<lambda>c. \<not> dur_char c) s2; rest = dropWhile (\<lambda>c. \<not> dur_char c) s2
          in if \<not> pre \<and> \<not> post then Inl invalid
             else if u = [] then Inl (''time: missing unit in duration '' @ Quote orig)
             else case unitMap u of
               None \<Rightarrow> Inl (''time: unknown unit '' @ Quote u @ '' in duration '' @ Quote orig)
             | Some unit \<Rightarrow>
                 if 2 ^ 63 div unit < v then Inl invalid
                 else let v = v * unit + f * unit div scale
                      in if 2 ^ 63 < v then Inl invalid else Inr (v, rest))"

lemma leadingInt_length: "leadingInt x s = Some (v, r) \<Longrightarrow> length r \<le> length s"
  by (induction x s rule: leadingInt.induct) (auto simp: Let_def split: if_splits)

lemma leadingFraction_length: "leadingFraction x sc ov s = (v, sc', r) \<Longrightarrow> length r \<le> length s"
  by (induction x sc ov s rule: leadingFraction.induct) (auto split: if_splits)

text \<open>A term always consumes something, so the loop over the terms ends.\<close>

lemma parseTerm_shorter:
  assumes "parseTerm orig s = Inr (v, rest)"
  shows "length rest < length s"
proof -
  from assms obtain x s1 f sc s2 where 1: "leadingInt 0 s = Some (x, s1)"
    and 2: "(if s1 \<noteq> [] \<and> s1 ! 0 = CHR ''.'' then leadingFraction 0 1 False (tl s1) else (0, 1, s1)) = (f, sc, s2)"
    and u: "takeWhile (\<lambda>c. \<not> dur_char c) s2 \<noteq> []" and r: "rest = dropWhile (\<lambda>c. \<not> dur_char c) s2"
    unfolding parseTerm_def Let_def by (force split: if_splits option.splits prod.splits)
  have "length rest < length s2"
    using u r by (cases s2) (auto simp: le_imp_less_Suc length_dropWhile_le)
  moreover have "length s2 \<le> length s1"
    using 2 leadingFraction_length [of 0 1 False "tl s1" f sc s2] by (auto split: if_splits)
  ultimately show ?thesis
    using leadingInt_length [OF 1] by simp
qed

function parseTerms :: "string \<Rightarrow> nat \<Rightarrow> string \<Rightarrow> string + nat" where
  "parseTerms orig d s =
     (if s = [] then Inr d
      else case parseTerm orig s of
        Inl err \<Rightarrow> Inl err
      | Inr (v, rest) \<Rightarrow>
          if 2 ^ 63 < d + v then Inl (''time: invalid duration '' @ Quote orig)
          else parseTerms orig (d + v) rest)"
  by pat_completeness auto

termination parseTerms
  by (relation "measure (\<lambda>(orig, d, s). length s)") (auto dest: parseTerm_shorter)

declare parseTerms.simps [simp del]

definition ParseDuration :: "string \<Rightarrow> string + duration" where
  "ParseDuration orig =
     (let signed = orig \<noteq> [] \<and> (orig ! 0 = CHR ''-'' \<or> orig ! 0 = CHR ''+'');
          neg = (orig \<noteq> [] \<and> orig ! 0 = CHR ''-'');
          s = (if signed then tl orig else orig)
      in if s = ''0'' then Inr 0
         else if s = [] then Inl (''time: invalid duration '' @ Quote orig)
         else case parseTerms orig 0 s of
           Inl err \<Rightarrow> Inl err
         | Inr d \<Rightarrow> if neg then Inr (- int d)
                    else if 2 ^ 63 - 1 < d then Inl (''time: invalid duration '' @ Quote orig)
                    else Inr (int d))"

text \<open>Every accepted duration fits in 64 bits.\<close>

lemma parseTerms_range: "d \<le> 2 ^ 63 \<Longrightarrow> parseTerms orig d s = Inr d' \<Longrightarrow> d' \<le> 2 ^ 63"
proof (induction orig d s rule: parseTerms.induct)
  case (1 orig d s)
  show ?case
    using 1 parseTerms.simps [of orig d s]
    by (cases "parseTerm orig s") (auto simp: not_less split: if_splits)
qed

lemma ParseDuration_range:
  assumes "ParseDuration s = Inr d"
  shows "- (2 ^ 63) \<le> d \<and> d < 2 ^ 63"
proof (cases "d = 0")
  case False
  then obtain orig t n where n: "parseTerms orig 0 t = Inr n" "d = - int n \<or> (d = int n \<and> n \<le> 2 ^ 63 - 1)"
    using assms unfolding ParseDuration_def Let_def
    by (auto split: if_splits sum.splits)
  have "n \<le> 2 ^ 63"
    by (rule parseTerms_range [OF _ n(1)]) simp
  then show ?thesis
    using n(2) by auto
qed simp

lemma ParseDuration_5m [simp]: "ParseDuration ''5m'' = Inr (5 * Minute)"
  by (simp add: ParseDuration_def parseTerms.simps parseTerm_def is_digit_def digit_val_def dur_char_def unitMap_def
      duration_defs Let_def)

text \<open>Digits are read back: a number of seconds within range is that duration.\<close>

lemma leadingInt_mono: "leadingInt x s = Some (v, r) \<Longrightarrow> x \<le> v"
  by (induction x s rule: leadingInt.induct) (auto simp: Let_def split: if_splits)

lemma digit_char_digit: "n < 10 \<Longrightarrow> is_digit (digit_char n) \<and> digit_val (digit_char n) = n"
proof -
  assume "n < 10"
  then have "n = 0 \<or> n = 1 \<or> n = 2 \<or> n = 3 \<or> n = 4 \<or> n = 5 \<or> n = 6 \<or> n = 7 \<or> n = 8 \<or> n = 9"
    by presburger
  then show ?thesis
    by (auto simp: digit_char_def is_digit_def digit_val_def)
qed

lemma leadingInt_digits:
  assumes "s = [] \<or> \<not> is_digit (s ! 0)"
  shows "n \<le> 2 ^ 63 \<Longrightarrow> leadingInt 0 (nat_digits n @ s) = Some (n, s)"
proof -
  have stop: "leadingInt x s = Some (x, s)" for x
    using assms by (cases s) auto
  have app: "leadingInt 0 (nat_digits n @ r) = leadingInt n r" if "n \<le> 2 ^ 63" for n r
    using that
  proof (induction n arbitrary: r rule: nat_digits.induct)
    case (1 n)
    show ?case
    proof (cases "n < 10")
      case True
      then show ?thesis
        using digit_char_digit [of n] by (subst nat_digits.simps) (simp add: Let_def)
    next
      case False
      have le: "n div 10 \<le> 2 ^ 63 div 10"
        using 1(2) by (rule div_le_mono)
      have "leadingInt 0 (nat_digits n @ r) = leadingInt (n div 10) (digit_char (n mod 10) # r)"
        using 1(1) [OF False, of "digit_char (n mod 10) # r"] 1(2) False by (subst nat_digits.simps) simp
      also have "\<dots> = leadingInt n r"
        using digit_char_digit [of "n mod 10"] le 1(2) by (simp add: Let_def not_less)
      finally show ?thesis .
    qed
  qed
  show "n \<le> 2 ^ 63 \<Longrightarrow> leadingInt 0 (nat_digits n @ s) = Some (n, s)"
    by (simp add: app stop)
qed

lemma ParseDuration_seconds:
  assumes "n \<le> 2 ^ 63 div 1000000000"
  shows "ParseDuration (nat_digits n @ ''s'') = Inr (int n * Second)"
proof -
  have hd: "\<exists>c r. nat_digits n = c # r \<and> is_digit c" for n
  proof (induction n rule: nat_digits.induct)
    case (1 n)
    show ?case
      using 1 digit_char_digit [of n] by (cases "n < 10") (auto simp: nat_digits.simps [of n])
  qed
  obtain c r where c: "nat_digits n = c # r" "is_digit c"
    using hd by blast
  have sign: "c \<noteq> CHR ''-''" "c \<noteq> CHR ''+''"
    using c(2) by (auto simp: is_digit_def)
  have le: "n \<le> 2 ^ 63" and lt: "n * 1000000000 \<le> 2 ^ 63 - 1"
    using assms by simp_all
  have "parseTerm orig (nat_digits n @ ''s'') = Inr (n * 1000000000, [])" for orig
    using leadingInt_digits [of "''s''" n] le lt c assms
    by (simp add: parseTerm_def Let_def dur_char_def unitMap_def is_digit_def not_less)
  then have "parseTerms orig 0 (nat_digits n @ ''s'') = Inr (n * 1000000000)" for orig
    using lt by (simp add: parseTerms.simps [of orig 0] parseTerms.simps [of orig _ "[]"])
  then show ?thesis
    using c sign lt by (simp add: ParseDuration_def Let_def Second_def)
qed

section \<open>Printing\<close>

text \<open>
  \<open>Duration.String\<close>: hours, minutes and seconds with as many digits of the fraction as it needs, or
  one smaller unit. \<open>fmtFrac\<close> drops the trailing zeros of the fraction and the point with them.
\<close>

fun fmtFrac :: "nat \<Rightarrow> nat \<Rightarrow> bool \<Rightarrow> string \<Rightarrow> nat \<times> string" where
  "fmtFrac 0 v shown acc = (v, if shown then CHR ''.'' # acc else acc)"
| "fmtFrac (Suc prec) v shown acc =
     (let digit = v mod 10; shown = (shown \<or> digit \<noteq> 0)
      in fmtFrac prec (v div 10) shown (if shown then digit_char digit # acc else acc))"

definition withFrac :: "nat \<Rightarrow> nat \<Rightarrow> (nat \<Rightarrow> string) \<Rightarrow> string" where
  "withFrac prec u whole = (case fmtFrac prec u False [] of (v, frac) \<Rightarrow> whole v @ frac)"

definition clockText :: "nat \<Rightarrow> string" where
  "clockText s =
     (let m = s div 60; h = m div 60
      in (if 0 < h then nat_digits h @ ''h'' else []) @ (if 0 < m then nat_digits (m mod 60) @ ''m'' else []) @ nat_digits (s mod 60))"

definition Duration_String :: "duration \<Rightarrow> string" where
  "Duration_String d =
     (let u = nat \<bar>d\<bar>
      in (if d < 0 then ''-'' else []) @
         (if u = 0 then ''0s''
          else if u < 1000 then nat_digits u @ ''ns''
          else if u < 1000000 then withFrac 3 u nat_digits @ [CHR 0xC2, CHR 0xB5, CHR ''s'']
          else if u < 1000000000 then withFrac 6 u nat_digits @ ''ms''
          else withFrac 9 u clockText @ ''s''))"

text \<open>\<open>Duration.Round\<close>: half away from zero, at the ends of the range the ends.\<close>

definition Duration_Round :: "duration \<Rightarrow> duration \<Rightarrow> duration" where
  "Duration_Round d m =
     (if m \<le> 0 then d
      else let r = \<bar>d\<bar> mod m
           in if d < 0 then (if 2 * r < m then d + r else max (- (2 ^ 63)) (d - m + r))
              else (if 2 * r < m then d - r else min (2 ^ 63 - 1) (d + m - r)))"

lemma fmtFrac_zeros [simp]: "fmtFrac prec (n * 10 ^ prec) False [] = (n, [])"
  by (induction prec arbitrary: n) (simp_all add: mult.assoc [symmetric] mult.commute [of 10] Let_def)

text \<open>A number of seconds under a minute is printed so that it is read back.\<close>

lemma Duration_String_seconds:
  assumes "0 < n" and "n < 60"
  shows "ParseDuration (Duration_String (int n * Second)) = Inr (int n * Second)"
proof -
  have "Duration_String (int n * Second) = nat_digits n @ ''s''"
    using assms fmtFrac_zeros [of 9 n] by (simp add: Duration_String_def withFrac_def clockText_def Second_def nat_mult_distrib Let_def)
  with ParseDuration_seconds [of n] assms show ?thesis by simp
qed

end
