(* ===== verification/Configuration.thy ===== *)
theory Configuration
  imports Extauthz Durations
begin

text \<open>
  Package \<open>config\<close> (\<open>internal/config/config.go\<close>), which both services read their settings with, and
  package \<open>healthprobe\<close> (\<open>internal/healthprobe/probe.go\<close>). The environment is a function from names
  to values, empty where a variable is not set.
\<close>

section \<open>Settings\<close>

record AppConfig =
  cf_ListenAddr :: string
  cf_UpstreamAddr :: string
  cf_AdminAddr :: string
  cf_PolicyPath :: string
  cf_ToolRegistryPath :: string
  cf_AuditEndpoint :: string
  cf_AuditLogLevel :: string
  cf_IdentityTokenHeader :: string
  cf_IdentityJWKSURL :: string
  cf_IdentityJWKSIssuer :: string
  cf_IdentityJWKSAudiences :: "string list"
  cf_IdentityTrustHeader :: bool
  cf_CircuitMaxCalls :: int
  cf_CircuitMaxDuration :: duration
  cf_VaultAddr :: string
  cf_VaultRole :: string
  cf_VaultAuthMethod :: string
  cf_CredentialCacheTTL :: duration
  cf_TLSCertFile :: string
  cf_TLSKeyFile :: string
  cf_RoutesPath :: string
  cf_ControllerAddr :: string
  cf_ExtAuthzListenAddr :: string
  cf_ExtAuthzMode :: string

type_synonym environ = "string \<Rightarrow> string"

definition envOr :: "environ \<Rightarrow> string \<Rightarrow> string \<Rightarrow> string" where
  "envOr getenv key fallback = (if getenv key \<noteq> [] then getenv key else fallback)"

text \<open>The settings that are plain text, with the zero value for the others.\<close>

definition envConfig :: "environ \<Rightarrow> AppConfig" where
  "envConfig getenv = \<lparr>
     cf_ListenAddr = envOr getenv ''NULLFIELD_LISTEN_ADDR'' '':9090'',
     cf_UpstreamAddr = envOr getenv ''NULLFIELD_UPSTREAM_ADDR'' ''localhost:8080'',
     cf_AdminAddr = envOr getenv ''NULLFIELD_ADMIN_ADDR'' '':9091'',
     cf_PolicyPath = envOr getenv ''NULLFIELD_POLICY_PATH'' ''/etc/nullfield/policy.yaml'',
     cf_ToolRegistryPath = envOr getenv ''NULLFIELD_REGISTRY_PATH'' ''/etc/nullfield/tools.yaml'',
     cf_AuditEndpoint = envOr getenv ''NULLFIELD_AUDIT_ENDPOINT'' [],
     cf_AuditLogLevel = envOr getenv ''NULLFIELD_AUDIT_LOG_LEVEL'' ''FULL'',
     cf_IdentityTokenHeader = envOr getenv ''NULLFIELD_IDENTITY_HEADER'' ''Authorization'',
     cf_IdentityJWKSURL = envOr getenv ''NULLFIELD_JWKS_URL'' [],
     cf_IdentityJWKSIssuer = envOr getenv ''NULLFIELD_JWKS_ISSUER'' [],
     cf_IdentityJWKSAudiences = [],
     cf_IdentityTrustHeader = (envOr getenv ''NULLFIELD_TRUST_HEADER_IDENTITY'' [] = ''true''),
     cf_CircuitMaxCalls = 0,
     cf_CircuitMaxDuration = 0,
     cf_VaultAddr = envOr getenv ''NULLFIELD_VAULT_ADDR'' [],
     cf_VaultRole = envOr getenv ''NULLFIELD_VAULT_ROLE'' [],
     cf_VaultAuthMethod = envOr getenv ''NULLFIELD_VAULT_AUTH_METHOD'' [],
     cf_CredentialCacheTTL = 0,
     cf_TLSCertFile = envOr getenv ''NULLFIELD_TLS_CERT'' [],
     cf_TLSKeyFile = envOr getenv ''NULLFIELD_TLS_KEY'' [],
     cf_RoutesPath = envOr getenv ''NULLFIELD_ROUTES_PATH'' [],
     cf_ControllerAddr = envOr getenv ''NULLFIELD_CONTROLLER_ADDR'' [],
     cf_ExtAuthzListenAddr = envOr getenv ''NULLFIELD_EXTAUTHZ_LISTEN_ADDR'' '':9191'',
     cf_ExtAuthzMode = envOr getenv ''NULLFIELD_EXTAUTHZ_MODE'' ''observe''\<rparr>"

definition splitAudiences :: "string \<Rightarrow> string list" where
  "splitAudiences aud = (if aud = [] then [] else filter (\<lambda>a. a \<noteq> []) (map TrimSpace (Split (CHR '','') aud)))"

datatype config_error = BadMaxCalls | BadMaxDuration string | BadCacheTTL string | NoUpstream

definition Config_Load :: "environ \<Rightarrow> config_error + AppConfig" where
  "Config_Load getenv =
     (case Atoi (envOr getenv ''NULLFIELD_CIRCUIT_MAX_CALLS'' ''100'') of
        None \<Rightarrow> Inl BadMaxCalls
      | Some maxCalls \<Rightarrow>
          (case ParseDuration (envOr getenv ''NULLFIELD_CIRCUIT_MAX_DURATION'' ''5m'') of
             Inl err \<Rightarrow> Inl (BadMaxDuration err)
           | Inr maxDur \<Rightarrow>
               (case ParseDuration (envOr getenv ''NULLFIELD_CREDENTIAL_CACHE_TTL'' ''5m'') of
                  Inl err \<Rightarrow> Inl (BadCacheTTL err)
                | Inr credTTL \<Rightarrow>
                    let c = (envConfig getenv)\<lparr>cf_CircuitMaxCalls := maxCalls, cf_CircuitMaxDuration := maxDur,
                          cf_CredentialCacheTTL := credTTL,
                          cf_IdentityJWKSAudiences := splitAudiences (envOr getenv ''NULLFIELD_JWKS_AUDIENCE'' [])\<rparr>
                    in if cf_UpstreamAddr c = [] \<and> cf_RoutesPath c = [] then Inl NoUpstream else Inr c)))"

lemma envOr_nonempty: "fallback \<noteq> [] \<Longrightarrow> envOr getenv key fallback \<noteq> []"
  by (simp add: envOr_def)

text \<open>The requirement of an upstream or a routes file cannot fail: the upstream has a default.\<close>

lemma Load_upstream_never_missing: "Config_Load getenv \<noteq> Inl NoUpstream"
  by (auto simp: Config_Load_def envConfig_def envOr_nonempty Let_def split: option.splits sum.splits)

lemma splitAudiences_nonempty: "[] \<notin> set (splitAudiences aud)"
  by (simp add: splitAudiences_def)

lemma Load_settings:
  assumes "Config_Load getenv = Inr c"
  shows "cf_ListenAddr c = envOr getenv ''NULLFIELD_LISTEN_ADDR'' '':9090''"
    and "cf_AdminAddr c = envOr getenv ''NULLFIELD_ADMIN_ADDR'' '':9091''"
    and "cf_UpstreamAddr c = envOr getenv ''NULLFIELD_UPSTREAM_ADDR'' ''localhost:8080''"
    and "cf_PolicyPath c = envOr getenv ''NULLFIELD_POLICY_PATH'' ''/etc/nullfield/policy.yaml''"
    and "cf_ToolRegistryPath c = envOr getenv ''NULLFIELD_REGISTRY_PATH'' ''/etc/nullfield/tools.yaml''"
    and "cf_RoutesPath c = envOr getenv ''NULLFIELD_ROUTES_PATH'' []"
    and "cf_ControllerAddr c = envOr getenv ''NULLFIELD_CONTROLLER_ADDR'' []"
    and "cf_VaultAddr c = envOr getenv ''NULLFIELD_VAULT_ADDR'' []"
    and "cf_ExtAuthzMode c = envOr getenv ''NULLFIELD_EXTAUTHZ_MODE'' ''observe''"
  using assms by (auto simp: Config_Load_def envConfig_def Let_def split: option.splits sum.splits if_splits)

lemma Load_defaults: "getenv = (\<lambda>_. []) \<Longrightarrow> \<exists>c. Config_Load getenv = Inr c \<and> cf_CircuitMaxCalls c = 100 \<and>
    cf_CircuitMaxDuration c = 5 * Minute \<and> cf_CredentialCacheTTL c = 5 * Minute"
  by (simp add: Config_Load_def envConfig_def envOr_def Atoi_def digit_value_def splitAudiences_def Let_def)

section \<open>The health probe\<close>

definition probe_Requested :: "string list \<Rightarrow> bool" where
  "probe_Requested args \<longleftrightarrow> (\<exists>a \<in> set args. a = ''-healthcheck'' \<or> a = ''--healthcheck'')"

definition URLFor :: "string \<Rightarrow> string \<Rightarrow> string" where
  "URLFor addr fallbackPort =
     (let port = (case last_index (CHR '':'') addr of
          Some i \<Rightarrow> if i + 1 < length addr then drop (i + 1) addr else fallbackPort
        | None \<Rightarrow> fallbackPort)
      in ''http://127.0.0.1:'' @ port @ ''/healthz'')"

text \<open>\<open>Run\<close>: the exit status; \<open>get\<close> is the request, with the status code of its answer.\<close>

definition probe_Run :: "(string \<Rightarrow> string + nat) \<Rightarrow> string \<Rightarrow> string \<Rightarrow> nat" where
  "probe_Run get addr fallbackPort =
     (case get (URLFor addr fallbackPort) of
        Inl err \<Rightarrow> 1
      | Inr status \<Rightarrow> if status < 200 \<or> 299 < status then 1 else 0)"

lemma last_index_absent: "c \<notin> set s \<Longrightarrow> last_index c s = None"
  by (induction s) auto

lemma last_index_append: "c \<notin> set t \<Longrightarrow> last_index c (s @ c # t) = Some (length s)"
  by (induction s) (auto simp: last_index_absent)

lemma URLFor_port:
  assumes "CHR '':'' \<notin> set port" and "port \<noteq> []"
  shows "URLFor (host @ '':'' @ port) fallback = ''http://127.0.0.1:'' @ port @ ''/healthz''"
  using assms last_index_append [OF assms(1), of host] by (simp add: URLFor_def)

end
