(* ===== verification/Injector.thy ===== *)
theory Injector
  imports Configuration
begin

text \<open>
  Package \<open>injector\<close> (\<open>config.go\<close>, \<open>types.go\<close>, \<open>webhook.go\<close>): the admission webhook that adds the
  sidecar to annotated pods. JSON coding is a parameter; a pod is what the code decodes of it.
\<close>

section \<open>Configuration and documents\<close>

record ResourceSpec =
  rs_CPU :: string
  rs_Memory :: string

record SidecarConfig =
  sc_Image :: string
  sc_ImagePullPolicy :: string
  sc_ListenPort :: int
  sc_AdminPort :: int
  sc_DefaultUpstreamPort :: int
  sc_DefaultPolicyConfigMap :: string
  sc_DefaultRegistryConfigMap :: string
  sc_ResourceRequests :: ResourceSpec
  sc_ResourceLimits :: ResourceSpec

definition DefaultSidecarConfig :: "environ \<Rightarrow> SidecarConfig" where
  "DefaultSidecarConfig getenv = \<lparr>
     sc_Image = envOr getenv ''NULLFIELD_INJECTOR_IMAGE'' ''ghcr.io/babywyrm/nullfield:latest'',
     sc_ImagePullPolicy = envOr getenv ''NULLFIELD_INJECTOR_PULL_POLICY'' ''IfNotPresent'',
     sc_ListenPort = 9090, sc_AdminPort = 9091, sc_DefaultUpstreamPort = 0,
     sc_DefaultPolicyConfigMap = envOr getenv ''NULLFIELD_INJECTOR_DEFAULT_POLICY_CM'' [],
     sc_DefaultRegistryConfigMap = envOr getenv ''NULLFIELD_INJECTOR_DEFAULT_REGISTRY_CM'' [],
     sc_ResourceRequests = \<lparr>rs_CPU = ''50m'', rs_Memory = ''64Mi''\<rparr>,
     sc_ResourceLimits = \<lparr>rs_CPU = ''200m'', rs_Memory = ''128Mi''\<rparr>\<rparr>"

record ContainerPort =
  cp_Name :: string
  cp_ContainerPort :: int
  cp_Protocol :: string

record Container =
  ct_Name :: string
  ct_Image :: string
  ct_Ports :: "ContainerPort list"

record PodMeta =
  pm_Name :: string
  pm_Namespace :: string
  pm_Annotations :: "labels option"
  pm_Labels :: labels

record PodSpecInner =
  pi_Containers :: "Container list"
  pi_Volumes :: "string list"

record PodSpec =
  pod_Metadata :: PodMeta
  pod_Spec :: PodSpecInner

record AdmissionRequest =
  ar_UID :: string
  ar_Namespace :: string
  ar_Object :: string

record AdmissionResponse =
  as_UID :: string
  as_Allowed :: bool
  as_PatchType :: "string option"
  as_Patch :: "string option"

record AdmissionReview =
  rv_APIVersion :: string
  rv_Kind :: string
  rv_Request :: "AdmissionRequest option"
  rv_Response :: "AdmissionResponse option"

record PatchOp =
  po_Op :: string
  po_Path :: string
  po_Value :: goval

definition AnnotationInject :: string where "AnnotationInject = ''nullfield.io/inject''"
definition AnnotationPolicy :: string where "AnnotationPolicy = ''nullfield.io/policy''"
definition AnnotationRegistry :: string where "AnnotationRegistry = ''nullfield.io/registry''"
definition AnnotationPort :: string where "AnnotationPort = ''nullfield.io/upstream-port''"
definition AnnotationStatus :: string where "AnnotationStatus = ''nullfield.io/status''"

lemmas annotation_defs = AnnotationInject_def AnnotationPolicy_def AnnotationRegistry_def AnnotationPort_def AnnotationStatus_def

section \<open>The patch\<close>

definition envVar :: "string \<Rightarrow> string \<Rightarrow> goval" where
  "envVar name val = VMap [(''name'', VStr name), (''value'', VStr val)]"

definition sidecarEnv :: "SidecarConfig \<Rightarrow> int \<Rightarrow> (string \<times> string) list" where
  "sidecarEnv cfg upstreamPort =
     [(''NULLFIELD_LISTEN_ADDR'', '':'' @ itoa (sc_ListenPort cfg)), (''NULLFIELD_ADMIN_ADDR'', '':'' @ itoa (sc_AdminPort cfg)),
      (''NULLFIELD_UPSTREAM_ADDR'', ''localhost:'' @ itoa upstreamPort),
      (''NULLFIELD_POLICY_PATH'', ''/etc/nullfield/policy.yaml''), (''NULLFIELD_REGISTRY_PATH'', ''/etc/nullfield/tools.yaml'')]"

definition probe :: "string \<Rightarrow> int \<Rightarrow> int \<Rightarrow> int \<Rightarrow> goval" where
  "probe path port initial period =
     VMap [(''httpGet'', VMap [(''path'', VStr path), (''port'', VInt port)]), (''initialDelaySeconds'', VInt initial),
       (''periodSeconds'', VInt period)]"

definition namedPort :: "string \<Rightarrow> int \<Rightarrow> goval" where
  "namedPort name port = VMap [(''name'', VStr name), (''containerPort'', VInt port), (''protocol'', VStr ''TCP'')]"

definition resources :: "ResourceSpec \<Rightarrow> goval" where
  "resources r = VMap [(''cpu'', VStr (rs_CPU r)), (''memory'', VStr (rs_Memory r))]"

definition sidecar :: "SidecarConfig \<Rightarrow> int \<Rightarrow> gomap" where
  "sidecar cfg upstreamPort =
     [(''name'', VStr ''nullfield''), (''image'', VStr (sc_Image cfg)), (''imagePullPolicy'', VStr (sc_ImagePullPolicy cfg)),
      (''ports'', VArr [namedPort ''proxy'' (sc_ListenPort cfg), namedPort ''admin'' (sc_AdminPort cfg)]),
      (''env'', VArr (map (\<lambda>(k, v). envVar k v) (sidecarEnv cfg upstreamPort))),
      (''volumeMounts'', VArr [VMap [(''name'', VStr ''nullfield-config''), (''mountPath'', VStr ''/etc/nullfield''), (''readOnly'', VBool True)]]),
      (''livenessProbe'', probe ''/healthz'' (sc_AdminPort cfg) 3 10),
      (''readinessProbe'', probe ''/readyz'' (sc_AdminPort cfg) 2 5),
      (''resources'', VMap [(''requests'', resources (sc_ResourceRequests cfg)), (''limits'', resources (sc_ResourceLimits cfg))]),
      (''securityContext'', VMap [(''runAsNonRoot'', VBool True), (''runAsUser'', VInt 65534), (''readOnlyRootFilesystem'', VBool True),
         (''allowPrivilegeEscalation'', VBool False), (''capabilities'', VMap [(''drop'', VStrs [''ALL''])])])]"

definition configSource :: "string \<Rightarrow> string \<Rightarrow> goval" where
  "configSource cm key =
     VMap [(''configMap'', VMap [(''name'', VStr cm), (''items'', VArr [VMap [(''key'', VStr key), (''path'', VStr key)]])])]"

definition configSources :: "string \<Rightarrow> string \<Rightarrow> goval list" where
  "configSources policyCM registryCM =
     (if policyCM \<noteq> [] then [configSource policyCM ''policy.yaml''] else []) @
     (if registryCM \<noteq> [] then [configSource registryCM ''tools.yaml''] else [])"

definition configVolume :: "string \<Rightarrow> string \<Rightarrow> gomap" where
  "configVolume policyCM registryCM =
     [(''name'', VStr ''nullfield-config''), (''projected'', VMap [(''sources'', VArr (configSources policyCM registryCM))])]"

definition buildPatch :: "SidecarConfig \<Rightarrow> int \<Rightarrow> string \<Rightarrow> string \<Rightarrow> PatchOp list" where
  "buildPatch cfg upstreamPort policyCM registryCM =
     [\<lparr>po_Op = ''add'', po_Path = ''/spec/containers/-'', po_Value = VMap (sidecar cfg upstreamPort)\<rparr>,
      \<lparr>po_Op = ''add'', po_Path = ''/spec/volumes/-'', po_Value = VMap (configVolume policyCM registryCM)\<rparr>,
      \<lparr>po_Op = ''add'', po_Path = ''/metadata/annotations/nullfield.io~1status'', po_Value = VStr ''injected''\<rparr>]"

section \<open>The webhook\<close>

record inject_env =
  ie_UnmarshalPod :: "string \<Rightarrow> string + PodSpec"
  ie_UnmarshalReview :: "string \<Rightarrow> string + AdmissionReview"
  ie_MarshalPatch :: "PatchOp list \<Rightarrow> string + string"

definition choosePort :: "SidecarConfig \<Rightarrow> labels \<Rightarrow> Container list \<Rightarrow> int" where
  "choosePort cfg ann containers =
     (let p = (case map_of ann AnnotationPort of
          Some s \<Rightarrow> (case Atoi s of Some n \<Rightarrow> n | None \<Rightarrow> sc_DefaultUpstreamPort cfg)
        | None \<Rightarrow> sc_DefaultUpstreamPort cfg);
          p = (if p = 0 then (case containers of c # _ \<Rightarrow> (case ct_Ports c of q # _ \<Rightarrow> cp_ContainerPort q | [] \<Rightarrow> p) | [] \<Rightarrow> p) else p)
      in if p = 0 then 8080 else p)"

definition chooseConfigMap :: "labels \<Rightarrow> string \<Rightarrow> string \<Rightarrow> string" where
  "chooseConfigMap ann key fallback = (case map_of ann key of Some cm \<Rightarrow> cm | None \<Rightarrow> fallback)"

definition mutate :: "inject_env \<Rightarrow> SidecarConfig \<Rightarrow> AdmissionReview \<Rightarrow> AdmissionResponse" where
  "mutate env cfg review =
     (case rv_Request review of
        None \<Rightarrow> \<lparr>as_UID = [], as_Allowed = True, as_PatchType = None, as_Patch = None\<rparr>
      | Some req \<Rightarrow>
          let resp = \<lparr>as_UID = ar_UID req, as_Allowed = True, as_PatchType = None, as_Patch = None\<rparr>
          in (case ie_UnmarshalPod env (ar_Object req) of
                Inl err \<Rightarrow> resp
              | Inr pod \<Rightarrow>
                  (case pm_Annotations (pod_Metadata pod) of
                     None \<Rightarrow> resp
                   | Some ann \<Rightarrow>
                       if map_of ann AnnotationInject \<noteq> Some ''true'' then resp
                       else if map_of ann AnnotationStatus = Some ''injected'' then resp
                       else if \<exists>c \<in> set (pi_Containers (pod_Spec pod)). ct_Name c = ''nullfield'' then resp
                       else
                         let upstreamPort = choosePort cfg ann (pi_Containers (pod_Spec pod));
                             policyCM = chooseConfigMap ann AnnotationPolicy (sc_DefaultPolicyConfigMap cfg);
                             registryCM = chooseConfigMap ann AnnotationRegistry (sc_DefaultRegistryConfigMap cfg)
                         in (case ie_MarshalPatch env (buildPatch cfg upstreamPort policyCM registryCM) of
                               Inl err \<Rightarrow> resp
                             | Inr patch \<Rightarrow> resp\<lparr>as_PatchType := Some ''JSONPatch'', as_Patch := Some patch\<rparr>))))"

text \<open>\<open>ServeHTTP\<close>: an error status with its message, or the review sent back. \<open>read\<close> is the body.\<close>

definition injector_ServeHTTP :: "inject_env \<Rightarrow> SidecarConfig \<Rightarrow> string + string \<Rightarrow> (nat \<times> string) + AdmissionReview" where
  "injector_ServeHTTP env cfg read =
     (case read of
        Inl err \<Rightarrow> Inl (400, ''read body failed'')
      | Inr raw \<Rightarrow>
          (case ie_UnmarshalReview env (take (2 ^ 20) raw) of
             Inl err \<Rightarrow> Inl (400, ''unmarshal failed: '' @ err)
           | Inr review \<Rightarrow>
               Inr \<lparr>rv_APIVersion = ''admission.k8s.io/v1'', rv_Kind = ''AdmissionReview'', rv_Request = None,
                    rv_Response = Some (mutate env cfg review)\<rparr>))"

text \<open>
  The process (\<open>cmd/nullfield-injector/main.go\<close>): where it listens and with which certificate and key, if
  both are set; and its routes.
\<close>

record injector_server =
  is_Addr :: string
  is_TLS :: "(string \<times> string) option"
  is_Config :: SidecarConfig

definition injectorMain :: "environ \<Rightarrow> injector_server" where
  "injectorMain getenv =
     (let certFile = getenv ''NULLFIELD_INJECTOR_TLS_CERT''; keyFile = getenv ''NULLFIELD_INJECTOR_TLS_KEY'' in
      \<lparr>is_Addr = envOr getenv ''NULLFIELD_INJECTOR_ADDR'' '':8443'',
       is_TLS = (if certFile \<noteq> [] \<and> keyFile \<noteq> [] then Some (certFile, keyFile) else None),
       is_Config = DefaultSidecarConfig getenv\<rparr>)"

datatype injector_reply = IText string nat | IReview "(nat \<times> string) + AdmissionReview"

definition injectorMux :: "inject_env \<Rightarrow> injector_server \<Rightarrow> string \<Rightarrow> string + string \<Rightarrow> injector_reply" where
  "injectorMux env srv path read =
     (if path = ''/mutate'' then IReview (injector_ServeHTTP env (is_Config srv) read)
      else if path = ''/healthz'' then IText ''ok'' 200
      else IText ''404 page not found'' 404)"

section \<open>Properties\<close>

text \<open>What the patch is for, in words of the pod: annotated, and not yet carrying a sidecar.\<close>

definition wants_sidecar :: "PodSpec \<Rightarrow> bool" where
  "wants_sidecar pod \<longleftrightarrow> (\<exists>ann. pm_Annotations (pod_Metadata pod) = Some ann \<and> map_of ann AnnotationInject = Some ''true'' \<and>
     map_of ann AnnotationStatus \<noteq> Some ''injected'' \<and> (\<forall>c \<in> set (pi_Containers (pod_Spec pod)). ct_Name c \<noteq> ''nullfield''))"

lemma mutate_Some: "rv_Request review = Some req \<Longrightarrow> ie_UnmarshalPod env (ar_Object req) = Inr pod \<Longrightarrow>
    as_Patch (mutate env cfg review) =
      (if wants_sidecar pod
       then case ie_MarshalPatch env (buildPatch cfg (choosePort cfg (the (pm_Annotations (pod_Metadata pod))) (pi_Containers (pod_Spec pod)))
              (chooseConfigMap (the (pm_Annotations (pod_Metadata pod))) AnnotationPolicy (sc_DefaultPolicyConfigMap cfg))
              (chooseConfigMap (the (pm_Annotations (pod_Metadata pod))) AnnotationRegistry (sc_DefaultRegistryConfigMap cfg))) of
            Inl _ \<Rightarrow> None | Inr patch \<Rightarrow> Some patch
       else None)"
  by (auto simp: mutate_def wants_sidecar_def Let_def split: option.splits sum.splits)

text \<open>
  C37. The webhook never blocks a pod, and injects exactly where it is asked to: every review that
  decodes is answered as allowed, under the UID of its request; and a patch is sent iff the pod
  decodes, asks for a sidecar, carries none yet, and the patch encodes. The patch is then the one
  built for the port and the config maps the pod names.\<close>

theorem injection_iff:
  assumes "ie_UnmarshalReview env (take (2 ^ 20) raw) = Inr review"
  shows "\<exists>resp. injector_ServeHTTP env cfg (Inr raw) =
       Inr \<lparr>rv_APIVersion = ''admission.k8s.io/v1'', rv_Kind = ''AdmissionReview'', rv_Request = None, rv_Response = Some resp\<rparr> \<and>
     as_Allowed resp \<and> as_UID resp = (case rv_Request review of None \<Rightarrow> [] | Some req \<Rightarrow> ar_UID req) \<and>
     (as_Patch resp = Some patch \<longleftrightarrow>
        (\<exists>req pod ann. rv_Request review = Some req \<and> ie_UnmarshalPod env (ar_Object req) = Inr pod \<and> wants_sidecar pod \<and>
           pm_Annotations (pod_Metadata pod) = Some ann \<and>
           ie_MarshalPatch env (buildPatch cfg (choosePort cfg ann (pi_Containers (pod_Spec pod)))
             (chooseConfigMap ann AnnotationPolicy (sc_DefaultPolicyConfigMap cfg))
             (chooseConfigMap ann AnnotationRegistry (sc_DefaultRegistryConfigMap cfg))) = Inr patch))"
proof -
  have "as_Allowed (mutate env cfg review) \<and> as_UID (mutate env cfg review) = (case rv_Request review of None \<Rightarrow> [] | Some req \<Rightarrow> ar_UID req)"
    by (auto simp: mutate_def Let_def split: option.splits sum.splits)
  moreover have "as_Patch (mutate env cfg review) = Some patch \<longleftrightarrow>
        (\<exists>req pod ann. rv_Request review = Some req \<and> ie_UnmarshalPod env (ar_Object req) = Inr pod \<and> wants_sidecar pod \<and>
           pm_Annotations (pod_Metadata pod) = Some ann \<and>
           ie_MarshalPatch env (buildPatch cfg (choosePort cfg ann (pi_Containers (pod_Spec pod)))
             (chooseConfigMap ann AnnotationPolicy (sc_DefaultPolicyConfigMap cfg))
             (chooseConfigMap ann AnnotationRegistry (sc_DefaultRegistryConfigMap cfg))) = Inr patch)"
  proof (cases "\<exists>req pod. rv_Request review = Some req \<and> ie_UnmarshalPod env (ar_Object req) = Inr pod")
    case True
    then obtain req pod where r: "rv_Request review = Some req" "ie_UnmarshalPod env (ar_Object req) = Inr pod" by blast
    show ?thesis
      using mutate_Some [OF r, of cfg] r by (auto simp: wants_sidecar_def split: if_splits sum.splits)
  next
    case False
    then have "as_Patch (mutate env cfg review) = None"
      by (auto simp: mutate_def Let_def split: option.splits sum.splits)
    with False show ?thesis by auto
  qed
  ultimately show ?thesis
    using assms by (simp add: injector_ServeHTTP_def)
qed

text \<open>A pod that asks for a sidecar, and an API server that sets the annotation of a patch.\<close>

definition demo_pod :: PodSpec where
  "demo_pod = \<lparr>pod_Metadata = \<lparr>pm_Name = ''p'', pm_Namespace = ''ns'', pm_Annotations = Some [(AnnotationInject, ''true'')], pm_Labels = []\<rparr>,
     pod_Spec = \<lparr>pi_Containers = [\<lparr>ct_Name = ''app'', ct_Image = ''i'', ct_Ports = []\<rparr>], pi_Volumes = []\<rparr>\<rparr>"

definition demo_review :: AdmissionReview where
  "demo_review = \<lparr>rv_APIVersion = [], rv_Kind = [], rv_Request = Some \<lparr>ar_UID = ''u'', ar_Namespace = ''ns'', ar_Object = ''P''\<rparr>,
     rv_Response = None\<rparr>"

definition demo_inject :: "PodSpec \<Rightarrow> inject_env" where
  "demo_inject pod = \<lparr>ie_UnmarshalPod = (\<lambda>_. Inr pod), ie_UnmarshalReview = (\<lambda>_. Inr demo_review), ie_MarshalPatch = (\<lambda>_. Inr ''patch'')\<rparr>"

definition demo_apply :: "PatchOp list \<Rightarrow> PodSpec \<Rightarrow> PodSpec option" where
  "demo_apply patch pod =
     (case map po_Value (filter (\<lambda>p. po_Path p = ''/metadata/annotations/nullfield.io~1status'') patch) of
        [VStr v] \<Rightarrow> Some (pod\<lparr>pod_Metadata := (pod_Metadata pod)\<lparr>pm_Annotations := Some ((AnnotationStatus, v) #
          (case pm_Annotations (pod_Metadata pod) of None \<Rightarrow> [] | Some ann \<Rightarrow> ann))\<rparr>\<rparr>)
      | _ \<Rightarrow> None)"

lemma injection_iff_witness:
  "\<exists>resp. injector_ServeHTTP (demo_inject demo_pod) (DefaultSidecarConfig (\<lambda>_. [])) (Inr ''R'') =
       Inr \<lparr>rv_APIVersion = ''admission.k8s.io/v1'', rv_Kind = ''AdmissionReview'', rv_Request = None, rv_Response = Some resp\<rparr> \<and>
     as_Allowed resp \<and> as_UID resp = ''u'' \<and> as_Patch resp = Some ''patch''"
proof -
  have r: "ie_UnmarshalReview (demo_inject demo_pod) (take (2 ^ 20) ''R'') = Inr demo_review"
    by (simp add: demo_inject_def)
  have q: "rv_Request demo_review = Some \<lparr>ar_UID = ''u'', ar_Namespace = ''ns'', ar_Object = ''P''\<rparr>"
    by (simp add: demo_review_def)
  have "wants_sidecar demo_pod"
    by (simp add: wants_sidecar_def demo_pod_def annotation_defs)
  moreover have "pm_Annotations (pod_Metadata demo_pod) = Some [(AnnotationInject, ''true'')]"
    by (simp add: demo_pod_def)
  ultimately show ?thesis
    using injection_iff [OF r, of "DefaultSidecarConfig (\<lambda>_. [])" "''patch''"] q by (simp add: demo_inject_def)
qed

text \<open>
  What the code relies on of the API server: it applies the operations of a JSON patch, and
  adding at the path of an annotation sets it.
\<close>

definition sets_annotations :: "(PatchOp list \<Rightarrow> PodSpec \<Rightarrow> PodSpec option) \<Rightarrow> bool" where
  "sets_annotations apply_patch \<longleftrightarrow>
     (\<forall>patch pod pod' v. apply_patch patch pod = Some pod' \<longrightarrow>
        \<lparr>po_Op = ''add'', po_Path = ''/metadata/annotations/nullfield.io~1status'', po_Value = VStr v\<rparr> \<in> set patch \<longrightarrow>
        (\<exists>ann. pm_Annotations (pod_Metadata pod') = Some ann \<and> map_of ann AnnotationStatus = Some v))"

text \<open>
  Injection happens once: a pod the API server has patched with what the webhook built gets no
  further patch, however often it is reviewed again and under whatever configuration.\<close>

theorem injection_idempotent:
  assumes "sets_annotations apply_patch"
    and "apply_patch (buildPatch cfg port policyCM registryCM) pod = Some pod'"
    and "rv_Request review = Some req" and "ie_UnmarshalPod env (ar_Object req) = Inr pod'"
  shows "as_Patch (mutate env cfg' review) = None \<and> as_Allowed (mutate env cfg' review)"
proof -
  have "\<lparr>po_Op = ''add'', po_Path = ''/metadata/annotations/nullfield.io~1status'', po_Value = VStr ''injected''\<rparr>
      \<in> set (buildPatch cfg port policyCM registryCM)"
    by (simp add: buildPatch_def)
  with assms(1,2) obtain ann where "pm_Annotations (pod_Metadata pod') = Some ann" "map_of ann AnnotationStatus = Some ''injected''"
    unfolding sets_annotations_def by metis
  then have "\<not> wants_sidecar pod'" by (simp add: wants_sidecar_def)
  moreover have "as_Allowed (mutate env cfg' review)"
    by (auto simp: mutate_def Let_def split: option.splits sum.splits)
  ultimately show ?thesis
    using mutate_Some [OF assms(3,4)] by simp
qed

lemma demo_apply_sets: "sets_annotations demo_apply"
  unfolding sets_annotations_def
proof (intro allI impI)
  fix patch pod pod' v
  assume a: "demo_apply patch pod = Some pod'"
    and "\<lparr>po_Op = ''add'', po_Path = ''/metadata/annotations/nullfield.io~1status'', po_Value = VStr v\<rparr> \<in> set patch" (is "?op \<in> _")
  then have "VStr v \<in> set (map po_Value (filter (\<lambda>p. po_Path p = ''/metadata/annotations/nullfield.io~1status'') patch))"
    by (force intro: image_eqI [of _ _ ?op])
  with a show "\<exists>ann. pm_Annotations (pod_Metadata pod') = Some ann \<and> map_of ann AnnotationStatus = Some v"
    unfolding demo_apply_def by (auto simp del: set_map set_filter split: list.splits goval.splits)
qed

lemma injection_idempotent_witness:
  "\<exists>pod'. demo_apply (buildPatch (DefaultSidecarConfig (\<lambda>_. [])) 8080 [] []) demo_pod = Some pod' \<and>
     as_Patch (mutate (demo_inject pod') (DefaultSidecarConfig (\<lambda>_. [])) demo_review) = None"
proof -
  obtain pod' where p: "demo_apply (buildPatch (DefaultSidecarConfig (\<lambda>_. [])) 8080 [] []) demo_pod = Some pod'"
    by (simp add: demo_apply_def buildPatch_def)
  have "rv_Request demo_review = Some \<lparr>ar_UID = ''u'', ar_Namespace = ''ns'', ar_Object = ''P''\<rparr>"
    "ie_UnmarshalPod (demo_inject pod') ''P'' = Inr pod'"
    by (simp_all add: demo_review_def demo_inject_def)
  with injection_idempotent [OF demo_apply_sets p, of demo_review] p show ?thesis by fastforce
qed

text \<open>The environment a container sees, from its document.\<close>

definition containerEnv :: "gomap \<Rightarrow> environ" where
  "containerEnv c key =
     (case mget c ''env'' of
        VArr vs \<Rightarrow>
          (case List.find (\<lambda>v. case v of VMap m \<Rightarrow> mget m ''name'' = VStr key | _ \<Rightarrow> False) vs of
             Some (VMap m) \<Rightarrow> (case as_str (mget m ''value'') of Some s \<Rightarrow> s | None \<Rightarrow> [])
           | _ \<Rightarrow> [])
      | _ \<Rightarrow> [])"

lemma containerEnv_sidecar:
  "containerEnv (sidecar cfg port) key = (case map_of (sidecarEnv cfg port) key of None \<Rightarrow> [] | Some v \<Rightarrow> v)"
  by (simp add: containerEnv_def sidecar_def sidecarEnv_def envVar_def)

lemma itoa_port: "CHR '':'' \<notin> set (itoa n)" "itoa n \<noteq> []"
  using itoa_chars [of n] by auto

text \<open>
  The injected sidecar comes up as the pod needs it. Read with the environment of the container
  that is added, the configuration loads; the sidecar listens on the port the container exposes,
  forwards to the pod's own port on the loopback interface, and finds its policy and its registry
  under the mounted directory, at the paths the projected volume gives them; and the address its
  own health check asks is the one the liveness probe asks.\<close>

theorem injected_sidecar_configured:
  "\<exists>c. Config_Load (containerEnv (sidecar cfg port)) = Inr c \<and>
     cf_ListenAddr c = '':'' @ itoa (sc_ListenPort cfg) \<and> cf_UpstreamAddr c = ''localhost:'' @ itoa port \<and>
     cf_RoutesPath c = [] \<and> cf_ControllerAddr c = [] \<and>
     (\<exists>rest. mget (sidecar cfg port) ''volumeMounts'' =
        VArr [VMap [(''name'', mget (configVolume policyCM registryCM) ''name''), (''mountPath'', VStr ''/etc/nullfield''), rest]]) \<and>
     cf_PolicyPath c = ''/etc/nullfield/'' @ ''policy.yaml'' \<and> cf_ToolRegistryPath c = ''/etc/nullfield/'' @ ''tools.yaml'' \<and>
     URLFor (cf_AdminAddr c) ''9091'' = ''http://127.0.0.1:'' @ itoa (sc_AdminPort cfg) @ ''/healthz''"
proof -
  let ?env = "containerEnv (sidecar cfg port)"
  have other: "?env key = []" if "key \<notin> fst ` set (sidecarEnv cfg port)" for key
    using that by (simp add: containerEnv_sidecar map_of_eq_None_iff [symmetric])
  have "?env ''NULLFIELD_CIRCUIT_MAX_CALLS'' = []" "?env ''NULLFIELD_CIRCUIT_MAX_DURATION'' = []"
    "?env ''NULLFIELD_CREDENTIAL_CACHE_TTL'' = []" "?env ''NULLFIELD_ROUTES_PATH'' = []" "?env ''NULLFIELD_CONTROLLER_ADDR'' = []"
    by (auto intro!: other simp: sidecarEnv_def)
  note unset = this
  have set: "?env ''NULLFIELD_LISTEN_ADDR'' = '':'' @ itoa (sc_ListenPort cfg)"
    "?env ''NULLFIELD_ADMIN_ADDR'' = '':'' @ itoa (sc_AdminPort cfg)" "?env ''NULLFIELD_UPSTREAM_ADDR'' = ''localhost:'' @ itoa port"
    "?env ''NULLFIELD_POLICY_PATH'' = ''/etc/nullfield/policy.yaml''" "?env ''NULLFIELD_REGISTRY_PATH'' = ''/etc/nullfield/tools.yaml''"
    by (simp_all add: containerEnv_sidecar sidecarEnv_def)
  have "Atoi ''100'' = Some 100"
    by (simp add: Atoi_def digit_value_def)
  then obtain c where c: "Config_Load ?env = Inr c"
    using unset Load_upstream_never_missing [of ?env]
    by (auto simp: Config_Load_def envOr_def Let_def split: if_splits)
  note s = Load_settings [OF c]
  have "URLFor (cf_AdminAddr c) ''9091'' = ''http://127.0.0.1:'' @ itoa (sc_AdminPort cfg) @ ''/healthz''"
    using URLFor_port [OF itoa_port, of "[]" "sc_AdminPort cfg"] s(2) set(2) by (simp add: envOr_def)
  then show ?thesis
    using c s unset set by (simp add: envOr_def sidecar_def configVolume_def)
qed

end
