(* ===== verification/PolicyLoader.thy ===== *)
theory PolicyLoader
  imports Policy Durations
begin

text \<open>
  Package \<open>policy\<close>, how a policy gets into force: the loader (\<open>loader.go\<close>), which refuses a document
  that asks for something nothing enforces, and the watcher (\<open>watcher.go\<close>), which polls the file and
  replaces the engine. The YAML decoder and the CEL compiler are parameters; each read of the
  file is an argument, so that the file may change between two reads of one operation.
\<close>

section \<open>Loading\<close>

text \<open>A read of the file: the error of the system call, or the bytes.\<close>

type_synonym file_read = "string + string"
type_synonym yaml_policy = "string \<Rightarrow> string + NullfieldPolicy"

text \<open>A chain of checks that returns at the first error.\<close>

fun firstErr :: "'e option list \<Rightarrow> 'e option" where
  "firstErr [] = None"
| "firstErr (None # es) = firstErr es"
| "firstErr (Some e # es) = Some e"

lemma firstErr_None [simp]: "firstErr es = None \<longleftrightarrow> (\<forall>e \<in> set es. e = None)"
  by (induction es rule: firstErr.induct) auto

definition durErr :: "string \<Rightarrow> string \<Rightarrow> string option" where
  "durErr what d = (if d = [] then None else case ParseDuration d of Inl err \<Rightarrow> Some (what @ '': '' @ err) | Inr _ \<Rightarrow> None)"

text \<open>The fields of a rule nothing acts on, in the order the loader looks at them.\<close>

definition unenforcedFields :: "Rule \<Rightarrow> (string \<times> bool) list" where
  "unenforcedFields r =
     [(''direction'', r_Direction r \<noteq> []),
      (''destination'', r_Destination r \<noteq> []),
      (''injectCredential'', r_InjectCred r \<noteq> None),
      (''paramRules'', r_ParamRules r \<noteq> []),
      (''hold.notify'', case r_Hold r of None \<Rightarrow> False | Some h \<Rightarrow> hc_Notify h \<noteq> None)]"

definition validateRule :: "cel_env \<Rightarrow> nat \<Rightarrow> Rule \<Rightarrow> string option" where
  "validateRule env i r =
     (let rule = ''rule '' @ itoa (int i) in
      firstErr
        (map (\<lambda>(name, set). if set then Some (rule @ '' sets '' @ name @ '', which is not enforced; remove it'') else None)
           (unenforcedFields r) @
         [if r_CELExpression r = [] then None
          else case compileCEL env (r_CELExpression r) of Inl err \<Rightarrow> Some (rule @ '': celExpression: '' @ err) | Inr _ \<Rightarrow> None,
          case r_Budget r of None \<Rightarrow> None
          | Some b \<Rightarrow> if OnExhausted b \<noteq> [] \<and> OnExhausted b \<noteq> ''DENY''
              then Some (rule @ '': budget.onExhausted '' @ Quote (OnExhausted b) @
                     '' is not supported; an exhausted budget always denies'')
              else None]))"

text \<open>
  \<open>skewFirst\<close> is the order in which Go ranges over the two durations of the run token; it only
  decides which of two errors is reported.
\<close>

definition validateRunToken :: "bool \<Rightarrow> RunTokenConfig \<Rightarrow> string option" where
  "validateRunToken skewFirst rt =
     (if rt_JWKSURI rt = [] \<or> rt_Audience rt = []
      then Some ''runToken needs jwksUri and audience (the trust domain); without either nothing is verified''
      else let life = durErr ''runToken.maxLifetime'' (rt_MaxLifetime rt); skew = durErr ''runToken.clockSkew'' (rt_ClockSkew rt)
           in firstErr (if skewFirst then [skew, life] else [life, skew]))"

definition validateProvider :: "ValidationConfig option \<Rightarrow> IdentityProvider \<Rightarrow> string option" where
  "validateProvider v p =
     firstErr
       [durErr (''provider '' @ Quote (ip_Name p) @ '': clockSkew'') (ip_ClockSkew p),
        case v of None \<Rightarrow> None
        | Some v \<Rightarrow> if vc_RequireAudience v \<and> ip_Audiences p = []
            then Some (''provider '' @ Quote (ip_Name p) @
                  '': requireAudience is set but the provider lists no audiences, so any audience would pass'')
            else None]"

definition validateIdentity :: "IdentityConfig \<Rightarrow> string option" where
  "validateIdentity c =
     firstErr (map (validateProvider (idc_Validation c)) (idc_Providers c) @
       [case idc_Validation c of None \<Rightarrow> None
        | Some v \<Rightarrow> durErr ''identity.validation.maxLifetime'' (vc_MaxLifetime v)])"

definition validate :: "cel_env \<Rightarrow> bool \<Rightarrow> NullfieldPolicySpec \<Rightarrow> string option" where
  "validate env skewFirst s =
     firstErr
       (map (\<lambda>(i, r). validateRule env i r) (enumerate 0 (ps_Rules s)) @
        [if OnTrip (ps_CircuitBreaker s) \<in> {[], ''DENY'', ''REJECT''} then None
         else Some (''circuitBreaker.onTrip '' @ Quote (OnTrip (ps_CircuitBreaker s)) @
           '' is not performed; a tripped breaker refuses calls (DENY). To end the workload, have its controller act on the circuit.tripped signal (docs/signals.md)''),
         case ps_Integrity s of None \<Rightarrow> None
         | Some g \<Rightarrow> if igc_ChainValidation g
             then Some ''integrity.chainValidation is not enforced; use per-rule identity and delegation guards'' else None,
         case ps_Anomaly s of None \<Rightarrow> None
         | Some a \<Rightarrow> if an_Sequences a \<noteq> [] then Some ''anomaly.sequences is not enforced; remove it'' else None,
         case ps_RunToken s of None \<Rightarrow> None | Some rt \<Rightarrow> validateRunToken skewFirst rt,
         case ps_Identity s of None \<Rightarrow> None | Some c \<Rightarrow> validateIdentity c])"

definition ParseSpec :: "yaml_policy \<Rightarrow> cel_env \<Rightarrow> bool \<Rightarrow> string \<Rightarrow> string + NullfieldPolicySpec" where
  "ParseSpec decode env skewFirst data =
     (case decode data of
        Inl err \<Rightarrow> Inl (''parse policy file: '' @ err)
      | Inr pol \<Rightarrow>
          if ps_Rules (np_Spec pol) = [] then Inl ''policy file contains no rules''
          else case validate env skewFirst (np_Spec pol) of
            Some err \<Rightarrow> Inl (''policy: '' @ err)
          | None \<Rightarrow> Inr (np_Spec pol))"

definition LoadSpecFromFile :: "yaml_policy \<Rightarrow> cel_env \<Rightarrow> bool \<Rightarrow> file_read \<Rightarrow> string + NullfieldPolicySpec" where
  "LoadSpecFromFile decode env skewFirst read =
     (case read of
        Inl err \<Rightarrow> Inl (''read policy file: '' @ err)
      | Inr data \<Rightarrow> ParseSpec decode env skewFirst data)"

definition LoadFromFile :: "yaml_policy \<Rightarrow> cel_env \<Rightarrow> bool \<Rightarrow> file_read \<Rightarrow> string + Rule list" where
  "LoadFromFile decode env skewFirst read =
     (case LoadSpecFromFile decode env skewFirst read of
        Inl err \<Rightarrow> Inl err
      | Inr spec \<Rightarrow> Inr (ps_Rules spec))"

definition LoadProxySpecFromFile :: "yaml_policy \<Rightarrow> cel_env \<Rightarrow> bool \<Rightarrow> file_read \<Rightarrow> string + NullfieldPolicySpec" where
  "LoadProxySpecFromFile decode env skewFirst read =
     (case LoadSpecFromFile decode env skewFirst read of
        Inl err \<Rightarrow> Inl err
      | Inr spec \<Rightarrow>
          if ps_RunToken spec \<noteq> None
          then Inl ''policy: runToken is enforced by nullfield-extauthz only: the proxy has no attested workload to bind it to''
          else Inr spec)"

section \<open>Watching\<close>

text \<open>\<open>sha\<close> is SHA-256. The zero value of the stored hash is a field of its own.\<close>

record 'h HotLoader =
  hl_engine :: "RuleEngine option"
  hl_lastHash :: 'h

text \<open>What the operations call: the decoder, the compiler, the hash.\<close>

record 'h loader_env =
  le_decode :: yaml_policy
  le_cel :: cel_env
  le_skewFirst :: bool
  le_sha :: "string \<Rightarrow> 'h"

definition NewHotLoader :: "'h \<Rightarrow> 'h HotLoader" where
  "NewHotLoader zero = \<lparr>hl_engine = None, hl_lastHash = zero\<rparr>"

definition le_load :: "'h loader_env \<Rightarrow> file_read \<Rightarrow> string + NullfieldPolicySpec" where
  "le_load le read = LoadProxySpecFromFile (le_decode le) (le_cel le) (le_skewFirst le) read"

text \<open>\<open>data, _ := os.ReadFile(path)\<close>: no bytes after an error.\<close>

definition ignoreErr :: "file_read \<Rightarrow> string" where
  "ignoreErr read = (case read of Inl _ \<Rightarrow> [] | Inr data \<Rightarrow> data)"

definition LoadInitial ::
  "'h loader_env \<Rightarrow> 'h HotLoader \<Rightarrow> file_read \<Rightarrow> file_read \<Rightarrow> 'h HotLoader \<times> (string + RuleEngine)" where
  "LoadInitial le h read1 read2 =
     (case le_load le read1 of
        Inl err \<Rightarrow> (h, Inl err)
      | Inr spec \<Rightarrow>
          let engine = NewRuleEngine (le_cel le) (ps_Rules spec)
          in (h\<lparr>hl_engine := Some engine, hl_lastHash := le_sha le (ignoreErr read2)\<rparr>, Inr engine))"

text \<open>\<open>check\<close>, with the engine it hands to the callback.\<close>

definition HotLoader_check ::
  "'h loader_env \<Rightarrow> 'h HotLoader \<Rightarrow> file_read \<Rightarrow> file_read \<Rightarrow> 'h HotLoader \<times> RuleEngine option" where
  "HotLoader_check le h read1 read2 =
     (case read1 of
        Inl _ \<Rightarrow> (h, None)
      | Inr data \<Rightarrow>
          let hash = le_sha le data
          in if hash = hl_lastHash h then (h, None)
             else case le_load le read2 of
               Inl err \<Rightarrow> (h, None)
             | Inr spec \<Rightarrow>
                 let engine = NewRuleEngine (le_cel le) (ps_Rules spec)
                 in (h\<lparr>hl_engine := Some engine, hl_lastHash := hash\<rparr>, Some engine))"

definition ForceReload ::
  "'h loader_env \<Rightarrow> 'h HotLoader \<Rightarrow> file_read \<Rightarrow> file_read \<Rightarrow> 'h HotLoader \<times> string option" where
  "ForceReload le h read1 read2 =
     (case le_load le read1 of
        Inl err \<Rightarrow> (h, Some (''force reload: '' @ err))
      | Inr spec \<Rightarrow>
          (h\<lparr>hl_engine := Some (NewRuleEngine (le_cel le) (ps_Rules spec)), hl_lastHash := le_sha le (ignoreErr read2)\<rparr>, None))"

text \<open>The polling loop: one check per tick until it is stopped.\<close>

fun HotLoader_Watch :: "'h loader_env \<Rightarrow> 'h HotLoader \<Rightarrow> (file_read \<times> file_read) list \<Rightarrow> 'h HotLoader" where
  "HotLoader_Watch le h [] = h"
| "HotLoader_Watch le h ((read1, read2) # ticks) = HotLoader_Watch le (fst (HotLoader_check le h read1 read2)) ticks"

section \<open>What the loader accepts\<close>

definition duration_ok :: "string \<Rightarrow> bool" where
  "duration_ok d \<longleftrightarrow> d = [] \<or> (\<exists>n. ParseDuration d = Inr n)"

definition rule_admissible :: "cel_env \<Rightarrow> Rule \<Rightarrow> bool" where
  "rule_admissible env r \<longleftrightarrow>
     r_Direction r = [] \<and> r_Destination r = [] \<and> r_InjectCred r = None \<and> r_ParamRules r = [] \<and>
     (\<forall>h. r_Hold r = Some h \<longrightarrow> hc_Notify h = None) \<and>
     (r_CELExpression r \<noteq> [] \<longrightarrow> (\<exists>prg. compileCEL env (r_CELExpression r) = Inr prg)) \<and>
     (\<forall>b. r_Budget r = Some b \<longrightarrow> OnExhausted b \<in> {[], ''DENY''})"

definition identity_admissible :: "IdentityConfig \<Rightarrow> bool" where
  "identity_admissible c \<longleftrightarrow>
     (\<forall>p \<in> set (idc_Providers c). duration_ok (ip_ClockSkew p) \<and>
        (\<forall>v. idc_Validation c = Some v \<longrightarrow> vc_RequireAudience v \<longrightarrow> ip_Audiences p \<noteq> [])) \<and>
     (\<forall>v. idc_Validation c = Some v \<longrightarrow> duration_ok (vc_MaxLifetime v))"

definition spec_admissible :: "cel_env \<Rightarrow> NullfieldPolicySpec \<Rightarrow> bool" where
  "spec_admissible env s \<longleftrightarrow>
     ps_Rules s \<noteq> [] \<and> (\<forall>r \<in> set (ps_Rules s). rule_admissible env r) \<and>
     OnTrip (ps_CircuitBreaker s) \<in> {[], ''DENY'', ''REJECT''} \<and>
     (\<forall>g. ps_Integrity s = Some g \<longrightarrow> \<not> igc_ChainValidation g) \<and>
     (\<forall>a. ps_Anomaly s = Some a \<longrightarrow> an_Sequences a = []) \<and>
     (\<forall>rt. ps_RunToken s = Some rt \<longrightarrow> rt_JWKSURI rt \<noteq> [] \<and> rt_Audience rt \<noteq> [] \<and>
        duration_ok (rt_MaxLifetime rt) \<and> duration_ok (rt_ClockSkew rt)) \<and>
     (\<forall>c. ps_Identity s = Some c \<longrightarrow> identity_admissible c)"

lemma case_err_None: "(case x of None \<Rightarrow> None | Some y \<Rightarrow> f y) = None \<longleftrightarrow> (\<forall>y. x = Some y \<longrightarrow> f y = None)"
  by (cases x) auto

lemma if_err_None: "(if b then Some e else None) = None \<longleftrightarrow> \<not> b" "(if b then None else Some e) = None \<longleftrightarrow> b"
  by auto

lemma durErr_None [simp]: "durErr what d = None \<longleftrightarrow> duration_ok d"
  by (auto simp: durErr_def duration_ok_def split: sum.splits)

lemma validateRule_None: "validateRule env i r = None \<longleftrightarrow> rule_admissible env r"
  by (auto simp: validateRule_def unenforcedFields_def rule_admissible_def Let_def split: option.splits sum.splits)

lemma validateRunToken_None:
  "validateRunToken skewFirst rt = None \<longleftrightarrow>
     rt_JWKSURI rt \<noteq> [] \<and> rt_Audience rt \<noteq> [] \<and> duration_ok (rt_MaxLifetime rt) \<and> duration_ok (rt_ClockSkew rt)"
  by (auto simp: validateRunToken_def Let_def)

lemma validateIdentity_None: "validateIdentity c = None \<longleftrightarrow> identity_admissible c"
  by (auto simp: validateIdentity_def validateProvider_def identity_admissible_def split: option.splits)

lemma validate_None:
  "ps_Rules s \<noteq> [] \<Longrightarrow> validate env skewFirst s = None \<longleftrightarrow> spec_admissible env s"
proof -
  have "(\<forall>x \<in> set (enumerate 0 rs). (case x of (i, r) \<Rightarrow> validateRule env i r) = None) \<longleftrightarrow>
      (\<forall>r \<in> set rs. rule_admissible env r)" for rs
  proof -
    have "(\<forall>x \<in> set (enumerate 0 rs). rule_admissible env (snd x)) \<longleftrightarrow>
        (\<forall>r \<in> set (map snd (enumerate 0 rs)). rule_admissible env r)"
      unfolding set_map by blast
    then show ?thesis
      by (simp add: validateRule_None split_def)
  qed
  then show "ps_Rules s \<noteq> [] \<Longrightarrow> ?thesis"
    by (simp only: validate_def spec_admissible_def firstErr_None set_append set_map list.set ball_Un ball_simps
        case_err_None if_err_None validateRunToken_None validateIdentity_None) blast
qed

lemma ParseSpec_iff:
  "ParseSpec decode env skewFirst data = Inr spec \<longleftrightarrow>
     (\<exists>pol. decode data = Inr pol \<and> np_Spec pol = spec \<and> spec_admissible env spec)"
proof (cases "decode data")
  case (Inr pol)
  then show ?thesis
    using validate_None [of "np_Spec pol" env skewFirst]
    by (auto simp: ParseSpec_def spec_admissible_def split: option.splits)
qed (simp add: ParseSpec_def)

lemma le_load_iff:
  "le_load le read = Inr spec \<longleftrightarrow>
     (\<exists>data pol. read = Inr data \<and> le_decode le data = Inr pol \<and> np_Spec pol = spec \<and>
        spec_admissible (le_cel le) spec \<and> ps_RunToken spec = None)"
proof (cases read)
  case (Inr data)
  have "le_load le (Inr data) = Inr spec \<longleftrightarrow>
      ParseSpec (le_decode le) (le_cel le) (le_skewFirst le) data = Inr spec \<and> ps_RunToken spec = None"
    by (auto simp: le_load_def LoadProxySpecFromFile_def LoadSpecFromFile_def split: sum.splits)
  then show ?thesis
    by (auto simp: Inr ParseSpec_iff)
qed (simp add: le_load_def LoadProxySpecFromFile_def LoadSpecFromFile_def)

section \<open>What is in force\<close>

text \<open>The engine a document gives, if the proxy accepts it.\<close>

definition engine_of :: "'h loader_env \<Rightarrow> file_read \<Rightarrow> RuleEngine option" where
  "engine_of le read = (case le_load le read of
      Inl _ \<Rightarrow> None | Inr spec \<Rightarrow> Some (NewRuleEngine (le_cel le) (ps_Rules spec)))"

text \<open>The abstract loader: the last acceptable document it has seen.\<close>

fun latest :: "'h loader_env \<Rightarrow> RuleEngine option \<Rightarrow> file_read list \<Rightarrow> RuleEngine option" where
  "latest le cur [] = cur"
| "latest le cur (read # reads) =
     latest le (case engine_of le read of None \<Rightarrow> cur | Some e \<Rightarrow> Some e) reads"

text \<open>The stored hash is that of the document in force, which is one of \<open>docs\<close>.\<close>

definition loader_ok :: "'h loader_env \<Rightarrow> string set \<Rightarrow> 'h HotLoader \<Rightarrow> bool" where
  "loader_ok le docs h \<longleftrightarrow> (\<exists>data \<in> docs. hl_lastHash h = le_sha le data \<and> hl_engine h = engine_of le (Inr data) \<and> hl_engine h \<noteq> None)"

lemma engine_of_None: "engine_of le read = None \<longleftrightarrow> (\<exists>err. le_load le read = Inl err)"
  by (auto simp: engine_of_def split: sum.splits)

lemma check_step:
  assumes "inj_on (le_sha le) docs" and "loader_ok le docs h" and "\<forall>data. read = Inr data \<longrightarrow> data \<in> docs"
  shows "loader_ok le docs (fst (HotLoader_check le h read read)) \<and>
    hl_engine (fst (HotLoader_check le h read read)) =
      (case engine_of le read of None \<Rightarrow> hl_engine h | Some e \<Rightarrow> Some e)"
proof (cases read)
  case (Inl err)
  then have "engine_of le read = None"
    by (simp add: engine_of_def le_load_def LoadProxySpecFromFile_def LoadSpecFromFile_def)
  then show ?thesis
    using Inl assms(2) by (simp add: HotLoader_check_def)
next
  case (Inr data)
  obtain d0 where d0: "d0 \<in> docs" "hl_lastHash h = le_sha le d0" "hl_engine h = engine_of le (Inr d0)" "hl_engine h \<noteq> None"
    using assms(2) unfolding loader_ok_def by blast
  show ?thesis
  proof (cases "data = d0")
    case True
    then show ?thesis
      using Inr d0 assms(2) by (auto simp: HotLoader_check_def split: option.split)
  next
    case False
    then have "le_sha le data \<noteq> hl_lastHash h"
      using assms(1,3) d0(1,2) Inr by (auto dest: inj_onD)
    then show ?thesis
      using Inr assms(2,3)
      by (cases "le_load le (Inr data)") (auto simp: HotLoader_check_def engine_of_def Let_def loader_ok_def)
  qed
qed

lemma Watch_latest:
  assumes "inj_on (le_sha le) docs" and "loader_ok le docs h" and "\<forall>data. Inr data \<in> set reads \<longrightarrow> data \<in> docs"
  shows "hl_engine (HotLoader_Watch le h (map (\<lambda>r. (r, r)) reads)) = latest le (hl_engine h) reads"
  using assms(2,3)
proof (induction reads arbitrary: h)
  case (Cons r rs)
  show ?case
    using check_step [OF assms(1) Cons.prems(1), of r] Cons.prems(2) Cons.IH [of "fst (HotLoader_check le h r r)"] by simp
qed simp

section \<open>Properties\<close>

text \<open>
  Whatever happens to the file, the proxy keeps enforcing a policy it has accepted: after a
  successful first load, and any number of polls, whatever each of the two reads of a poll
  returns, there is an engine in force; it was built from a document read in that history which
  the loader accepts, and every CEL expression of it is a program that compiled, so an evaluation
  never fails for want of one.\<close>

theorem reload_fails_safe:
  assumes "LoadInitial le (NewHotLoader z) read1 read2 = (h, Inr e0)"
  shows "\<exists>read spec e. read \<in> insert read1 (snd ` set ticks) \<and> le_load le read = Inr spec \<and>
     hl_engine (HotLoader_Watch le h ticks) = Some e \<and> re_rules e = ps_Rules spec \<and> spec_admissible (le_cel le) spec \<and>
     (\<forall>i req. i < length (re_rules e) \<longrightarrow> r_CELExpression (re_rules e ! i) \<noteq> [] \<longrightarrow>
        (\<exists>prg. matchesCEL e i req = evalCEL prg req))"
proof -
  have run: "\<exists>read spec. read \<in> R \<union> snd ` set ticks \<and> le_load le read = Inr spec \<and>
      hl_engine (HotLoader_Watch le h ticks) = Some (NewRuleEngine (le_cel le) (ps_Rules spec))"
    if "read \<in> R" "le_load le read = Inr spec" "hl_engine h = Some (NewRuleEngine (le_cel le) (ps_Rules spec))" for read spec h R
    using that
  proof (induction ticks arbitrary: read spec h R)
    case (Cons t ts)
    obtain r1 r2 where t: "t = (r1, r2)" by (cases t)
    have "\<exists>read spec. read \<in> insert r2 R \<and> le_load le read = Inr spec \<and>
        hl_engine (fst (HotLoader_check le h r1 r2)) = Some (NewRuleEngine (le_cel le) (ps_Rules spec))"
      using Cons.prems by (auto simp: HotLoader_check_def Let_def split: sum.split)
    then show ?case
      using Cons.IH [of _ "insert r2 R" _ "fst (HotLoader_check le h r1 r2)"] t by auto
  qed auto
  obtain spec1 where "le_load le read1 = Inr spec1" "hl_engine h = Some (NewRuleEngine (le_cel le) (ps_Rules spec1))"
    using assms by (auto simp: LoadInitial_def Let_def split: sum.splits)
  from run [of read1 "{read1}", OF _ this] obtain read spec where r: "read \<in> insert read1 (snd ` set ticks)" "le_load le read = Inr spec"
    and e: "hl_engine (HotLoader_Watch le h ticks) = Some (NewRuleEngine (le_cel le) (ps_Rules spec))"
    unfolding insert_is_Un [symmetric] by blast
  have ok: "spec_admissible (le_cel le) spec"
    using r(2) by (auto simp: le_load_iff)
  have "\<exists>prg. matchesCEL (NewRuleEngine (le_cel le) (ps_Rules spec)) i req = evalCEL prg req"
    if i: "i < length (ps_Rules spec)" and c: "r_CELExpression (ps_Rules spec ! i) \<noteq> []" for i req
  proof -
    have "rule_admissible (le_cel le) (ps_Rules spec ! i)"
      using ok i by (simp add: spec_admissible_def)
    then obtain prg where "compileCEL (le_cel le) (r_CELExpression (ps_Rules spec ! i)) = Inr prg"
      using c by (auto simp: rule_admissible_def)
    then show ?thesis
      using matchesCEL_New [OF i c, of "le_cel le" req] by (intro exI [of _ prg]) simp
  qed
  then show ?thesis
    using r e ok by (intro exI [of _ read] exI [of _ spec] exI [of _ "NewRuleEngine (le_cel le) (ps_Rules spec)"]) simp
qed

text \<open>
  C16. The watcher tracks the file: if the file does not change between the two reads of one
  operation, then after the first load and any sequence of polls the engine in force is that of the
  last acceptable document a poll has seen. A poll that cannot read the file, or finds a document
  the loader refuses, leaves the engine alone. (SHA-256 is taken to give different hashes to the
  documents of this history, no more.)\<close>

theorem reload_tracks_file:
  assumes "inj_on (le_sha le) (insert d0 {d. Inr d \<in> set reads})"
    and "LoadInitial le (NewHotLoader z) (Inr d0) (Inr d0) = (h, Inr e0)"
  shows "hl_engine (HotLoader_Watch le h (map (\<lambda>r. (r, r)) reads)) = latest le (engine_of le (Inr d0)) reads \<and>
     engine_of le (Inr d0) = Some e0"
proof -
  have "loader_ok le (insert d0 {d. Inr d \<in> set reads}) h \<and> hl_engine h = engine_of le (Inr d0) \<and> engine_of le (Inr d0) = Some e0"
    using assms(2) by (auto simp: LoadInitial_def loader_ok_def engine_of_def ignoreErr_def Let_def split: sum.splits)
  then show ?thesis
    using Watch_latest [OF assms(1), of h reads] by simp
qed

definition demo_spec :: "Action \<Rightarrow> NullfieldPolicySpec" where
  "demo_spec a = \<lparr>ps_Selector = \<lparr>MatchLabels = []\<rparr>, ps_Identity = None, ps_RunToken = None, ps_Integrity = None,
     ps_Anomaly = None, ps_Rules = [emptyRule\<lparr>r_Action := a\<rparr>],
     ps_CircuitBreaker = \<lparr>MaxToolCallsPerSession = 0, MaxSessionDuration = 0, OnTrip = []\<rparr>,
     ps_Audit = \<lparr>EmitTo = [], LogLevel = []\<rparr>\<rparr>"

text \<open>A decoder for witnesses: the document is the action of its only rule.\<close>

definition demo_loader :: "string loader_env" where
  "demo_loader = \<lparr>le_decode = (\<lambda>d. Inr \<lparr>np_APIVersion = [], np_Kind = [],
       np_Metadata = \<lparr>md_Name = [], md_Namespace = [], md_Labels = []\<rparr>, np_Spec = demo_spec d\<rparr>),
     le_cel = (\<lambda>_. Inl []), le_skewFirst = True, le_sha = (\<lambda>d. d)\<rparr>"

lemma demo_load: "le_load demo_loader (Inr d) = Inr (demo_spec d)"
  by (simp add: le_load_iff demo_loader_def) (simp add: demo_spec_def spec_admissible_def rule_admissible_def emptyRule_def)

lemma reload_fails_safe_witness:
  "\<exists>e. hl_engine (HotLoader_Watch demo_loader (fst (LoadInitial demo_loader (NewHotLoader []) (Inr ''DENY'') (Inr ''DENY'')))
      [(Inl ''gone'', Inl ''gone''), (Inr ''ALLOW'', Inl ''gone'')]) = Some e"
  using reload_fails_safe [of demo_loader "[]" "Inr ''DENY''" "Inr ''DENY''" _ _
      "[(Inl ''gone'', Inl ''gone''), (Inr ''ALLOW'', Inl ''gone'')]"]
  by (fastforce simp: LoadInitial_def demo_load Let_def simp del: HotLoader_Watch.simps)

lemma reload_tracks_file_witness:
  "hl_engine (HotLoader_Watch demo_loader (fst (LoadInitial demo_loader (NewHotLoader []) (Inr ''DENY'') (Inr ''DENY'')))
      [(Inr ''ALLOW'', Inr ''ALLOW''), (Inl ''gone'', Inl ''gone'')]) = engine_of demo_loader (Inr ''ALLOW'')"
proof -
  have sha: "inj_on (le_sha demo_loader) D" for D
    by (simp add: demo_loader_def inj_on_def)
  have gone: "engine_of demo_loader (Inl x) = None" for x
    by (simp add: engine_of_def le_load_def LoadProxySpecFromFile_def LoadSpecFromFile_def)
  have allow: "engine_of demo_loader (Inr ''ALLOW'') = Some (NewRuleEngine (le_cel demo_loader) (ps_Rules (demo_spec ''ALLOW'')))"
    by (simp add: engine_of_def demo_load)
  have "LoadInitial demo_loader (NewHotLoader []) (Inr ''DENY'') (Inr ''DENY'') =
     (fst (LoadInitial demo_loader (NewHotLoader []) (Inr ''DENY'') (Inr ''DENY'')),
      Inr (NewRuleEngine (le_cel demo_loader) (ps_Rules (demo_spec ''DENY''))))"
    by (simp add: LoadInitial_def demo_load Let_def)
  from reload_tracks_file [OF sha this, of "[Inr ''ALLOW'', Inl ''gone'']"] show ?thesis
    unfolding list.map latest.simps gone allow option.case by (rule conjunct1)
qed

text \<open>
  A change of the file during the first load is lost: if the file is replaced after the load
  has read it and before it is read again for its hash, then the new hash is stored with the old
  engine, and no later poll of the new file ever puts the new document in force.\<close>

theorem load_race_loses_update:
  assumes "LoadInitial le (NewHotLoader z) (Inr old) (Inr new) = (h, Inr e0)"
  shows "hl_engine (HotLoader_Watch le h (replicate n (Inr new, Inr new))) = engine_of le (Inr old)"
proof -
  have h: "hl_lastHash h = le_sha le new" "hl_engine h = engine_of le (Inr old)"
    using assms by (auto simp: LoadInitial_def engine_of_def ignoreErr_def Let_def split: sum.splits)
  then have "HotLoader_Watch le h (replicate n (Inr new, Inr new)) = h"
    by (induction n) (simp_all add: HotLoader_check_def)
  then show ?thesis
    by (simp add: h)
qed

lemma load_race_loses_update_witness:
  "map_option re_rules (hl_engine (HotLoader_Watch demo_loader
      (fst (LoadInitial demo_loader (NewHotLoader []) (Inr ''ALLOW'') (Inr ''DENY''))) (replicate 7 (Inr ''DENY'', Inr ''DENY'')))) =
   Some [emptyRule\<lparr>r_Action := ''ALLOW''\<rparr>]"
proof -
  have "LoadInitial demo_loader (NewHotLoader []) (Inr ''ALLOW'') (Inr ''DENY'') =
     (fst (LoadInitial demo_loader (NewHotLoader []) (Inr ''ALLOW'') (Inr ''DENY'')),
      Inr (NewRuleEngine (le_cel demo_loader) (ps_Rules (demo_spec ''ALLOW''))))"
    by (simp add: LoadInitial_def demo_load Let_def)
  from load_race_loses_update [OF this, of 7] show ?thesis
    by (simp only: engine_of_def demo_load) (simp add: demo_spec_def)
qed

end
