(* ===== verification/FlowCompiler.thy ===== *)
theory FlowCompiler
  imports PolicyLoader
begin

text \<open>
  Package \<open>flow\<close>: the compiler from an \<open>AgenticFlow\<close> document to a policy, a tool registry and the
  network controls of the mesh (\<open>compiler.go\<close>), and the command \<open>nullfield-compile\<close> over it. The
  properties tie the compiler to the rule engine and to the loader: what the compiled policy
  decides, when it can be loaded, and that no generated control is open.
\<close>

section \<open>The document\<close>

definition KindAgenticFlow :: string where "KindAgenticFlow = ''AgenticFlow''"
definition KindNullfieldPolicy :: string where "KindNullfieldPolicy = ''NullfieldPolicy''"
definition KindToolRegistry :: string where "KindToolRegistry = ''ToolRegistry''"
definition DefaultMCPMethod :: string where "DefaultMCPMethod = ''tools/call''"

record GeneratedControlsSpec =
  gc_Mode :: string
  gc_Apply :: "string list"

record EgressDestination =
  eg_Name :: string
  eg_CIDR :: string
  eg_Ports :: "int list"

record NetworkSpec =
  ns_Egress :: "EgressDestination list"

record IstioAuthzSpec =
  ia_Principals :: "string list"
  ia_Ports :: "int list"

record CiliumIngressRule =
  cir_FromEndpoints :: "labels list"
  cir_Port :: int
  cir_Methods :: "string list"
  cir_Paths :: "string list"

record CiliumSpec =
  cs_Ingress :: "CiliumIngressRule list"

record LinkerdServerSpec =
  lss_Name :: string
  lss_Port :: int
  lss_Identities :: "string list"

record LinkerdSpec =
  ls_Servers :: "LinkerdServerSpec list"

record MeshSpec =
  ms_Istio :: "IstioAuthzSpec option"
  ms_Cilium :: "CiliumSpec option"
  ms_Linkerd :: "LinkerdSpec option"

record OAuthSpec =
  oa_Issuer :: string
  oa_TokenURL :: string
  oa_Audience :: string
  oa_Scopes :: "string list"
  oa_SubjectToken :: string
  oa_ActorClaim :: string

record FlowCredential =
  fc_Name :: string
  fc_From :: string
  fc_SecretRef :: string
  fc_InjectAs :: string
  fc_OAuth :: "OAuthSpec option"
  fc_AuditLabels :: labels

record FlowTool =
  ft_Name :: string
  ft_Description :: string
  ft_Action :: Action
  ft_MCPMethod :: string
  ft_When :: "WhenCondition option"
  ft_Hold :: "HoldConfig option"
  ft_Scope :: "ScopeConfig option"
  ft_Budget :: "BudgetConfig option"
  ft_CredentialRefs :: "string list"
  ft_Credentials :: "CredentialRef list"
  ft_AllowedScopes :: "string list"
  ft_SignatureHash :: string
  ft_MaxCallsPerMin :: int
  ft_AuditLabels :: labels
  ft_Reason :: string

record FlowSpec =
  fs_Selector :: Selector
  fs_Lane :: string
  fs_Transport :: string
  fs_RequireIdentity :: "bool option"
  fs_Network :: "NetworkSpec option"
  fs_Mesh :: "MeshSpec option"
  fs_GeneratedControls :: "GeneratedControlsSpec option"
  fs_Credentials :: "FlowCredential list"
  fs_Identity :: "IdentityConfig option"
  fs_Integrity :: "IntegrityConfig option"
  fs_Anomaly :: "AnomalyConfig option"
  fs_Audit :: AuditConfig
  fs_Tools :: "FlowTool list"

record AgenticFlow =
  af_APIVersion :: string
  af_Kind :: string
  af_Metadata :: Metadata
  af_Spec :: FlowSpec

section \<open>The artifacts\<close>

record IPBlock =
  ipb_CIDR :: string

record NetworkPeer =
  npe_IPBlock :: IPBlock

record NetworkPort =
  npt_Protocol :: string
  npt_Port :: int

record NetworkEgress =
  nge_To :: "NetworkPeer list"
  nge_Ports :: "NetworkPort list"

record NetworkPolicySpec =
  nps_PodSelector :: Selector
  nps_PolicyTypes :: "string list"
  nps_Egress :: "NetworkEgress list"

record NetworkPolicy =
  npol_APIVersion :: string
  npol_Kind :: string
  npol_Metadata :: Metadata
  npol_Spec :: NetworkPolicySpec

record IstioSource =
  iso_Principals :: "string list"

record IstioFrom =
  ifr_Source :: IstioSource

record IstioOperation =
  iop_Ports :: "string list"

record IstioTo =
  ito_Operation :: IstioOperation

record IstioRule =
  iru_From :: "IstioFrom list"
  iru_To :: "IstioTo list"

record IstioSelector =
  isel_MatchLabels :: labels

record IstioAuthorizationPolicySpec =
  iaps_Selector :: IstioSelector
  iaps_Action :: string
  iaps_Rules :: "IstioRule list"

record IstioAuthorizationPolicy =
  iap_APIVersion :: string
  iap_Kind :: string
  iap_Metadata :: Metadata
  iap_Spec :: IstioAuthorizationPolicySpec

record CiliumHTTPRule =
  chh_Method :: string
  chh_Path :: string

record CiliumL7Rules =
  cl7_HTTP :: "CiliumHTTPRule list"

record CiliumPortRule =
  cpr_Port :: string
  cpr_Protocol :: string

record CiliumToPorts =
  ctp_Ports :: "CiliumPortRule list"
  ctp_Rules :: CiliumL7Rules

record CiliumIngress =
  ci_FromEndpoints :: "labels list"
  ci_ToPorts :: "CiliumToPorts list"

record CiliumEndpointSelector =
  ces_MatchLabels :: labels

record CiliumNetworkPolicySpec =
  cnps_EndpointSelector :: CiliumEndpointSelector
  cnps_Ingress :: "CiliumIngress list"

record CiliumNetworkPolicy =
  cnp_APIVersion :: string
  cnp_Kind :: string
  cnp_Metadata :: Metadata
  cnp_Spec :: CiliumNetworkPolicySpec

record LinkerdServerBody =
  lsb_PodSelector :: Selector
  lsb_Port :: int
  lsb_ProxyProtocol :: string

record LinkerdServer =
  lsv_APIVersion :: string
  lsv_Kind :: string
  lsv_Metadata :: Metadata
  lsv_Spec :: LinkerdServerBody

record LinkerdMeshTLS =
  lmt_Identities :: "string list"

record LinkerdClientPolicy =
  lcp_MeshTLS :: "LinkerdMeshTLS option"
  lcp_Unauthenticated :: bool

record LinkerdServerRef =
  lsr_Name :: string

record LinkerdServerAuthorizationSpec =
  lsas_Server :: LinkerdServerRef
  lsas_Client :: LinkerdClientPolicy

record LinkerdServerAuthorization =
  lsa_APIVersion :: string
  lsa_Kind :: string
  lsa_Metadata :: Metadata
  lsa_Spec :: LinkerdServerAuthorizationSpec

record Artifacts =
  art_Policy :: NullfieldPolicy
  art_Registry :: ToolRegistry
  art_NetworkPolicies :: "NetworkPolicy list"
  art_IstioAuthorizationPolicies :: "IstioAuthorizationPolicy list"
  art_CiliumNetworkPolicies :: "CiliumNetworkPolicy list"
  art_LinkerdServers :: "LinkerdServer list"
  art_LinkerdServerAuthorizations :: "LinkerdServerAuthorization list"

section \<open>Labels\<close>

definition cloneStringMap :: "labels \<Rightarrow> labels" where
  "cloneStringMap ls = (if ls = [] then [] else ls)"

definition mergeLabels :: "labels \<Rightarrow> labels \<Rightarrow> labels" where
  "mergeLabels base overlay = foldl (\<lambda>out (k, v). AList.update k v out) (cloneStringMap base) overlay"

definition flowLabels :: "FlowSpec \<Rightarrow> labels" where
  "flowLabels spec =
     (if fs_Lane spec \<noteq> [] then [(''nullfield.io/lane'', fs_Lane spec)] else []) @
     (if fs_Transport spec \<noteq> [] then [(''nullfield.io/transport'', fs_Transport spec)] else [])"

definition cloneEndpointLabels :: "labels list \<Rightarrow> labels list" where
  "cloneEndpointLabels ls = map cloneStringMap ls"

definition namedMetadata :: "Metadata \<Rightarrow> string \<Rightarrow> Metadata" where
  "namedMetadata metadata name = metadata\<lparr>md_Name := name, md_Labels := cloneStringMap (md_Labels metadata)\<rparr>"

definition defaultString :: "string \<Rightarrow> string \<Rightarrow> string" where
  "defaultString v fallback = (if v = [] then fallback else v)"

text \<open>\<open>strings.FieldsFunc\<close>: the maximal runs of bytes that are not separators.\<close>

function fieldsFunc :: "(char \<Rightarrow> bool) \<Rightarrow> string \<Rightarrow> string list" where
  "fieldsFunc sep s =
     (let s = dropWhile sep s in
      if s = [] then [] else takeWhile (\<lambda>c. \<not> sep c) s # fieldsFunc sep (dropWhile (\<lambda>c. \<not> sep c) s))"
  by pat_completeness auto

termination fieldsFunc
proof (relation "measure (\<lambda>(sep, s). length s)")
  fix sep :: "char \<Rightarrow> bool" and s x
  assume x: "x = dropWhile sep s" "x \<noteq> []"
  then have "\<not> sep (hd x)" by (simp add: hd_dropWhile)
  with x(2) have "length (dropWhile (\<lambda>c. \<not> sep c) x) < length x"
    by (cases x) (auto simp: le_imp_less_Suc length_dropWhile_le)
  moreover have "length x \<le> length s" using x(1) by (simp add: length_dropWhile_le)
  ultimately show "((sep, dropWhile (\<lambda>c. \<not> sep c) x), (sep, s)) \<in> measure (\<lambda>(sep, s). length s)" by simp
qed simp

declare fieldsFunc.simps [simp del]

definition ruleSep :: "char \<Rightarrow> bool" where
  "ruleSep c \<longleftrightarrow> (let n = of_char c :: nat in (n < 97 \<or> 122 < n) \<and> (n < 48 \<or> 57 < n))"

definition ruleID :: "string \<Rightarrow> Action \<Rightarrow> string" where
  "ruleID toolName action = Join (fieldsFunc ruleSep (ToLower toolName) @ [ToLower action]) ''-''"

section \<open>Validation\<close>

definition allowedGeneratedControlKind :: "string \<Rightarrow> bool" where
  "allowedGeneratedControlKind kind \<longleftrightarrow>
     kind \<in> {''NetworkPolicy'', ''AuthorizationPolicy'', ''CiliumNetworkPolicy'', ''Server'', ''ServerAuthorization''}"

definition reject :: "bool \<Rightarrow> string \<Rightarrow> string option" where
  "reject b msg = (if b then Some msg else None)"

lemma reject_None [simp]: "reject b msg = None \<longleftrightarrow> \<not> b"
  by (simp add: reject_def)

definition validateGeneratedControls :: "GeneratedControlsSpec option \<Rightarrow> string option" where
  "validateGeneratedControls spec =
     (case spec of
        None \<Rightarrow> None
      | Some spec \<Rightarrow>
          let mode = (if gc_Mode spec = [] then ''preview'' else gc_Mode spec)
          in if mode = ''preview'' then None
             else if mode = ''apply''
             then firstErr (reject (gc_Apply spec = []) ''spec.generatedControls.apply is required when mode is apply'' #
                    map (\<lambda>kind. reject (\<not> allowedGeneratedControlKind kind) (''unsupported generated control kind '' @ Quote kind))
                      (gc_Apply spec))
             else Some ''spec.generatedControls.mode must be preview or apply'')"

definition validateEgress :: "FlowSpec \<Rightarrow> string option" where
  "validateEgress spec =
     (case fs_Network spec of
        None \<Rightarrow> None
      | Some n \<Rightarrow>
          if ns_Egress n = [] then None
          else firstErr (reject (MatchLabels (fs_Selector spec) = [])
                  ''spec.selector.matchLabels is required when spec.network.egress is declared'' #
                concat (map (\<lambda>dest. [reject (eg_CIDR dest = []) ''spec.network.egress[].cidr is required'',
                   reject (eg_Ports dest = []) ''spec.network.egress[].ports is required'']) (ns_Egress n))))"

definition validateIstio :: "FlowSpec \<Rightarrow> IstioAuthzSpec \<Rightarrow> string option" where
  "validateIstio spec istio =
     firstErr [reject (MatchLabels (fs_Selector spec) = []) ''spec.selector.matchLabels is required when spec.mesh.istio is declared'',
       reject (ia_Principals istio = []) ''spec.mesh.istio.principals is required'',
       reject (ia_Ports istio = []) ''spec.mesh.istio.ports is required'']"

definition validateCilium :: "FlowSpec \<Rightarrow> CiliumSpec \<Rightarrow> string option" where
  "validateCilium spec cilium =
     firstErr (reject (MatchLabels (fs_Selector spec) = []) ''spec.selector.matchLabels is required when spec.mesh.cilium is declared'' #
       reject (cs_Ingress cilium = []) ''spec.mesh.cilium.ingress is required'' #
       concat (map (\<lambda>rule. [reject (cir_FromEndpoints rule = []) ''spec.mesh.cilium.ingress[].fromEndpoints is required'',
          reject (cir_Port rule \<le> 0) ''spec.mesh.cilium.ingress[].port is required'',
          reject (cir_Methods rule = []) ''spec.mesh.cilium.ingress[].methods is required'']) (cs_Ingress cilium)))"

definition validateLinkerd :: "FlowSpec \<Rightarrow> LinkerdSpec \<Rightarrow> string option" where
  "validateLinkerd spec linkerd =
     firstErr (reject (MatchLabels (fs_Selector spec) = []) ''spec.selector.matchLabels is required when spec.mesh.linkerd is declared'' #
       reject (ls_Servers linkerd = []) ''spec.mesh.linkerd.servers is required'' #
       concat (map (\<lambda>server. [reject (lss_Name server = []) ''spec.mesh.linkerd.servers[].name is required'',
          reject (lss_Port server \<le> 0) (''spec.mesh.linkerd.servers['' @ Quote (lss_Name server) @ ''].port is required''),
          reject (lss_Identities server = []) (''spec.mesh.linkerd.servers['' @ Quote (lss_Name server) @ ''].identities is required'')])
         (ls_Servers linkerd)))"

definition meshIstio :: "FlowSpec \<Rightarrow> IstioAuthzSpec option" where
  "meshIstio spec = (case fs_Mesh spec of None \<Rightarrow> None | Some m \<Rightarrow> ms_Istio m)"

definition meshCilium :: "FlowSpec \<Rightarrow> CiliumSpec option" where
  "meshCilium spec = (case fs_Mesh spec of None \<Rightarrow> None | Some m \<Rightarrow> ms_Cilium m)"

definition meshLinkerd :: "FlowSpec \<Rightarrow> LinkerdSpec option" where
  "meshLinkerd spec = (case fs_Mesh spec of None \<Rightarrow> None | Some m \<Rightarrow> ms_Linkerd m)"

definition validateExplicitControlIntent :: "FlowSpec \<Rightarrow> string option" where
  "validateExplicitControlIntent spec =
     firstErr
       [validateGeneratedControls (fs_GeneratedControls spec),
        validateEgress spec,
        case meshIstio spec of None \<Rightarrow> None | Some i \<Rightarrow> validateIstio spec i,
        case meshCilium spec of None \<Rightarrow> None | Some c \<Rightarrow> validateCilium spec c,
        case meshLinkerd spec of None \<Rightarrow> None | Some l \<Rightarrow> validateLinkerd spec l]"

section \<open>Credentials of tools\<close>

fun credentialMapFrom :: "(string \<rightharpoonup> FlowCredential) \<Rightarrow> FlowCredential list \<Rightarrow> string + (string \<rightharpoonup> FlowCredential)" where
  "credentialMapFrom out [] = Inr out"
| "credentialMapFrom out (c # cs) =
     (if fc_Name c = [] then Inl ''spec.credentials[].name is required''
      else if fc_From c = [] then Inl (''spec.credentials['' @ Quote (fc_Name c) @ ''].from is required'')
      else if fc_SecretRef c = [] then Inl (''spec.credentials['' @ Quote (fc_Name c) @ ''].secretRef is required'')
      else if out (fc_Name c) \<noteq> None then Inl (''duplicate credential declaration: '' @ fc_Name c)
      else credentialMapFrom (out(fc_Name c \<mapsto> c)) cs)"

definition credentialMap :: "FlowCredential list \<Rightarrow> string + (string \<rightharpoonup> FlowCredential)" where
  "credentialMap cs = credentialMapFrom Map.empty cs"

definition credentialLabels :: "FlowCredential \<Rightarrow> labels" where
  "credentialLabels c =
     (let ls = AList.update ''credential'' (fc_Name c) (cloneStringMap (fc_AuditLabels c))
      in case fc_OAuth c of
           None \<Rightarrow> ls
         | Some oa \<Rightarrow>
             let ls = (if oa_Issuer oa \<noteq> [] then AList.update ''oauth_issuer'' (oa_Issuer oa) ls else ls);
                 ls = (if oa_Audience oa \<noteq> [] then AList.update ''oauth_audience'' (oa_Audience oa) ls else ls)
             in if oa_Scopes oa \<noteq> [] then AList.update ''oauth_scopes'' (Join (oa_Scopes oa) '' '') ls else ls)"

fun resolveRefs ::
  "FlowTool \<Rightarrow> (string \<rightharpoonup> FlowCredential) \<Rightarrow> string list \<Rightarrow> CredentialRef list \<Rightarrow> labels \<Rightarrow> string + (CredentialRef list \<times> labels)" where
  "resolveRefs tool creds [] refs ls = Inr (refs, ls)"
| "resolveRefs tool creds (name # names) refs ls =
     (case creds name of
        None \<Rightarrow> Inl (''tool '' @ Quote (ft_Name tool) @ '' references undeclared credential '' @ Quote name)
      | Some c \<Rightarrow>
          resolveRefs tool creds names
            (refs @ [\<lparr>cr_SecretRef = fc_SecretRef c, cr_From = fc_From c, cr_InjectAs = fc_InjectAs c\<rparr>])
            (mergeLabels ls (credentialLabels c)))"

definition resolveToolCredentials ::
  "FlowTool \<Rightarrow> (string \<rightharpoonup> FlowCredential) \<Rightarrow> string + (CredentialRef list \<times> labels)" where
  "resolveToolCredentials tool creds = resolveRefs tool creds (ft_CredentialRefs tool) (ft_Credentials tool) []"

text \<open>\<open>ensureScopeRequest\<close>, which gives the rule a request scope to add the credentials to.\<close>

definition ensureScopeRequest :: "ScopeConfig option \<Rightarrow> ScopeConfig \<times> ScopeRequestConfig" where
  "ensureScopeRequest scope =
     (let sc = (case scope of None \<Rightarrow> \<lparr>sc_Request = None, sc_Response = None\<rparr> | Some s \<Rightarrow> s);
          rq = (case sc_Request sc of
            None \<Rightarrow> \<lparr>StripArguments = [], InjectArguments = [], InjectCredentials = [], BlockRedirects = False\<rparr>
          | Some r \<Rightarrow> r)
      in (sc\<lparr>sc_Request := Some rq\<rparr>, rq))"

definition injectScope :: "ScopeConfig option \<Rightarrow> CredentialRef list \<Rightarrow> ScopeConfig option" where
  "injectScope scope refs =
     (if refs = [] then scope
      else case ensureScopeRequest scope of (sc, rq) \<Rightarrow>
        Some (sc\<lparr>sc_Request := Some (rq\<lparr>InjectCredentials := InjectCredentials rq @ refs\<rparr>)\<rparr>))"

section \<open>Network controls\<close>

definition networkPorts :: "int list \<Rightarrow> NetworkPort list" where
  "networkPorts ports = map (\<lambda>p. \<lparr>npt_Protocol = ''TCP'', npt_Port = p\<rparr>) ports"

definition stringPorts :: "int list \<Rightarrow> string list" where
  "stringPorts ports = map itoa ports"

definition ciliumHTTPRules :: "CiliumIngressRule \<Rightarrow> CiliumHTTPRule list" where
  "ciliumHTTPRules rule =
     (if cir_Methods rule = [] then map (\<lambda>p. \<lparr>chh_Method = [], chh_Path = p\<rparr>) (cir_Paths rule)
      else if cir_Paths rule = [] then map (\<lambda>m. \<lparr>chh_Method = m, chh_Path = []\<rparr>) (cir_Methods rule)
      else concat (map (\<lambda>m. map (\<lambda>p. \<lparr>chh_Method = m, chh_Path = p\<rparr>) (cir_Paths rule)) (cir_Methods rule)))"

definition linkerdClientPolicy :: "LinkerdServerSpec \<Rightarrow> LinkerdClientPolicy" where
  "linkerdClientPolicy server =
     \<lparr>lcp_MeshTLS = Some \<lparr>lmt_Identities = lss_Identities server\<rparr>, lcp_Unauthenticated = False\<rparr>"

definition compileNetworkPolicies :: "AgenticFlow \<Rightarrow> Metadata \<Rightarrow> NetworkPolicy list" where
  "compileNetworkPolicies doc metadata =
     (case fs_Network (af_Spec doc) of
        None \<Rightarrow> []
      | Some n \<Rightarrow>
          if ns_Egress n = [] then []
          else
            let egress = map (\<lambda>dest. \<lparr>nge_To = [\<lparr>npe_IPBlock = \<lparr>ipb_CIDR = eg_CIDR dest\<rparr>\<rparr>], nge_Ports = networkPorts (eg_Ports dest)\<rparr>)
                   (filter (\<lambda>dest. eg_CIDR dest \<noteq> []) (ns_Egress n))
            in if egress = [] then []
               else [\<lparr>npol_APIVersion = ''networking.k8s.io/v1'', npol_Kind = ''NetworkPolicy'',
                      npol_Metadata = namedMetadata metadata (md_Name metadata @ ''-egress''),
                      npol_Spec = \<lparr>nps_PodSelector = \<lparr>MatchLabels = cloneStringMap (MatchLabels (fs_Selector (af_Spec doc)))\<rparr>,
                        nps_PolicyTypes = [''Egress''], nps_Egress = egress\<rparr>\<rparr>])"

definition compileIstioAuthorizationPolicies :: "AgenticFlow \<Rightarrow> Metadata \<Rightarrow> IstioAuthorizationPolicy list" where
  "compileIstioAuthorizationPolicies doc metadata =
     (case meshIstio (af_Spec doc) of
        None \<Rightarrow> []
      | Some istio \<Rightarrow>
          if ia_Principals istio = [] \<and> ia_Ports istio = [] then []
          else [\<lparr>iap_APIVersion = ''security.istio.io/v1beta1'', iap_Kind = ''AuthorizationPolicy'',
                 iap_Metadata = namedMetadata metadata (md_Name metadata @ ''-authz''),
                 iap_Spec = \<lparr>iaps_Selector = \<lparr>isel_MatchLabels = cloneStringMap (MatchLabels (fs_Selector (af_Spec doc)))\<rparr>,
                   iaps_Action = ''ALLOW'',
                   iaps_Rules = [\<lparr>iru_From = [\<lparr>ifr_Source = \<lparr>iso_Principals = ia_Principals istio\<rparr>\<rparr>],
                     iru_To = [\<lparr>ito_Operation = \<lparr>iop_Ports = stringPorts (ia_Ports istio)\<rparr>\<rparr>]\<rparr>]\<rparr>\<rparr>])"

definition compileCiliumNetworkPolicies :: "AgenticFlow \<Rightarrow> Metadata \<Rightarrow> CiliumNetworkPolicy list" where
  "compileCiliumNetworkPolicies doc metadata =
     (case meshCilium (af_Spec doc) of
        None \<Rightarrow> []
      | Some cilium \<Rightarrow>
          if cs_Ingress cilium = [] then []
          else [\<lparr>cnp_APIVersion = ''cilium.io/v2'', cnp_Kind = ''CiliumNetworkPolicy'',
                 cnp_Metadata = namedMetadata metadata (md_Name metadata @ ''-cilium''),
                 cnp_Spec = \<lparr>cnps_EndpointSelector = \<lparr>ces_MatchLabels = cloneStringMap (MatchLabels (fs_Selector (af_Spec doc)))\<rparr>,
                   cnps_Ingress = map (\<lambda>rule. \<lparr>ci_FromEndpoints = cloneEndpointLabels (cir_FromEndpoints rule),
                       ci_ToPorts = [\<lparr>ctp_Ports = [\<lparr>cpr_Port = itoa (cir_Port rule), cpr_Protocol = ''TCP''\<rparr>],
                         ctp_Rules = \<lparr>cl7_HTTP = ciliumHTTPRules rule\<rparr>\<rparr>]\<rparr>) (cs_Ingress cilium)\<rparr>\<rparr>])"

definition compileLinkerdServers :: "AgenticFlow \<Rightarrow> Metadata \<Rightarrow> LinkerdServer list" where
  "compileLinkerdServers doc metadata =
     (case meshLinkerd (af_Spec doc) of
        None \<Rightarrow> []
      | Some linkerd \<Rightarrow>
          map (\<lambda>server. \<lparr>lsv_APIVersion = ''policy.linkerd.io/v1beta3'', lsv_Kind = ''Server'',
             lsv_Metadata = namedMetadata metadata (lss_Name server),
             lsv_Spec = \<lparr>lsb_PodSelector = \<lparr>MatchLabels = cloneStringMap (MatchLabels (fs_Selector (af_Spec doc)))\<rparr>,
               lsb_Port = lss_Port server, lsb_ProxyProtocol = ''HTTP/1''\<rparr>\<rparr>) (ls_Servers linkerd))"

definition compileLinkerdServerAuthorizations :: "AgenticFlow \<Rightarrow> Metadata \<Rightarrow> LinkerdServerAuthorization list" where
  "compileLinkerdServerAuthorizations doc metadata =
     (case meshLinkerd (af_Spec doc) of
        None \<Rightarrow> []
      | Some linkerd \<Rightarrow>
          map (\<lambda>server. \<lparr>lsa_APIVersion = ''policy.linkerd.io/v1beta1'', lsa_Kind = ''ServerAuthorization'',
             lsa_Metadata = namedMetadata metadata (lss_Name server @ ''-authz''),
             lsa_Spec = \<lparr>lsas_Server = \<lparr>lsr_Name = lss_Name server\<rparr>, lsas_Client = linkerdClientPolicy server\<rparr>\<rparr>)
            (ls_Servers linkerd))"

section \<open>The compiler\<close>

definition compileRule :: "bool \<Rightarrow> FlowTool \<Rightarrow> CredentialRef list \<Rightarrow> labels \<Rightarrow> Rule" where
  "compileRule requireIdentity tool refs credLabels =
     (let action = (if refs \<noteq> [] then ActionScope else if ft_Action tool = [] then ActionAllow else ft_Action tool)
      in emptyRule\<lparr>r_ID := ruleID (ft_Name tool) action, r_Action := action,
           r_MCPMethod := defaultString (ft_MCPMethod tool) DefaultMCPMethod, r_ToolNames := [ft_Name tool],
           r_RequireIdentity := requireIdentity, r_When := ft_When tool, r_Hold := ft_Hold tool,
           r_Scope := injectScope (ft_Scope tool) refs, r_Budget := ft_Budget tool,
           r_AuditLabels := mergeLabels (ft_AuditLabels tool) credLabels, r_Reason := ft_Reason tool\<rparr>)"

definition compileEntry :: "FlowTool \<Rightarrow> ToolRegistryEntry" where
  "compileEntry tool = \<lparr>te_Name = ft_Name tool, te_Description = ft_Description tool,
     te_AllowedScopes = ft_AllowedScopes tool, te_SignatureHash = ft_SignatureHash tool,
     te_MaxCallsPerMin = ft_MaxCallsPerMin tool\<rparr>"

fun compileTools ::
  "bool \<Rightarrow> (string \<rightharpoonup> FlowCredential) \<Rightarrow> FlowTool list \<Rightarrow> string + (Rule list \<times> ToolRegistryEntry list)" where
  "compileTools requireIdentity creds [] = Inr ([], [])"
| "compileTools requireIdentity creds (tool # tools) =
     (if ft_Name tool = [] then Inl ''tool name is required''
      else case resolveToolCredentials tool creds of
        Inl err \<Rightarrow> Inl err
      | Inr (refs, credLabels) \<Rightarrow>
          (case compileTools requireIdentity creds tools of
             Inl err \<Rightarrow> Inl err
           | Inr (rules, entries) \<Rightarrow>
               Inr (compileRule requireIdentity tool refs credLabels # rules, compileEntry tool # entries)))"

definition defaultDenyRule :: Rule where
  "defaultDenyRule = emptyRule\<lparr>r_ID := ''default-deny'', r_Action := ActionDeny, r_MCPMethod := DefaultMCPMethod,
     r_ToolNames := [''*''], r_Reason := ''no matching agentic flow rule''\<rparr>"

definition flowRequiresIdentity :: "FlowSpec \<Rightarrow> bool" where
  "flowRequiresIdentity spec = (case fs_RequireIdentity spec of None \<Rightarrow> True | Some b \<Rightarrow> b)"

definition flowMetadata :: "AgenticFlow \<Rightarrow> Metadata" where
  "flowMetadata doc =
     (af_Metadata doc)\<lparr>md_Labels := mergeLabels (md_Labels (af_Metadata doc)) (flowLabels (af_Spec doc))\<rparr>"

text \<open>The artifacts of a document whose tools have been compiled.\<close>

definition flowArtifacts :: "AgenticFlow \<Rightarrow> Rule list \<Rightarrow> ToolRegistryEntry list \<Rightarrow> Artifacts" where
  "flowArtifacts doc rules entries =
     (let spec = af_Spec doc; metadata = flowMetadata doc in
      \<lparr>art_Policy = \<lparr>np_APIVersion = af_APIVersion doc, np_Kind = KindNullfieldPolicy, np_Metadata = metadata,
         np_Spec = \<lparr>ps_Selector = fs_Selector spec, ps_Identity = fs_Identity spec, ps_RunToken = None,
           ps_Integrity = fs_Integrity spec, ps_Anomaly = fs_Anomaly spec, ps_Rules = rules @ [defaultDenyRule],
           ps_CircuitBreaker = \<lparr>MaxToolCallsPerSession = 0, MaxSessionDuration = 0, OnTrip = []\<rparr>,
           ps_Audit = fs_Audit spec\<rparr>\<rparr>,
       art_Registry = \<lparr>tr_APIVersion = af_APIVersion doc, tr_Kind = KindToolRegistry, tr_Metadata = metadata,
         tr_Tools = entries\<rparr>,
       art_NetworkPolicies = compileNetworkPolicies doc metadata,
       art_IstioAuthorizationPolicies = compileIstioAuthorizationPolicies doc metadata,
       art_CiliumNetworkPolicies = compileCiliumNetworkPolicies doc metadata,
       art_LinkerdServers = compileLinkerdServers doc metadata,
       art_LinkerdServerAuthorizations = compileLinkerdServerAuthorizations doc metadata\<rparr>)"

definition Flow_Compile :: "AgenticFlow \<Rightarrow> string + Artifacts" where
  "Flow_Compile doc =
     (let spec = af_Spec doc in
      if md_Name (af_Metadata doc) = [] then Inl ''metadata.name is required''
      else if fs_Tools spec = [] then Inl ''spec.tools must declare at least one tool''
      else case validateExplicitControlIntent spec of
        Some err \<Rightarrow> Inl err
      | None \<Rightarrow>
          (case credentialMap (fs_Credentials spec) of
             Inl err \<Rightarrow> Inl err
           | Inr creds \<Rightarrow>
               (case compileTools (flowRequiresIdentity spec) creds (fs_Tools spec) of
                  Inl err \<Rightarrow> Inl err
                | Inr (rules, entries) \<Rightarrow> Inr (flowArtifacts doc rules entries))))"

section \<open>The command\<close>

datatype artifact =
    APolicy NullfieldPolicy
  | ARegistry ToolRegistry
  | ANetworkPolicy NetworkPolicy
  | AIstio IstioAuthorizationPolicy
  | ACilium CiliumNetworkPolicy
  | ALinkerdServer LinkerdServer
  | ALinkerdAuthz LinkerdServerAuthorization

definition artifactDocs :: "Artifacts \<Rightarrow> artifact list" where
  "artifactDocs a = APolicy (art_Policy a) # ARegistry (art_Registry a) #
     map ANetworkPolicy (art_NetworkPolicies a) @ map AIstio (art_IstioAuthorizationPolicies a) @
     map ACilium (art_CiliumNetworkPolicies a) @ map ALinkerdServer (art_LinkerdServers a) @
     map ALinkerdAuthz (art_LinkerdServerAuthorizations a)"

text \<open>The YAML encoder is a parameter: a state, one step per document, and what closing it yields.\<close>

fun encodeAll :: "('s \<Rightarrow> artifact \<Rightarrow> string + 's) \<Rightarrow> 's \<Rightarrow> artifact list \<Rightarrow> string + 's" where
  "encodeAll enc st [] = Inr st"
| "encodeAll enc st (d # ds) = (case enc st d of Inl err \<Rightarrow> Inl err | Inr st' \<Rightarrow> encodeAll enc st' ds)"

definition MarshalArtifactsYAML ::
  "('s \<Rightarrow> artifact \<Rightarrow> string + 's) \<Rightarrow> ('s \<Rightarrow> string + string) \<Rightarrow> 's \<Rightarrow> Artifacts \<Rightarrow> string + string" where
  "MarshalArtifactsYAML enc close st a =
     (case encodeAll enc st (artifactDocs a) of Inl err \<Rightarrow> Inl err | Inr st' \<Rightarrow> close st')"

definition Flow_LoadYAML :: "(string \<Rightarrow> string + AgenticFlow) \<Rightarrow> string \<Rightarrow> string + AgenticFlow" where
  "Flow_LoadYAML decode data = decode data"

text \<open>\<open>run\<close> of \<open>nullfield-compile\<close>; \<open>input\<close> is the file named on the command line, or standard input.\<close>

definition compile_run ::
  "(string \<Rightarrow> string + AgenticFlow) \<Rightarrow> (Artifacts \<Rightarrow> string + string) \<Rightarrow> string list \<Rightarrow> file_read \<Rightarrow> string + string" where
  "compile_run decode marshal args input =
     (if 2 < length args then Inl (''usage: '' @ args ! 0 @ '' [agentic-flow.yaml]'')
      else case input of
        Inl err \<Rightarrow> Inl err
      | Inr data \<Rightarrow>
          (case Flow_LoadYAML decode data of
             Inl err \<Rightarrow> Inl err
           | Inr doc \<Rightarrow> (case Flow_Compile doc of Inl err \<Rightarrow> Inl err | Inr a \<Rightarrow> marshal a)))"

section \<open>What a flow means\<close>

text \<open>
  The decision a flow asks for, read off its tools: the first tool that is meant, if its caller
  is identified as the flow requires, gets its action; a call no tool is meant by is refused.
\<close>

datatype verdict = VdAllow | VdDeny | VdHold | VdScope

definition verdict_of :: "Decision \<Rightarrow> verdict" where
  "verdict_of d = (if d_Held d then VdHold else if d_Scoped d then VdScope else if d_Allowed d then VdAllow else VdDeny)"

definition has_credentials :: "FlowTool \<Rightarrow> bool" where
  "has_credentials tool \<longleftrightarrow> ft_CredentialRefs tool \<noteq> [] \<or> ft_Credentials tool \<noteq> []"

definition flow_action :: "FlowTool \<Rightarrow> Action" where
  "flow_action tool =
     (if has_credentials tool then ActionScope else if ft_Action tool = [] then ActionAllow else ft_Action tool)"

definition tool_meant :: "FlowTool \<Rightarrow> Request \<Rightarrow> bool" where
  "tool_meant tool req \<longleftrightarrow>
     q_Method req = (if ft_MCPMethod tool = [] then ''tools/call'' else ft_MCPMethod tool) \<and>
     (ft_Name tool = ''*'' \<or> EqualFold (ft_Name tool) (q_ToolName req)) \<and>
     matchesWhen (emptyRule\<lparr>r_When := ft_When tool\<rparr>) req"

fun flow_verdict :: "bool \<Rightarrow> FlowTool list \<Rightarrow> Request \<Rightarrow> verdict" where
  "flow_verdict needID [] req = VdDeny"
| "flow_verdict needID (tool # tools) req =
     (if \<not> tool_meant tool req then flow_verdict needID tools req
      else if needID \<and> q_Identity req = None then VdDeny
      else if flow_action tool = ''ALLOW'' then VdAllow
      else if flow_action tool = ''DENY'' then VdDeny
      else if flow_action tool = ''HOLD'' then VdHold
      else if flow_action tool = ''SCOPE'' then VdScope
      else flow_verdict needID tools req)"

lemma resolveRefs_refs:
  "resolveRefs tool creds names refs ls = Inr (refs', ls') \<Longrightarrow> refs' = [] \<longleftrightarrow> names = [] \<and> refs = []"
  by (induction names arbitrary: refs ls) (auto split: option.splits)

lemma resolve_credentials:
  "resolveToolCredentials tool creds = Inr (refs, ls) \<Longrightarrow> refs \<noteq> [] \<longleftrightarrow> has_credentials tool"
  using resolveRefs_refs [of tool creds "ft_CredentialRefs tool" "ft_Credentials tool" "[]" refs ls]
  by (auto simp: resolveToolCredentials_def has_credentials_def)

text \<open>A compiled tool is the rule of some resolved credentials.\<close>

lemma compileTools_Cons:
  assumes "compileTools b creds (tool # tools) = Inr (rules, entries)"
  obtains refs ls rules' entries' where "ft_Name tool \<noteq> []" "resolveToolCredentials tool creds = Inr (refs, ls)"
    "compileTools b creds tools = Inr (rules', entries')"
    "rules = compileRule b tool refs ls # rules'" "entries = compileEntry tool # entries'"
  using assms by (auto split: if_splits sum.splits)

lemma compileRule_sel [simp]:
  "r_CELExpression (compileRule b tool refs ls) = []" "r_Identity (compileRule b tool refs ls) = None"
  "r_Delegation (compileRule b tool refs ls) = None" "r_RequireIdentity (compileRule b tool refs ls) = b"
  "r_Hold (compileRule b tool refs ls) = ft_Hold tool" "r_Budget (compileRule b tool refs ls) = ft_Budget tool"
  "r_Direction (compileRule b tool refs ls) = []" "r_Destination (compileRule b tool refs ls) = []"
  "r_InjectCred (compileRule b tool refs ls) = None" "r_ParamRules (compileRule b tool refs ls) = []"
  by (simp_all add: compileRule_def emptyRule_def Let_def)

lemma compileRule_matches:
  "matchesMethod (compileRule b tool refs ls) req \<and> matchesToolName (compileRule b tool refs ls) req \<and>
     matchesWhen (compileRule b tool refs ls) req \<longleftrightarrow> tool_meant tool req"
  by (auto simp: compileRule_def Let_def matchesMethod_def matchesToolName_def matchesWhen_def tool_meant_def
      defaultString_def DefaultMCPMethod_def)

lemma matchesCEL_none: "r_CELExpression (re_rules e ! i) = [] \<Longrightarrow> matchesCEL e i req = Inr True"
  by (simp add: matchesCEL_def)

lemma evalRule_compiled:
  assumes "resolveToolCredentials tool creds = Inr (refs, ls)" and "matchesCEL e i req = Inr True"
  shows "map_option verdict_of (evalRule e i (compileRule b tool refs ls) req) =
    (if \<not> tool_meant tool req then None
     else if b \<and> q_Identity req = None then Some VdDeny
     else if flow_action tool = ''ALLOW'' then Some VdAllow
     else if flow_action tool = ''DENY'' then Some VdDeny
     else if flow_action tool = ''HOLD'' then Some VdHold
     else if flow_action tool = ''SCOPE'' then Some VdScope else None)"
proof -
  have act: "r_Action (compileRule b tool refs ls) = flow_action tool"
    using resolve_credentials [OF assms(1)] by (auto simp: compileRule_def flow_action_def Let_def)
  show ?thesis
    using compileRule_matches [of b tool refs ls req] assms(2)
    by (auto simp: evalRule_def act evaluateIdentityGuards_def evaluateDelegationGuards_def verdict_of_def action_defs)
qed

lemma evalFrom_compiled:
  assumes "compileTools b creds tools = Inr (rules, entries)"
    and "\<And>k. k \<le> i + length rules \<Longrightarrow> matchesCEL e k req = Inr True"
  shows "verdict_of (evalFrom e i (rules @ [defaultDenyRule]) req) = flow_verdict b tools req"
  using assms
proof (induction tools arbitrary: i rules entries)
  case Nil
  then have "rules = []" "matchesCEL e i req = Inr True" by simp_all
  then show ?case
    by (auto simp: evalRule_def defaultDenyRule_def verdict_of_def evaluateIdentityGuards_def
        evaluateDelegationGuards_def emptyRule_def split: option.splits)
next
  case (Cons tool tools)
  from Cons.prems(1) obtain refs ls rules' entries' where t: "resolveToolCredentials tool creds = Inr (refs, ls)"
    "compileTools b creds tools = Inr (rules', entries')" "rules = compileRule b tool refs ls # rules'"
    by (rule compileTools_Cons)
  have r: "evalFrom e i (rules @ [defaultDenyRule]) req = (case evalRule e i (compileRule b tool refs ls) req of
      Some d \<Rightarrow> d | None \<Rightarrow> evalFrom e (Suc i) (rules' @ [defaultDenyRule]) req)"
    by (simp add: t(3))
  have cel: "matchesCEL e i req = Inr True" by (rule Cons.prems(2)) simp
  have IH: "verdict_of (evalFrom e (Suc i) (rules' @ [defaultDenyRule]) req) = flow_verdict b tools req"
    by (rule Cons.IH [OF t(2)]) (use Cons.prems(2) t(3) in simp)
  show ?case
    using evalRule_compiled [OF t(1) cel, of b] IH
    unfolding r by (cases "evalRule e i (compileRule b tool refs ls) req") (auto split: if_splits)
qed

text \<open>A compiled document: its parts, whatever the credentials resolve to.\<close>

lemma Flow_Compile_parts:
  assumes "Flow_Compile doc = Inr a"
  obtains creds rules entries where
    "validateExplicitControlIntent (af_Spec doc) = None"
    "credentialMap (fs_Credentials (af_Spec doc)) = Inr creds"
    "compileTools (flowRequiresIdentity (af_Spec doc)) creds (fs_Tools (af_Spec doc)) = Inr (rules, entries)"
    "a = flowArtifacts doc rules entries"
  using assms unfolding Flow_Compile_def Let_def
  by (auto split: if_splits option.splits sum.splits)

lemma flowArtifacts_sel [simp]:
  "ps_Rules (np_Spec (art_Policy (flowArtifacts doc rules entries))) = rules @ [defaultDenyRule]"
  "tr_Tools (art_Registry (flowArtifacts doc rules entries)) = entries"
  "ps_Identity (np_Spec (art_Policy (flowArtifacts doc rules entries))) = fs_Identity (af_Spec doc)"
  "ps_Integrity (np_Spec (art_Policy (flowArtifacts doc rules entries))) = fs_Integrity (af_Spec doc)"
  "ps_Anomaly (np_Spec (art_Policy (flowArtifacts doc rules entries))) = fs_Anomaly (af_Spec doc)"
  "ps_RunToken (np_Spec (art_Policy (flowArtifacts doc rules entries))) = None"
  "OnTrip (ps_CircuitBreaker (np_Spec (art_Policy (flowArtifacts doc rules entries)))) = []"
  "art_NetworkPolicies (flowArtifacts doc rules entries) = compileNetworkPolicies doc (flowMetadata doc)"
  "art_IstioAuthorizationPolicies (flowArtifacts doc rules entries) = compileIstioAuthorizationPolicies doc (flowMetadata doc)"
  "art_CiliumNetworkPolicies (flowArtifacts doc rules entries) = compileCiliumNetworkPolicies doc (flowMetadata doc)"
  "art_LinkerdServers (flowArtifacts doc rules entries) = compileLinkerdServers doc (flowMetadata doc)"
  "art_LinkerdServerAuthorizations (flowArtifacts doc rules entries) = compileLinkerdServerAuthorizations doc (flowMetadata doc)"
  by (simp_all add: flowArtifacts_def Let_def)

lemma compiled_no_cel:
  "compileTools b creds tools = Inr (rules, entries) \<Longrightarrow> r \<in> set (rules @ [defaultDenyRule]) \<Longrightarrow> r_CELExpression r = []"
proof (induction tools arbitrary: rules entries)
  case Nil
  then show ?case by (auto simp: defaultDenyRule_def emptyRule_def)
next
  case (Cons tool tools)
  from Cons.prems(1) show ?case
    by (rule compileTools_Cons) (use Cons in auto)
qed

lemma compiled_verdict:
  assumes "compileTools b creds tools = Inr (rules, entries)"
  shows "verdict_of (Evaluate (NewRuleEngine env (rules @ [defaultDenyRule])) req) = flow_verdict b tools req"
proof -
  have "matchesCEL (NewRuleEngine env (rules @ [defaultDenyRule])) k req = Inr True" if "k \<le> length rules" for k
  proof (rule matchesCEL_none)
    have "(rules @ [defaultDenyRule]) ! k \<in> set (rules @ [defaultDenyRule])"
      using that by (intro nth_mem) simp
    from compiled_no_cel [OF assms this] show "r_CELExpression (re_rules (NewRuleEngine env (rules @ [defaultDenyRule])) ! k) = []"
      by simp
  qed
  then show ?thesis
    using evalFrom_compiled [OF assms, of 0] by (simp add: Evaluate_def)
qed

text \<open>A control that names the workloads it selects and whom it admits.\<close>

fun control_closed :: "artifact \<Rightarrow> bool" where
  "control_closed (ANetworkPolicy p) \<longleftrightarrow> MatchLabels (nps_PodSelector (npol_Spec p)) \<noteq> [] \<and>
     (\<forall>e \<in> set (nps_Egress (npol_Spec p)). nge_Ports e \<noteq> [] \<and> nge_To e \<noteq> [] \<and>
        (\<forall>t \<in> set (nge_To e). ipb_CIDR (npe_IPBlock t) \<noteq> []))"
| "control_closed (AIstio p) \<longleftrightarrow> isel_MatchLabels (iaps_Selector (iap_Spec p)) \<noteq> [] \<and>
     (\<forall>r \<in> set (iaps_Rules (iap_Spec p)). iru_From r \<noteq> [] \<and> iru_To r \<noteq> [] \<and>
        (\<forall>f \<in> set (iru_From r). iso_Principals (ifr_Source f) \<noteq> []) \<and>
        (\<forall>t \<in> set (iru_To r). iop_Ports (ito_Operation t) \<noteq> []))"
| "control_closed (ACilium p) \<longleftrightarrow> ces_MatchLabels (cnps_EndpointSelector (cnp_Spec p)) \<noteq> [] \<and>
     (\<forall>i \<in> set (cnps_Ingress (cnp_Spec p)). ci_FromEndpoints i \<noteq> [] \<and>
        (\<forall>t \<in> set (ci_ToPorts i). ctp_Ports t \<noteq> [] \<and> cl7_HTTP (ctp_Rules t) \<noteq> []))"
| "control_closed (ALinkerdServer s) \<longleftrightarrow> MatchLabels (lsb_PodSelector (lsv_Spec s)) \<noteq> []"
| "control_closed (ALinkerdAuthz z) \<longleftrightarrow> \<not> lcp_Unauthenticated (lsas_Client (lsa_Spec z)) \<and>
     (\<exists>tls. lcp_MeshTLS (lsas_Client (lsa_Spec z)) = Some tls \<and> lmt_Identities tls \<noteq> [])"
| "control_closed _ \<longleftrightarrow> True"

lemma compiled_controls_closed:
  assumes "Flow_Compile doc = Inr a" and "x \<in> set (artifactDocs a)"
  shows "control_closed x"
proof -
  from assms(1) obtain rules entries where v: "validateExplicitControlIntent (af_Spec doc) = None"
    and a: "a = flowArtifacts doc rules entries"
    by (rule Flow_Compile_parts)
  note v = v [unfolded validateExplicitControlIntent_def firstErr_None, simplified]
  have "p \<in> set (compileNetworkPolicies doc (flowMetadata doc)) \<Longrightarrow> control_closed (ANetworkPolicy p)" for p
    using v by (auto simp: compileNetworkPolicies_def validateEgress_def Let_def cloneStringMap_def networkPorts_def
        split: option.splits if_splits)
  moreover have "p \<in> set (compileIstioAuthorizationPolicies doc (flowMetadata doc)) \<Longrightarrow> control_closed (AIstio p)" for p
    using v by (auto simp: compileIstioAuthorizationPolicies_def validateIstio_def cloneStringMap_def stringPorts_def
        split: option.splits if_splits)
  moreover have "p \<in> set (compileCiliumNetworkPolicies doc (flowMetadata doc)) \<Longrightarrow> control_closed (ACilium p)" for p
    using v by (auto simp: compileCiliumNetworkPolicies_def validateCilium_def cloneStringMap_def cloneEndpointLabels_def
        ciliumHTTPRules_def split: option.splits if_splits)
  moreover have "s \<in> set (compileLinkerdServers doc (flowMetadata doc)) \<Longrightarrow> control_closed (ALinkerdServer s)" for s
    using v by (auto simp: compileLinkerdServers_def validateLinkerd_def cloneStringMap_def split: option.splits if_splits)
  moreover have "z \<in> set (compileLinkerdServerAuthorizations doc (flowMetadata doc)) \<Longrightarrow> control_closed (ALinkerdAuthz z)" for z
    using v by (auto simp: compileLinkerdServerAuthorizations_def validateLinkerd_def linkerdClientPolicy_def
        split: option.splits if_splits)
  ultimately show ?thesis
    using assms(2) by (auto simp: a artifactDocs_def)
qed

section \<open>Properties\<close>

text \<open>
  C15. The compiler is correct: for every flow that compiles, and every request, the rule engine
  built from the compiled policy decides what the flow says: the first of its tools that is meant
  by the request gets its action, once the caller is identified as the flow requires; and every
  other call is refused.\<close>

theorem flow_compile_correct:
  assumes "Flow_Compile doc = Inr a"
  shows "verdict_of (Evaluate (NewRuleEngine env (ps_Rules (np_Spec (art_Policy a)))) req) =
     flow_verdict (flowRequiresIdentity (af_Spec doc)) (fs_Tools (af_Spec doc)) req"
proof -
  from assms obtain creds rules entries
    where "compileTools (flowRequiresIdentity (af_Spec doc)) creds (fs_Tools (af_Spec doc)) = Inr (rules, entries)"
      and "a = flowArtifacts doc rules entries"
    by (rule Flow_Compile_parts)
  then show ?thesis
    by (simp add: compiled_verdict)
qed

definition demo_tool :: "Action \<Rightarrow> CredentialRef list \<Rightarrow> FlowTool" where
  "demo_tool act creds = \<lparr>ft_Name = ''rm'', ft_Description = [], ft_Action = act, ft_MCPMethod = [], ft_When = None,
     ft_Hold = None, ft_Scope = None, ft_Budget = None, ft_CredentialRefs = [], ft_Credentials = creds,
     ft_AllowedScopes = [], ft_SignatureHash = [], ft_MaxCallsPerMin = 0, ft_AuditLabels = [], ft_Reason = []\<rparr>"

definition demo_flow :: "Action \<Rightarrow> CredentialRef list \<Rightarrow> AgenticFlow" where
  "demo_flow act creds = \<lparr>af_APIVersion = [], af_Kind = ''AgenticFlow'',
     af_Metadata = \<lparr>md_Name = ''f'', md_Namespace = [], md_Labels = []\<rparr>,
     af_Spec = \<lparr>fs_Selector = \<lparr>MatchLabels = [(''app'', ''a'')]\<rparr>, fs_Lane = [], fs_Transport = [], fs_RequireIdentity = Some False,
       fs_Network = None,
       fs_Mesh = Some \<lparr>ms_Istio = Some \<lparr>ia_Principals = [''p''], ia_Ports = [80]\<rparr>, ms_Cilium = None, ms_Linkerd = None\<rparr>,
       fs_GeneratedControls = None, fs_Credentials = [], fs_Identity = None, fs_Integrity = None, fs_Anomaly = None,
       fs_Audit = \<lparr>EmitTo = [], LogLevel = []\<rparr>, fs_Tools = [demo_tool act creds]\<rparr>\<rparr>"

lemma demo_flow_compiles: "\<exists>a. Flow_Compile (demo_flow act creds) = Inr a"
  by (simp add: Flow_Compile_def Let_def demo_flow_def demo_tool_def validateExplicitControlIntent_def validateGeneratedControls_def
      validateEgress_def meshIstio_def meshCilium_def meshLinkerd_def validateIstio_def reject_def credentialMap_def
      resolveToolCredentials_def)

lemma flow_compile_correct_witness:
  "\<exists>a. Flow_Compile (demo_flow ''HOLD'' []) = Inr a \<and>
     verdict_of (Evaluate (NewRuleEngine (\<lambda>_. Inl []) (ps_Rules (np_Spec (art_Policy a))))
       (emptyRequest\<lparr>q_Method := ''tools/call'', q_ToolName := ''rm''\<rparr>)) = VdHold"
proof -
  obtain a where a: "Flow_Compile (demo_flow ''HOLD'' []) = Inr a"
    using demo_flow_compiles by blast
  show ?thesis
    using a flow_compile_correct [OF a, of "\<lambda>_. Inl []" "emptyRequest\<lparr>q_Method := ''tools/call'', q_ToolName := ''rm''\<rparr>"]
    by (simp add: demo_flow_def demo_tool_def flowRequiresIdentity_def tool_meant_def matchesWhen_def emptyRule_def
        flow_action_def has_credentials_def)
qed

text \<open>
  A compiled policy can be loaded exactly when the flow asks for nothing unenforced: the
  compiler itself introduces nothing the loader refuses, so the policy of a flow is accepted iff
  no tool's hold names a notification, every budget only denies, the flow asks neither for chain
  validation nor for sequences, and its identity section is acceptable.\<close>

theorem compiled_policy_loads_iff:
  assumes "Flow_Compile doc = Inr a"
  shows "spec_admissible env (np_Spec (art_Policy a)) \<longleftrightarrow>
     (\<forall>tool \<in> set (fs_Tools (af_Spec doc)).
        (\<forall>h. ft_Hold tool = Some h \<longrightarrow> hc_Notify h = None) \<and>
        (\<forall>b. ft_Budget tool = Some b \<longrightarrow> OnExhausted b \<in> {[], ''DENY''})) \<and>
     (\<forall>g. fs_Integrity (af_Spec doc) = Some g \<longrightarrow> \<not> igc_ChainValidation g) \<and>
     (\<forall>x. fs_Anomaly (af_Spec doc) = Some x \<longrightarrow> an_Sequences x = []) \<and>
     (\<forall>c. fs_Identity (af_Spec doc) = Some c \<longrightarrow> identity_admissible c)"
proof -
  from assms obtain creds rules entries
    where c: "compileTools (flowRequiresIdentity (af_Spec doc)) creds (fs_Tools (af_Spec doc)) = Inr (rules, entries)"
      and a: "a = flowArtifacts doc rules entries"
    by (rule Flow_Compile_parts)
  have "(\<forall>r \<in> set rules. rule_admissible env r) \<longleftrightarrow>
      (\<forall>tool \<in> set tools. (\<forall>h. ft_Hold tool = Some h \<longrightarrow> hc_Notify h = None) \<and>
         (\<forall>b. ft_Budget tool = Some b \<longrightarrow> OnExhausted b \<in> {[], ''DENY''}))"
    if "compileTools b creds tools = Inr (rules, entries)" for b tools rules entries
    using that
  proof (induction tools arbitrary: rules entries)
    case (Cons tool tools)
    from Cons.prems obtain refs ls rules' entries' where t: "compileTools b creds tools = Inr (rules', entries')"
      "rules = compileRule b tool refs ls # rules'"
      by (rule compileTools_Cons)
    show ?case
      unfolding t(2) using Cons.IH [OF t(1)] by (simp add: rule_admissible_def)
  qed simp
  from this [OF c] have rules: "(\<forall>r \<in> set (rules @ [defaultDenyRule]). rule_admissible env r) \<longleftrightarrow>
      (\<forall>tool \<in> set (fs_Tools (af_Spec doc)). (\<forall>h. ft_Hold tool = Some h \<longrightarrow> hc_Notify h = None) \<and>
         (\<forall>b. ft_Budget tool = Some b \<longrightarrow> OnExhausted b \<in> {[], ''DENY''}))"
    by (simp add: rule_admissible_def [of _ defaultDenyRule]) (simp add: defaultDenyRule_def emptyRule_def)
  show ?thesis
    unfolding spec_admissible_def a flowArtifacts_sel rules by simp
qed

lemma compiled_policy_loads_iff_witness:
  "\<exists>a. Flow_Compile (demo_flow ''HOLD'' []) = Inr a \<and> spec_admissible (\<lambda>_. Inl []) (np_Spec (art_Policy a))"
proof -
  obtain a where a: "Flow_Compile (demo_flow ''HOLD'' []) = Inr a"
    using demo_flow_compiles by blast
  show ?thesis
    using a compiled_policy_loads_iff [OF a, of "\<lambda>_. Inl []"] by (simp add: demo_flow_def demo_tool_def)
qed

text \<open>
  No generated network control is open. Whatever a flow declares, if it compiles, then every
  control generated from it selects workloads by at least one label; egress goes to a named
  block and named ports; the Istio policy admits named principals on named ports only; a Cilium
  rule names its peers and at least one HTTP method; and Linkerd admits named mesh identities
  only, never unauthenticated clients.\<close>

theorem generated_controls_closed:
  assumes "Flow_Compile doc = Inr a"
  shows "\<forall>x \<in> set (artifactDocs a). control_closed x"
  using compiled_controls_closed [OF assms] by blast

lemma generated_controls_closed_witness:
  "\<exists>a p. Flow_Compile (demo_flow ''HOLD'' []) = Inr a \<and> AIstio p \<in> set (artifactDocs a) \<and> control_closed (AIstio p)"
proof -
  obtain a where a: "Flow_Compile (demo_flow ''HOLD'' []) = Inr a"
    using demo_flow_compiles by blast
  from a obtain rules entries where "a = flowArtifacts (demo_flow ''HOLD'' []) rules entries"
    by (rule Flow_Compile_parts)
  then have "art_IstioAuthorizationPolicies a \<noteq> []"
    by (simp add: compileIstioAuthorizationPolicies_def meshIstio_def) (simp add: demo_flow_def)
  then obtain p where "p \<in> set (art_IstioAuthorizationPolicies a)"
    by (cases "art_IstioAuthorizationPolicies a") auto
  then have "AIstio p \<in> set (artifactDocs a)"
    by (simp add: artifactDocs_def)
  then show ?thesis
    using a generated_controls_closed [OF a] by blast
qed

text \<open>
  Credentials override the declared action: a tool that lists credentials is compiled to
  \<open>SCOPE\<close> whatever action it declares, so a call that means it is let through with the
  credentials injected even where the flow says \<open>DENY\<close> or \<open>HOLD\<close>.\<close>

theorem credentials_override_action:
  assumes "Flow_Compile doc = Inr a" and "fs_Tools (af_Spec doc) = tool # tools"
    and "has_credentials tool" and "tool_meant tool req" and "q_Identity req \<noteq> None \<or> \<not> flowRequiresIdentity (af_Spec doc)"
  shows "verdict_of (Evaluate (NewRuleEngine env (ps_Rules (np_Spec (art_Policy a)))) req) = VdScope"
proof -
  from assms(1) obtain creds rules entries
    where c: "compileTools (flowRequiresIdentity (af_Spec doc)) creds (fs_Tools (af_Spec doc)) = Inr (rules, entries)"
      and a: "a = flowArtifacts doc rules entries"
    by (rule Flow_Compile_parts)
  have "flow_verdict (flowRequiresIdentity (af_Spec doc)) (fs_Tools (af_Spec doc)) req = VdScope"
    using assms(2-5) by (auto simp: flow_action_def action_defs)
  then show ?thesis
    by (simp add: a compiled_verdict [OF c])
qed

lemma credentials_override_action_witness:
  "\<exists>a. Flow_Compile (demo_flow ''DENY'' [\<lparr>cr_SecretRef = ''k'', cr_From = ''env'', cr_InjectAs = []\<rparr>]) = Inr a \<and>
     verdict_of (Evaluate (NewRuleEngine (\<lambda>_. Inl []) (ps_Rules (np_Spec (art_Policy a))))
       (emptyRequest\<lparr>q_Method := ''tools/call'', q_ToolName := ''rm''\<rparr>)) = VdScope"
proof -
  let ?f = "demo_flow ''DENY'' [\<lparr>cr_SecretRef = ''k'', cr_From = ''env'', cr_InjectAs = []\<rparr>]"
  obtain a where a: "Flow_Compile ?f = Inr a"
    using demo_flow_compiles by blast
  have "verdict_of (Evaluate (NewRuleEngine (\<lambda>_. Inl []) (ps_Rules (np_Spec (art_Policy a))))
       (emptyRequest\<lparr>q_Method := ''tools/call'', q_ToolName := ''rm''\<rparr>)) = VdScope"
    by (rule credentials_override_action [OF a, where tools = "[]" and
          tool = "demo_tool ''DENY'' [\<lparr>cr_SecretRef = ''k'', cr_From = ''env'', cr_InjectAs = []\<rparr>]"])
      (simp_all add: demo_flow_def has_credentials_def demo_tool_def flowRequiresIdentity_def tool_meant_def matchesWhen_def emptyRule_def)
  then show ?thesis using a by blast
qed

end
