(* ===== verification/CrdWatcher.thy ===== *)
theory CrdWatcher
  imports FlowCompiler
begin

text \<open>
  Package \<open>crdwatcher\<close> (\<open>watcher.go\<close>) over the Kubernetes client (\<open>pkg/kube/kube.go\<close>): one pass of the
  controller that reads the custom resources of a namespace and writes the config maps the
  sidecars mount, the status of each flow and the network controls a flow asks to be applied.
  The API server is a parameter: its answer to a request may depend on every request sent before,
  so the history of requests is the state of the outside world.
\<close>

section \<open>Requests\<close>

record generatedArtifactStatus =
  gs_Kind :: string
  gs_Name :: string
  gs_Namespace :: string
  gs_Hash :: string
  gs_Mode :: string
  gs_Applied :: bool

record agenticFlowCondition =
  fcn_Type :: string
  fcn_Status :: string
  fcn_Reason :: string
  fcn_Message :: string
  fcn_LastTransitionTime :: string

record agenticFlowStatus =
  afs_ObservedGeneration :: int
  afs_ArtifactHash :: string
  afs_ConfigMapName :: string
  afs_GeneratedArtifacts :: "generatedArtifactStatus list"
  afs_Conditions :: "agenticFlowCondition list"
  afs_LastReconciledAt :: string

text \<open>What a request carries: a config map, a generated control, or a status.\<close>

datatype kobj = KVal goval | KArtifact artifact | KStatus agenticFlowStatus

record khttp =
  kh_Method :: string
  kh_URL :: string
  kh_ContentType :: string
  kh_Authorization :: string
  kh_Body :: "kobj option"

record kresponse =
  kr_StatusCode :: nat
  kr_Body :: string
  kr_ReadErr :: "string option"

text \<open>
  The outside: the service account's token, the HTTP client and the clock, each at a point of the
  history; URL parsing, and the codecs. \<open>we_JSON\<close> is the error of encoding an object, if it has one.
\<close>

record watch_env =
  we_Base :: string
  we_Token :: "khttp list \<Rightarrow> string + string"
  we_HTTP :: "khttp list \<Rightarrow> khttp \<Rightarrow> string + kresponse"
  we_Now :: "khttp list \<Rightarrow> string"
  we_BadURL :: "string \<Rightarrow> string option"
  we_JSON :: "kobj \<Rightarrow> string option"
  we_Unmarshal :: "string \<Rightarrow> string + gomap option"
  we_Yaml :: "goval \<Rightarrow> string + string"
  we_YamlArtifact :: "artifact \<Rightarrow> string + string"
  we_MarshalArtifacts :: "Artifacts \<Rightarrow> string + string"
  we_DecodeFlow :: "string \<Rightarrow> string + AgenticFlow"
  we_DecodePolicy :: yaml_policy
  we_CEL :: cel_env
  we_SkewFirst :: bool
  we_Sha256Hex :: "string \<Rightarrow> string"

type_synonym history = "khttp list"

definition kube_Do :: "watch_env \<Rightarrow> history \<Rightarrow> khttp \<Rightarrow> history \<times> (string + kresponse)" where
  "kube_Do env h req =
     (case we_Token env h of
        Inl err \<Rightarrow> (h, Inl (''kube: service account token: '' @ err))
      | Inr tok \<Rightarrow>
          let req = req\<lparr>kh_Authorization := ''Bearer '' @ TrimSpace tok\<rparr>
          in (h @ [req], we_HTTP env h req))"

definition request :: "string \<Rightarrow> string \<Rightarrow> string \<Rightarrow> kobj option \<Rightarrow> khttp" where
  "request meth url ctype body =
     \<lparr>kh_Method = meth, kh_URL = url, kh_ContentType = ctype, kh_Authorization = [], kh_Body = body\<rparr>"

definition k8sGet :: "watch_env \<Rightarrow> history \<Rightarrow> string \<Rightarrow> history \<times> (string + gomap option)" where
  "k8sGet env h url =
     (case we_BadURL env url of
        Some err \<Rightarrow> (h, Inl err)
      | None \<Rightarrow>
          (case kube_Do env h (request ''GET'' url [] None) of
             (h, Inl err) \<Rightarrow> (h, Inl err)
           | (h, Inr resp) \<Rightarrow>
               (h, case kr_ReadErr resp of
                     Some err \<Rightarrow> Inl err
                   | None \<Rightarrow>
                       let body = take (2 ^ 20) (kr_Body resp) in
                       if kr_StatusCode resp = 404 then Inl ''not found''
                       else if 400 \<le> kr_StatusCode resp
                       then Inl (''HTTP '' @ itoa (int (kr_StatusCode resp)) @ '': '' @ take 200 body)
                       else we_Unmarshal env body)))"

text \<open>\<open>k8sPut\<close>, \<open>k8sPost\<close> and \<open>k8sMergePatch\<close> differ in the method and the content type only.\<close>

definition k8sSend :: "watch_env \<Rightarrow> string \<Rightarrow> string \<Rightarrow> history \<Rightarrow> string \<Rightarrow> kobj \<Rightarrow> history \<times> string option" where
  "k8sSend env meth ctype h url obj =
     (case we_JSON env obj of
        Some err \<Rightarrow> (h, Some err)
      | None \<Rightarrow>
          (case we_BadURL env url of
             Some err \<Rightarrow> (h, Some err)
           | None \<Rightarrow>
               (case kube_Do env h (request meth url ctype (Some obj)) of
                  (h, Inl err) \<Rightarrow> (h, Some err)
                | (h, Inr resp) \<Rightarrow>
                    (h, if 400 \<le> kr_StatusCode resp
                        then Some (meth @ '' '' @ itoa (int (kr_StatusCode resp)) @ '': '' @ take 512 (kr_Body resp))
                        else None))))"

definition k8sPut where "k8sPut env h url obj = k8sSend env ''PUT'' ''application/json'' h url obj"
definition k8sPost where "k8sPost env h url obj = k8sSend env ''POST'' ''application/json'' h url obj"
definition k8sMergePatch where "k8sMergePatch env h url obj = k8sSend env ''PATCH'' ''application/merge-patch+json'' h url obj"

section \<open>Config maps\<close>

definition configMapObj :: "string \<Rightarrow> string \<Rightarrow> labels \<Rightarrow> labels \<Rightarrow> goval" where
  "configMapObj ns name data ls =
     VMap [(''apiVersion'', VStr ''v1''), (''kind'', VStr ''ConfigMap''),
       (''metadata'', VMap [(''name'', VStr name), (''namespace'', VStr ns),
          (''labels'', VMap (map (\<lambda>(k, v). (k, VStr v)) ls))]),
       (''data'', VMap (map (\<lambda>(k, v). (k, VStr v)) data))]"

definition upsertConfigMap ::
  "watch_env \<Rightarrow> history \<Rightarrow> string \<Rightarrow> string \<Rightarrow> labels \<Rightarrow> labels \<Rightarrow> history \<times> string option" where
  "upsertConfigMap env h ns name data ls =
     (let coll = we_Base env @ ''/api/v1/namespaces/'' @ ns @ ''/configmaps''; url = coll @ ''/'' @ name;
          cm = KVal (configMapObj ns name data ls)
      in case k8sGet env h url of
           (h, Inr (Some existing)) \<Rightarrow> k8sPut env h url cm
         | (h, _) \<Rightarrow> k8sPost env h coll cm)"

section \<open>The watcher\<close>

record Watcher =
  cw_namespace :: string
  cw_activeTargetCM :: string
  cw_activeTargetCMKey :: string
  cw_activeTargetLabel :: string
  cw_lastActiveSig :: string

text \<open>
  The client of the pod's own service account: \<open>host\<close> and \<open>port\<close> are the environment, \<open>hasCerts\<close>
  whether the CA file holds a certificate.
\<close>

record KubeConfig =
  kc_APIServer :: string
  kc_TokenFile :: string
  kc_CAFile :: string

definition serviceAccount :: string where
  "serviceAccount = ''/var/run/secrets/kubernetes.io/serviceaccount/''"

definition kube_InCluster :: "string \<Rightarrow> string \<Rightarrow> string + KubeConfig" where
  "kube_InCluster host port =
     (if host = [] \<or> port = [] then Inl ''kube: not running in-cluster: KUBERNETES_SERVICE_HOST/PORT not set''
      else Inr \<lparr>kc_APIServer = ''https://'' @ host @ '':'' @ port, kc_TokenFile = serviceAccount @ ''token'',
             kc_CAFile = serviceAccount @ ''ca.crt''\<rparr>)"

definition kube_Namespace :: "file_read \<Rightarrow> string + string" where
  "kube_Namespace read = (case read of Inl err \<Rightarrow> Inl err | Inr b \<Rightarrow> Inr (TrimSpace b))"

definition kube_New :: "KubeConfig \<Rightarrow> file_read \<Rightarrow> (string \<Rightarrow> bool) \<Rightarrow> string + string" where
  "kube_New cfg ca hasCerts =
     (case ca of
        Inl err \<Rightarrow> Inl (''kube: API server CA: '' @ err)
      | Inr pem \<Rightarrow> if hasCerts pem then Inr (kc_APIServer cfg) else Inl (''kube: no certificates in '' @ kc_CAFile cfg))"

record WatcherConfig =
  wc_Namespace :: string
  wc_ActiveTargetCM :: string
  wc_ActiveTargetCMKey :: string
  wc_ActiveTargetLabel :: string

text \<open>\<open>New\<close>: the watcher and the base URL of its client.\<close>

definition NewWatcher ::
  "WatcherConfig \<Rightarrow> string \<Rightarrow> string \<Rightarrow> file_read \<Rightarrow> (string \<Rightarrow> bool) \<Rightarrow> file_read \<Rightarrow> string + (Watcher \<times> string)" where
  "NewWatcher cfg host port ca hasCerts nsFile =
     (case kube_InCluster host port of
        Inl err \<Rightarrow> Inl err
      | Inr kcfg \<Rightarrow>
          (case kube_New kcfg ca hasCerts of
             Inl err \<Rightarrow> Inl err
           | Inr api \<Rightarrow>
               (case (if wc_Namespace cfg \<noteq> [] then Inr (wc_Namespace cfg) else kube_Namespace nsFile) of
                  Inl err \<Rightarrow> Inl (''read namespace: '' @ err)
                | Inr ns \<Rightarrow>
                    Inr (\<lparr>cw_namespace = ns, cw_activeTargetCM = wc_ActiveTargetCM cfg,
                          cw_activeTargetCMKey = (if wc_ActiveTargetCMKey cfg = [] then ''policy.yaml'' else wc_ActiveTargetCMKey cfg),
                          cw_activeTargetLabel = wc_ActiveTargetLabel cfg, cw_lastActiveSig = []\<rparr>, api))))"

definition listCRD :: "watch_env \<Rightarrow> Watcher \<Rightarrow> history \<Rightarrow> string \<Rightarrow> history \<times> (string + gomap option)" where
  "listCRD env w h resource =
     k8sGet env h (we_Base env @ ''/apis/nullfield.io/v1alpha1/namespaces/'' @ cw_namespace w @ ''/'' @ resource)"

text \<open>The type assertions on a listing: absent or of another type is the zero value.\<close>

definition objMap :: "gomap \<Rightarrow> string \<Rightarrow> gomap" where
  "objMap m k = (case as_map (mget m k) of None \<Rightarrow> [] | Some x \<Rightarrow> x)"

definition objStr :: "gomap \<Rightarrow> string \<Rightarrow> string" where
  "objStr m k = (case as_str (mget m k) of None \<Rightarrow> [] | Some x \<Rightarrow> x)"

definition objArr :: "gomap \<Rightarrow> string \<Rightarrow> goval list" where
  "objArr m k = (case mget m k of VArr xs \<Rightarrow> xs | _ \<Rightarrow> [])"

definition itemsOf :: "gomap option \<Rightarrow> goval list" where
  "itemsOf doc = (case doc of None \<Rightarrow> [] | Some m \<Rightarrow> objArr m ''items'')"

definition artifactHash :: "watch_env \<Rightarrow> string \<Rightarrow> string" where
  "artifactHash env data = ''sha256:'' @ we_Sha256Hex env data"

definition policyDoc :: "string \<Rightarrow> string \<Rightarrow> gomap \<Rightarrow> goval" where
  "policyDoc name ns spec =
     VMap [(''apiVersion'', VStr ''nullfield.io/v1alpha1''), (''kind'', VStr ''NullfieldPolicy''),
       (''metadata'', VMap [(''name'', VStr name), (''namespace'', VStr ns)]), (''spec'', VMap spec)]"

definition accepts :: "watch_env \<Rightarrow> string \<Rightarrow> string + NullfieldPolicySpec" where
  "accepts env y = ParseSpec (we_DecodePolicy env) (we_CEL env) (we_SkewFirst env) y"

text \<open>The document of a policy, if it encodes and the loader would accept it.\<close>

definition renderPolicy :: "watch_env \<Rightarrow> string \<Rightarrow> string \<Rightarrow> gomap \<Rightarrow> string option" where
  "renderPolicy env name ns spec =
     (case we_Yaml env (policyDoc name ns spec) of
        Inl _ \<Rightarrow> None
      | Inr y \<Rightarrow> (case accepts env y of Inl _ \<Rightarrow> None | Inr _ \<Rightarrow> Some y))"

definition isActive :: "string \<Rightarrow> goval \<Rightarrow> bool" where
  "isActive lab item =
     (case item of
        VMap obj \<Rightarrow> (case mget (objMap obj ''metadata'') ''labels'' of
            VMap ls \<Rightarrow> objStr ls ''nullfield.io/active-for'' = lab
          | _ \<Rightarrow> False)
      | _ \<Rightarrow> False)"

definition syncActivePolicy :: "watch_env \<Rightarrow> Watcher \<Rightarrow> history \<Rightarrow> Watcher \<times> history" where
  "syncActivePolicy env w h =
     (if cw_activeTargetCM w = [] \<or> cw_activeTargetLabel w = [] then (w, h)
      else case listCRD env w h ''nullfieldpolicies'' of
        (h, Inl err) \<Rightarrow> (w, h)
      | (h, Inr policies) \<Rightarrow>
          (case List.find (isActive (cw_activeTargetLabel w)) (itemsOf policies) of
             Some (VMap picked) \<Rightarrow>
               let name = objStr (objMap picked ''metadata'') ''name'' in
               (case mget picked ''spec'' of
                  VMap spec \<Rightarrow>
                    (case renderPolicy env name (cw_namespace w) spec of
                       None \<Rightarrow> (w, h)
                     | Some y \<Rightarrow>
                         let sig = name @ '':'' @ artifactHash env y in
                         if sig = cw_lastActiveSig w then (w, h)
                         else case upsertConfigMap env h (cw_namespace w) (cw_activeTargetCM w)
                                [(cw_activeTargetCMKey w, y)]
                                [(''nullfield.io/managed-by'', ''crd-controller''), (''nullfield.io/active-source'', name),
                                 (''nullfield.io/sidecar-for'', cw_activeTargetLabel w)] of
                           (h, Some err) \<Rightarrow> (w, h)
                         | (h, None) \<Rightarrow> (w\<lparr>cw_lastActiveSig := sig\<rparr>, h))
                | _ \<Rightarrow> (w, h))
           | _ \<Rightarrow> (w, h)))"

definition namespaceOr :: "string \<Rightarrow> string \<Rightarrow> string" where
  "namespaceOr v fallback = (if v = [] then fallback else v)"

definition sourceLabels :: "string \<Rightarrow> string \<Rightarrow> labels" where
  "sourceLabels kind name = [(''nullfield.io/managed-by'', ''crd-controller''), (''nullfield.io/source-kind'', kind),
     (''nullfield.io/source-name'', name)]"

definition syncPolicy :: "watch_env \<Rightarrow> Watcher \<Rightarrow> goval \<Rightarrow> history \<Rightarrow> history" where
  "syncPolicy env w item h =
     (case item of
        VMap obj \<Rightarrow>
          let meta = objMap obj ''metadata''; name = objStr meta ''name''; ns = namespaceOr (objStr meta ''namespace'') (cw_namespace w)
          in (case mget obj ''spec'' of
                VMap spec \<Rightarrow>
                  (case renderPolicy env name ns spec of
                     None \<Rightarrow> h
                   | Some y \<Rightarrow> fst (upsertConfigMap env h ns (''nullfield-policy-'' @ name) [(''policy.yaml'', y)]
                       (sourceLabels ''NullfieldPolicy'' name)))
              | _ \<Rightarrow> h)
      | _ \<Rightarrow> h)"

text \<open>A loop over the items of a listing, each leaving the history it found.\<close>

definition syncEach :: "watch_env \<Rightarrow> Watcher \<Rightarrow> string \<Rightarrow> (goval \<Rightarrow> history \<Rightarrow> history) \<Rightarrow> history \<Rightarrow> history" where
  "syncEach env w resource f h =
     (case listCRD env w h resource of
        (h, Inl err) \<Rightarrow> h
      | (h, Inr doc) \<Rightarrow> fold f (itemsOf doc) h)"

definition syncPolicies :: "watch_env \<Rightarrow> Watcher \<Rightarrow> history \<Rightarrow> history" where
  "syncPolicies env w h = syncEach env w ''nullfieldpolicies'' (syncPolicy env w) h"

definition syncRegistry :: "watch_env \<Rightarrow> Watcher \<Rightarrow> goval \<Rightarrow> history \<Rightarrow> history" where
  "syncRegistry env w item h =
     (case item of
        VMap obj \<Rightarrow>
          let meta = objMap obj ''metadata''; name = objStr meta ''name''; ns = namespaceOr (objStr meta ''namespace'') (cw_namespace w)
          in (case we_Yaml env (VMap [(''apiVersion'', VStr ''nullfield/v1alpha1''), (''kind'', VStr ''ToolRegistry''),
                  (''metadata'', VMap [(''name'', VStr name)]), (''tools'', VArr (objArr obj ''tools''))]) of
                Inl err \<Rightarrow> h
              | Inr y \<Rightarrow> fst (upsertConfigMap env h ns (''nullfield-registry-'' @ name) [(''tools.yaml'', y)]
                   (sourceLabels ''ToolRegistry'' name)))
      | _ \<Rightarrow> h)"

definition syncRegistries :: "watch_env \<Rightarrow> Watcher \<Rightarrow> history \<Rightarrow> history" where
  "syncRegistries env w h = syncEach env w ''toolregistries'' (syncRegistry env w) h"

section \<open>Generated controls\<close>

record generatedControlObject =
  gco_Kind :: string
  gco_Name :: string
  gco_Namespace :: string
  gco_Object :: artifact

definition generatedControlObjects :: "string \<Rightarrow> Artifacts \<Rightarrow> generatedControlObject list" where
  "generatedControlObjects ns a =
     (let mk = (\<lambda>kind md obj. \<lparr>gco_Kind = kind, gco_Name = md_Name md, gco_Namespace = namespaceOr (md_Namespace md) ns, gco_Object = obj\<rparr>)
      in map (\<lambda>x. mk (npol_Kind x) (npol_Metadata x) (ANetworkPolicy x)) (art_NetworkPolicies a) @
         map (\<lambda>x. mk (iap_Kind x) (iap_Metadata x) (AIstio x)) (art_IstioAuthorizationPolicies a) @
         map (\<lambda>x. mk (cnp_Kind x) (cnp_Metadata x) (ACilium x)) (art_CiliumNetworkPolicies a) @
         map (\<lambda>x. mk (lsv_Kind x) (lsv_Metadata x) (ALinkerdServer x)) (art_LinkerdServers a) @
         map (\<lambda>x. mk (lsa_Kind x) (lsa_Metadata x) (ALinkerdAuthz x)) (art_LinkerdServerAuthorizations a))"

definition generatedControlResource :: "string \<Rightarrow> (string \<times> string) option" where
  "generatedControlResource kind =
     map_of [(''NetworkPolicy'', (''networking.k8s.io/v1'', ''networkpolicies'')),
       (''AuthorizationPolicy'', (''security.istio.io/v1beta1'', ''authorizationpolicies'')),
       (''CiliumNetworkPolicy'', (''cilium.io/v2'', ''ciliumnetworkpolicies'')),
       (''Server'', (''policy.linkerd.io/v1beta3'', ''servers'')),
       (''ServerAuthorization'', (''policy.linkerd.io/v1beta1'', ''serverauthorizations''))] kind"

definition upsertGeneratedControl ::
  "watch_env \<Rightarrow> Watcher \<Rightarrow> history \<Rightarrow> generatedControlObject \<Rightarrow> history \<times> string option" where
  "upsertGeneratedControl env w h obj =
     (case generatedControlResource (gco_Kind obj) of
        None \<Rightarrow> (h, Some (''unsupported generated control kind '' @ Quote (gco_Kind obj)))
      | Some (apiVersion, plural) \<Rightarrow>
          let ns = (if gco_Namespace obj = [] then cw_namespace w else gco_Namespace obj);
              coll = we_Base env @ ''/apis/'' @ apiVersion @ ''/namespaces/'' @ ns @ ''/'' @ plural;
              url = coll @ ''/'' @ gco_Name obj
          in (case k8sGet env h url of
                (h, Inr (Some existing)) \<Rightarrow> k8sPut env h url (KArtifact (gco_Object obj))
              | (h, _) \<Rightarrow> k8sPost env h coll (KArtifact (gco_Object obj))))"

definition newAgenticFlowCondition :: "watch_env \<Rightarrow> history \<Rightarrow> string \<Rightarrow> string \<Rightarrow> string \<Rightarrow> string \<Rightarrow> agenticFlowCondition" where
  "newAgenticFlowCondition env h conditionType status reason message =
     \<lparr>fcn_Type = conditionType, fcn_Status = status, fcn_Reason = reason, fcn_Message = message,
      fcn_LastTransitionTime = we_Now env h\<rparr>"

definition controlMode :: "GeneratedControlsSpec option \<Rightarrow> string" where
  "controlMode spec = (case spec of None \<Rightarrow> ''preview'' | Some s \<Rightarrow> if gc_Mode s \<noteq> [] then gc_Mode s else ''preview'')"

definition applySet :: "GeneratedControlsSpec option \<Rightarrow> string set" where
  "applySet spec = (case spec of None \<Rightarrow> {} | Some s \<Rightarrow> set (gc_Apply s))"

text \<open>The loop: the history, the status of each control, the errors of those that were applied.\<close>

fun reconcileLoop ::
  "watch_env \<Rightarrow> Watcher \<Rightarrow> GeneratedControlsSpec option \<Rightarrow> generatedControlObject list \<Rightarrow> history \<Rightarrow>
     history \<times> generatedArtifactStatus list \<times> string list" where
  "reconcileLoop env w spec [] h = (h, [], [])"
| "reconcileLoop env w spec (obj # objs) h =
     (let hash = (case we_YamlArtifact env (gco_Object obj) of Inl _ \<Rightarrow> [] | Inr y \<Rightarrow> artifactHash env y);
          (h1, applied, errs) =
            (if controlMode spec = ''apply'' \<and> gco_Kind obj \<in> applySet spec
             then (case upsertGeneratedControl env w h obj of
                     (h', Some err) \<Rightarrow> (h', False, [gco_Kind obj @ ''/'' @ gco_Name obj @ '': '' @ err])
                   | (h', None) \<Rightarrow> (h', True, []))
             else (h, False, []));
          (h2, sts, es) = reconcileLoop env w spec objs h1
      in (h2, \<lparr>gs_Kind = gco_Kind obj, gs_Name = gco_Name obj, gs_Namespace = gco_Namespace obj, gs_Hash = hash,
                gs_Mode = controlMode spec, gs_Applied = applied\<rparr> # sts, errs @ es))"

definition reconcileGeneratedControls ::
  "watch_env \<Rightarrow> Watcher \<Rightarrow> string \<Rightarrow> GeneratedControlsSpec option \<Rightarrow> Artifacts \<Rightarrow> history \<Rightarrow>
     history \<times> generatedArtifactStatus list \<times> agenticFlowCondition list" where
  "reconcileGeneratedControls env w ns spec a h =
     (let (h, statuses, errs) = reconcileLoop env w spec (generatedControlObjects ns a) h
      in if statuses = [] then (h, [], [])
         else if controlMode spec \<noteq> ''apply''
         then (h, statuses, [newAgenticFlowCondition env h ''GeneratedControlsPreviewed'' ''True'' ''PreviewReady''
                 ''Generated controls are available in compiled.yaml''])
         else if errs \<noteq> []
         then (h, statuses, [newAgenticFlowCondition env h ''GeneratedControlsApplied'' ''False'' ''ApplyFailed'' (Join errs ''; '')])
         else (h, statuses, [newAgenticFlowCondition env h ''GeneratedControlsApplied'' ''True'' ''ApplySucceeded''
                 ''Requested generated controls were applied'']))"

section \<open>Flows\<close>

definition resourceGeneration :: "gomap \<Rightarrow> int" where
  "resourceGeneration obj = (case mget (objMap obj ''metadata'') ''generation'' of VInt n \<Rightarrow> n | VNum n \<Rightarrow> wrap64 n | _ \<Rightarrow> 0)"

definition patchAgenticFlowStatus :: "watch_env \<Rightarrow> history \<Rightarrow> string \<Rightarrow> string \<Rightarrow> agenticFlowStatus \<Rightarrow> history" where
  "patchAgenticFlowStatus env h ns name st =
     fst (k8sMergePatch env h (we_Base env @ ''/apis/nullfield.io/v1alpha1/namespaces/'' @ ns @ ''/agenticflows/'' @ name @ ''/status'')
       (KStatus (st\<lparr>afs_LastReconciledAt := we_Now env h\<rparr>)))"

definition parseAgenticFlow :: "watch_env \<Rightarrow> gomap \<Rightarrow> string \<Rightarrow> string + (AgenticFlow \<times> string \<times> string)" where
  "parseAgenticFlow env obj fallbackNamespace =
     (case we_Yaml env (VMap obj) of
        Inl err \<Rightarrow> Inl err
      | Inr data \<Rightarrow>
          (case Flow_LoadYAML (we_DecodeFlow env) data of
             Inl err \<Rightarrow> Inl err
           | Inr doc \<Rightarrow>
               if md_Name (af_Metadata doc) = [] then Inl ''metadata.name is required''
               else
                 let ns = namespaceOr (md_Namespace (af_Metadata doc)) fallbackNamespace;
                     doc = doc\<lparr>af_Metadata := (af_Metadata doc)\<lparr>md_Namespace := ns\<rparr>,
                       af_APIVersion := (if af_APIVersion doc = [] then ''nullfield.io/v1alpha1'' else af_APIVersion doc),
                       af_Kind := (if af_Kind doc = [] then KindAgenticFlow else af_Kind doc)\<rparr>
                 in Inr (doc, md_Name (af_Metadata doc), ns)))"

definition failedStatus :: "watch_env \<Rightarrow> history \<Rightarrow> gomap \<Rightarrow> string \<Rightarrow> string \<Rightarrow> agenticFlowStatus" where
  "failedStatus env h obj reason err =
     \<lparr>afs_ObservedGeneration = resourceGeneration obj, afs_ArtifactHash = [], afs_ConfigMapName = [], afs_GeneratedArtifacts = [],
      afs_Conditions = [newAgenticFlowCondition env h ''Compiled'' ''False'' reason err], afs_LastReconciledAt = []\<rparr>"

text \<open>The publication of a flow whose artifacts have been encoded.\<close>

definition publishFlow ::
  "watch_env \<Rightarrow> Watcher \<Rightarrow> gomap \<Rightarrow> AgenticFlow \<Rightarrow> Artifacts \<Rightarrow> string \<Rightarrow> string \<Rightarrow> string \<Rightarrow> string \<Rightarrow> string \<Rightarrow> history \<Rightarrow> history" where
  "publishFlow env w obj doc a name ns compiledYAML policyYAML registryYAML h =
     (let (h, controls, conds) = reconcileGeneratedControls env w ns (fs_GeneratedControls (af_Spec doc)) a h;
          cmName = ''nullfield-flow-'' @ name;
          (h, err) = upsertConfigMap env h ns cmName
             [(''compiled.yaml'', compiledYAML), (''policy.yaml'', policyYAML), (''tools.yaml'', registryYAML)]
             (sourceLabels ''AgenticFlow'' name);
          cond = (case err of
             Some e \<Rightarrow> newAgenticFlowCondition env h ''Compiled'' ''False'' ''ConfigMapSyncFailed'' e
           | None \<Rightarrow> newAgenticFlowCondition env h ''Compiled'' ''True'' ''CompileSucceeded''
               ''AgenticFlow compiled and synced to ConfigMap'')
      in patchAgenticFlowStatus env h ns name
           \<lparr>afs_ObservedGeneration = resourceGeneration obj, afs_ArtifactHash = artifactHash env compiledYAML,
            afs_ConfigMapName = cmName, afs_GeneratedArtifacts = controls, afs_Conditions = cond # conds,
            afs_LastReconciledAt = []\<rparr>)"

definition syncAgenticFlow :: "watch_env \<Rightarrow> Watcher \<Rightarrow> goval \<Rightarrow> history \<Rightarrow> history" where
  "syncAgenticFlow env w item h =
     (case item of
        VMap obj \<Rightarrow>
          (case parseAgenticFlow env obj (cw_namespace w) of
             Inl err \<Rightarrow> h
           | Inr (doc, name, ns) \<Rightarrow>
               (case Flow_Compile doc of
                  Inl err \<Rightarrow> patchAgenticFlowStatus env h ns name (failedStatus env h obj ''CompileFailed'' err)
                | Inr a \<Rightarrow>
                    (case we_MarshalArtifacts env a of
                       Inl err \<Rightarrow> patchAgenticFlowStatus env h ns name (failedStatus env h obj ''MarshalFailed'' err)
                     | Inr compiledYAML \<Rightarrow>
                         (case we_YamlArtifact env (APolicy (art_Policy a)) of
                            Inl err \<Rightarrow> h
                          | Inr policyYAML \<Rightarrow>
                              (case accepts env policyYAML of
                                 Inl err \<Rightarrow> patchAgenticFlowStatus env h ns name (failedStatus env h obj ''PolicyInvalid'' err)
                               | Inr _ \<Rightarrow>
                                   (case we_YamlArtifact env (ARegistry (art_Registry a)) of
                                      Inl err \<Rightarrow> h
                                    | Inr registryYAML \<Rightarrow>
                                        publishFlow env w obj doc a name ns compiledYAML policyYAML registryYAML h))))))
      | _ \<Rightarrow> h)"

definition syncAgenticFlows :: "watch_env \<Rightarrow> Watcher \<Rightarrow> history \<Rightarrow> history" where
  "syncAgenticFlows env w h = syncEach env w ''agenticflows'' (syncAgenticFlow env w) h"

definition Watcher_sync :: "watch_env \<Rightarrow> Watcher \<Rightarrow> history \<Rightarrow> Watcher \<times> history" where
  "Watcher_sync env w h =
     syncActivePolicy env w (syncRegistries env w (syncPolicies env w (syncAgenticFlows env w h)))"

text \<open>\<open>Run\<close>: a pass at the start and one per tick.\<close>

fun Watcher_Run :: "watch_env \<Rightarrow> Watcher \<Rightarrow> history \<Rightarrow> nat \<Rightarrow> Watcher \<times> history" where
  "Watcher_Run env w h 0 = Watcher_sync env w h"
| "Watcher_Run env w h (Suc ticks) = (case Watcher_Run env w h ticks of (w, h) \<Rightarrow> Watcher_sync env w h)"

section \<open>What is sent\<close>

text \<open>Sending requests that each satisfy a predicate of what was sent before and the request.\<close>

inductive emits :: "(history \<Rightarrow> khttp \<Rightarrow> bool) \<Rightarrow> history \<Rightarrow> history \<Rightarrow> bool" for P where
  emits_refl: "emits P h h"
| emits_step: "emits P h h' \<Longrightarrow> P h' r \<Longrightarrow> emits P h (h' @ [r])"

lemma emits_one: "P h r \<Longrightarrow> emits P h (h @ [r])"
  by (rule emits_step [OF emits_refl])

lemma emits_trans: "emits P h' h'' \<Longrightarrow> emits P h h' \<Longrightarrow> emits P h h''"
  by (induction rule: emits.induct) (auto intro: emits_step)

lemma emits_from_start: "emits P h h' \<Longrightarrow> h = [] \<Longrightarrow> h' = pre @ r # post \<Longrightarrow> P pre r"
proof (induction arbitrary: pre r post rule: emits.induct)
  case (emits_step h h' q)
  then show ?case by (cases post rule: rev_cases) auto
qed simp

text \<open>A write of the config map \<open>name\<close> that the API server has just accepted.\<close>

definition cm_written :: "watch_env \<Rightarrow> history \<Rightarrow> string \<Rightarrow> bool" where
  "cm_written env h name \<longleftrightarrow>
     (\<exists>h' r ns data ls resp. h = h' @ [r] \<and> kh_Body r = Some (KVal (configMapObj ns name data ls)) \<and>
        we_HTTP env h' r = Inr resp \<and> kr_StatusCode resp < 400)"

text \<open>
  The listing of flows, and the flows of the last one: those in the body of the last answer to that
  request. \<open>home\<close> is the namespace of the watcher.
\<close>

definition flow_listing :: "watch_env \<Rightarrow> string \<Rightarrow> khttp \<Rightarrow> bool" where
  "flow_listing env home r \<longleftrightarrow> kh_Method r = ''GET'' \<and>
     kh_URL r = we_Base env @ ''/apis/nullfield.io/v1alpha1/namespaces/'' @ home @ ''/agenticflows''"

definition current_flow :: "watch_env \<Rightarrow> string \<Rightarrow> history \<Rightarrow> gomap \<Rightarrow> bool" where
  "current_flow env home h obj \<longleftrightarrow>
     (\<exists>pre q post resp listed. h = pre @ q # post \<and> flow_listing env home q \<and> (\<forall>q' \<in> set post. \<not> flow_listing env home q') \<and>
        we_HTTP env pre q = Inr resp \<and> kr_StatusCode resp < 400 \<and>
        we_Unmarshal env (take (2 ^ 20) (kr_Body resp)) = Inr (Some listed) \<and> VMap obj \<in> set (objArr listed ''items''))"

text \<open>A control that a flow of the last listing has, and asks to be applied.\<close>

definition asked_for :: "watch_env \<Rightarrow> string \<Rightarrow> history \<Rightarrow> artifact \<Rightarrow> bool" where
  "asked_for env home h x \<longleftrightarrow>
     (\<exists>obj doc name ns a spec control. current_flow env home h obj \<and> parseAgenticFlow env obj home = Inr (doc, name, ns) \<and>
        Flow_Compile doc = Inr a \<and> fs_GeneratedControls (af_Spec doc) = Some spec \<and> gc_Mode spec = ''apply'' \<and>
        control \<in> set (generatedControlObjects ns a) \<and> gco_Object control = x \<and> gco_Kind control \<in> set (gc_Apply spec))"

text \<open>The three documents of a resource that was parsed as a flow and compiled.\<close>

definition compiled_flow ::
  "watch_env \<Rightarrow> string \<Rightarrow> gomap \<Rightarrow> AgenticFlow \<Rightarrow> string \<Rightarrow> string \<Rightarrow> string \<Rightarrow> string \<Rightarrow> string \<Rightarrow> bool" where
  "compiled_flow env home obj doc name ns compiledYAML policyYAML registryYAML \<longleftrightarrow>
     (\<exists>a. parseAgenticFlow env obj home = Inr (doc, name, ns) \<and> Flow_Compile doc = Inr a \<and>
        we_MarshalArtifacts env a = Inr compiledYAML \<and> we_YamlArtifact env (APolicy (art_Policy a)) = Inr policyYAML \<and>
        we_YamlArtifact env (ARegistry (art_Registry a)) = Inr registryYAML)"

abbreviation flowData :: "string \<Rightarrow> string \<Rightarrow> string \<Rightarrow> labels" where
  "flowData compiledYAML policyYAML registryYAML \<equiv>
     [(''compiled.yaml'', compiledYAML), (''policy.yaml'', policyYAML), (''tools.yaml'', registryYAML)]"

definition data_ok :: "watch_env \<Rightarrow> string \<Rightarrow> history \<Rightarrow> string \<Rightarrow> string \<Rightarrow> labels \<Rightarrow> bool" where
  "data_ok env home h ns cm data \<longleftrightarrow>
     (\<forall>(k, y) \<in> set data. k \<in> {''tools.yaml'', ''compiled.yaml''} \<or> (\<exists>spec. accepts env y = Inr spec)) \<and>
     (\<forall>c y t. data = flowData c y t \<longrightarrow> (\<exists>obj doc name. current_flow env home h obj \<and>
        compiled_flow env home obj doc name ns c y t \<and> cm = ''nullfield-flow-'' @ name))"

fun body_ok :: "watch_env \<Rightarrow> string \<Rightarrow> history \<Rightarrow> kobj \<Rightarrow> bool" where
  "body_ok env home h (KVal v) \<longleftrightarrow> (\<forall>ns cm data ls. v = configMapObj ns cm data ls \<longrightarrow> data_ok env home h ns cm data)"
| "body_ok env home h (KArtifact x) \<longleftrightarrow> asked_for env home h x"
| "body_ok env home h (KStatus st) \<longleftrightarrow>
     (\<forall>c \<in> set (afs_Conditions st). fcn_Type c = ''Compiled'' \<longrightarrow> fcn_Status c = ''True'' \<longrightarrow> cm_written env h (afs_ConfigMapName st))"

definition request_ok :: "watch_env \<Rightarrow> string \<Rightarrow> history \<Rightarrow> khttp \<Rightarrow> bool" where
  "request_ok env home h r \<longleftrightarrow> (\<forall>b. kh_Body r = Some b \<longrightarrow> body_ok env home h b)"

abbreviation proper :: "watch_env \<Rightarrow> string \<Rightarrow> history \<Rightarrow> history \<Rightarrow> bool" where
  "proper env home \<equiv> emits (request_ok env home)"

text \<open>In order, and without listing the flows again.\<close>

abbreviation quiet :: "watch_env \<Rightarrow> string \<Rightarrow> history \<Rightarrow> history \<Rightarrow> bool" where
  "quiet env home \<equiv> emits (\<lambda>h r. request_ok env home h r \<and> \<not> flow_listing env home r)"

lemma quiet_proper: "quiet env home h h' \<Longrightarrow> proper env home h h'"
  by (induction rule: emits.induct) (auto intro: emits_refl emits_step)

lemma current_kept: "quiet env home h h' \<Longrightarrow> current_flow env home h obj \<Longrightarrow> current_flow env home h' obj"
proof (induction rule: emits.induct)
  case (emits_step h h' r)
  then obtain pre q post resp listed where "h' = pre @ q # post" "flow_listing env home q" "\<forall>q' \<in> set post. \<not> flow_listing env home q'"
    "we_HTTP env pre q = Inr resp" "kr_StatusCode resp < 400"
    "we_Unmarshal env (take (2 ^ 20) (kr_Body resp)) = Inr (Some listed)" "VMap obj \<in> set (objArr listed ''items'')"
    unfolding current_flow_def by blast
  with emits_step.hyps(2) show ?case
    unfolding current_flow_def by (intro exI [of _ pre] exI [of _ q] exI [of _ "post @ [r]"] exI [of _ resp] exI [of _ listed]) auto
qed

lemma asked_kept: "quiet env home h h' \<Longrightarrow> asked_for env home h x \<Longrightarrow> asked_for env home h' x"
  unfolding asked_for_def using current_kept by blast

lemma data_kept: "quiet env home h h' \<Longrightarrow> data_ok env home h ns cm data \<Longrightarrow> data_ok env home h' ns cm data"
proof -
  assume q: "quiet env home h h'" and d: "data_ok env home h ns cm data"
  have "\<exists>obj doc name. current_flow env home h' obj \<and> compiled_flow env home obj doc name ns c y t \<and> cm = ''nullfield-flow-'' @ name"
    if "data = flowData c y t" for c y t
    using d [unfolded data_ok_def, THEN conjunct2, rule_format, OF that] current_kept [OF q] by blast
  then show ?thesis
    using d [unfolded data_ok_def, THEN conjunct1] unfolding data_ok_def by simp
qed

lemma configMapObj_inj:
  "configMapObj ns name data ls = configMapObj ns' name' data' ls' \<Longrightarrow> ns = ns' \<and> name = name' \<and> data = data'"
  by (auto simp: configMapObj_def inj_on_def elim!: list.inj_map_strong [rotated])

lemma kube_Do_proper:
  "kube_Do env h req = (h', x) \<Longrightarrow> (\<And>b. kh_Body req = Some b \<Longrightarrow> body_ok env home h b) \<Longrightarrow> proper env home h h'"
  by (auto simp: kube_Do_def Let_def request_ok_def intro: emits_refl emits_one split: sum.splits)

lemma kube_Do_quiet:
  "kube_Do env h req = (h', x) \<Longrightarrow> (\<And>b. kh_Body req = Some b \<Longrightarrow> body_ok env home h b) \<Longrightarrow> \<not> flow_listing env home req \<Longrightarrow>
   quiet env home h h'"
  by (auto simp: kube_Do_def Let_def request_ok_def flow_listing_def intro: emits_refl emits_one split: sum.splits)

lemma k8sGet_proper: "k8sGet env h url = (h', x) \<Longrightarrow> proper env home h h'"
  by (auto simp: k8sGet_def request_def intro: emits_refl dest: kube_Do_proper split: option.splits prod.splits sum.splits)

lemma k8sGet_quiet:
  assumes "k8sGet env h url = (h', x)" and "url \<noteq> we_Base env @ ''/apis/nullfield.io/v1alpha1/namespaces/'' @ home @ ''/agenticflows''"
  shows "quiet env home h h'"
  using assms kube_Do_quiet [of env h "request ''GET'' url [] None" _ _ home]
  by (auto simp: k8sGet_def request_def flow_listing_def intro: emits_refl split: option.splits prod.splits sum.splits)

lemma k8sGet_listed:
  assumes "k8sGet env h (we_Base env @ ''/apis/nullfield.io/v1alpha1/namespaces/'' @ home @ ''/agenticflows'') = (h', Inr (Some listed))"
    and "VMap obj \<in> set (objArr listed ''items'')"
  shows "current_flow env home h' obj"
proof -
  obtain q resp where "h' = h @ [q]" "flow_listing env home q" "we_HTTP env h q = Inr resp" "\<not> 400 \<le> kr_StatusCode resp"
    "we_Unmarshal env (take (2 ^ 20) (kr_Body resp)) = Inr (Some listed)"
    using assms(1) by (auto simp: k8sGet_def kube_Do_def request_def flow_listing_def Let_def split: option.splits sum.splits if_splits)
  with assms(2) show ?thesis
    unfolding current_flow_def by (intro exI [of _ h] exI [of _ q] exI [of _ "[]"] exI [of _ resp] exI [of _ listed]) auto
qed

lemma k8sSend_quiet:
  assumes "k8sSend env meth ctype h url obj = (h', e)" and "body_ok env home h obj" and "meth \<noteq> ''GET''"
  shows "quiet env home h h'"
  using assms kube_Do_quiet [of env h "request meth url ctype (Some obj)" _ _ home]
  by (auto simp: k8sSend_def request_def flow_listing_def intro: emits_refl split: option.splits prod.splits sum.splits)

lemma k8sSend_accepted:
  assumes "k8sSend env meth ctype h url obj = (h', None)"
  obtains r resp where "h' = h @ [r]" "kh_Body r = Some obj" "we_HTTP env h r = Inr resp" "kr_StatusCode resp < 400"
  using assms by (auto simp: k8sSend_def kube_Do_def request_def Let_def not_le split: option.splits prod.splits sum.splits if_splits)

text \<open>An update reads and then writes: what it does follows from the write.\<close>

lemma upsert_write:
  assumes "upsertConfigMap env h ns name data ls = (h', e)"
  obtains h1 meth url where "\<And>home. quiet env home h h1" "meth \<noteq> ''GET''"
    "k8sSend env meth ''application/json'' h1 url (KVal (configMapObj ns name data ls)) = (h', e)"
proof -
  let ?coll = "we_Base env @ ''/api/v1/namespaces/'' @ ns @ ''/configmaps''"
  let ?url = "?coll @ ''/'' @ name"
  obtain h1 x where g: "k8sGet env h ?url = (h1, x)" by fastforce
  have "quiet env home h h1" for home
    by (rule k8sGet_quiet [OF g]) simp
  moreover obtain meth url where "meth \<noteq> ''GET''"
    "k8sSend env meth ''application/json'' h1 url (KVal (configMapObj ns name data ls)) = (h', e)"
  proof (cases "\<exists>existing. x = Inr (Some existing)")
    case True
    with assms g have "k8sSend env ''PUT'' ''application/json'' h1 ?url (KVal (configMapObj ns name data ls)) = (h', e)"
      by (auto simp: upsertConfigMap_def k8sPut_def Let_def)
    then show ?thesis using that [of "''PUT''"] by simp
  next
    case False
    with assms g have "k8sSend env ''POST'' ''application/json'' h1 ?coll (KVal (configMapObj ns name data ls)) = (h', e)"
      by (auto simp: upsertConfigMap_def k8sPost_def Let_def split: sum.splits option.splits)
    then show ?thesis using that [of "''POST''"] by simp
  qed
  ultimately show thesis using that by blast
qed

lemma upsert_quiet:
  assumes "upsertConfigMap env h ns name data ls = (h', e)" and "data_ok env home h ns name data"
  shows "quiet env home h h'"
proof -
  from assms(1) obtain h1 meth url where w: "quiet env home h h1" "meth \<noteq> ''GET''"
    "k8sSend env meth ''application/json'' h1 url (KVal (configMapObj ns name data ls)) = (h', e)"
    by (rule upsert_write) blast
  have "body_ok env home h1 (KVal (configMapObj ns name data ls))"
    using data_kept [OF w(1) assms(2)] by (auto dest: configMapObj_inj)
  from k8sSend_quiet [OF w(3) this w(2)] w(1) show ?thesis by (rule emits_trans)
qed

lemma upsert_written:
  assumes "upsertConfigMap env h ns name data ls = (h', None)"
  shows "cm_written env h' name"
proof -
  from assms obtain h1 meth url
    where "k8sSend env meth ''application/json'' h1 url (KVal (configMapObj ns name data ls)) = (h', None)"
    by (rule upsert_write)
  then show ?thesis
    unfolding cm_written_def by (elim k8sSend_accepted) blast
qed

lemma upsert_control_quiet:
  assumes "upsertGeneratedControl env w h control = (h', e)" and "asked_for env home h (gco_Object control)"
  shows "quiet env home h h'"
proof (cases "generatedControlResource (gco_Kind control)")
  case None
  with assms(1) show ?thesis by (simp add: upsertGeneratedControl_def emits_refl)
next
  case (Some res)
  obtain v plural where res: "res = (v, plural)" by (cases res)
  define coll where "coll = we_Base env @ ''/apis/'' @ v @ ''/namespaces/'' @
    (if gco_Namespace control = [] then cw_namespace w else gco_Namespace control) @ ''/'' @ plural"
  obtain h1 x where g: "k8sGet env h (coll @ ''/'' @ gco_Name control) = (h1, x)" by fastforce
  have v: "v \<in> {''networking.k8s.io/v1'', ''security.istio.io/v1beta1'', ''cilium.io/v2'', ''policy.linkerd.io/v1beta3'', ''policy.linkerd.io/v1beta1''}"
    using Some res by (auto simp: generatedControlResource_def split: if_splits)
  have q: "quiet env home h h1"
    by (rule k8sGet_quiet [OF g]) (use v in \<open>auto simp: coll_def\<close>)
  have "k8sSend env ''PUT'' ''application/json'' h1 (coll @ ''/'' @ gco_Name control) (KArtifact (gco_Object control)) = (h', e) \<or>
      k8sSend env ''POST'' ''application/json'' h1 coll (KArtifact (gco_Object control)) = (h', e)"
    using assms(1) g Some res unfolding coll_def
    by (auto simp: upsertGeneratedControl_def k8sPut_def k8sPost_def Let_def split: sum.splits option.splits)
  then have "quiet env home h1 h'"
    using k8sSend_quiet [of env _ "''application/json''" h1 _ "KArtifact (gco_Object control)" h' e home] asked_kept [OF q assms(2)]
    by fastforce
  from emits_trans [OF this q] show ?thesis .
qed

lemma reconcileLoop_quiet:
  assumes "reconcileLoop env w spec controls h = (h', sts, errs)"
    and "\<forall>control \<in> set controls. controlMode spec = ''apply'' \<longrightarrow> gco_Kind control \<in> applySet spec \<longrightarrow>
      asked_for env home h (gco_Object control)"
  shows "quiet env home h h'"
  using assms
proof (induction controls arbitrary: h sts errs)
  case Nil
  then show ?case by (simp add: emits_refl)
next
  case (Cons control controls)
  obtain h1 b es where u: "(if controlMode spec = ''apply'' \<and> gco_Kind control \<in> applySet spec
      then (case upsertGeneratedControl env w h control of
              (h', Some err) \<Rightarrow> (h', False, [gco_Kind control @ ''/'' @ gco_Name control @ '': '' @ err])
            | (h', None) \<Rightarrow> (h', True, []))
      else (h, False, [])) = (h1, b, es)"
    by (rule prod_cases3)
  have q: "quiet env home h h1"
    using u Cons.prems(2) upsert_control_quiet [of env w h control _ _ home]
    by (auto intro: emits_refl split: if_splits prod.splits option.splits)
  obtain sts' es' where "reconcileLoop env w spec controls h1 = (h', sts', es')"
    using Cons.prems(1) u by (auto simp: Let_def split: prod.splits)
  then have "quiet env home h1 h'"
    using Cons.IH Cons.prems(2) asked_kept [OF q] by simp
  from emits_trans [OF this q] show ?case .
qed

lemma controlMode_apply: "controlMode spec = ''apply'' \<Longrightarrow> \<exists>s. spec = Some s \<and> gc_Mode s = ''apply''"
  by (auto simp: controlMode_def split: option.splits if_splits)

lemma reconcile_quiet:
  assumes "current_flow env home h obj" and "parseAgenticFlow env obj home = Inr (doc, name, ns)" and "Flow_Compile doc = Inr a"
    and "reconcileGeneratedControls env w ns (fs_GeneratedControls (af_Spec doc)) a h = (h', sts, conds)"
  shows "quiet env home h h' \<and> (\<forall>c \<in> set conds. fcn_Type c \<noteq> ''Compiled'')"
proof -
  let ?spec = "fs_GeneratedControls (af_Spec doc)"
  obtain h1 sts1 errs where l: "reconcileLoop env w ?spec (generatedControlObjects ns a) h = (h1, sts1, errs)"
    by (cases "reconcileLoop env w ?spec (generatedControlObjects ns a) h") auto
  have "asked_for env home h (gco_Object control)"
    if "control \<in> set (generatedControlObjects ns a)" "controlMode ?spec = ''apply''" "gco_Kind control \<in> applySet ?spec" for control
    using that assms(1-3) controlMode_apply [OF that(2)] unfolding asked_for_def by (auto simp: applySet_def) blast
  then have "quiet env home h h1"
    using reconcileLoop_quiet [OF l] by blast
  moreover have "h' = h1"
    using assms(4) l by (auto simp: reconcileGeneratedControls_def Let_def split: if_splits)
  moreover have "\<forall>c \<in> set conds. fcn_Type c \<noteq> ''Compiled''"
    using assms(4) l by (auto simp: reconcileGeneratedControls_def newAgenticFlowCondition_def Let_def split: if_splits)
  ultimately show ?thesis by simp
qed

lemma patch_quiet:
  assumes "\<forall>c \<in> set (afs_Conditions st). fcn_Type c = ''Compiled'' \<longrightarrow> fcn_Status c = ''True'' \<longrightarrow> cm_written env h (afs_ConfigMapName st)"
  shows "quiet env home h (patchAgenticFlowStatus env h ns name st)"
  unfolding patchAgenticFlowStatus_def k8sMergePatch_def
  by (rule k8sSend_quiet [OF surjective_pairing]) (use assms in simp_all)

lemma patch_failed_quiet: "quiet env home h (patchAgenticFlowStatus env h ns name (failedStatus env h obj reason err))"
  by (rule patch_quiet) (simp add: failedStatus_def newAgenticFlowCondition_def)

lemma publishFlow_quiet:
  assumes "current_flow env home h obj" and "parseAgenticFlow env obj home = Inr (doc, name, ns)" and "Flow_Compile doc = Inr a"
    and "we_MarshalArtifacts env a = Inr compiledYAML" and "we_YamlArtifact env (APolicy (art_Policy a)) = Inr policyYAML"
    and "accepts env policyYAML = Inr spec" and "we_YamlArtifact env (ARegistry (art_Registry a)) = Inr registryYAML"
  shows "quiet env home h (publishFlow env w obj doc a name ns compiledYAML policyYAML registryYAML h)"
proof -
  let ?cm = "''nullfield-flow-'' @ name" and ?data = "flowData compiledYAML policyYAML registryYAML"
  obtain h1 controls conds where r: "reconcileGeneratedControls env w ns (fs_GeneratedControls (af_Spec doc)) a h = (h1, controls, conds)"
    by (cases "reconcileGeneratedControls env w ns (fs_GeneratedControls (af_Spec doc)) a h") auto
  obtain h2 err where u: "upsertConfigMap env h1 ns ?cm ?data (sourceLabels ''AgenticFlow'' name) = (h2, err)"
    by fastforce
  note rec = reconcile_quiet [OF assms(1-3) r]
  have "compiled_flow env home obj doc name ns compiledYAML policyYAML registryYAML"
    using assms(2-5,7) unfolding compiled_flow_def by blast
  then have "data_ok env home h1 ns ?cm ?data"
    using assms(6) current_kept [OF conjunct1 [OF rec] assms(1)] unfolding data_ok_def by auto
  then have h2: "quiet env home h1 h2"
    by (rule upsert_quiet [OF u])
  have "err = None \<Longrightarrow> cm_written env h2 ?cm"
    using upsert_written [of env h1 ns ?cm ?data "sourceLabels ''AgenticFlow'' name" h2] u by simp
  then have "quiet env home h2 (publishFlow env w obj doc a name ns compiledYAML policyYAML registryYAML h)"
    unfolding publishFlow_def Let_def r u prod.case
    using rec by (intro patch_quiet) (auto simp: newAgenticFlowCondition_def split: option.splits)
  from emits_trans [OF emits_trans [OF this h2]] rec show ?thesis by blast
qed

lemma syncAgenticFlow_quiet:
  assumes "\<forall>obj. item = VMap obj \<longrightarrow> current_flow env (cw_namespace w) h obj"
  shows "quiet env (cw_namespace w) h (syncAgenticFlow env w item h)"
  unfolding syncAgenticFlow_def using assms
  by (auto intro: emits_refl patch_failed_quiet publishFlow_quiet split: goval.split sum.split)

lemma syncFlows_quiet:
  "\<forall>obj. VMap obj \<in> set items \<longrightarrow> current_flow env (cw_namespace w) h obj \<Longrightarrow>
   quiet env (cw_namespace w) h (fold (syncAgenticFlow env w) items h)"
proof (induction items arbitrary: h)
  case (Cons item items)
  then have q: "quiet env (cw_namespace w) h (syncAgenticFlow env w item h)"
    by (intro syncAgenticFlow_quiet) auto
  with Cons show ?case
    using current_kept [OF q] by (auto intro: emits_trans [OF _ q])
qed (simp add: emits_refl)

lemma syncAgenticFlows_proper: "proper env (cw_namespace w) h (syncAgenticFlows env w h)"
proof -
  let ?url = "we_Base env @ ''/apis/nullfield.io/v1alpha1/namespaces/'' @ cw_namespace w @ ''/agenticflows''"
  obtain h1 x where g: "k8sGet env h ?url = (h1, x)" by fastforce
  note p = k8sGet_proper [OF g, of "cw_namespace w"]
  have s: "syncAgenticFlows env w h = (case x of Inl err \<Rightarrow> h1 | Inr doc \<Rightarrow> fold (syncAgenticFlow env w) (itemsOf doc) h1)"
    using g by (simp add: syncAgenticFlows_def syncEach_def listCRD_def split: sum.split)
  show ?thesis
  proof (cases x)
    case (Inr doc)
    have "\<forall>obj. VMap obj \<in> set (itemsOf doc) \<longrightarrow> current_flow env (cw_namespace w) h1 obj"
      using k8sGet_listed [of env h "cw_namespace w" h1] g Inr by (auto simp: itemsOf_def split: option.splits)
    from emits_trans [OF quiet_proper [OF syncFlows_quiet [OF this]] p] show ?thesis
      by (simp add: s Inr)
  qed (simp add: s p)
qed

lemma renderPolicy_ok: "renderPolicy env name ns spec = Some y \<Longrightarrow> \<exists>s. accepts env y = Inr s"
  by (auto simp: renderPolicy_def split: sum.splits)

lemma upsert_proper: "data_ok env home h ns name data \<Longrightarrow> proper env home h (fst (upsertConfigMap env h ns name data ls))"
  by (rule quiet_proper [OF upsert_quiet [OF surjective_pairing]])

lemma syncPolicy_proper: "proper env home h (syncPolicy env w item h)"
  unfolding syncPolicy_def Let_def
  by (auto intro!: upsert_proper intro: emits_refl dest: renderPolicy_ok simp: data_ok_def split: goval.split option.split)

lemma syncRegistry_proper: "proper env home h (syncRegistry env w item h)"
  unfolding syncRegistry_def Let_def
  by (auto intro!: upsert_proper intro: emits_refl simp: data_ok_def split: goval.split sum.split)

lemma fold_proper: "(\<And>x h. proper env home h (f x h)) \<Longrightarrow> proper env home h (fold f xs h)"
  by (induction xs arbitrary: h) (auto intro: emits_refl emits_trans)

lemma syncEach_proper: "(\<And>x h. proper env home h (f x h)) \<Longrightarrow> proper env home h (syncEach env w resource f h)"
  unfolding syncEach_def listCRD_def
  by (auto dest!: k8sGet_proper intro: emits_trans [OF fold_proper] split: prod.split sum.split)

lemma syncActivePolicy_proper: "proper env home h (snd (syncActivePolicy env w h))"
proof -
  have "proper env home h (snd (syncActivePolicy env w h))" if "listCRD env w h ''nullfieldpolicies'' = (h1, x)" for h1 x
  proof -
    have h1: "proper env home h h1"
      using that k8sGet_proper unfolding listCRD_def by blast
    have up: "proper env home h h2" if "upsertConfigMap env h1 ns name [(k, y)] ls = (h2, e)" "accepts env y = Inr s"
      for ns name k y ls h2 e s
      using quiet_proper [OF upsert_quiet [OF that(1)]] that(2) h1 by (auto simp: data_ok_def intro: emits_trans)
    show ?thesis
      unfolding syncActivePolicy_def that
      by (auto simp: Let_def intro: emits_refl h1 up dest!: renderPolicy_ok
          split: sum.split option.split goval.split prod.split)
  qed
  then show ?thesis
    by (cases "listCRD env w h ''nullfieldpolicies''") blast
qed

lemma sync_namespace: "cw_namespace (fst (Watcher_sync env w h)) = cw_namespace w"
  unfolding Watcher_sync_def syncActivePolicy_def
  by (auto simp: Let_def split: prod.split sum.split option.split goval.split)

lemma sync_proper: "proper env (cw_namespace w) h (snd (Watcher_sync env w h))"
  unfolding Watcher_sync_def syncRegistries_def syncPolicies_def
  by (intro emits_trans [OF syncActivePolicy_proper] emits_trans [OF syncEach_proper [OF syncRegistry_proper]]
      emits_trans [OF syncEach_proper [OF syncPolicy_proper]] syncAgenticFlows_proper)

lemma Run_proper:
  "proper env (cw_namespace w) h (snd (Watcher_Run env w h n)) \<and> cw_namespace (fst (Watcher_Run env w h n)) = cw_namespace w"
proof (induction n)
  case 0
  show ?case by (simp add: sync_proper sync_namespace)
next
  case (Suc n)
  obtain w' h' where r: "Watcher_Run env w h n = (w', h')" by fastforce
  with Suc sync_proper [of env w' h'] show ?case
    by (auto simp: sync_namespace intro: emits_trans)
qed

lemma Run_request_ok: "snd (Watcher_Run env w [] n) = pre @ r # post \<Longrightarrow> request_ok env (cw_namespace w) pre r"
  using emits_from_start [OF conjunct1 [OF Run_proper [of env w "[]" n]]] by blast

text \<open>A config map with the three documents of a flow holds those of one of the last listing.\<close>

lemma Run_flow_map:
  assumes "snd (Watcher_Run env w [] n) = pre @ r # post" and "kh_Body r = Some (KVal (configMapObj ns cm (flowData c y t) ls))"
  obtains obj doc name spec where "current_flow env (cw_namespace w) pre obj" "compiled_flow env (cw_namespace w) obj doc name ns c y t"
    "cm = ''nullfield-flow-'' @ name" "accepts env y = Inr spec"
proof -
  from Run_request_ok [OF assms(1)] have "data_ok env (cw_namespace w) pre ns cm (flowData c y t)"
    using assms(2) unfolding request_ok_def by fastforce
  then show ?thesis
    unfolding data_ok_def using that by auto
qed

section \<open>Properties\<close>

text \<open>
  C17. Every policy the controller publishes is one the loader accepts. Whatever the API server
  answers, whatever the listed resources contain and however many passes are made: in every
  config map the controller writes, every entry but the tool registry and the compiled bundle is
  a policy document that the loader of the sidecar and the arbiter parses and validates.\<close>

theorem watcher_publishes_only_accepted:
  assumes "r \<in> set (snd (Watcher_Run env w [] n))" and "kh_Body r = Some (KVal (configMapObj ns name data ls))"
    and "(k, y) \<in> set data" and "k \<notin> {''tools.yaml'', ''compiled.yaml''}"
  shows "\<exists>spec. ParseSpec (we_DecodePolicy env) (we_CEL env) (we_SkewFirst env) y = Inr spec \<and> spec_admissible (we_CEL env) spec"
proof -
  obtain pre post where "snd (Watcher_Run env w [] n) = pre @ r # post"
    using assms(1) by (meson split_list)
  from Run_request_ok [OF this] have "data_ok env (cw_namespace w) pre ns name data"
    using assms(2) unfolding request_ok_def by fastforce
  then obtain spec where "accepts env y = Inr spec"
    using assms(3,4) by (auto simp: data_ok_def)
  then show ?thesis
    by (auto simp: accepts_def ParseSpec_iff)
qed

text \<open>
  C18. The controller applies only controls it was asked to apply, and none that is open. Whatever the API server
  answers and in whichever pass, every generated control it sends belongs to a resource that was in the last
  listing of flows it received: read as a flow, that resource compiles, sets the mode to apply and
  lists the kind of the control, and the control is one of those compiled from it; and the control
  names the workloads it selects and whom it admits.\<close>

theorem watcher_applies_only_requested:
  assumes "snd (Watcher_Run env w [] n) = pre @ r # post" and "kh_Body r = Some (KArtifact x)"
  shows "(\<exists>obj doc name ns a spec control. current_flow env (cw_namespace w) pre obj \<and>
        parseAgenticFlow env obj (cw_namespace w) = Inr (doc, name, ns) \<and> Flow_Compile doc = Inr a \<and>
        fs_GeneratedControls (af_Spec doc) = Some spec \<and> gc_Mode spec = ''apply'' \<and>
        control \<in> set (generatedControlObjects ns a) \<and> gco_Object control = x \<and> gco_Kind control \<in> set (gc_Apply spec)) \<and>
     control_closed x"
proof -
  from Run_request_ok [OF assms(1)] have asked: "asked_for env (cw_namespace w) pre x"
    using assms(2) by (simp add: request_ok_def)
  then obtain doc a control ns where a: "Flow_Compile doc = Inr a" "control \<in> set (generatedControlObjects ns a)" "gco_Object control = x"
    by (auto simp: asked_for_def)
  then have "x \<in> set (artifactDocs a)"
    by (auto simp: generatedControlObjects_def artifactDocs_def Let_def)
  from compiled_controls_closed [OF a(1) this] asked show ?thesis
    unfolding asked_for_def by blast
qed

text \<open>
  The status of a flow is truthful: when the controller reports a flow as compiled, the request
  it sent immediately before was a write of the config map named in the status, and the API server
  had accepted it.\<close>

theorem watcher_status_truthful:
  assumes "snd (Watcher_Run env w [] n) = pre @ r # post" and "kh_Body r = Some (KStatus st)"
    and "c \<in> set (afs_Conditions st)" and "fcn_Type c = ''Compiled''" and "fcn_Status c = ''True''"
  shows "\<exists>before q ns data ls resp. pre = before @ [q] \<and>
     kh_Body q = Some (KVal (configMapObj ns (afs_ConfigMapName st) data ls)) \<and> we_HTTP env before q = Inr resp \<and> kr_StatusCode resp < 400"
  using Run_request_ok [OF assms(1)] assms(2-5) by (auto simp: request_ok_def cm_written_def)

text \<open>A flow, and the policy compiled from it.\<close>

definition demo_doc :: AgenticFlow where
  "demo_doc = (let f = demo_flow ''HOLD'' [] in f\<lparr>af_APIVersion := ''nullfield.io/v1alpha1'',
     af_Metadata := (af_Metadata f)\<lparr>md_Namespace := ''ns''\<rparr>,
     af_Spec := (af_Spec f)\<lparr>fs_GeneratedControls := Some \<lparr>gc_Mode = ''apply'', gc_Apply = [''AuthorizationPolicy'']\<rparr>\<rparr>\<rparr>)"

lemma demo_compiles: "\<exists>rules entries. Flow_Compile demo_doc = Inr (flowArtifacts demo_doc rules entries)"
  by (simp add: Flow_Compile_def Let_def demo_doc_def demo_flow_def demo_tool_def validateExplicitControlIntent_def
      validateGeneratedControls_def allowedGeneratedControlKind_def validateEgress_def meshIstio_def meshCilium_def meshLinkerd_def
      validateIstio_def reject_def credentialMap_def resolveToolCredentials_def) (intro exI, rule refl)

definition demo_policy :: NullfieldPolicy where
  "demo_policy = art_Policy (projr (Flow_Compile demo_doc))"

text \<open>
  An API server that has one resource of each kind, and accepts every write; and codecs under which
  the flow's policy is the document \<open>P\<close>.\<close>

definition demo_watch :: watch_env where
  "demo_watch = \<lparr>we_Base = [], we_Token = (\<lambda>_. Inr ''t''), we_HTTP = (\<lambda>_ _. Inr \<lparr>kr_StatusCode = 200, kr_Body = [], kr_ReadErr = None\<rparr>),
     we_Now = (\<lambda>_. []), we_BadURL = (\<lambda>_. None), we_JSON = (\<lambda>_. None),
     we_Unmarshal = (\<lambda>_. Inr (Some [(''items'', VArr [VMap [(''spec'', VMap [])]])])),
     we_Yaml = (\<lambda>_. Inr ''ALLOW''), we_YamlArtifact = (\<lambda>x. case x of APolicy q \<Rightarrow> if q = demo_policy then Inr ''P'' else Inl [] | _ \<Rightarrow> Inr []), we_MarshalArtifacts = (\<lambda>_. Inr []),
     we_DecodeFlow = (\<lambda>_. Inr (let f = demo_flow ''HOLD'' [] in f\<lparr>af_Spec := (af_Spec f)\<lparr>fs_GeneratedControls :=
        Some \<lparr>gc_Mode = ''apply'', gc_Apply = [''AuthorizationPolicy'']\<rparr>\<rparr>\<rparr>)),
     we_DecodePolicy = (\<lambda>d. if d = ''P'' then Inr demo_policy else le_decode demo_loader d), we_CEL = (\<lambda>_. Inl []), we_SkewFirst = True, we_Sha256Hex = (\<lambda>s. s)\<rparr>"

definition demo_watcher :: Watcher where
  "demo_watcher = \<lparr>cw_namespace = ''ns'', cw_activeTargetCM = [], cw_activeTargetCMKey = ''policy.yaml'',
     cw_activeTargetLabel = [], cw_lastActiveSig = []\<rparr>"

definition demo_req :: "string \<Rightarrow> string \<Rightarrow> string \<Rightarrow> kobj option \<Rightarrow> khttp" where
  "demo_req meth url ctype body = (request meth url ctype body)\<lparr>kh_Authorization := ''Bearer t''\<rparr>"

lemma demo_req_Body [simp]: "kh_Body (demo_req meth url ctype body) = body"
  by (simp add: demo_req_def request_def)

lemma demo_Do: "kube_Do demo_watch h (request meth url ctype body) =
    (h @ [demo_req meth url ctype body], Inr \<lparr>kr_StatusCode = 200, kr_Body = [], kr_ReadErr = None\<rparr>)"
  by (simp add: kube_Do_def demo_watch_def demo_req_def request_def TrimSpace_def is_space_def)

lemma demo_Get: "k8sGet demo_watch h url =
    (h @ [demo_req ''GET'' url [] None], Inr (Some [(''items'', VArr [VMap [(''spec'', VMap [])]])]))"
  unfolding k8sGet_def demo_Do by (simp add: demo_watch_def)

lemma demo_Send: "k8sSend demo_watch meth ctype h url obj = (h @ [demo_req meth url ctype (Some obj)], None)"
  unfolding k8sSend_def demo_Do by (simp add: demo_watch_def)

lemma demo_policy_admissible: "spec_admissible cel (np_Spec demo_policy)" "ps_RunToken (np_Spec demo_policy) = None"
proof -
  obtain rules entries where a: "Flow_Compile demo_doc = Inr (flowArtifacts demo_doc rules entries)"
    using demo_compiles by blast
  then have p: "demo_policy = art_Policy (flowArtifacts demo_doc rules entries)"
    by (simp add: demo_policy_def)
  show "spec_admissible cel (np_Spec demo_policy)"
    unfolding p compiled_policy_loads_iff [OF a] by (simp add: demo_doc_def demo_flow_def demo_tool_def Let_def)
  show "ps_RunToken (np_Spec demo_policy) = None"
    unfolding p by simp
qed

lemma demo_accepts: "accepts demo_watch y = Inr (if y = ''P'' then np_Spec demo_policy else demo_spec y)"
proof -
  have "spec_admissible (\<lambda>_. Inl []) (demo_spec y)"
    using demo_load [of y] by (simp add: le_load_iff demo_loader_def)
  then show ?thesis
    using demo_policy_admissible(1) [of "\<lambda>_. Inl []"] by (simp add: accepts_def ParseSpec_iff demo_watch_def) (simp add: demo_loader_def)
qed

lemmas demo_calls = demo_Get demo_Send upsertConfigMap_def k8sPut_def k8sPost_def k8sMergePatch_def listCRD_def itemsOf_def objArr_def
  Let_def

lemma demo_policies: "\<exists>q1 q2 c ns name ls. syncPolicies demo_watch demo_watcher h =
    h @ [q1, q2, demo_req ''PUT'' c ''application/json'' (Some (KVal (configMapObj ns name [(''policy.yaml'', ''ALLOW'')] ls)))]"
proof -
  have r: "renderPolicy demo_watch name ns spec = Some ''ALLOW''" for name ns spec
    using demo_accepts by (simp add: renderPolicy_def demo_watch_def)
  show ?thesis
    by (simp add: syncPolicies_def syncEach_def syncPolicy_def demo_calls r) blast
qed

lemma demo_flow_parse: "parseAgenticFlow demo_watch obj (cw_namespace demo_watcher) = Inr (demo_doc, ''f'', ''ns'')"
  by (simp add: parseAgenticFlow_def Flow_LoadYAML_def demo_watch_def demo_watcher_def demo_doc_def demo_flow_def
      namespaceOr_def Let_def)

lemma demo_controls:
  "\<exists>p. generatedControlObjects ''ns'' (flowArtifacts demo_doc rules entries) =
     [\<lparr>gco_Kind = ''AuthorizationPolicy'', gco_Name = ''f-authz'', gco_Namespace = ''ns'', gco_Object = AIstio p\<rparr>]"
  by (simp add: generatedControlObjects_def Let_def compileNetworkPolicies_def compileIstioAuthorizationPolicies_def
      compileCiliumNetworkPolicies_def compileLinkerdServers_def compileLinkerdServerAuthorizations_def
      meshIstio_def meshCilium_def meshLinkerd_def namespaceOr_def namedMetadata_def flowMetadata_def)
    (simp add: demo_doc_def demo_flow_def Let_def namedMetadata_def namespaceOr_def)

lemma demo_flows:
  "\<exists>q1 q2 u1 x q3 u2 ns name ls u3 st c. syncAgenticFlows demo_watch demo_watcher [] =
     [q1, q2, demo_req ''PUT'' u1 ''application/json'' (Some (KArtifact x)), q3,
      demo_req ''PUT'' u2 ''application/json'' (Some (KVal (configMapObj ns name (flowData [] ''P'' []) ls))),
      demo_req ''PATCH'' u3 ''application/merge-patch+json'' (Some (KStatus st))] \<and>
     c \<in> set (afs_Conditions st) \<and> fcn_Type c = ''Compiled'' \<and> fcn_Status c = ''True''"
proof -
  obtain rules entries where a: "Flow_Compile demo_doc = Inr (flowArtifacts demo_doc rules entries)" (is "_ = Inr ?a")
    using demo_compiles by blast
  obtain p where p: "generatedControlObjects ''ns'' ?a =
     [\<lparr>gco_Kind = ''AuthorizationPolicy'', gco_Name = ''f-authz'', gco_Namespace = ''ns'', gco_Object = AIstio p\<rparr>]"
    using demo_controls by blast
  have "art_Policy ?a = demo_policy"
    using a by (simp add: demo_policy_def)
  then have env: "we_MarshalArtifacts demo_watch ?a = Inr []" "we_YamlArtifact demo_watch (APolicy (art_Policy ?a)) = Inr ''P''"
    "we_YamlArtifact demo_watch (ARegistry (art_Registry ?a)) = Inr []" "we_YamlArtifact demo_watch (AIstio p') = Inr []" for p'
    by (simp_all add: demo_watch_def)
  have flow: "fs_GeneratedControls (af_Spec demo_doc) = Some \<lparr>gc_Mode = ''apply'', gc_Apply = [''AuthorizationPolicy'']\<rparr>"
    by (simp add: demo_doc_def Let_def)
  have pub: "syncAgenticFlow demo_watch demo_watcher (VMap obj) h =
      publishFlow demo_watch demo_watcher obj demo_doc ?a ''f'' ''ns'' [] ''P'' [] h" for obj h
    unfolding syncAgenticFlow_def goval.case demo_flow_parse sum.case prod.case a env demo_accepts ..
  show ?thesis
    by (simp add: syncAgenticFlows_def syncEach_def demo_calls pub publishFlow_def reconcileGeneratedControls_def p flow controlMode_def
        applySet_def env upsertGeneratedControl_def generatedControlResource_def patchAgenticFlowStatus_def newAgenticFlowCondition_def)
      fastforce
qed

lemma demo_registries: "\<exists>post. syncRegistries demo_watch demo_watcher h = h @ post"
proof -
  have y: "we_Yaml demo_watch v = Inr ''ALLOW''" for v
    by (simp add: demo_watch_def)
  show ?thesis
    by (simp add: syncRegistries_def syncEach_def syncRegistry_def demo_calls y)
qed

lemma demo_run:
  "\<exists>post. snd (Watcher_Run demo_watch demo_watcher [] 0) =
     syncPolicies demo_watch demo_watcher (syncAgenticFlows demo_watch demo_watcher []) @ post"
proof -
  have "cw_activeTargetCM demo_watcher = []"
    by (simp add: demo_watcher_def)
  then have "syncActivePolicy demo_watch demo_watcher h = (demo_watcher, h)" for h
    by (simp add: syncActivePolicy_def)
  then show ?thesis
    by (simp add: Watcher_sync_def demo_registries)
qed

lemma watcher_publishes_only_accepted_witness:
  "\<exists>r ns name ls. r \<in> set (snd (Watcher_Run demo_watch demo_watcher [] 0)) \<and>
     kh_Body r = Some (KVal (configMapObj ns name [(''policy.yaml'', ''ALLOW'')] ls)) \<and>
     (\<exists>spec. ParseSpec (we_DecodePolicy demo_watch) (we_CEL demo_watch) (we_SkewFirst demo_watch) ''ALLOW'' = Inr spec \<and>
        spec_admissible (we_CEL demo_watch) spec)"
proof -
  obtain r ns name ls where r: "r \<in> set (snd (Watcher_Run demo_watch demo_watcher [] 0))"
    "kh_Body r = Some (KVal (configMapObj ns name [(''policy.yaml'', ''ALLOW'')] ls))"
    using demo_policies [of "syncAgenticFlows demo_watch demo_watcher []"] demo_run by fastforce
  have "\<exists>spec. ParseSpec (we_DecodePolicy demo_watch) (we_CEL demo_watch) (we_SkewFirst demo_watch) ''ALLOW'' = Inr spec \<and>
      spec_admissible (we_CEL demo_watch) spec"
    by (rule watcher_publishes_only_accepted [OF r, of "''policy.yaml''" "''ALLOW''"]) simp_all
  with r show ?thesis by blast
qed

lemma watcher_applies_only_requested_witness:
  "\<exists>pre r post x obj. snd (Watcher_Run demo_watch demo_watcher [] 0) = pre @ r # post \<and> kh_Body r = Some (KArtifact x) \<and>
     current_flow demo_watch ''ns'' pre obj \<and> control_closed x"
proof -
  have ns: "cw_namespace demo_watcher = ''ns''" by (simp add: demo_watcher_def)
  obtain r x where "r \<in> set (snd (Watcher_Run demo_watch demo_watcher [] 0))" and x: "kh_Body r = Some (KArtifact x)"
    using demo_flows demo_policies [of "syncAgenticFlows demo_watch demo_watcher []"] demo_run by fastforce
  then obtain pre post where r: "snd (Watcher_Run demo_watch demo_watcher [] 0) = pre @ r # post"
    by (meson split_list)
  from watcher_applies_only_requested [OF r x] obtain obj where "current_flow demo_watch ''ns'' pre obj" "control_closed x"
    unfolding ns by blast
  with r x show ?thesis by blast
qed

lemma watcher_status_truthful_witness:
  "\<exists>pre r post st resp before q. snd (Watcher_Run demo_watch demo_watcher [] 0) = pre @ r # post \<and> kh_Body r = Some (KStatus st) \<and>
     pre = before @ [q] \<and> we_HTTP demo_watch before q = Inr resp \<and> kr_StatusCode resp < 400"
proof -
  obtain q1 q2 u1 x q3 u2 ns name ls u3 st c post where h: "snd (Watcher_Run demo_watch demo_watcher [] 0) =
     [q1, q2, demo_req ''PUT'' u1 ''application/json'' (Some (KArtifact x)), q3,
      demo_req ''PUT'' u2 ''application/json'' (Some (KVal (configMapObj ns name (flowData [] ''P'' []) ls)))] @
      demo_req ''PATCH'' u3 ''application/merge-patch+json'' (Some (KStatus st)) # post"
    and c: "c \<in> set (afs_Conditions st)" "fcn_Type c = ''Compiled''" "fcn_Status c = ''True''"
    using demo_flows demo_policies [of "syncAgenticFlows demo_watch demo_watcher []"] demo_run by fastforce
  from watcher_status_truthful [OF h _ c] h show ?thesis
    by (metis demo_req_Body)
qed

end
