(* ===== verification/Signals.thy ===== *)
theory Signals
  imports CrdWatcher AuditLog Operations
begin

text \<open>
  Package \<open>signals\<close> (\<open>signals.go\<close>): a sink that queues selected audit events and has one worker
  deliver them, with retries; the two ways of delivery, a signed webhook and Kubernetes Events;
  and the choice of channels from the environment. Emitters and the worker interleave freely.
\<close>

section \<open>The sink\<close>

definition queueSize :: nat where "queueSize = 256"
definition retries :: nat where "retries = 4"

record Sink =
  sk_name :: string
  sk_types :: "EventType set"
  sk_queue :: "Event list"
  sk_backoff :: duration

definition NewSink :: "string \<Rightarrow> EventType list \<Rightarrow> Sink" where
  "NewSink name types = \<lparr>sk_name = name, sk_types = set types, sk_queue = [], sk_backoff = Second\<rparr>"

text \<open>What became of an event: the last two are the log lines of the source.\<close>

datatype report = Queued Event | Ignored Event | Delivered Event | Dropped Event | NotDelivered Event string

definition Sink_Emit :: "Sink \<Rightarrow> Event \<Rightarrow> Sink \<times> report" where
  "Sink_Emit s e =
     (if ev_Type e \<notin> sk_types s then (s, Ignored e)
      else if length (sk_queue s) < queueSize then (s\<lparr>sk_queue := sk_queue s @ [e]\<rparr>, Queued e)
      else (s, Dropped e))"

text \<open>What the worker does after an attempt: it is done, gives up, or sleeps and tries again.\<close>

datatype step = Done | GiveUp string | Sleep duration

definition afterAttempt :: "duration \<Rightarrow> nat \<Rightarrow> string option \<Rightarrow> step" where
  "afterAttempt backoff attempt err =
     (case err of
        None \<Rightarrow> Done
      | Some e \<Rightarrow> if attempt = retries then GiveUp e else Sleep (wrap64 (backoff * 2 ^ attempt)))"

text \<open>
  The loop \<open>for attempt := 0; ; attempt++\<close> on one event. \<open>deliver\<close> acts on the outside world \<open>w\<close>;
  the result has the world, how long the worker slept each time, and the error it gave up with.
\<close>

partial_function (option) attempts ::
  "('w \<Rightarrow> Event \<Rightarrow> 'w \<times> string option) \<Rightarrow> duration \<Rightarrow> Event \<Rightarrow> nat \<Rightarrow> 'w \<Rightarrow> ('w \<times> duration list \<times> string option) option" where
  "attempts deliver backoff e attempt w =
     (let (w, err) = deliver w e in
      case afterAttempt backoff attempt err of
        Done \<Rightarrow> Some (w, [], None)
      | GiveUp err \<Rightarrow> Some (w, [], Some err)
      | Sleep d \<Rightarrow>
          Option.bind (attempts deliver backoff e (Suc attempt) w) (\<lambda>(w, ds, err). Some (w, d # ds, err)))"

text \<open>The world after \<open>n\<close> attempts, and the outcome of attempt \<open>n\<close>, counting from \<open>0\<close>.\<close>

fun world_after :: "('w \<Rightarrow> Event \<Rightarrow> 'w \<times> string option) \<Rightarrow> Event \<Rightarrow> 'w \<Rightarrow> nat \<Rightarrow> 'w" where
  "world_after deliver e w 0 = w"
| "world_after deliver e w (Suc n) = world_after deliver e (fst (deliver w e)) n"

definition outcome :: "('w \<Rightarrow> Event \<Rightarrow> 'w \<times> string option) \<Rightarrow> Event \<Rightarrow> 'w \<Rightarrow> nat \<Rightarrow> string option" where
  "outcome deliver e w n = snd (deliver (world_after deliver e w n) e)"

lemma outcome_Suc: "outcome deliver e w (Suc n) = outcome deliver e (fst (deliver w e)) n"
  by (simp add: outcome_def)

lemma attempts_success:
  assumes "attempt + n \<le> retries" and "outcome deliver e w n = None" and "\<And>m. m < n \<Longrightarrow> outcome deliver e w m \<noteq> None"
  shows "attempts deliver backoff e attempt w =
    Some (world_after deliver e w (Suc n), map (\<lambda>k. wrap64 (backoff * 2 ^ (attempt + k))) [0..<n], None)"
  using assms
proof (induction n arbitrary: attempt w)
  case 0
  then show ?case
    by (cases "deliver w e") (simp add: attempts.simps outcome_def afterAttempt_def)
next
  case (Suc n)
  obtain w' err where d: "deliver w e = (w', Some err)"
    using Suc.prems(3) [of 0] by (cases "deliver w e") (auto simp: outcome_def)
  have "attempts deliver backoff e (Suc attempt) w' =
      Some (world_after deliver e w' (Suc n), map (\<lambda>k. wrap64 (backoff * 2 ^ (Suc attempt + k))) [0..<n], None)"
    using Suc.prems d by (intro Suc.IH) (auto simp: outcome_Suc dest: Suc.prems(3) [OF Suc_mono])
  moreover have "attempt \<noteq> retries"
    using Suc.prems(1) by simp
  ultimately show ?case
    by (subst attempts.simps) (simp add: d afterAttempt_def map_upt_Suc del: upt_Suc)
qed

lemma attempts_failure:
  assumes "attempt + n = retries" and "\<And>m. m \<le> n \<Longrightarrow> outcome deliver e w m \<noteq> None"
  shows "attempts deliver backoff e attempt w =
    Some (world_after deliver e w (Suc n), map (\<lambda>k. wrap64 (backoff * 2 ^ (attempt + k))) [0..<n], outcome deliver e w n)"
  using assms
proof (induction n arbitrary: attempt w)
  case 0
  obtain w' err where "deliver w e = (w', Some err)"
    using 0(2) [of 0] by (cases "deliver w e") (auto simp: outcome_def)
  with 0(1) show ?case
    by (simp add: attempts.simps outcome_def afterAttempt_def)
next
  case (Suc n)
  obtain w' err where d: "deliver w e = (w', Some err)"
    using Suc.prems(2) [of 0] by (cases "deliver w e") (auto simp: outcome_def)
  have "attempts deliver backoff e (Suc attempt) w' =
      Some (world_after deliver e w' (Suc n), map (\<lambda>k. wrap64 (backoff * 2 ^ (Suc attempt + k))) [0..<n], outcome deliver e w' n)"
    using Suc.prems d by (intro Suc.IH) (auto simp: outcome_Suc dest: Suc.prems(2) [of "Suc _", simplified])
  moreover have "attempt \<noteq> retries"
    using Suc.prems(1) by simp
  ultimately show ?case
    by (subst attempts.simps) (simp add: d afterAttempt_def outcome_Suc map_upt_Suc del: upt_Suc)
qed

lemma attempts_world:
  assumes "attempts deliver backoff e attempt w = Some (w', ds, err)" and "attempt \<le> retries"
  shows "\<exists>n \<le> Suc retries - attempt. w' = world_after deliver e w n"
  using assms
proof (induction "retries - attempt" arbitrary: attempt w ds)
  case 0
  then show ?case
    by (subst (asm) attempts.simps)
      (auto simp: afterAttempt_def Let_def split: prod.splits option.splits if_splits intro!: exI [of _ "Suc 0"])
next
  case (Suc k)
  show ?case
  proof (cases "snd (deliver w e)")
    case None
    then have "w' = world_after deliver e w 1"
      using Suc.prems(1) by (subst (asm) attempts.simps) (auto simp: afterAttempt_def Let_def split: prod.splits)
    with Suc.prems(2) show ?thesis by (intro exI [of _ 1]) simp
  next
    case (Some x)
    then obtain ds' where again: "attempts deliver backoff e (Suc attempt) (fst (deliver w e)) = Some (w', ds', err)"
      using Suc.prems(1) Suc.hyps(2) by (subst (asm) attempts.simps)
        (auto simp: afterAttempt_def Let_def bind_eq_Some_conv split: prod.splits if_splits)
    have "k = retries - Suc attempt" "Suc attempt \<le> retries"
      using Suc.hyps(2) by simp_all
    from Suc.hyps(1) [OF this(1) again this(2)] obtain n where "n \<le> Suc retries - Suc attempt" "w' = world_after deliver e w (Suc n)"
      by auto
    with Suc.hyps(2) show ?thesis by (intro exI [of _ "Suc n"]) simp
  qed
qed

section \<open>Emitters and the worker\<close>

text \<open>
  The worker between two steps: waiting for an event, or about to make attempt \<open>n\<close> on one. A step
  receives an event, or makes an attempt with the outcome \<open>err\<close>; with nothing queued it blocks.
\<close>

record sink_state =
  st_sink :: Sink
  st_busy :: "(Event \<times> nat) option"

definition started :: "Sink \<Rightarrow> sink_state" where
  "started s = \<lparr>st_sink = s, st_busy = None\<rparr>"

definition Sink_run_step :: "sink_state \<Rightarrow> string option \<Rightarrow> sink_state \<times> report list" where
  "Sink_run_step st err =
     (case st_busy st of
        None \<Rightarrow>
          (case sk_queue (st_sink st) of
             [] \<Rightarrow> (st, [])
           | e # q \<Rightarrow> (st\<lparr>st_sink := (st_sink st)\<lparr>sk_queue := q\<rparr>, st_busy := Some (e, 0)\<rparr>, []))
      | Some (e, n) \<Rightarrow>
          (case afterAttempt (sk_backoff (st_sink st)) n err of
             Done \<Rightarrow> (st\<lparr>st_busy := None\<rparr>, [Delivered e])
           | GiveUp m \<Rightarrow> (st\<lparr>st_busy := None\<rparr>, [NotDelivered e m])
           | Sleep d \<Rightarrow> (st\<lparr>st_busy := Some (e, Suc n)\<rparr>, [])))"

datatype sink_op = OpEmit Event | OpWork "string option"

fun sink_exec :: "sink_state \<Rightarrow> sink_op \<Rightarrow> sink_state \<times> report list" where
  "sink_exec st (OpEmit e) = (case Sink_Emit (st_sink st) e of (s, r) \<Rightarrow> (st\<lparr>st_sink := s\<rparr>, [r]))"
| "sink_exec st (OpWork err) = Sink_run_step st err"

fun sink_run :: "sink_state \<Rightarrow> sink_op list \<Rightarrow> sink_state \<times> report list" where
  "sink_run st [] = (st, [])"
| "sink_run st (op # ops) =
     (case sink_exec st op of (st1, rs) \<Rightarrow> case sink_run st1 ops of (st2, rs') \<Rightarrow> (st2, rs @ rs'))"

text \<open>The events queued, those the worker is through with, and the one it works on.\<close>

definition queued :: "report list \<Rightarrow> Event list" where
  "queued rs = concat (map (\<lambda>r. case r of Queued e \<Rightarrow> [e] | _ \<Rightarrow> []) rs)"

definition settled :: "report list \<Rightarrow> Event list" where
  "settled rs = concat (map (\<lambda>r. case r of Delivered e \<Rightarrow> [e] | NotDelivered e _ \<Rightarrow> [e] | _ \<Rightarrow> []) rs)"

definition dropped :: "report list \<Rightarrow> Event list" where
  "dropped rs = concat (map (\<lambda>r. case r of Dropped e \<Rightarrow> [e] | _ \<Rightarrow> []) rs)"

definition inflight :: "sink_state \<Rightarrow> Event list" where
  "inflight st = (case st_busy st of None \<Rightarrow> [] | Some (e, _) \<Rightarrow> [e])"

definition selected :: "EventType set \<Rightarrow> sink_op list \<Rightarrow> Event list" where
  "selected types ops = concat (map (\<lambda>op. case op of OpEmit e \<Rightarrow> if ev_Type e \<in> types then [e] else [] | _ \<Rightarrow> []) ops)"

lemmas report_defs = queued_def settled_def dropped_def

lemma report_append [simp]:
  "queued (rs @ rs') = queued rs @ queued rs'" "settled (rs @ rs') = settled rs @ settled rs'"
  "dropped (rs @ rs') = dropped rs @ dropped rs'"
  by (simp_all add: report_defs)

definition sink_ok :: "sink_state \<Rightarrow> bool" where
  "sink_ok st \<longleftrightarrow> length (sk_queue (st_sink st)) \<le> queueSize \<and> (\<forall>e n. st_busy st = Some (e, n) \<longrightarrow> n \<le> retries)"

text \<open>One operation moves events along and neither loses, repeats nor reorders any.\<close>

lemma sink_exec_moves:
  assumes "sink_exec st op = (st', rs)" and "sink_ok st"
  shows "inflight st @ sk_queue (st_sink st) @ queued rs = settled rs @ inflight st' @ sk_queue (st_sink st') \<and>
    sink_ok st' \<and> sk_types (st_sink st') = sk_types (st_sink st) \<and>
    subseq (queued rs) (selected (sk_types (st_sink st)) [op]) \<and>
    (dropped rs = [] \<longrightarrow> queued rs = selected (sk_types (st_sink st)) [op])"
proof (cases op)
  case (OpEmit e)
  with assms show ?thesis
    by (auto simp: Sink_Emit_def report_defs inflight_def selected_def sink_ok_def split: if_splits)
next
  case (OpWork err)
  with assms show ?thesis
    by (auto simp: Sink_run_step_def afterAttempt_def report_defs inflight_def selected_def sink_ok_def le_Suc_eq
        split: option.splits list.splits step.splits if_splits)
qed

lemma sink_run_moves:
  assumes "sink_run st ops = (st', rs)" and "sink_ok st"
  shows "inflight st @ sk_queue (st_sink st) @ queued rs = settled rs @ inflight st' @ sk_queue (st_sink st') \<and>
    sink_ok st' \<and> subseq (queued rs) (selected (sk_types (st_sink st)) ops) \<and>
    (dropped rs = [] \<longrightarrow> queued rs = selected (sk_types (st_sink st)) ops)"
  using assms
proof (induction ops arbitrary: st rs)
  case Nil
  then show ?case by (simp add: report_defs selected_def)
next
  case (Cons op ops)
  obtain st1 rs1 rs2 where r: "sink_exec st op = (st1, rs1)" "sink_run st1 ops = (st', rs2)" "rs = rs1 @ rs2"
    using Cons.prems(1) by (auto split: prod.splits)
  note step = sink_exec_moves [OF r(1) Cons.prems(2)]
  have rest: "inflight st1 @ sk_queue (st_sink st1) @ queued rs2 = settled rs2 @ inflight st' @ sk_queue (st_sink st') \<and>
      sink_ok st' \<and> subseq (queued rs2) (selected (sk_types (st_sink st)) ops) \<and>
      (dropped rs2 = [] \<longrightarrow> queued rs2 = selected (sk_types (st_sink st)) ops)"
    using Cons.IH [OF r(2)] step by simp
  have sel: "selected types (op # ops) = selected types [op] @ selected types ops" for types
    by (simp add: selected_def)
  have "inflight st @ sk_queue (st_sink st) @ queued rs = settled rs @ inflight st' @ sk_queue (st_sink st')"
    using step rest r(3) by (metis append.assoc report_append(1,2))
  with step rest r(3) show ?case
    unfolding sel by (auto intro: list_emb_append_mono)
qed

text \<open>How many steps of the worker are left, at most.\<close>

definition work_left :: "sink_state \<Rightarrow> nat" where
  "work_left st = (retries + 2) * length (sk_queue (st_sink st)) +
     (case st_busy st of None \<Rightarrow> 0 | Some (e, n) \<Rightarrow> Suc retries - n)"

lemma work_step:
  assumes "Sink_run_step st err = (st', rs)" and "sink_ok st"
  shows "work_left st' \<le> work_left st - 1"
  using assms
  by (auto simp: Sink_run_step_def afterAttempt_def work_left_def sink_ok_def retries_def
      split: option.splits list.splits step.splits if_splits)

lemma work_run:
  assumes "sink_run st (map OpWork errs) = (st', rs)" and "sink_ok st"
  shows "work_left st' \<le> work_left st - length errs"
  using assms
proof (induction errs arbitrary: st rs)
  case (Cons err errs)
  obtain st1 rs1 rs2 where r: "Sink_run_step st err = (st1, rs1)" "sink_run st1 (map OpWork errs) = (st', rs2)"
    using Cons.prems(1) by (auto split: prod.splits)
  have "sink_ok st1"
    using sink_exec_moves [of st "OpWork err"] r(1) Cons.prems(2) by simp
  from Cons.IH [OF r(2) this] work_step [OF r(1) Cons.prems(2)] show ?case
    by simp
qed simp

lemma work_done: "sink_ok st \<Longrightarrow> work_left st = 0 \<longleftrightarrow> st_busy st = None \<and> sk_queue (st_sink st) = []"
  by (auto simp: work_left_def sink_ok_def split: option.splits)

lemma started_ok: "sink_ok (started (NewSink name types))"
  by (simp add: started_def NewSink_def sink_ok_def)

section \<open>The webhook\<close>

record Webhook =
  wb_url :: string
  wb_secret :: string

text \<open>\<open>parse\<close> is \<open>url.Parse\<close>: the scheme and the host.\<close>

definition NewWebhook :: "(string \<Rightarrow> string + (string \<times> string)) \<Rightarrow> string \<Rightarrow> string \<Rightarrow> string + Webhook" where
  "NewWebhook parse target secret =
     (if secret = [] then Inl ''signals: a webhook needs a signing secret''
      else
        let bad = Inl (''signals: webhook URL '' @ Quote target @ '' must be http or https with a host'')
        in case parse target of
             Inl err \<Rightarrow> bad
           | Inr (scheme, host) \<Rightarrow>
               if (scheme \<noteq> ''https'' \<and> scheme \<noteq> ''http'') \<or> host = [] then bad
               else Inr \<lparr>wb_url = target, wb_secret = secret\<rparr>)"

record signal_request =
  sr_Method :: string
  sr_URL :: string
  sr_Headers :: labels
  sr_Body :: string

record signal_response =
  sp_Status :: string
  sp_StatusCode :: nat
  sp_Body :: string

text \<open>\<open>check\<close>; \<open>path\<close> is the path of the request's URL.\<close>

definition signals_check :: "string \<Rightarrow> string \<Rightarrow> string + signal_response \<Rightarrow> string option" where
  "signals_check meth path answer =
     (case answer of
        Inl err \<Rightarrow> Some err
      | Inr resp \<Rightarrow>
          if sp_StatusCode resp div 100 \<noteq> 2
          then Some (meth @ '' '' @ path @ '': '' @ sp_Status resp @ '': '' @ TrimSpace (take 512 (sp_Body resp)))
          else None)"

text \<open>The message the signature is computed over.\<close>

definition signedMessage :: "string \<Rightarrow> string \<Rightarrow> string" where
  "signedMessage ts body = ts @ ''.'' @ body"

text \<open>\<open>hmacHex\<close> is the hexadecimal HMAC-SHA256 of a message under a key.\<close>

definition webhookRequest :: "(string \<Rightarrow> string \<Rightarrow> string) \<Rightarrow> Webhook \<Rightarrow> time \<Rightarrow> string \<Rightarrow> signal_request" where
  "webhookRequest hmacHex w now body =
     (let ts = itoa (now div Second)
      in \<lparr>sr_Method = ''POST'', sr_URL = wb_url w,
          sr_Headers = [(''Content-Type'', ''application/json''), (''X-Nullfield-Timestamp'', ts),
             (''X-Nullfield-Signature'', ''sha256='' @ hmacHex (wb_secret w) (signedMessage ts body))],
          sr_Body = body\<rparr>)"

text \<open>The outside of a webhook: the codec, the MAC, URL parsing, and the client, which acts on the world.\<close>

record 'w webhook_env =
  wv_Marshal :: "Event \<Rightarrow> string + string"
  wv_HmacHex :: "string \<Rightarrow> string \<Rightarrow> string"
  wv_BadURL :: "string \<Rightarrow> string option"
  wv_Path :: "string \<Rightarrow> string"
  wv_Now :: "'w \<Rightarrow> time"
  wv_HTTP :: "'w \<Rightarrow> signal_request \<Rightarrow> 'w \<times> (string + signal_response)"

definition Webhook_Deliver :: "'w webhook_env \<Rightarrow> Webhook \<Rightarrow> 'w \<Rightarrow> Event \<Rightarrow> 'w \<times> string option" where
  "Webhook_Deliver env w world e =
     (case wv_Marshal env e of
        Inl err \<Rightarrow> (world, Some err)
      | Inr body \<Rightarrow>
          (case wv_BadURL env (wb_url w) of
             Some err \<Rightarrow> (world, Some err)
           | None \<Rightarrow>
               let req = webhookRequest (wv_HmacHex env) w (wv_Now env world) body;
                   (world, answer) = wv_HTTP env world req
               in (world, signals_check ''POST'' (wv_Path env (wb_url w)) answer)))"

text \<open>
  What the documentation asks of a receiver: recompute the MAC over the timestamp, a dot and the
  body, and refuse a timestamp further than \<open>tolerance\<close> seconds from its clock.
\<close>

definition receiver_accepts :: "(string \<Rightarrow> string \<Rightarrow> string) \<Rightarrow> string \<Rightarrow> signal_request \<Rightarrow> bool" where
  "receiver_accepts hmacHex secret req \<longleftrightarrow>
     (\<exists>ts sig. map_of (sr_Headers req) ''X-Nullfield-Timestamp'' = Some ts \<and>
        map_of (sr_Headers req) ''X-Nullfield-Signature'' = Some sig \<and>
        sig = ''sha256='' @ hmacHex secret (signedMessage ts (sr_Body req)))"

text \<open>
  A client that keeps the requests it has sent, and answers as it likes. What is sent to the webhook then: a request for
  its URL with the event in the body, signed with its secret, and stamped with the time it was sent.
\<close>

definition recording :: "(signal_request list \<Rightarrow> signal_request \<Rightarrow> string + signal_response) \<Rightarrow>
    signal_request list webhook_env \<Rightarrow> signal_request list webhook_env" where
  "recording answer env = env\<lparr>wv_HTTP := (\<lambda>sent req. (sent @ [req], answer sent req))\<rparr>"

definition genuine_signal :: "'w webhook_env \<Rightarrow> Webhook \<Rightarrow> Event \<Rightarrow> time \<Rightarrow> signal_request \<Rightarrow> bool" where
  "genuine_signal env w e now req \<longleftrightarrow> sr_Method req = ''POST'' \<and> sr_URL req = wb_url w \<and> wv_Marshal env e = Inr (sr_Body req) \<and>
     map_of (sr_Headers req) ''X-Nullfield-Timestamp'' = Some (itoa (now div Second)) \<and>
     receiver_accepts (wv_HmacHex env) (wb_secret w) req"

text \<open>A webhook's request passes the check its receivers are told to make.\<close>

lemma webhook_request_verifies: "receiver_accepts hmacHex (wb_secret w) (webhookRequest hmacHex w now body)"
  by (simp add: receiver_accepts_def webhookRequest_def Let_def)

lemma Deliver_records:
  "fst (Webhook_Deliver (recording answer env) w sent e) = sent \<or>
   (\<exists>req. fst (Webhook_Deliver (recording answer env) w sent e) = sent @ [req] \<and> genuine_signal env w e (wv_Now env sent) req)"
proof (cases "wv_Marshal env e")
  case (Inr body)
  let ?req = "webhookRequest (wv_HmacHex env) w (wv_Now env sent) body"
  have "sr_Method ?req = ''POST''" "sr_URL ?req = wb_url w" "sr_Body ?req = body"
    "map_of (sr_Headers ?req) ''X-Nullfield-Timestamp'' = Some (itoa (wv_Now env sent div Second))"
    by (simp_all add: webhookRequest_def Let_def)
  then have "genuine_signal env w e (wv_Now env sent) ?req"
    unfolding genuine_signal_def using Inr webhook_request_verifies by simp
  moreover have "fst (Webhook_Deliver (recording answer env) w sent e) \<in> {sent, sent @ [?req]}"
    using Inr by (cases "wv_BadURL env (wb_url w)") (simp_all add: Webhook_Deliver_def recording_def Let_def)
  ultimately show ?thesis by blast
qed (simp add: Webhook_Deliver_def recording_def)

lemma world_records:
  "\<exists>more_sent. world_after (Webhook_Deliver (recording answer env) w) e sent n = sent @ more_sent \<and> length more_sent \<le> n \<and>
     (\<forall>pre req post. more_sent = pre @ req # post \<longrightarrow> genuine_signal env w e (wv_Now env (sent @ pre)) req)"
proof (induction n arbitrary: sent)
  case (Suc n)
  let ?next = "fst (Webhook_Deliver (recording answer env) w sent e)"
  obtain m where m: "world_after (Webhook_Deliver (recording answer env) w) e sent (Suc n) = ?next @ m" "length m \<le> n"
      "\<And>pre req post. m = pre @ req # post \<Longrightarrow> genuine_signal env w e (wv_Now env (?next @ pre)) req"
    using Suc.IH [of ?next] by auto
  from Deliver_records [of answer env w sent e] show ?case
  proof
    assume "?next = sent"
    then show ?thesis using m by (intro exI [of _ m]) auto
  next
    assume "\<exists>req. ?next = sent @ [req] \<and> genuine_signal env w e (wv_Now env sent) req"
    then obtain req where "?next = sent @ [req]" "genuine_signal env w e (wv_Now env sent) req"
      by blast
    then show ?thesis using m by (intro exI [of _ "req # m"]) (auto simp: Cons_eq_append_conv)
  qed
qed simp

lemma itoa_no_dot: "CHR ''.'' \<notin> set (itoa i)"
  using itoa_chars [of i] by auto

lemma Cut_found: "c \<notin> set b \<Longrightarrow> Cut (b @ c # a) c = (b, a, True)"
  by (induction b) auto

section \<open>Kubernetes Events\<close>

fun eventTypeName :: "EventType \<Rightarrow> string" where
  "eventTypeName EventMCPRequest = ''mcp.request''"
| "eventTypeName EventToolAllowed = ''tool.allowed''"
| "eventTypeName EventToolDenied = ''tool.denied''"
| "eventTypeName EventIdentityFailed = ''identity.failed''"
| "eventTypeName EventCircuitTripped = ''circuit.tripped''"
| "eventTypeName EventUpstreamError = ''upstream.error''"
| "eventTypeName EventAnomalyVelocity = ''anomaly.velocity''"
| "eventTypeName EventHoldCreated = ''hold.created''"
| "eventTypeName EventHoldApproved = ''hold.approved''"
| "eventTypeName EventScopeModified = ''scope.modified''"
| "eventTypeName EventAnomalySequence = ''anomaly.sequence''"
| "eventTypeName EventClaimsDrift = ''claims.drift''"
| "eventTypeName EventInspectionFinding = ''inspection.finding''"
| "eventTypeName EventInspectionRedact = ''inspection.redact''"
| "eventTypeName EventToolDrift = ''tool.drift''"
| "eventTypeName EventToolRugPull = ''tool.rug_pull''"
| "eventTypeName EventArbiterDecision = ''arbiter.decision''"

lemma eventTypeName_inj: "eventTypeName a = eventTypeName b \<Longrightarrow> a = b"
  by (cases a; cases b) simp_all

definition reason :: "EventType \<Rightarrow> string" where
  "reason t = concat (map (\<lambda>part. ToUpper (take 1 part) @ drop 1 part)
     (fieldsFunc (\<lambda>c. c = CHR ''.'' \<or> c = CHR ''_'') (eventTypeName t)))"

text \<open>\<open>url.PathEscape\<close>.\<close>

definition hexDigit :: "nat \<Rightarrow> char" where
  "hexDigit n = ''0123456789ABCDEF'' ! n"

definition pathSafe :: "char \<Rightarrow> bool" where
  "pathSafe c \<longleftrightarrow> (let n = of_char c :: nat in
     (48 \<le> n \<and> n \<le> 57) \<or> (65 \<le> n \<and> n \<le> 90) \<or> (97 \<le> n \<and> n \<le> 122) \<or> c \<in> set ''-_.~$&+:=@'')"

definition PathEscape :: "string \<Rightarrow> string" where
  "PathEscape s = concat (map (\<lambda>c. if pathSafe c then [c]
     else let n = of_char c :: nat in [CHR ''%'', hexDigit (n div 16), hexDigit (n mod 16)]) s)"

definition kubeNote :: "Event \<Rightarrow> string" where
  "kubeNote e =
     (let note = (if ev_RunID e \<noteq> [] then ''run '' @ ev_RunID e @ '': '' @ ev_Reason e else ev_Reason e)
      in if 1024 < length note then take 1024 note else note)"

definition kubeAnnotations :: "Event \<Rightarrow> labels" where
  "kubeAnnotations e = (''nullfield.io/workload'', ev_WorkloadPrincipal e) #
     filter (\<lambda>(k, v). v \<noteq> []) [(''nullfield.io/run-id'', ev_RunID e), (''nullfield.io/action'', ev_Action e),
       (''nullfield.io/reason-class'', ev_ReasonClass e), (''nullfield.io/target'', ev_Target e)]"

definition kubeEvent :: "string \<Rightarrow> string \<Rightarrow> Attestation \<Rightarrow> Event \<Rightarrow> goval" where
  "kubeEvent host eventTime att e =
     VMap [(''apiVersion'', VStr ''events.k8s.io/v1''), (''kind'', VStr ''Event''),
       (''metadata'', VMap [(''generateName'', VStr ''nullfield-''), (''namespace'', VStr (at_Namespace att)),
          (''annotations'', VMap (map (\<lambda>(k, v). (k, VStr v)) (kubeAnnotations e)))]),
       (''eventTime'', VStr eventTime), (''reportingController'', VStr ''nullfield.io/extauthz''),
       (''reportingInstance'', VStr host), (''action'', VStr ''Decide''), (''reason'', VStr (reason (ev_Type e))),
       (''type'', VStr ''Warning''), (''note'', VStr (kubeNote e)),
       (''regarding'', VMap [(''apiVersion'', VStr ''v1''), (''kind'', VStr ''ServiceAccount''),
          (''namespace'', VStr (at_Namespace att)), (''name'', VStr (at_ServiceAccount att))])]"

text \<open>
  \<open>status\<close> is the text of a response's status line and \<open>path\<close> the path of a URL; both appear in
  error messages only.
\<close>

definition KubeEvents_Deliver ::
  "watch_env \<Rightarrow> (kresponse \<Rightarrow> string) \<Rightarrow> (string \<Rightarrow> string) \<Rightarrow> string \<Rightarrow> history \<Rightarrow> Event \<Rightarrow> history \<times> string option" where
  "KubeEvents_Deliver env status path host h e =
     (case MeshAttester_Attest (ev_WorkloadPrincipal e) of
        None \<Rightarrow> (h, None)
      | Some att \<Rightarrow>
          if ev_Attester e = [] then (h, None)
          else
            let obj = KVal (kubeEvent host (we_Now env h) att e);
                url = we_Base env @ ''/apis/events.k8s.io/v1/namespaces/'' @ PathEscape (at_Namespace att) @ ''/events''
            in (case we_JSON env obj of
                  Some err \<Rightarrow> (h, Some err)
                | None \<Rightarrow>
                    (case we_BadURL env url of
                       Some err \<Rightarrow> (h, Some err)
                     | None \<Rightarrow>
                         (case kube_Do env h (request ''POST'' url ''application/json'' (Some obj)) of
                            (h, answer) \<Rightarrow>
                              (h, signals_check ''POST'' (path url)
                                 (map_sum (\<lambda>x. x) (\<lambda>r. \<lparr>sp_Status = status r, sp_StatusCode = kr_StatusCode r, sp_Body = kr_Body r\<rparr>)
                                    answer))))))"

lemma hex_roundtrip: "n < 16 \<Longrightarrow> hex_value (hexDigit n) = Some n"
  by (auto simp: hexDigit_def hex_value_def less_Suc_eq numeral_eq_Suc)

lemma PathUnescape_PathEscape: "PathUnescape (PathEscape s) = Some s"
proof (induction s)
  case Nil
  show ?case by (simp add: PathEscape_def)
next
  case (Cons c s)
  have split: "PathEscape (c # s) = (if pathSafe c then [c]
      else let n = of_char c :: nat in [CHR ''%'', hexDigit (n div 16), hexDigit (n mod 16)]) @ PathEscape s"
    by (simp add: PathEscape_def)
  have b: "(of_char c :: nat) < 256" by simp
  show ?case
  proof (cases "pathSafe c")
    case True
    then have "c \<noteq> CHR ''%''" by (auto simp: pathSafe_def)
    with True Cons show ?thesis by (simp add: split)
  next
    case False
    have "(of_char c :: nat) div 16 < 16" using b by linarith
    with False Cons show ?thesis
      by (simp add: split Let_def hex_roundtrip)
  qed
qed

lemma kubeNote_length: "length (kubeNote e) \<le> 1024"
  by (simp add: kubeNote_def Let_def)

section \<open>The choice of channels\<close>

record Options =
  so_Emits :: "EventType list"
  so_KubeEvents :: bool

datatype channel = ChKubeEvents string | ChWebhook Webhook

record signals_env =
  sv_Getenv :: "string \<Rightarrow> string"
  sv_ReadFile :: "string \<Rightarrow> file_read"
  sv_HasCerts :: "string \<Rightarrow> bool"
  sv_ParseURL :: "string \<Rightarrow> string + (string \<times> string)"

fun selectTypes :: "EventType list \<Rightarrow> string list \<Rightarrow> string + EventType list" where
  "selectTypes produced [] = Inr []"
| "selectTypes produced (v # vs) =
     (case List.find (\<lambda>t. eventTypeName t = TrimSpace v) produced of
        None \<Rightarrow> Inl (''NULLFIELD_SIGNAL_EVENTS: '' @ Quote (TrimSpace v) @ '' is not an event this binary emits'')
      | Some t \<Rightarrow> (case selectTypes produced vs of Inl err \<Rightarrow> Inl err | Inr ts \<Rightarrow> Inr (t # ts)))"

definition kubeChannel :: "signals_env \<Rightarrow> Options \<Rightarrow> EventType list \<Rightarrow> string + (channel \<times> Sink) list" where
  "kubeChannel env opts types =
     (if sv_Getenv env ''NULLFIELD_SIGNAL_KUBE_EVENTS'' \<noteq> ''true'' then Inr []
      else if \<not> so_KubeEvents opts
      then Inl ''NULLFIELD_SIGNAL_KUBE_EVENTS: not supported here; it shares a service account with the workload, which could forge Events. Use the webhook''
      else case kube_InCluster (sv_Getenv env ''KUBERNETES_SERVICE_HOST'') (sv_Getenv env ''KUBERNETES_SERVICE_PORT'') of
          Inl err \<Rightarrow> Inl err
        | Inr cfg \<Rightarrow>
            (case kube_New cfg (sv_ReadFile env (kc_CAFile cfg)) (sv_HasCerts env) of
               Inl err \<Rightarrow> Inl err
             | Inr api \<Rightarrow> Inr [(ChKubeEvents api, NewSink ''kube-events'' types)]))"

definition webhookChannel :: "signals_env \<Rightarrow> EventType list \<Rightarrow> string + (channel \<times> Sink) list" where
  "webhookChannel env types =
     (let u = sv_Getenv env ''NULLFIELD_SIGNAL_WEBHOOK_URL'' in
      if u = [] then Inr []
      else case sv_ReadFile env (sv_Getenv env ''NULLFIELD_SIGNAL_WEBHOOK_SECRET_FILE'') of
          Inl err \<Rightarrow> Inl (''NULLFIELD_SIGNAL_WEBHOOK_SECRET_FILE: '' @ err)
        | Inr secret \<Rightarrow>
            (case NewWebhook (sv_ParseURL env) u (TrimSpace secret) of
               Inl err \<Rightarrow> Inl err
             | Inr w \<Rightarrow> Inr [(ChWebhook w, NewSink ''webhook'' types)]))"

definition FromEnv :: "signals_env \<Rightarrow> Options \<Rightarrow> string + (channel \<times> Sink) list" where
  "FromEnv env opts =
     (let v = sv_Getenv env ''NULLFIELD_SIGNAL_EVENTS'' in
      case (if v = [] then Inr [EventCircuitTripped] else selectTypes (so_Emits opts) (Split (CHR '','') v)) of
        Inl err \<Rightarrow> Inl err
      | Inr types \<Rightarrow>
          (case kubeChannel env opts types of
             Inl err \<Rightarrow> Inl err
           | Inr ks \<Rightarrow> (case webhookChannel env types of Inl err \<Rightarrow> Inl err | Inr ws \<Rightarrow> Inr (ks @ ws))))"

lemma selectTypes_named: "selectTypes produced vs = Inr ts \<Longrightarrow> set ts \<subseteq> set produced \<and> eventTypeName ` set ts = TrimSpace ` set vs"
proof (induction vs arbitrary: ts)
  case (Cons v vs)
  then obtain t ts' where t: "List.find (\<lambda>t. eventTypeName t = TrimSpace v) produced = Some t" "selectTypes produced vs = Inr ts'" "ts = t # ts'"
    by (auto split: option.splits sum.splits)
  have "t \<in> set produced" "eventTypeName t = TrimSpace v"
    using t(1) by (auto simp: find_Some_iff)
  with Cons.IH [OF t(2)] t(3) show ?case by simp
qed simp

lemma kubeChannel_ok: "kubeChannel env opts types = Inr cs \<Longrightarrow> (c, s) \<in> set cs \<Longrightarrow>
    (\<exists>api. c = ChKubeEvents api) \<and> so_KubeEvents opts \<and> sk_types s = set types"
  by (auto simp: kubeChannel_def NewSink_def split: if_splits sum.splits)

lemma webhookChannel_ok: "webhookChannel env types = Inr cs \<Longrightarrow> (c, s) \<in> set cs \<Longrightarrow>
    (\<exists>w scheme host. c = ChWebhook w \<and> wb_secret w \<noteq> [] \<and> wb_url w = sv_Getenv env ''NULLFIELD_SIGNAL_WEBHOOK_URL'' \<and> sv_ParseURL env (wb_url w) = Inr (scheme, host) \<and>
       scheme \<in> {''https'', ''http''} \<and> host \<noteq> []) \<and> sk_types s = set types"
  by (auto simp: webhookChannel_def NewWebhook_def NewSink_def Let_def split: if_splits sum.splits prod.splits)

section \<open>Properties\<close>

text \<open>
  C34. The retry loop ends. Whatever delivery does to the outside world and however it fails, the
  worker is through with an event after at most five attempts: it stops at the first that
  succeeds and gives up after the fifth, having slept the backoff, doubled each time, in between.\<close>

theorem delivery_terminates:
  "\<exists>n \<le> retries. attempts deliver backoff e 0 w =
       Some (world_after deliver e w (Suc n), map (\<lambda>k. wrap64 (backoff * 2 ^ k)) [0..<n], outcome deliver e w n) \<and>
     (\<forall>m < n. outcome deliver e w m \<noteq> None) \<and> (outcome deliver e w n = None \<or> n = retries)"
proof (cases "\<exists>n \<le> retries. outcome deliver e w n = None")
  case True
  define n where "n = (LEAST n. outcome deliver e w n = None)"
  have n: "outcome deliver e w n = None" "\<And>m. m < n \<Longrightarrow> outcome deliver e w m \<noteq> None"
    using True LeastI_ex [of "\<lambda>n. outcome deliver e w n = None"] not_less_Least unfolding n_def by blast+
  obtain k where "k \<le> retries" "outcome deliver e w k = None"
    using True by blast
  then have "n \<le> retries"
    using Least_le [of "\<lambda>n. outcome deliver e w n = None" k] unfolding n_def by simp
  with attempts_success [of 0 n deliver e w backoff] n show ?thesis
    by (intro exI [of _ n]) simp
next
  case False
  with attempts_failure [of 0 retries deliver e w backoff] show ?thesis
    by (intro exI [of _ retries]) simp
qed

text \<open>A receiver that is down: five attempts, and the worker slept 1, 2, 4 and 8 seconds.\<close>

lemma delivery_terminates_witness:
  "\<exists>n \<le> retries. attempts (\<lambda>calls e. (Suc calls, Some ''refused'')) Second (event EventCircuitTripped) 0 (0 :: nat) =
       Some (5, map (\<lambda>k. wrap64 (Second * 2 ^ k)) [0..<n], Some ''refused'') \<and> n = 4"
proof -
  let ?d = "\<lambda>calls (e :: Event). (Suc calls, Some ''refused'')"
  have w: "world_after ?d e i n = i + n" for e n i
    by (induction n arbitrary: i) simp_all
  have o: "outcome ?d e i n = Some ''refused''" for e n i
    by (simp add: outcome_def)
  show ?thesis
    using delivery_terminates [of ?d Second "event EventCircuitTripped" "0 :: nat"] by (auto simp: w o retries_def)
qed

text \<open>
  C35. Signals keep their order. However emitters and the worker interleave and deliveries fail:
  the events queued are those the worker has settled, the one it works on and those waiting, in
  this order, none lost, repeated or overtaken; at most 256 wait; what is queued is, in order,
  what was emitted of the selected types, and all of it when nothing was dropped.\<close>

theorem sink_keeps_order:
  assumes "sink_run (started (NewSink name types)) ops = (st, rs)"
  shows "queued rs = settled rs @ inflight st @ sk_queue (st_sink st) \<and> length (sk_queue (st_sink st)) \<le> 256 \<and>
    subseq (queued rs) (selected (set types) ops) \<and> (dropped rs = [] \<longrightarrow> queued rs = selected (set types) ops)"
proof -
  have "inflight (started (NewSink name types)) = []" "sk_queue (st_sink (started (NewSink name types))) = []"
    "sk_types (st_sink (started (NewSink name types))) = set types"
    by (simp_all add: started_def NewSink_def inflight_def)
  with sink_run_moves [OF assms started_ok] show ?thesis
    by (auto simp: sink_ok_def queueSize_def)
qed

lemma sink_keeps_order_witness:
  "\<exists>st rs. sink_run (started (NewSink ''webhook'' [EventCircuitTripped]))
      [OpEmit (event EventCircuitTripped), OpEmit (event EventToolDenied), OpWork None, OpWork None] = (st, rs) \<and>
    settled rs = [event EventCircuitTripped] \<and>
    queued rs = settled rs @ inflight st @ sk_queue (st_sink st) \<and> length (sk_queue (st_sink st)) \<le> 256 \<and>
    queued rs = selected (set [EventCircuitTripped]) [OpEmit (event EventCircuitTripped), OpEmit (event EventToolDenied), OpWork None, OpWork None]"
proof -
  let ?ops = "[OpEmit (event EventCircuitTripped), OpEmit (event EventToolDenied), OpWork None, OpWork None]"
  obtain st rs where r: "sink_run (started (NewSink ''webhook'' [EventCircuitTripped])) ?ops = (st, rs)"
    by fastforce
  then have "dropped rs = []" "settled rs = [event EventCircuitTripped]"
    by (auto simp: started_def NewSink_def Sink_Emit_def Sink_run_step_def afterAttempt_def queueSize_def report_defs)
  with sink_keeps_order [OF r] r show ?thesis by blast
qed

text \<open>
  The worker drains the queue. From any state emitters and the worker can reach, six steps of
  the worker per waiting event and five for the one it works on leave nothing queued and nothing
  in flight, whatever the outcomes of the attempts.\<close>

theorem sink_drains:
  assumes "sink_run (started (NewSink name types)) ops = (st, rs)"
    and "6 * length (sk_queue (st_sink st)) + 5 \<le> length errs"
    and "sink_run st (map OpWork errs) = (st', rs')"
  shows "sk_queue (st_sink st') = [] \<and> st_busy st' = None \<and> settled (rs @ rs') = queued rs"
proof -
  have ok: "sink_ok st" and start: "queued rs = settled rs @ inflight st @ sk_queue (st_sink st)"
    using sink_run_moves [OF assms(1) started_ok] by (simp_all add: started_def NewSink_def inflight_def)
  have "work_left st \<le> 6 * length (sk_queue (st_sink st)) + 5"
    by (simp add: work_left_def retries_def split: option.splits)
  with work_run [OF assms(3) ok] assms(2) have "work_left st' = 0" by simp
  moreover have "sink_ok st'" and "inflight st @ sk_queue (st_sink st) @ queued rs' = settled rs' @ inflight st' @ sk_queue (st_sink st')"
    and "subseq (queued rs') (selected (sk_types (st_sink st)) (map OpWork errs))"
    using sink_run_moves [OF assms(3) ok] by simp_all
  moreover have "selected ts (map OpWork errs) = []" for ts
    by (simp add: selected_def)
  ultimately have "sk_queue (st_sink st') = []" "st_busy st' = None" "settled rs' = inflight st @ sk_queue (st_sink st)"
    by (simp_all add: work_done inflight_def del: append.simps) (auto dest: list_emb_Nil2)
  with start show ?thesis by simp
qed

lemma sink_drains_witness:
  "\<exists>st rs st' rs'. sink_run (started (NewSink ''webhook'' [EventCircuitTripped])) [OpEmit (event EventCircuitTripped)] = (st, rs) \<and>
     sink_run st (map OpWork (replicate 11 (Some ''refused''))) = (st', rs') \<and> st_busy st' = None \<and>
     settled (rs @ rs') = queued rs \<and> queued rs = [event EventCircuitTripped]"
proof -
  obtain st rs st' rs' where r: "sink_run (started (NewSink ''webhook'' [EventCircuitTripped])) [OpEmit (event EventCircuitTripped)] = (st, rs)"
    "sink_run st (map OpWork (replicate 11 (Some ''refused''))) = (st', rs')"
    by fastforce
  then have "length (sk_queue (st_sink st)) = 1" "queued rs = [event EventCircuitTripped]"
    by (auto simp: started_def NewSink_def Sink_Emit_def queueSize_def queued_def)
  with sink_drains [OF r(1) _ r(2)] r show ?thesis by auto
qed

text \<open>
  C36. Only safe channels are opened, and what they send can be checked. Whatever the environment asks for, a channel that is opened signals exactly the event
  types it names, each of which the binary emits, or breaker trips if it names none. Kubernetes Events are recorded
  only by a binary that may. A webhook is the configured URL, \<open>http\<close> or \<open>https\<close> with a host; and whatever the receiver answers, all
  that the worker sends for an event, over all its attempts, is at most five requests to that URL, each with the event as its body, stamped with the
  time it was sent, and signed with a secret that is not empty, so that a receiver that follows the documentation accepts it.\<close>

theorem signal_channels_safe:
  assumes "FromEnv env opts = Inr cs" and "(c, s) \<in> set cs"
  shows "(let names = sv_Getenv env ''NULLFIELD_SIGNAL_EVENTS'' in
       if names = [] then sk_types s = {EventCircuitTripped}
       else sk_types s = {t \<in> set (so_Emits opts). eventTypeName t \<in> TrimSpace ` set (Split (CHR '','') names)} \<and>
         TrimSpace ` set (Split (CHR '','') names) \<subseteq> eventTypeName ` set (so_Emits opts)) \<and>
    ((\<exists>api. c = ChKubeEvents api \<and> so_KubeEvents opts) \<or>
     (\<exists>w scheme host. c = ChWebhook w \<and> wb_url w = sv_Getenv env ''NULLFIELD_SIGNAL_WEBHOOK_URL'' \<and>
        sv_ParseURL env (wb_url w) = Inr (scheme, host) \<and> scheme \<in> {''https'', ''http''} \<and> host \<noteq> [] \<and> wb_secret w \<noteq> [] \<and>
        (\<forall>answer wenv e sent sent' ds err. attempts (Webhook_Deliver (recording answer wenv) w) (sk_backoff s) e 0 sent = Some (sent', ds, err) \<longrightarrow>
           (\<exists>fresh. sent' = sent @ fresh \<and> length fresh \<le> 5 \<and>
              (\<forall>pre req post. fresh = pre @ req # post \<longrightarrow> genuine_signal wenv w e (wv_Now wenv (sent @ pre)) req)))))"
proof -
  let ?v = "sv_Getenv env ''NULLFIELD_SIGNAL_EVENTS''"
  from assms(1) obtain types ks ws where
    t: "(if ?v = [] then Inr [EventCircuitTripped] else selectTypes (so_Emits opts) (Split (CHR '','') ?v)) = Inr types"
    and k: "kubeChannel env opts types = Inr ks" and w: "webhookChannel env types = Inr ws" and cs: "cs = ks @ ws"
    by (auto simp: FromEnv_def Let_def split: sum.splits)
  have types: "let names = ?v in
       if names = [] then set types = {EventCircuitTripped}
       else set types = {t \<in> set (so_Emits opts). eventTypeName t \<in> TrimSpace ` set (Split (CHR '','') names)} \<and>
         TrimSpace ` set (Split (CHR '','') names) \<subseteq> eventTypeName ` set (so_Emits opts)"
  proof (cases "?v = []")
    case False
    then have n: "set types \<subseteq> set (so_Emits opts)" "eventTypeName ` set types = TrimSpace ` set (Split (CHR '','') ?v)"
      using t selectTypes_named [of "so_Emits opts" _ types] by auto
    have "t \<in> set types" if "eventTypeName t \<in> eventTypeName ` set types" for t
      using that by (auto dest: eventTypeName_inj)
    with n(1) have "set types = {t \<in> set (so_Emits opts). eventTypeName t \<in> eventTypeName ` set types}"
      "eventTypeName ` set types \<subseteq> eventTypeName ` set (so_Emits opts)" by blast+
    then show ?thesis
      unfolding Let_def if_not_P [OF False] n(2) [symmetric] by (rule conjI)
  qed (use t in auto)
  have sent: "\<exists>fresh. sent' = sent @ fresh \<and> length fresh \<le> 5 \<and>
      (\<forall>pre req post. fresh = pre @ req # post \<longrightarrow> genuine_signal wenv u e (wv_Now wenv (sent @ pre)) req)"
    if run: "attempts (Webhook_Deliver (recording answer wenv) u) backoff e 0 sent = Some (sent', ds, err)" for answer wenv u backoff e sent sent' ds err
  proof -
    from attempts_world [OF run] obtain n where n: "n \<le> 5" "sent' = world_after (Webhook_Deliver (recording answer wenv) u) e sent n"
      by (auto simp: retries_def)
    from world_records [of answer wenv u e sent n] show ?thesis
      unfolding n(2) using n(1) by (meson order_trans)
  qed
  consider "(c, s) \<in> set ks" | "(c, s) \<in> set ws"
    using assms(2) cs by auto
  then show ?thesis
  proof cases
    case 1
    from kubeChannel_ok [OF k this] obtain api where u: "c = ChKubeEvents api" "so_KubeEvents opts" "sk_types s = set types"
      by blast
    show ?thesis
      using types u by (intro conjI disjI1 exI [of _ api]) (simp_all only:)
  next
    case 2
    from webhookChannel_ok [OF w this] obtain u scheme host where u: "c = ChWebhook u" "sk_types s = set types"
        "wb_url u = sv_Getenv env ''NULLFIELD_SIGNAL_WEBHOOK_URL''" "sv_ParseURL env (wb_url u) = Inr (scheme, host)"
        "scheme \<in> {''https'', ''http''}" "host \<noteq> []" "wb_secret u \<noteq> []"
      by auto
    show ?thesis
      unfolding u(2) using types sent u by (intro conjI disjI2 exI [of _ u] exI [of _ scheme] exI [of _ host] allI impI)
  qed
qed

definition demo_signals :: signals_env where
  "demo_signals = \<lparr>sv_Getenv = (\<lambda>k. if k = ''NULLFIELD_SIGNAL_WEBHOOK_URL'' then ''https://h/x''
       else if k = ''NULLFIELD_SIGNAL_EVENTS'' then '' tool.denied'' else []),
     sv_ReadFile = (\<lambda>_. Inr ''s''), sv_HasCerts = (\<lambda>_. False), sv_ParseURL = (\<lambda>_. Inr (''https'', ''h''))\<rparr>"

lemma signal_channels_safe_witness:
  "\<exists>w s. FromEnv demo_signals \<lparr>so_Emits = [EventCircuitTripped, EventToolDenied], so_KubeEvents = False\<rparr> = Inr [(ChWebhook w, s)] \<and>
     sk_types s = {EventToolDenied} \<and> wb_url w = ''https://h/x'' \<and> wb_secret w \<noteq> []"
proof -
  let ?opts = "\<lparr>so_Emits = [EventCircuitTripped, EventToolDenied], so_KubeEvents = False\<rparr>"
  have env: "sv_Getenv demo_signals ''NULLFIELD_SIGNAL_EVENTS'' = '' tool.denied''"
    "sv_Getenv demo_signals ''NULLFIELD_SIGNAL_WEBHOOK_URL'' = ''https://h/x''"
    by (simp_all add: demo_signals_def)
  have names: "TrimSpace ` set (Split (CHR '','') '' tool.denied'') = {''tool.denied''}"
    by (simp add: TrimSpace_def is_space_def)
  obtain w s where r: "FromEnv demo_signals ?opts = Inr [(ChWebhook w, s)]"
    by (simp add: FromEnv_def demo_signals_def kubeChannel_def webhookChannel_def NewWebhook_def TrimSpace_def is_space_def
        Let_def)
  then have "(ChWebhook w, s) \<in> set [(ChWebhook w, s)]" by simp
  note safe = signal_channels_safe [OF r this]
  from safe [THEN conjunct1] have "sk_types s = {t \<in> set (so_Emits ?opts). eventTypeName t \<in> {''tool.denied''}}"
    unfolding env names Let_def by (simp only: list.distinct if_False)
  moreover have "eventTypeName EventCircuitTripped \<notin> {''tool.denied''}" "eventTypeName EventToolDenied \<in> {''tool.denied''}"
    by simp_all
  ultimately have "sk_types s = {EventToolDenied}"
    unfolding Options.select_convs by (simp only: list.set) blast
  moreover from safe [THEN conjunct2] have "wb_url w = ''https://h/x'' \<and> wb_secret w \<noteq> []"
    unfolding env by (elim disjE exE conjE) (simp_all only: channel.distinct channel.inject simp_thms)
  ultimately show ?thesis using r by blast
qed

text \<open>What is signed determines the timestamp and the body, since a timestamp has no dot.\<close>

lemma signedMessage_unambiguous:
  "Cut (signedMessage (itoa t) body) (CHR ''.'') = (itoa t, body, True)"
  by (simp add: signedMessage_def Cut_found itoa_no_dot)

text \<open>A Kubernetes Event is only recorded about the service account of an attested workload.\<close>

lemma kube_event_regards_workload:
  assumes "KubeEvents_Deliver env status path host h e = (h', r)" and "h' \<noteq> h"
  obtains att q where "MeshAttester_Attest (ev_WorkloadPrincipal e) = Some att" and "ev_Attester e \<noteq> []"
    and "h' = h @ [q]" and "kh_Body q = Some (KVal (kubeEvent host (we_Now env h) att e))"
proof -
  have sent: "\<exists>q. h' = h @ [q] \<and> kh_Body q = kh_Body req" if "kube_Do env h req = (h', x)" for req x
    using that assms(2) by (auto simp: kube_Do_def Let_def split: sum.splits)
  obtain att where att: "MeshAttester_Attest (ev_WorkloadPrincipal e) = Some att" "ev_Attester e \<noteq> []"
    using assms by (auto simp: KubeEvents_Deliver_def split: option.splits if_splits)
  obtain meth url ctype x where
    "kube_Do env h (request meth url ctype (Some (KVal (kubeEvent host (we_Now env h) att e)))) = (h', x)"
    using assms unfolding KubeEvents_Deliver_def att(1) option.case Let_def
    by (auto split: option.splits if_splits prod.splits)
  from sent [OF this] att that show thesis
    by (auto simp: request_def)
qed

end
