(* ===== verification/AuditExport.thy ===== *)
theory AuditExport
  imports Signals
begin

text \<open>
  What leaves the process for an audit event: the structured log line (\<open>LogEmitter\<close> of
  \<open>pkg/audit/audit.go\<close>) and the OpenTelemetry span (\<open>pkg/audit/otel.go\<close>). The JSON encoder, the
  exporter and the tracer are third-party: a line is the list of its fields, and a span is its name, the
  attributes set on it and the calls of \<open>SetStatus\<close>, in order.
\<close>

section \<open>The log\<close>

definition LogEmitter_Emit :: "(Event \<Rightarrow> string) \<Rightarrow> Event \<Rightarrow> time \<Rightarrow> (string \<times> string) list" where
  "LogEmitter_Emit marshal e now =
     (let e = e\<lparr>ev_Time := Some now\<rparr> in
      [(''event_type'', eventTypeName (ev_Type e)), (''method'', ev_Method e), (''tool'', ev_ToolName e), (''identity'', ev_Identity e),
       (''gate'', ev_Gate e), (''reason_class'', ev_ReasonClass e), (''rule_id'', ev_RuleID e), (''payload'', marshal e)])"

section \<open>Spans\<close>

datatype attribute = AString string | AInt int

datatype code = CodeUnset | CodeError | CodeOk

record span =
  sp_Name :: string
  sp_Attributes :: "(string \<times> attribute) list"
  sp_Statuses :: "(code \<times> string) list"

text \<open>\<open>InitOTLP\<close>: whether there is a tracer afterwards, or why not.\<close>

definition InitOTLP :: "string option \<Rightarrow> string option \<Rightarrow> string + bool" where
  "InitOTLP exporterErr resourceErr =
     (case exporterErr of
        Some err \<Rightarrow> Inl err
      | None \<Rightarrow> (case resourceErr of Some err \<Rightarrow> Inl err | None \<Rightarrow> Inr True))"

definition startAttributes :: "Event \<Rightarrow> (string \<times> attribute) list" where
  "startAttributes e = map (\<lambda>(k, v). (''nullfield.'' @ k, AString v))
     [(''event_type'', eventTypeName (ev_Type e)), (''method'', ev_Method e), (''tool'', ev_ToolName e), (''identity'', ev_Identity e),
      (''session_id'', ev_SessionID e), (''target'', ev_Target e), (''gate'', ev_Gate e), (''reason_class'', ev_ReasonClass e),
      (''rule_id'', ev_RuleID e), (''policy_ref'', ev_PolicyRef e), (''registry_ref'', ev_RegistryRef e), (''route'', ev_Route e),
      (''run_id'', ev_RunID e), (''action'', ev_Action e), (''workload_principal'', ev_WorkloadPrincipal e), (''attester'', ev_Attester e),
      (''assurance'', ev_Assurance e), (''transport'', ev_Transport e), (''counterfactual'', ev_Counterfactual e)]"

definition optionalAttributes :: "Event \<Rightarrow> (string \<times> attribute) list" where
  "optionalAttributes e =
     (case ev_RuleIndex e of None \<Rightarrow> [] | Some i \<Rightarrow> [(''nullfield.rule_index'', AInt i)]) @
     map (\<lambda>(k, v). (''nullfield.label.'' @ k, AString v)) (ev_Labels e) @
     (if ev_Reason e = [] then [] else [(''nullfield.reason'', AString (ev_Reason e))]) @
     (if ev_Error e = [] then [] else [(''nullfield.error'', AString (ev_Error e))])"

definition typeAttributes :: "Event \<Rightarrow> (string \<times> attribute) list" where
  "typeAttributes e =
     (case ev_Type e of
        EventHoldCreated \<Rightarrow> [(''nullfield.hold_status'', AString ''pending'')]
      | EventHoldApproved \<Rightarrow> [(''nullfield.hold_status'', AString ''approved'')]
      | EventScopeModified \<Rightarrow> [(''nullfield.scope_modifications'', AString (ev_Reason e))]
      | EventAnomalyVelocity \<Rightarrow> [(''nullfield.anomaly_type'', AString ''velocity'')]
      | _ \<Rightarrow> [])"

definition spanStatuses :: "Event \<Rightarrow> (code \<times> string) list" where
  "spanStatuses e =
     (if ev_Error e = [] then [] else [(CodeError, ev_Error e)]) @
     (if ev_Type e \<in> {EventToolDenied, EventIdentityFailed, EventCircuitTripped} then [(CodeError, ev_Reason e)]
      else if ev_Type e = EventToolAllowed then [(CodeOk, [])] else [])"

definition OTLPEmitter_Emit :: "bool \<Rightarrow> Event \<Rightarrow> span option" where
  "OTLPEmitter_Emit tracer e =
     (if \<not> tracer then None
      else Some \<lparr>sp_Name = ''nullfield.'' @ eventTypeName (ev_Type e),
             sp_Attributes = startAttributes e @ optionalAttributes e @ typeAttributes e, sp_Statuses = spanStatuses e\<rparr>)"

text \<open>The codes in OpenTelemetry's order: \<open>Ok\<close> outranks \<open>Error\<close>, which outranks \<open>Unset\<close>.\<close>

fun code_rank :: "code \<Rightarrow> nat" where
  "code_rank CodeUnset = 0"
| "code_rank CodeError = 1"
| "code_rank CodeOk = 2"

lemma code_rank_inj: "code_rank a = code_rank b \<Longrightarrow> a = b"
  by (cases a; cases b) auto

instantiation code :: linorder
begin

definition less_eq_code :: "code \<Rightarrow> code \<Rightarrow> bool" where
  "less_eq_code a b \<longleftrightarrow> code_rank a \<le> code_rank b"

definition less_code :: "code \<Rightarrow> code \<Rightarrow> bool" where
  "less_code a b \<longleftrightarrow> code_rank a < code_rank b"

instance
  by standard (auto simp: less_eq_code_def less_code_def intro: code_rank_inj)

end

text \<open>
  The status a span ends with, by the documented rule: a call of a lower rank than the status so far is
  ignored, any other replaces it.
\<close>

definition setStatus :: "code \<times> string \<Rightarrow> code \<times> string \<Rightarrow> code \<times> string" where
  "setStatus new cur = (if fst new < fst cur then cur else new)"

definition finalStatus :: "span \<Rightarrow> code \<times> string" where
  "finalStatus s = fold setStatus (sp_Statuses s) (CodeUnset, [])"

section \<open>What the exports say\<close>

lemma finalStatus_denied:
  assumes "OTLPEmitter_Emit tracer e = Some s"
  shows "fst (finalStatus s) = CodeError \<longleftrightarrow>
     ev_Type e \<in> {EventToolDenied, EventIdentityFailed, EventCircuitTripped} \<or> (ev_Error e \<noteq> [] \<and> ev_Type e \<noteq> EventToolAllowed)"
  using assms by (auto simp: OTLPEmitter_Emit_def finalStatus_def setStatus_def less_code_def spanStatuses_def split: if_splits)

text \<open>The final code is the highest of those set.\<close>

lemma finalStatus_max: "fst (finalStatus s) = Max (insert CodeUnset (fst ` set (sp_Statuses s)))"
proof -
  have "fst (fold setStatus xs st) = fold max (map fst xs) (fst st)" for xs and st :: "code \<times> string"
    by (induction xs arbitrary: st) (auto simp: setStatus_def max_def)
  then show ?thesis
    unfolding finalStatus_def by (simp add: Max.set_eq_fold [symmetric])
qed

end
