(* ===== verification/Scope.thy ===== *)
theory Scope
  imports Types
begin

text \<open>
  Package \<open>scope\<close> (\<open>modifier.go\<close>): the rewriting of a tool call's arguments and of the
  response body under a SCOPE rule. The regular-expression engine is Go's \<open>regexp\<close>: a pattern
  compiles to a program or not, and a program finds all matches and replaces them.
\<close>

record regexp =
  rx_FindAll :: "string \<Rightarrow> string list"
  rx_ReplaceAll :: "string \<Rightarrow> string \<Rightarrow> string"

type_synonym regexp_lib = "string \<Rightarrow> regexp option"

section \<open>Requests\<close>

definition redirectArgNames :: "string list" where
  "redirectArgNames = [''url'', ''uri'', ''redirect'', ''location'', ''target'', ''cdn_url'',
     ''war_url'', ''webhook_url'', ''callback_url'']"

definition isRedirectLike :: "string \<Rightarrow> bool" where
  "isRedirectLike v \<longleftrightarrow> HasPrefix v ''http://'' \<or> HasPrefix v ''https://''"

record Modifications =
  StrippedArgs :: "string list"
  InjectedArgs :: "string list"
  RedactedCount :: nat

definition noMods :: Modifications where
  "noMods = \<lparr>StrippedArgs = [], InjectedArgs = [], RedactedCount = 0\<rparr>"

fun stripArgs :: "string list \<Rightarrow> gomap \<times> Modifications \<Rightarrow> gomap \<times> Modifications" where
  "stripArgs [] (result, mods) = (result, mods)"
| "stripArgs (key # keys) (result, mods) =
     stripArgs keys
       (if map_of result key \<noteq> None
        then (AList.delete key result, mods\<lparr>StrippedArgs := StrippedArgs mods @ [key]\<rparr>)
        else (result, mods))"

fun injectArgs :: "gomap \<Rightarrow> gomap \<times> Modifications \<Rightarrow> gomap \<times> Modifications" where
  "injectArgs [] (result, mods) = (result, mods)"
| "injectArgs ((key, val) # kvs) (result, mods) =
     injectArgs kvs (AList.update key val result, mods\<lparr>InjectedArgs := InjectedArgs mods @ [key]\<rparr>)"

definition isRedirectArg :: "string \<times> goval \<Rightarrow> bool" where
  "isRedirectArg = (\<lambda>(k, v). ToLower k \<in> set redirectArgNames \<and>
     (case as_str v of None \<Rightarrow> False | Some s \<Rightarrow> isRedirectLike s))"

definition blockRedirects :: "gomap \<times> Modifications \<Rightarrow> gomap \<times> Modifications" where
  "blockRedirects = (\<lambda>(result, mods).
     (filter (\<lambda>p. \<not> isRedirectArg p) result,
      mods\<lparr>StrippedArgs := StrippedArgs mods @ map fst (filter isRedirectArg result)\<rparr>))"

text \<open>A nil map of arguments is \<open>None\<close>: the call named no arguments.\<close>

definition ModifyRequest ::
  "gomap option \<Rightarrow> ScopeRequestConfig option \<Rightarrow> gomap option \<times> Modifications" where
  "ModifyRequest args cfg =
     (case (cfg, args) of
        (Some c, Some a) \<Rightarrow>
          let (result, mods) = stripArgs (StripArguments c) (a, noMods);
              (result, mods) = injectArgs (InjectArguments c) (result, mods);
              (result, mods) = (if BlockRedirects c then blockRedirects (result, mods) else (result, mods))
          in (Some result, mods)
      | _ \<Rightarrow> (args, noMods))"

section \<open>Responses\<close>

definition redactSuffix :: string where
  "redactSuffix = [CHR 0x5C] @ ''s*['' @ [CHR 0x22, CHR 0x27] @ '']?'' @ [CHR 0x5C] @ ''s*[:=]'' @
     [CHR 0x5C] @ ''s*['' @ [CHR 0x22, CHR 0x27] @ '']?[^'' @ [CHR 0x22, CHR 0x27] @
     '',}'' @ [CHR 0x5C] @ ''s]+['' @ [CHR 0x22, CHR 0x27] @ '']?''"

fun redactAll :: "regexp_lib \<Rightarrow> string \<Rightarrow> (string \<Rightarrow> string) \<Rightarrow> string list \<Rightarrow> string \<times> nat \<Rightarrow> string \<times> nat" where
  "redactAll rx replacement wrap [] (text1, n) = (text1, n)"
| "redactAll rx replacement wrap (pattern # ps) (text1, n) =
     redactAll rx replacement wrap ps
       (case rx (wrap pattern) of
          None \<Rightarrow> (text1, n)
        | Some re \<Rightarrow>
            let matches = rx_FindAll re text1 in
            if matches \<noteq> [] then (rx_ReplaceAll re text1 replacement, n + length matches)
            else (text1, n))"

definition ModifyResponse :: "regexp_lib \<Rightarrow> string \<Rightarrow> ScopeResponseConfig option \<Rightarrow> string \<times> nat" where
  "ModifyResponse rx body cfg =
     (case cfg of
        None \<Rightarrow> (body, 0)
      | Some c \<Rightarrow>
          if RedactPatterns c = [] then (body, 0)
          else
            let replacement = (if RedactReplacement c = [] then ''[REDACTED]'' else RedactReplacement c);
                (text1, total) = redactAll rx replacement (\<lambda>p. ''(?i)'' @ p @ redactSuffix)
                  (RedactPatterns c) (body, 0);
                (text1, total) = (if total = 0
                  then redactAll rx replacement (\<lambda>p. ''(?i)'' @ p) (RedactPatterns c) (text1, total)
                  else (text1, total))
            in (text1, total))"

definition ContainsSensitive :: "string \<Rightarrow> string list \<Rightarrow> bool" where
  "ContainsSensitive s patterns \<longleftrightarrow> (\<exists>p \<in> set patterns. Contains (ToLower s) (ToLower p))"

section \<open>Lemmas\<close>

lemma stripArgs_lookup:
  "map_of (fst (stripArgs keys (result, mods))) k = (if k \<in> set keys then None else map_of result k)"
proof (induction keys arbitrary: result mods)
  case (Cons key keys)
  then show ?case by (auto simp: delete_conv')
qed simp

lemma injectArgs_lookup:
  "distinct (map fst kvs) \<Longrightarrow>
   map_of (fst (injectArgs kvs (result, mods))) k =
     (case map_of kvs k of Some v \<Rightarrow> Some v | None \<Rightarrow> map_of result k)"
proof (induction kvs arbitrary: result mods)
  case (Cons kv kvs)
  obtain key val where kv: "kv = (key, val)" by (cases kv)
  have "key \<notin> fst ` set kvs" using Cons.prems kv by simp
  then have "map_of kvs key = None" by (simp add: map_of_eq_None_iff)
  then show ?case using Cons by (auto simp: kv update_conv' split: option.splits)
qed simp

lemma stripArgs_distinct:
  "distinct (map fst result) \<Longrightarrow> distinct (map fst (fst (stripArgs keys (result, mods))))"
  by (induction keys arbitrary: result mods) (auto simp: distinct_delete)

lemma injectArgs_distinct:
  "distinct (map fst result) \<Longrightarrow> distinct (map fst (fst (injectArgs kvs (result, mods))))"
proof (induction kvs arbitrary: result mods)
  case (Cons kv kvs)
  then show ?case by (cases kv) (auto intro: distinct_update)
qed simp

lemma map_of_filter:
  "distinct (map fst m) \<Longrightarrow>
   map_of (filter P m) k = (case map_of m k of Some v \<Rightarrow> if P (k, v) then Some v else None | None \<Rightarrow> None)"
proof (induction m)
  case (Cons kv m)
  obtain key val where kv: "kv = (key, val)" by (cases kv)
  have "key \<notin> fst ` set m" using Cons.prems kv by simp
  then have "map_of m key = None" by (simp add: map_of_eq_None_iff)
  then show ?case using Cons by (auto simp: kv split: option.splits)
qed simp

section \<open>Properties\<close>

text \<open>
  What reaches the tool under a SCOPE rule, argument by argument: an injected argument has
  the configured value whatever the caller sent, a stripped one that is not injected is absent,
  any other is what the caller sent; and with \<open>blockRedirects\<close> on, no argument with a
  redirect-prone name carries an HTTP URL, not even an injected one.
\<close>

theorem ModifyRequest_lookup:
  assumes "distinct (map fst args)" and "distinct (map fst (InjectArguments c))"
  shows "\<exists>result mods. ModifyRequest (Some args) (Some c) = (Some result, mods) \<and>
     (\<forall>k. map_of result k =
        (let v = (case map_of (InjectArguments c) k of Some v \<Rightarrow> Some v
                  | None \<Rightarrow> if k \<in> set (StripArguments c) then None else map_of args k)
         in case v of None \<Rightarrow> None
            | Some x \<Rightarrow> if BlockRedirects c \<and> isRedirectArg (k, x) then None else Some x))"
proof -
  obtain r1 m1 where 1: "stripArgs (StripArguments c) (args, noMods) = (r1, m1)" by fastforce
  obtain r2 m2 where 2: "injectArgs (InjectArguments c) (r1, m1) = (r2, m2)" by fastforce
  have look: "map_of r2 k = (case map_of (InjectArguments c) k of Some v \<Rightarrow> Some v
      | None \<Rightarrow> if k \<in> set (StripArguments c) then None else map_of args k)" for k
    using injectArgs_lookup [OF assms(2), of r1 m1 k] stripArgs_lookup [of "StripArguments c" args noMods k]
    by (simp add: 1 2 split: option.splits)
  have "distinct (map fst r1)" using stripArgs_distinct [OF assms(1), of "StripArguments c" noMods] 1 by simp
  from injectArgs_distinct [OF this, of "InjectArguments c" m1] have "distinct (map fst r2)" by (simp add: 2)
  note fl = map_of_filter [OF this]
  show ?thesis
    by (auto simp: ModifyRequest_def 1 2 blockRedirects_def fl look Let_def split: option.splits)
qed

definition demo_scope :: ScopeRequestConfig where
  "demo_scope = \<lparr>StripArguments = [''debug''], InjectArguments = [(''limit'', VInt 10)],
     InjectCredentials = [], BlockRedirects = True\<rparr>"

lemma ModifyRequest_lookup_witness:
  "\<exists>result mods. ModifyRequest (Some [(''debug'', VBool True), (''URL'', VStr ''http://x'')])
      (Some demo_scope) = (Some result, mods) \<and> map_of result ''debug'' = None \<and>
      map_of result ''limit'' = Some (VInt 10) \<and> map_of result ''URL'' = None"
proof -
  have "isRedirectArg (''URL'', VStr ''http://x'')"
    by (simp add: isRedirectArg_def redirectArgNames_def isRedirectLike_def str_eval)
  moreover have "\<not> isRedirectArg (''limit'', VInt 10)" by (simp add: isRedirectArg_def)
  ultimately show ?thesis
    using ModifyRequest_lookup [of "[(''debug'', VBool True), (''URL'', VStr ''http://x'')]" demo_scope]
    by (auto simp: demo_scope_def)
qed

text \<open>
  A call that names no arguments escapes the injection: for the nil map the request comes
  back as it was, nothing injected and nothing recorded, whatever the rule injects.
\<close>

theorem nil_arguments_not_injected:
  "ModifyRequest None cfg = (None, noMods)"
  by (simp add: ModifyRequest_def split: option.splits)

end
