(* ===== verification/Inspection.thy ===== *)
theory Inspection
  imports Scope
begin

text \<open>
  Package \<open>inspection\<close> (\<open>inspector.go\<close>): detection and redaction of sensitive content in
  tool responses. A rule keeps the text of its pattern; matching goes through the
  regular-expression engine, an argument, and a pattern that does not compile matches nothing
  (\<open>MustCompile\<close> stops the program at start-up for the built-in ones).
\<close>

record Finding =
  fi_Category :: string
  fi_Pattern :: string
  fi_Match :: string
  fi_Severity :: string

record irule =
  ir_category :: string
  ir_severity :: string
  ir_pattern :: string
  ir_label :: string

type_synonym Inspector = "irule list"

record Config =
  cf_DetectCredentials :: bool
  cf_DetectPII :: bool
  cf_DetectPromptLeak :: bool
  cf_DetectInternalPaths :: bool
  cf_CustomPatterns :: "string list"

definition DefaultConfig :: Config where
  "DefaultConfig = \<lparr>cf_DetectCredentials = True, cf_DetectPII = True, cf_DetectPromptLeak = True,
     cf_DetectInternalPaths = True, cf_CustomPatterns = []\<rparr>"

section \<open>The built-in rules\<close>

definition credentialRules :: "irule list" where
  "credentialRules = [
    \<lparr>ir_category = ''credential'', ir_severity = ''CRITICAL'',
     ir_pattern = ''-----BEGIN'' @ [CHR 0x5C] @ ''s+(?:'' @ [CHR 0x5C] @ ''w+'' @ [CHR 0x5C] @
     ''s+)?PRIVATE KEY-----'',
     ir_label = ''private_key_header''\<rparr>,
    \<lparr>ir_category = ''credential'', ir_severity = ''CRITICAL'',
     ir_pattern = ''(?i)(?:password|passwd|secret|api[_-]?key|auth[_-]?token|access[_-]?token|private[_-]?key)'' @
     [CHR 0x5C] @ ''s*[:=]'' @ [CHR 0x5C] @ ''s*['' @ [CHR 0x22, CHR 0x27] @ '']?[^'' @
     [CHR 0x5C] @ ''s'' @ [CHR 0x22, CHR 0x27] @ '']{8,}'',
     ir_label = ''credential_assignment''\<rparr>,
    \<lparr>ir_category = ''credential'', ir_severity = ''HIGH'',
     ir_pattern = ''(?:sk|pk|ak|rk)-[a-zA-Z0-9]{20,}'',
     ir_label = ''api_key_pattern''\<rparr>,
    \<lparr>ir_category = ''credential'', ir_severity = ''HIGH'',
     ir_pattern = ''(?i)bearer'' @ [CHR 0x5C] @ ''s+[a-zA-Z0-9._'' @ [CHR 0x5C] @ ''-]{20,}'',
     ir_label = ''bearer_token''\<rparr>,
    \<lparr>ir_category = ''credential'', ir_severity = ''HIGH'',
     ir_pattern = ''(?i)(?:aws|gcp|azure)[_-](?:secret|key|token)[_-]?'' @ [CHR 0x5C] @ ''w*'' @
     [CHR 0x5C] @ ''s*[:=]'' @ [CHR 0x5C] @ ''s*'' @ [CHR 0x5C] @ ''S+'',
     ir_label = ''cloud_credential''\<rparr>]"

definition piiRules :: "irule list" where
  "piiRules = [
    \<lparr>ir_category = ''pii'', ir_severity = ''HIGH'',
     ir_pattern = [CHR 0x5C] @ ''b'' @ [CHR 0x5C] @ ''d{3}-'' @ [CHR 0x5C] @ ''d{2}-'' @ [CHR 0x5C] @
     ''d{4}'' @ [CHR 0x5C] @ ''b'',
     ir_label = ''ssn_pattern''\<rparr>,
    \<lparr>ir_category = ''pii'', ir_severity = ''MEDIUM'',
     ir_pattern = [CHR 0x5C] @ ''b[A-Za-z0-9._%+'' @ [CHR 0x5C] @ ''-]+@[A-Za-z0-9.'' @ [CHR 0x5C] @
     ''-]+'' @ [CHR 0x5C] @ ''.[A-Z|a-z]{2,}'' @ [CHR 0x5C] @ ''b'',
     ir_label = ''email_address''\<rparr>,
    \<lparr>ir_category = ''pii'', ir_severity = ''MEDIUM'',
     ir_pattern = [CHR 0x5C] @ ''b(?:'' @ [CHR 0x5C] @ ''d{4}[- ]?){3}'' @ [CHR 0x5C] @ ''d{4}'' @
     [CHR 0x5C] @ ''b'',
     ir_label = ''credit_card_pattern''\<rparr>]"

definition promptLeakRules :: "irule list" where
  "promptLeakRules = [
    \<lparr>ir_category = ''prompt_leak'', ir_severity = ''HIGH'',
     ir_pattern = ''(?i)(?:system'' @ [CHR 0x5C] @ ''s+prompt|you'' @ [CHR 0x5C] @ ''s+are'' @
     [CHR 0x5C] @ ''s+an?'' @ [CHR 0x5C] @ ''s+(?:AI|assistant|model)|instructions?:'' @
     [CHR 0x5C] @ ''s*(?:you|do'' @ [CHR 0x5C] @ ''s+not|never|always))'',
     ir_label = ''system_prompt_fragment''\<rparr>,
    \<lparr>ir_category = ''prompt_leak'', ir_severity = ''MEDIUM'',
     ir_pattern = ''(?i)(?:respond'' @ [CHR 0x5C] @ ''s+only'' @ [CHR 0x5C] @ ''s+with|do'' @
     [CHR 0x5C] @ ''s+not'' @ [CHR 0x5C] @ ''s+reveal|never'' @ [CHR 0x5C] @
     ''s+disclose|keep'' @ [CHR 0x5C] @ ''s+(?:this|these)'' @ [CHR 0x5C] @
     ''s+(?:secret|private|confidential))'',
     ir_label = ''instruction_leak''\<rparr>]"

definition internalPathRules :: "irule list" where
  "internalPathRules = [
    \<lparr>ir_category = ''internal_path'', ir_severity = ''HIGH'',
     ir_pattern = ''/var/run/secrets/kubernetes'',
     ir_label = ''k8s_sa_path''\<rparr>,
    \<lparr>ir_category = ''internal_path'', ir_severity = ''MEDIUM'',
     ir_pattern = ''/etc/(?:shadow|passwd|ssl/private|teleport|nullfield)'',
     ir_label = ''sensitive_etc_path''\<rparr>,
    \<lparr>ir_category = ''internal_path'', ir_severity = ''MEDIUM'',
     ir_pattern = ''(?i)(?:'' @ [CHR 0x5C] @ ''w+'' @ [CHR 0x5C] @ ''.svc'' @ [CHR 0x5C] @
     ''.cluster'' @ [CHR 0x5C] @ ''.local|kubernetes'' @ [CHR 0x5C] @ ''.default)'',
     ir_label = ''k8s_internal_dns''\<rparr>,
    \<lparr>ir_category = ''internal_path'', ir_severity = ''MEDIUM'',
     ir_pattern = ''(?:'' @ [CHR 0x5C] @ ''d{1,3}'' @ [CHR 0x5C] @ ''.){3}'' @ [CHR 0x5C] @
     ''d{1,3}:'' @ [CHR 0x5C] @ ''d{4,5}'',
     ir_label = ''internal_ip_port''\<rparr>]"

section \<open>Operations\<close>

definition Inspector_New :: "regexp_lib \<Rightarrow> Config \<Rightarrow> Inspector" where
  "Inspector_New rx cfg =
     (if cf_DetectCredentials cfg then credentialRules else []) @
     (if cf_DetectPII cfg then piiRules else []) @
     (if cf_DetectPromptLeak cfg then promptLeakRules else []) @
     (if cf_DetectInternalPaths cfg then internalPathRules else []) @
     map (\<lambda>p. \<lparr>ir_category = ''custom'', ir_severity = ''HIGH'', ir_pattern = p, ir_label = p\<rparr>)
       (filter (\<lambda>p. rx p \<noteq> None) (cf_CustomPatterns cfg))"

definition FindAllString :: "regexp_lib \<Rightarrow> irule \<Rightarrow> string \<Rightarrow> string list" where
  "FindAllString rx r s = (case rx (ir_pattern r) of None \<Rightarrow> [] | Some re \<Rightarrow> rx_FindAll re s)"

definition ReplaceAllString :: "regexp_lib \<Rightarrow> irule \<Rightarrow> string \<Rightarrow> string \<Rightarrow> string" where
  "ReplaceAllString rx r s replacement =
     (case rx (ir_pattern r) of None \<Rightarrow> s | Some re \<Rightarrow> rx_ReplaceAll re s replacement)"

definition MatchString :: "regexp_lib \<Rightarrow> irule \<Rightarrow> string \<Rightarrow> bool" where
  "MatchString rx r s \<longleftrightarrow> FindAllString rx r s \<noteq> []"

definition shorten :: "string \<Rightarrow> string" where
  "shorten m = (if 100 < length m then take 100 m @ ''...'' else m)"

definition Inspector_Inspect :: "regexp_lib \<Rightarrow> Inspector \<Rightarrow> string \<Rightarrow> Finding list" where
  "Inspector_Inspect rx i content =
     concat (map (\<lambda>r. map (\<lambda>m. \<lparr>fi_Category = ir_category r, fi_Pattern = ir_label r,
         fi_Match = shorten m, fi_Severity = ir_severity r\<rparr>)
       (take 3 (FindAllString rx r content))) i)"

fun redactFrom :: "regexp_lib \<Rightarrow> string \<Rightarrow> Inspector \<Rightarrow> string \<times> nat \<Rightarrow> string \<times> nat" where
  "redactFrom rx replacement [] (result, count) = (result, count)"
| "redactFrom rx replacement (r # rs) (result, count) =
     redactFrom rx replacement rs
       (if MatchString rx r result
        then (ReplaceAllString rx r result replacement, count + length (FindAllString rx r result))
        else (result, count))"

definition Inspector_Redact :: "regexp_lib \<Rightarrow> Inspector \<Rightarrow> string \<Rightarrow> string \<Rightarrow> string \<times> nat" where
  "Inspector_Redact rx i content replacement =
     redactFrom rx (if replacement = [] then ''[REDACTED]'' else replacement) i (content, 0)"

definition HasSensitiveContent :: "regexp_lib \<Rightarrow> Inspector \<Rightarrow> string \<Rightarrow> bool" where
  "HasSensitiveContent rx i content \<longleftrightarrow> (\<exists>r \<in> set i. MatchString rx r content)"

text \<open>\<open>cats\<close> is the order in which Go ranges over the categories found.\<close>

definition Summarize :: "string list \<Rightarrow> Finding list \<Rightarrow> string" where
  "Summarize cats findings =
     (if findings = [] then ''no sensitive content detected''
      else Join (map (\<lambda>c. map (\<lambda>x. if x = CHR ''_'' then CHR '' '' else x) c @ '': '' @
           replicate (length (filter (\<lambda>f. fi_Category f = c) findings)) CHR ''*'')
         (filter (\<lambda>c. c \<in> fi_Category ` set findings) cats)) '', '')"

section \<open>Lemmas\<close>

lemma redactFrom_count: "n \<le> snd (redactFrom rx rep rs (s, n))"
proof (induction rs arbitrary: s n)
  case (Cons r rs)
  show ?case
    using Cons [of "n + length (FindAllString rx r s)"] Cons [of n]
    by (auto intro: order_trans [OF le_add1])
qed simp

lemma redactFrom_none:
  "\<forall>r \<in> set rs. \<not> MatchString rx r s \<Longrightarrow> redactFrom rx rep rs (s, n) = (s, n)"
  by (induction rs) auto

lemma redactFrom_some:
  "\<exists>r \<in> set rs. MatchString rx r s \<Longrightarrow> n < snd (redactFrom rx rep rs (s, n))"
proof (induction rs)
  case (Cons r rs)
  show ?case
  proof (cases "MatchString rx r s")
    case True
    then have "n < n + length (FindAllString rx r s)" by (simp add: MatchString_def)
    also have "\<dots> \<le> snd (redactFrom rx rep rs (ReplaceAllString rx r s rep,
        n + length (FindAllString rx r s)))" by (rule redactFrom_count)
    finally show ?thesis using True by simp
  next
    case False
    with Cons show ?thesis by simp
  qed
qed simp

section \<open>Properties\<close>

text \<open>
  Detection, redaction and the yes-or-no test agree: findings are reported iff the content
  is sensitive, iff redaction counts a match; and content that is not sensitive comes back from
  redaction unchanged.
\<close>

theorem inspection_agrees:
  "(Inspector_Inspect rx i content \<noteq> [] \<longleftrightarrow> HasSensitiveContent rx i content) \<and>
   (0 < snd (Inspector_Redact rx i content rep) \<longleftrightarrow> HasSensitiveContent rx i content) \<and>
   (HasSensitiveContent rx i content \<or> fst (Inspector_Redact rx i content rep) = content)"
proof -
  have "Inspector_Inspect rx i content \<noteq> [] \<longleftrightarrow> HasSensitiveContent rx i content"
    by (auto simp: Inspector_Inspect_def HasSensitiveContent_def MatchString_def)
  moreover have "0 < snd (Inspector_Redact rx i content rep) \<longleftrightarrow> HasSensitiveContent rx i content"
    using redactFrom_some [of i rx content 0] redactFrom_none [of i rx content]
    unfolding Inspector_Redact_def HasSensitiveContent_def by (metis less_irrefl snd_conv)
  moreover have "HasSensitiveContent rx i content \<or> fst (Inspector_Redact rx i content rep) = content"
    using redactFrom_none [of i rx content]
    unfolding Inspector_Redact_def HasSensitiveContent_def by (metis fst_conv)
  ultimately show ?thesis by blast
qed

end
