(* ===== verification/Proxy.thy ===== *)
theory Proxy
  imports Gates AuditLog Mcp Inspection Durations
begin

text \<open>
  Package \<open>proxy\<close>, the sidecar front door (\<open>handler.go\<close>): reading a request, verifying its
  identity, running the gates around the policy decision, rewriting under SCOPE, waiting on a
  HOLD, charging, forwarding and inspecting the response. A held call waits on a channel, so
  the handler is two functions: up to the wait, and from the resolution on. The services
  outside the repository (JSON text layer, regular expressions, the upstream server) are the
  environment.
\<close>

section \<open>Environment and results\<close>

datatype post_result = PostFailed | ReadFailed | PostOk nat string

text \<open>
  \<open>pe_Post\<close> is \<open>http.Post\<close> to the named upstream and the reading of the response; \<open>pe_Cats\<close> is the
  order in which Go ranges over the categories of a summary.
\<close>

record proxy_env =
  pe_JSON :: json_lib
  pe_Regexp :: regexp_lib
  pe_Post :: "string \<Rightarrow> string \<Rightarrow> post_result"
  pe_Cats :: "string list"

text \<open>
  What the client gets: a JSON-RPC error with its id, code and message; the upstream's answer
  relayed; a response written by the handler; or a dropped connection after a panic.
\<close>

datatype wire =
    RPCError goval int string
  | Proxied
  | Respond nat string
  | Panicked

text \<open>\<open>hd_Sent\<close> is the upstream that received a body, and the body.\<close>

record handled =
  hd_Events :: "Event list"
  hd_Sent :: "(string \<times> string) option"
  hd_Reply :: wire

definition refusedWith :: "Event list \<Rightarrow> goval \<Rightarrow> int \<Rightarrow> string \<Rightarrow> handled" where
  "refusedWith evs i code msg = \<lparr>hd_Events = evs, hd_Sent = None, hd_Reply = RPCError i code msg\<rparr>"

lemma refusedWith_sel [simp]:
  "hd_Events (refusedWith evs i code msg) = evs" "hd_Sent (refusedWith evs i code msg) = None"
  "hd_Reply (refusedWith evs i code msg) = RPCError i code msg"
  by (simp_all add: refusedWith_def)

section \<open>The handler\<close>

record Handler =
  h_upstream :: string
  h_engine :: "Request \<Rightarrow> Decision"
  h_verifier :: "http_header \<Rightarrow> string + Identity"
  h_integrity :: "IntegrityChecker option"
  h_gates :: Gates
  h_holds :: "Manager option"
  h_credentials :: "(string \<Rightarrow> string \<Rightarrow> string + string) option"
  h_inspector :: "Inspector option"

definition NewHandler ::
  "string \<Rightarrow> (Request \<Rightarrow> Decision) \<Rightarrow> (http_header \<Rightarrow> string + Identity) \<Rightarrow> IntegrityChecker option \<Rightarrow>
     VelocityTracker option \<Rightarrow> Tracker option \<Rightarrow> Manager option \<Rightarrow> Registry option \<Rightarrow> Breaker option \<Rightarrow>
     (string \<Rightarrow> string \<Rightarrow> string + string) option \<Rightarrow> Inspector option \<Rightarrow> Handler" where
  "NewHandler upstream engine vrf integrity velocity budgets holds registry breaker creds inspector =
     \<lparr>h_upstream = upstream, h_engine = engine, h_verifier = vrf, h_integrity = integrity,
      h_gates = \<lparr>g_Registry = registry, g_Breaker = breaker, g_Budgets = budgets,
        g_Velocity = velocity, g_Rates = Some NewRates\<rparr>,
      h_holds = holds, h_credentials = creds, h_inspector = inspector\<rparr>"

definition gateEvent :: "Gates \<Rightarrow> string \<Rightarrow> Refusal \<Rightarrow> string \<Rightarrow> string \<Rightarrow> Gates \<times> Event" where
  "gateEvent g session r meth tool =
     (let e = (event EventToolDenied)\<lparr>ev_Method := meth, ev_ToolName := tool, ev_Gate := rf_Gate r,
            ev_ReasonClass := rf_ReasonClass r, ev_Reason := rf_Reason r\<rparr>
      in if rf_Gate r = GateCircuit
         then (case g_Breaker g of
                 None \<Rightarrow> (g, e)
               | Some b \<Rightarrow>
                   (case Breaker_FirstTrip b session of
                      (b', first) \<Rightarrow> (g\<lparr>g_Breaker := Some b'\<rparr>,
                         if first then e\<lparr>ev_Type := EventCircuitTripped\<rparr> else e)))
         else if rf_Gate r = GateAnomaly then (g, e\<lparr>ev_Type := EventAnomalyVelocity\<rparr>)
         else (g, e))"

definition gateError :: "Refusal \<Rightarrow> string \<Rightarrow> int \<times> string" where
  "gateError r tool =
     (if rf_Gate r = GateRegistry then (ErrCodeToolUnknown, rf_Reason r @ '': '' @ tool)
      else if rf_Gate r = GateCircuit then (ErrCodeCircuitOpen, rf_Reason r)
      else if rf_ReasonClass r = ReasonBudgetUnattributable \<or>
              rf_ReasonClass r = ReasonRateUnattributable
      then (ErrCodePolicyDenied, rf_Reason r)
      else (ErrCodeRateLimited, rf_Reason r))"

subsection \<open>SCOPE\<close>

text \<open>
  The credentials of a SCOPE rule are fetched and written into the arguments one by one; a
  write into a nil map panics.
\<close>

datatype scoped_args = ArgsFailed | ArgsPanic | ArgsOk "gomap option" Modifications

fun injectCredentials ::
  "(string \<Rightarrow> string \<Rightarrow> string + string) \<Rightarrow> CredentialRef list \<Rightarrow> gomap option \<Rightarrow> Modifications \<Rightarrow> scoped_args" where
  "injectCredentials fetch [] args mods = ArgsOk args mods"
| "injectCredentials fetch (cred # creds) args mods =
     (case fetch (cr_From cred) (cr_SecretRef cred) of
        Inl err \<Rightarrow> ArgsFailed
      | Inr val \<Rightarrow>
          let key = (if cr_InjectAs cred = [] then cr_SecretRef cred else cr_InjectAs cred) in
          (case args of
             None \<Rightarrow> ArgsPanic
           | Some a \<Rightarrow> injectCredentials fetch creds (Some (AList.update key (VStr val) a))
                         (mods\<lparr>InjectedArgs := InjectedArgs mods @ [key]\<rparr>)))"

definition fmtStrings :: "string list \<Rightarrow> string" where
  "fmtStrings xs = ''['' @ Join xs '' '' @ '']''"

datatype scoped =
    ScopeFailed string
  | ScopePanic
  | ScopeOk ToolsCallParams string "ScopeResponseConfig option" "Modifications option"

definition scopeStage ::
  "proxy_env \<Rightarrow> (string \<Rightarrow> string \<Rightarrow> string + string) option \<Rightarrow> Decision \<Rightarrow> ToolsCallParams \<Rightarrow> string \<Rightarrow> scoped" where
  "scopeStage env credentials d tc body =
     (case (d_Scoped d, Option.bind (d_MatchedRule d) r_Scope) of
        (True, Some scopeCfg) \<Rightarrow>
          (case sc_Request scopeCfg of
             None \<Rightarrow> ScopeOk tc body (sc_Response scopeCfg) (Some noMods)
           | Some rq \<Rightarrow>
               let (args, mods) = ModifyRequest (tc_Arguments tc) (Some rq) in
               (case (case credentials of
                        None \<Rightarrow> ArgsOk args mods
                      | Some fetch \<Rightarrow> injectCredentials fetch (InjectCredentials rq) args mods) of
                  ArgsFailed \<Rightarrow> ScopeFailed ''scope: credential injection failed''
                | ArgsPanic \<Rightarrow> ScopePanic
                | ArgsOk args mods \<Rightarrow>
                    (case RebuildRequestBody (pe_JSON env) body args of
                       Inl err \<Rightarrow> ScopeFailed ''scope: failed to rebuild request''
                     | Inr newBody \<Rightarrow> ScopeOk (tc\<lparr>tc_Arguments := args\<rparr>) newBody
                          (sc_Response scopeCfg) (Some mods))))
      | _ \<Rightarrow> ScopeOk tc body None None)"

subsection \<open>Responses\<close>

definition needsInspection :: "Inspector option \<Rightarrow> Decision \<Rightarrow> bool" where
  "needsInspection inspector d =
     (if inspector = None then False
      else case Option.bind (d_MatchedRule d) r_Inspection of
        None \<Rightarrow> False
      | Some ic \<Rightarrow> ic_Enabled ic)"

text \<open>Whether the response is blocked (with the findings counted), and the body to send instead.\<close>

definition inspectResponse ::
  "proxy_env \<Rightarrow> Inspector option \<Rightarrow> JSONRPCRequest \<Rightarrow> ToolsCallParams \<Rightarrow> Identity \<Rightarrow> Decision \<Rightarrow> string \<Rightarrow>
     Event list \<times> nat option \<times> string option" where
  "inspectResponse env inspector req tc i d respBody =
     (case (inspector, Option.bind (d_MatchedRule d) r_Inspection) of
        (Some insp, Some icfg) \<Rightarrow>
          if \<not> ic_Enabled icfg then ([], None, None)
          else
            let findings = Inspector_Inspect (pe_Regexp env) insp respBody in
            if findings = [] then ([], None, None)
            else
              let e = eventWithDecision ((event EventInspectionFinding)\<lparr>ev_Method := jr_Method req,
                    ev_ToolName := tc_Name tc, ev_Gate := ''inspection'',
                    ev_ReasonClass := ''inspection_finding'',
                    ev_Reason := itoa (int (length findings)) @ '' findings: '' @
                      Summarize (pe_Cats env) findings\<rparr>) d (Some i);
                  action = (if ic_OnFinding icfg = [] then ''REDACT'' else ic_OnFinding icfg)
              in if action = ''DENY'' then ([e], Some (length findings), None)
                 else if action = ''REDACT''
                 then (case Inspector_Redact (pe_Regexp env) insp respBody ''[REDACTED]'' of
                         (redacted, count) \<Rightarrow>
                           (e # (if 0 < count
                                 then [eventWithDecision ((event EventInspectionRedact)\<lparr>
                                        ev_Method := jr_Method req, ev_ToolName := tc_Name tc,
                                        ev_Gate := ''inspection'', ev_ReasonClass := ''inspection_redact'',
                                        ev_Reason := ''redacted '' @ itoa (int count) @ '' sensitive patterns''\<rparr>)
                                      d (Some i)]
                                 else []), None, Some redacted))
                 else ([e], None, None)
      | _ \<Rightarrow> ([], None, None))"

definition interceptResponse ::
  "proxy_env \<Rightarrow> Handler \<Rightarrow> JSONRPCRequest \<Rightarrow> ToolsCallParams \<Rightarrow> Identity \<Rightarrow> Decision \<Rightarrow>
     ScopeResponseConfig option \<Rightarrow> string \<Rightarrow> Event list \<times> wire" where
  "interceptResponse env h req tc i d respCfg body =
     (case pe_Post env (h_upstream h) body of
        PostFailed \<Rightarrow> ([], RPCError (jr_ID req) ErrCodeInternal ''upstream request failed'')
      | ReadFailed \<Rightarrow> ([], RPCError (jr_ID req) ErrCodeInternal ''failed to read upstream response'')
      | PostOk status raw \<Rightarrow>
          let respBody = take (2 ^ 20) raw;
              (respBody, evs) =
                (case respCfg of
                   None \<Rightarrow> (respBody, [])
                 | Some c \<Rightarrow>
                     if RedactPatterns c = [] then (respBody, [])
                     else case ModifyResponse (pe_Regexp env) respBody (Some c) of
                       (b, count) \<Rightarrow> (b, if 0 < count
                          then [eventWithDecision ((event EventScopeModified)\<lparr>ev_Method := jr_Method req,
                             ev_ToolName := tc_Name tc,
                             ev_Reason := ''response: '' @ itoa (int count) @ '' patterns redacted''\<rparr>)
                             d (Some i)]
                          else []))
          in (case inspectResponse env (h_inspector h) req tc i d respBody of
                (evs2, Some n, _) \<Rightarrow> (evs @ evs2, RPCError (jr_ID req) ErrCodeInspectionBlock
                   (''response blocked: '' @ itoa (int n) @ '' sensitive findings detected''))
              | (evs2, None, Some b) \<Rightarrow> (evs @ evs2, Respond status b)
              | (evs2, None, None) \<Rightarrow> (evs @ evs2, Respond status respBody)))"

subsection \<open>A tool call\<close>

text \<open>From the policy's permission on: SCOPE, the charging gates, forwarding.\<close>

definition deliverCall ::
  "proxy_env \<Rightarrow> Handler \<Rightarrow> JSONRPCRequest \<Rightarrow> ToolsCallParams \<Rightarrow> Identity \<Rightarrow> Decision \<Rightarrow> string \<Rightarrow> clock \<Rightarrow>
     Handler \<times> handled" where
  "deliverCall env h req tc i d body now =
     (let call = \<lparr>c_Tool = tc_Name tc, c_Subject = id_Subject i, c_Session = id_SessionID i\<rparr> in
      case scopeStage env (h_credentials h) d tc body of
        ScopeFailed msg \<Rightarrow> (h, refusedWith [] (jr_ID req) ErrCodeScopeViolation msg)
      | ScopePanic \<Rightarrow> (h, \<lparr>hd_Events = [], hd_Sent = None, hd_Reply = Panicked\<rparr>)
      | ScopeOk tc' body' respCfg mods \<Rightarrow>
          let evs = (case mods of
                None \<Rightarrow> []
              | Some m \<Rightarrow> [eventWithDecision ((event EventScopeModified)\<lparr>ev_Method := jr_Method req,
                    ev_ToolName := tc_Name tc', ev_Reason := ''stripped='' @ fmtStrings (StrippedArgs m) @
                      '' injected='' @ fmtStrings (InjectedArgs m)\<rparr>) d (Some i)])
          in (case Gates_Charge (h_gates h) call d now of
                (g, Some r, _) \<Rightarrow>
                  (case gateEvent g (c_Session call) r (jr_Method req) (tc_Name tc') of
                     (g, e) \<Rightarrow> (case gateError r (tc_Name tc') of
                       (code, msg) \<Rightarrow> (h\<lparr>h_gates := g\<rparr>,
                          refusedWith (evs @ [eventWithDecision e d (Some i)]) (jr_ID req) code msg)))
              | (g, None, warning) \<Rightarrow>
                  let (g, evs) = (case warning of
                        None \<Rightarrow> (g, evs)
                      | Some wn \<Rightarrow> (case gateEvent g (c_Session call) wn (jr_Method req) (tc_Name tc') of
                          (g, e) \<Rightarrow> (g, evs @ [eventWithDecision e d (Some i)])));
                      evs = evs @ [eventWithDecision ((event EventToolAllowed)\<lparr>ev_Method := jr_Method req,
                          ev_ToolName := tc_Name tc', ev_Args := tc_Arguments tc'\<rparr>) d (Some i)];
                      h = h\<lparr>h_gates := g\<rparr>;
                      needsIntercept = (case respCfg of None \<Rightarrow> False | Some c \<Rightarrow> RedactPatterns c \<noteq> []) \<or>
                        needsInspection (h_inspector h) d
                  in if needsIntercept
                     then (case interceptResponse env h req tc' i d respCfg body' of
                             (evs2, w) \<Rightarrow> (h, \<lparr>hd_Events = evs @ evs2,
                                hd_Sent = Some (h_upstream h, body'), hd_Reply = w\<rparr>))
                     else (h, \<lparr>hd_Events = evs, hd_Sent = Some (h_upstream h, body'), hd_Reply = Proxied\<rparr>)))"

text \<open>A call waiting on its hold, and what the first half of the handler ends in.\<close>

record held_call =
  hc_ID :: string
  hc_Wait :: duration
  hc_Req :: JSONRPCRequest
  hc_Call :: ToolsCallParams
  hc_Identity :: Identity
  hc_Decision :: Decision
  hc_Body :: string

datatype served = Finished Handler handled | OnHold Handler "Event list" held_call

definition handleToolsCall ::
  "proxy_env \<Rightarrow> Handler \<Rightarrow> JSONRPCRequest \<Rightarrow> string \<Rightarrow> Identity \<Rightarrow> string \<Rightarrow> clock \<Rightarrow> served" where
  "handleToolsCall env h req body i hex now =
     (case ParseToolsCall req of
        Inl err \<Rightarrow> Finished h (refusedWith [] (jr_ID req) ErrCodeInvalidPar err)
      | Inr tc \<Rightarrow>
          let call = \<lparr>c_Tool = tc_Name tc, c_Subject = id_Subject i, c_Session = id_SessionID i\<rparr> in
          (case Gates_Admit (h_gates h) call (instant now) of
             Some r \<Rightarrow>
               (case gateEvent (h_gates h) (c_Session call) r (jr_Method req) (tc_Name tc) of
                  (g, e) \<Rightarrow> (case gateError r (tc_Name tc) of
                    (code, msg) \<Rightarrow> Finished (h\<lparr>h_gates := g\<rparr>)
                       (refusedWith [eventWithIdentity e (Some i)] (jr_ID req) code msg)))
           | None \<Rightarrow>
               let d = h_engine h (emptyRequest\<lparr>q_Method := jr_Method req, q_ToolName := tc_Name tc,
                     q_Arguments := tc_Arguments tc, q_Identity := Some i\<rparr>)
               in (case (d_Held d, h_holds h, Option.bind (d_MatchedRule d) r_Hold) of
                     (True, Some m, Some holdCfg) \<Rightarrow>
                       let timeout = (case ParseDuration (hc_Timeout holdCfg) of
                             Inr t \<Rightarrow> if hc_Timeout holdCfg \<noteq> [] then t else 5 * Minute
                           | Inl _ \<Rightarrow> 5 * Minute);
                           (m', holdID) = Manager_Hold m hex (tc_Name tc) (tc_Arguments tc)
                             (id_Subject i) (id_SessionID i) (d_Reason d) (instant now)
                       in OnHold (h\<lparr>h_holds := Some m'\<rparr>)
                            [eventWithDecision ((event EventHoldCreated)\<lparr>ev_Method := jr_Method req,
                               ev_ToolName := tc_Name tc, ev_Reason := ''held: '' @ d_Reason d @ '' (id='' @
                                 holdID @ '', timeout='' @ Duration_String timeout @ '')''\<rparr>) d (Some i)]
                            \<lparr>hc_ID = holdID, hc_Wait = timeout, hc_Req = req, hc_Call = tc,
                             hc_Identity = i, hc_Decision = d, hc_Body = body\<rparr>
                   | _ \<Rightarrow>
                       if \<not> d_Allowed d
                       then Finished h (refusedWith
                              [eventWithDecision ((event EventToolDenied)\<lparr>ev_Method := jr_Method req,
                                 ev_ToolName := tc_Name tc, ev_Reason := d_Reason d\<rparr>) d (Some i)]
                              (jr_ID req) ErrCodePolicyDenied (''denied by policy: '' @ d_Reason d))
                       else (case deliverCall env h req tc i d body now of
                               (h', r) \<Rightarrow> Finished h' r))))"

text \<open>The second half, once the channel delivers: a refusal, or the rest of the call.\<close>

definition resumeHeld :: "proxy_env \<Rightarrow> Handler \<Rightarrow> held_call \<Rightarrow> Resolution \<Rightarrow> clock \<Rightarrow> Handler \<times> handled" where
  "resumeHeld env h c res now =
     (let d = hc_Decision c; i = Some (hc_Identity c); req = hc_Req c; tc = hc_Call c in
      if \<not> rs_Approved res
      then (h, (if rs_By res = ''timeout''
                then refusedWith [eventWithDecision ((event EventToolDenied)\<lparr>ev_Method := jr_Method req,
                       ev_ToolName := tc_Name tc, ev_Gate := ''hold'',
                       ev_ReasonClass := holdReasonClass (rs_By res),
                       ev_Reason := ''hold '' @ hc_ID c @ '': denied by '' @ rs_By res\<rparr>) d i]
                     (jr_ID req) ErrCodeHoldTimeout ''hold timed out without approval''
                else refusedWith [eventWithDecision ((event EventToolDenied)\<lparr>ev_Method := jr_Method req,
                       ev_ToolName := tc_Name tc, ev_Gate := ''hold'',
                       ev_ReasonClass := holdReasonClass (rs_By res),
                       ev_Reason := ''hold '' @ hc_ID c @ '': denied by '' @ rs_By res\<rparr>) d i]
                     (jr_ID req) ErrCodePolicyDenied (''hold denied by '' @ rs_By res)))
      else
        let e = eventWithDecision ((event EventHoldApproved)\<lparr>ev_Method := jr_Method req,
              ev_ToolName := tc_Name tc,
              ev_Reason := ''hold '' @ hc_ID c @ '': approved by '' @ rs_By res\<rparr>) d i
        in (case deliverCall env h req tc (hc_Identity c) d (hc_Body c) now of
              (h', r) \<Rightarrow> (h', r\<lparr>hd_Events := e # hd_Events r\<rparr>)))"

subsection \<open>A request\<close>

definition integrityMsg :: "integrity_error \<Rightarrow> string" where
  "integrityMsg e = (case e of
      IdentityChanged was now \<Rightarrow> ''identity changed mid-session: was '' @ Quote was @ '', now '' @ Quote now
    | TokenReplay jti \<Rightarrow> ''token replay detected: jti '' @ Quote jti @ '' already used'')"

text \<open>The raw body is \<open>None\<close> when it cannot be read; at most 1 MiB of it is looked at.\<close>

definition Handler_ServeHTTP ::
  "proxy_env \<Rightarrow> Handler \<Rightarrow> http_header \<Rightarrow> string option \<Rightarrow> string \<Rightarrow> clock \<Rightarrow> served" where
  "Handler_ServeHTTP env h headers raw hex now =
     (case raw of
        None \<Rightarrow> Finished h (refusedWith [] VNil ErrCodeParse ''failed to read request body'')
      | Some full \<Rightarrow>
          let body = take (2 ^ 20) full in
          (case unmarshalRPC (pe_JSON env) body of
             Inl err \<Rightarrow> Finished h \<lparr>hd_Events = [], hd_Sent = Some (h_upstream h, body), hd_Reply = Proxied\<rparr>
           | Inr req \<Rightarrow>
               (case h_verifier h headers of
                  Inl err \<Rightarrow> Finished h (refusedWith
                     [(event EventIdentityFailed)\<lparr>ev_Method := jr_Method req, ev_Error := err\<rparr>]
                     (jr_ID req) ErrCodeIdentityFailed ''identity verification failed'')
                | Inr i \<Rightarrow>
                    let (integ, err) = (case h_integrity h of
                          None \<Rightarrow> (None, None)
                        | Some ic \<Rightarrow> (case IntegrityChecker_Check ic i (instant now) of (ic', e) \<Rightarrow> (Some ic', e)));
                        h = h\<lparr>h_integrity := integ\<rparr>
                    in (case err of
                          Some e \<Rightarrow> Finished h (refusedWith
                             [(event EventIdentityFailed)\<lparr>ev_Method := jr_Method req, ev_Error := integrityMsg e\<rparr>]
                             (jr_ID req) ErrCodeIdentityFailed (''integrity check failed: '' @ integrityMsg e))
                        | None \<Rightarrow>
                            if jr_Method req = MethodToolsCall
                            then handleToolsCall env h req body i hex now
                            else Finished h \<lparr>hd_Events = [(event EventMCPRequest)\<lparr>ev_Method := jr_Method req,
                                     ev_Identity := id_Subject i\<rparr>],
                                   hd_Sent = Some (h_upstream h, body), hd_Reply = Proxied\<rparr>))))"

section \<open>Lemmas\<close>

definition callOf :: "ToolsCallParams \<Rightarrow> Identity \<Rightarrow> Call" where
  "callOf tc i = \<lparr>c_Tool = tc_Name tc, c_Subject = id_Subject i, c_Session = id_SessionID i\<rparr>"

definition requestOf :: "JSONRPCRequest \<Rightarrow> ToolsCallParams \<Rightarrow> Identity \<Rightarrow> Request" where
  "requestOf req tc i = emptyRequest\<lparr>q_Method := jr_Method req, q_ToolName := tc_Name tc,
     q_Arguments := tc_Arguments tc, q_Identity := Some i\<rparr>"

definition integrityAccepts :: "IntegrityChecker option \<Rightarrow> Identity \<Rightarrow> time \<Rightarrow> bool" where
  "integrityAccepts integ i t = (case integ of None \<Rightarrow> True
     | Some ic \<Rightarrow> snd (IntegrityChecker_Check ic i t) = None)"

text \<open>A permitted call is delivered iff SCOPE succeeds and no charging gate refuses it.\<close>

lemma deliverCall_sent_iff:
  "hd_Sent (snd (deliverCall env h req tc i d body now)) = Some (u, b) \<longleftrightarrow>
     u = h_upstream h \<and> (\<exists>tc' rc mods. scopeStage env (h_credentials h) d tc body = ScopeOk tc' b rc mods) \<and>
     (\<exists>g w. Gates_Charge (h_gates h) (callOf tc i) d now = (g, None, w))"
proof (cases "scopeStage env (h_credentials h) d tc body")
  case (ScopeOk tc' b' rc mods)
  obtain g e w where ch: "Gates_Charge (h_gates h) (callOf tc i) d now = (g, e, w)" by (metis prod_cases3)
  show ?thesis
  proof (cases e)
    case None
    then show ?thesis
      using ScopeOk ch by (auto simp: deliverCall_def callOf_def Let_def split: prod.splits)
  next
    case (Some r)
    then show ?thesis
      using ScopeOk ch by (auto simp: deliverCall_def callOf_def Let_def split: prod.splits)
  qed
qed (auto simp: deliverCall_def Let_def)

definition allowedEvents :: "Event list \<Rightarrow> nat" where
  "allowedEvents evs = length (filter (\<lambda>e. ev_Type e = EventToolAllowed) evs)"

lemma allowedEvents_simps [simp]:
  "allowedEvents [] = 0"
  "allowedEvents (e # es) = (if ev_Type e = EventToolAllowed then 1 else 0) + allowedEvents es"
  "allowedEvents (xs @ ys) = allowedEvents xs + allowedEvents ys"
  by (simp_all add: allowedEvents_def)

lemma gateEvent_Type: "gateEvent g s r m t = (g', e) \<Longrightarrow> ev_Type e \<noteq> EventToolAllowed"
  by (auto simp: gateEvent_def Let_def split: if_splits option.splits prod.splits)

lemma inspectResponse_events:
  "allowedEvents (fst (inspectResponse env insp req tc i d body)) = 0"
  by (auto simp: inspectResponse_def Let_def split: option.splits prod.splits)

lemma interceptResponse_events:
  "allowedEvents (fst (interceptResponse env h req tc i d rc body)) = 0"
proof (cases "pe_Post env (h_upstream h) body")
  case (PostOk status raw)
  then show ?thesis
    using inspectResponse_events [of env "h_inspector h" req tc i d]
    by (auto simp: interceptResponse_def Let_def split: option.splits prod.splits; metis fst_conv)
qed (auto simp: interceptResponse_def)

lemma deliverCall_events:
  "allowedEvents (hd_Events (snd (deliverCall env h req tc i d body now))) =
     (if hd_Sent (snd (deliverCall env h req tc i d body now)) = None then 0 else 1)"
proof (cases "scopeStage env (h_credentials h) d tc body")
  case (ScopeOk tc' b' rc mods)
  obtain g e w where ch: "Gates_Charge (h_gates h) (callOf tc i) d now = (g, e, w)" by (metis prod_cases3)
  have mods: "allowedEvents (case mods of None \<Rightarrow> [] | Some m \<Rightarrow> [eventWithDecision (f m) d (Some i)]) = 0"
    if "\<And>m. ev_Type (f m) = EventScopeModified" for f :: "Modifications \<Rightarrow> Event"
    using that by (cases mods) simp_all
  show ?thesis
  proof (cases e)
    case (Some r)
    obtain g2 e2 where ge: "gateEvent g (id_SessionID i) r (jr_Method req) (tc_Name tc') = (g2, e2)"
      by fastforce
    show ?thesis
      using ScopeOk ch Some ge gateEvent_Type [OF ge] mods
      by (auto simp: deliverCall_def callOf_def Let_def split: prod.splits)
  next
    case None
    have warn: "ev_Type e2 \<noteq> EventToolAllowed"
      if "gateEvent g' s' r' m' t' = (g2, e2)" for g' s' r' m' t' g2 e2
      using gateEvent_Type [OF that] .
    show ?thesis
      using ScopeOk ch None mods interceptResponse_events
      by (auto simp: deliverCall_def callOf_def Let_def warn split: prod.splits option.splits; metis fst_conv)
  qed
qed (auto simp: deliverCall_def Let_def)

text \<open>When the first half parks a call instead of deciding it.\<close>

definition parks :: "Handler \<Rightarrow> Decision \<Rightarrow> bool" where
  "parks h d \<longleftrightarrow> d_Held d \<and> h_holds h \<noteq> None \<and> Option.bind (d_MatchedRule d) r_Hold \<noteq> None"

lemma handleToolsCall_not_parked:
  assumes "ParseToolsCall req = Inr tc" and "Gates_Admit (h_gates h) (callOf tc i) (instant now) = None"
    and "\<not> parks h (h_engine h (requestOf req tc i))"
  shows "handleToolsCall env h req body i hex now =
     (let d = h_engine h (requestOf req tc i) in
      if d_Allowed d then (case deliverCall env h req tc i d body now of (h', r) \<Rightarrow> Finished h' r)
      else Finished h (refusedWith [eventWithDecision ((event EventToolDenied)\<lparr>ev_Method := jr_Method req,
               ev_ToolName := tc_Name tc, ev_Reason := d_Reason d\<rparr>) d (Some i)]
             (jr_ID req) ErrCodePolicyDenied (''denied by policy: '' @ d_Reason d)))"
  using assms
  by (cases "d_Held (h_engine h (requestOf req tc i))"; cases "h_holds h";
      cases "Option.bind (d_MatchedRule (h_engine h (requestOf req tc i))) r_Hold")
    (auto simp: handleToolsCall_def callOf_def requestOf_def parks_def Let_def)

lemma handleToolsCall_parked:
  assumes "ParseToolsCall req = Inr tc" and "Gates_Admit (h_gates h) (callOf tc i) (instant now) = None"
    and "parks h (h_engine h (requestOf req tc i))"
  shows "\<exists>h' evs c. handleToolsCall env h req body i hex now = OnHold h' evs c \<and>
     hc_Decision c = h_engine h (requestOf req tc i) \<and> hc_Identity c = i \<and> hc_Call c = tc \<and>
     hc_Req c = req \<and> hc_Body c = body \<and> hc_ID c = generateID hex \<and> h_gates h' = h_gates h \<and>
     (\<exists>m r. h_holds h' = Some m \<and> hm_pending m (hc_ID c) = Some r)"
proof -
  let ?d = "h_engine h (requestOf req tc i)"
  obtain m cfg where "d_Held ?d" "h_holds h = Some m" "Option.bind (d_MatchedRule ?d) r_Hold = Some cfg"
    using assms(3) by (auto simp: parks_def)
  then show ?thesis
    using assms(1,2) by (simp add: handleToolsCall_def callOf_def requestOf_def Manager_Hold_def Let_def)
qed

lemma handleToolsCall_admit_refused:
  assumes "ParseToolsCall req = Inr tc" and "Gates_Admit (h_gates h) (callOf tc i) (instant now) = Some r"
  shows "\<exists>h' r'. handleToolsCall env h req body i hex now = Finished h' r' \<and> hd_Sent r' = None \<and>
      allowedEvents (hd_Events r') = 0"
proof -
  obtain g e where ge: "gateEvent (h_gates h) (id_SessionID i) r (jr_Method req) (tc_Name tc) = (g, e)"
    by fastforce
  then show ?thesis
    using assms gateEvent_Type [OF ge]
    by (cases "gateError r (tc_Name tc)") (simp add: handleToolsCall_def callOf_def Let_def)
qed

lemma handleToolsCall_sent_iff:
  "(\<exists>h' r. handleToolsCall env h req body i hex now = Finished h' r \<and> hd_Sent r = Some (u, b)) \<longleftrightarrow>
     (\<exists>tc. ParseToolsCall req = Inr tc \<and> Gates_Admit (h_gates h) (callOf tc i) (instant now) = None \<and>
        (let d = h_engine h (requestOf req tc i) in
         d_Allowed d \<and> \<not> parks h d \<and> u = h_upstream h \<and>
         (\<exists>tc' rc mods. scopeStage env (h_credentials h) d tc body = ScopeOk tc' b rc mods) \<and>
         (\<exists>g w. Gates_Charge (h_gates h) (callOf tc i) d now = (g, None, w))))"
proof (cases "ParseToolsCall req")
  case (Inl err)
  then show ?thesis by (simp add: handleToolsCall_def)
next
  case (Inr tc)
  show ?thesis
  proof (cases "Gates_Admit (h_gates h) (callOf tc i) (instant now)")
    case (Some r)
    from handleToolsCall_admit_refused [OF Inr Some, of env body hex] show ?thesis
      using Inr Some by auto
  next
    case None
    let ?d = "h_engine h (requestOf req tc i)"
    show ?thesis
    proof (cases "parks h ?d")
      case True
      from handleToolsCall_parked [OF Inr None this, of env body hex] show ?thesis using Inr True by (auto simp: Let_def)
    next
      case False
      obtain h1 r1 where del: "deliverCall env h req tc i ?d body now = (h1, r1)" by fastforce
      show ?thesis
        using deliverCall_sent_iff [of env h req tc i ?d body now u b] del
          handleToolsCall_not_parked [OF Inr None False, of env body hex] Inr None False
        by (simp add: Let_def)
    qed
  qed
qed

lemma handleToolsCall_events:
  assumes "handleToolsCall env h req body i hex now = Finished h' r"
  shows "allowedEvents (hd_Events r) = (if hd_Sent r = None then 0 else 1)"
proof (cases "ParseToolsCall req")
  case (Inl err)
  then show ?thesis using assms by (auto simp: handleToolsCall_def)
next
  case (Inr tc)
  show ?thesis
  proof (cases "Gates_Admit (h_gates h) (callOf tc i) (instant now)")
    case (Some r)
    from handleToolsCall_admit_refused [OF Inr Some, of env body hex] show ?thesis using assms by auto
  next
    case None
    let ?d = "h_engine h (requestOf req tc i)"
    show ?thesis
    proof (cases "parks h ?d")
      case True
      from handleToolsCall_parked [OF Inr None this, of env body hex] show ?thesis using assms by auto
    next
      case False
      show ?thesis
        using handleToolsCall_not_parked [OF Inr None False, of env body hex] assms
          deliverCall_events [of env h req tc i ?d body now]
        by (auto simp: Let_def split: if_splits prod.splits)
    qed
  qed
qed

lemma ServeHTTP_toolsCall:
  assumes "unmarshalRPC (pe_JSON env) (take (2 ^ 20) raw) = Inr req" and "jr_Method req = MethodToolsCall"
  shows "(\<exists>i x. h_verifier h hs = Inr i \<and> integrityAccepts (h_integrity h) i (instant now) \<and>
       Handler_ServeHTTP env h hs (Some raw) hex now =
         handleToolsCall env (h\<lparr>h_integrity := x\<rparr>) req (take (2 ^ 20) raw) i hex now) \<or>
     (\<exists>h1 r. Handler_ServeHTTP env h hs (Some raw) hex now = Finished h1 r \<and> hd_Sent r = None \<and>
         allowedEvents (hd_Events r) = 0 \<and>
         (\<forall>i. h_verifier h hs = Inr i \<longrightarrow> \<not> integrityAccepts (h_integrity h) i (instant now)))"
proof (cases "h_verifier h hs")
  case (Inl err)
  then show ?thesis using assms(1) by (simp add: Handler_ServeHTTP_def)
next
  case (Inr i)
  show ?thesis
  proof (cases "h_integrity h")
    case None
    then show ?thesis
      using assms Inr
      by (intro disjI1 exI [of _ i] exI [of _ None]) (simp add: Handler_ServeHTTP_def integrityAccepts_def)
  next
    case (Some ic)
    obtain ic' e where c: "IntegrityChecker_Check ic i (instant now) = (ic', e)" by fastforce
    show ?thesis
    proof (cases e)
      case None
      then show ?thesis
        using assms Inr Some c
        by (intro disjI1 exI [of _ i] exI [of _ "Some ic'"])
          (simp add: Handler_ServeHTTP_def integrityAccepts_def)
    next
      case e: (Some x)
      then show ?thesis
        using assms Inr Some c by (simp add: Handler_ServeHTTP_def integrityAccepts_def)
    qed
  qed
qed

lemma parks_integrity [simp]: "parks (h\<lparr>h_integrity := x\<rparr>) d = parks h d"
  by (simp add: parks_def)

text \<open>What is known of a call that waits.\<close>

lemma ServeHTTP_parked:
  assumes "unmarshalRPC (pe_JSON env) (take (2 ^ 20) raw) = Inr req" and "jr_Method req = MethodToolsCall"
    and "Handler_ServeHTTP env h hs (Some raw) hex now = OnHold h1 evs c"
  obtains i tc m r where "h_verifier h hs = Inr i" "integrityAccepts (h_integrity h) i (instant now)" "ParseToolsCall req = Inr tc"
    "Gates_Admit (h_gates h) (callOf tc i) (instant now) = None" "parks h (h_engine h (requestOf req tc i))"
    "hc_Decision c = h_engine h (requestOf req tc i)" "hc_Identity c = i" "hc_Call c = tc" "hc_Req c = req"
    "hc_Body c = take (2 ^ 20) raw" "hc_ID c = generateID hex" "h_holds h1 = Some m" "hm_pending m (hc_ID c) = Some r"
proof -
  from ServeHTTP_toolsCall [OF assms(1,2), of h hs now hex] assms(3)
  obtain i x where v: "h_verifier h hs = Inr i" "integrityAccepts (h_integrity h) i (instant now)"
    and eq: "handleToolsCall env (h\<lparr>h_integrity := x\<rparr>) req (take (2 ^ 20) raw) i hex now = OnHold h1 evs c"
    by auto
  obtain tc where tc: "ParseToolsCall req = Inr tc"
    using eq by (cases "ParseToolsCall req") (auto simp: handleToolsCall_def)
  have ad: "Gates_Admit (h_gates h) (callOf tc i) (instant now) = None"
  proof (cases "Gates_Admit (h_gates h) (callOf tc i) (instant now)")
    case (Some r)
    then show ?thesis
      using eq handleToolsCall_admit_refused [OF tc, of "h\<lparr>h_integrity := x\<rparr>" i now r env
          "take (2 ^ 20) raw" hex] by auto
  qed
  have pk: "parks h (h_engine h (requestOf req tc i))"
  proof (rule ccontr)
    assume "\<not> ?thesis"
    then show False
      using eq ad handleToolsCall_not_parked [OF tc, of "h\<lparr>h_integrity := x\<rparr>" i now env
          "take (2 ^ 20) raw" hex]
      by (auto simp: Let_def split: if_splits prod.splits)
  qed
  then show thesis
    using handleToolsCall_parked [OF tc, of "h\<lparr>h_integrity := x\<rparr>" i now env "take (2 ^ 20) raw" hex]
      ad eq that [OF v tc ad pk] by auto
qed

lemma resumeHeld_sent_iff:
  "hd_Sent (snd (resumeHeld env h c res now)) = Some (u, b) \<longleftrightarrow>
     rs_Approved res \<and> u = h_upstream h \<and>
     (\<exists>tc' rc mods. scopeStage env (h_credentials h) (hc_Decision c) (hc_Call c) (hc_Body c) = ScopeOk tc' b rc mods) \<and>
     (\<exists>g w. Gates_Charge (h_gates h) (callOf (hc_Call c) (hc_Identity c)) (hc_Decision c) now = (g, None, w))"
proof -
  have "hd_Sent (snd (resumeHeld env h c res now)) =
     (if rs_Approved res
      then hd_Sent (snd (deliverCall env h (hc_Req c) (hc_Call c) (hc_Identity c) (hc_Decision c) (hc_Body c) now)) else None)"
    by (simp add: resumeHeld_def Let_def split: prod.splits)
  then show ?thesis by (simp add: deliverCall_sent_iff)
qed

section \<open>Properties\<close>

text \<open>
  C1. Exactly the cleared calls go out. For a body that decodes as a tools/call, the first half
  of the handler sends a body \<open>b\<close> to an upstream iff that upstream is the configured one and
  the identity verifies, the integrity check accepts it, the call parses, the registry and the
  breaker admit it, the policy allows it, SCOPE (where the rule has it) rewrites the body to
  \<open>b\<close>, and the rate, budget and velocity gates do not refuse it.
\<close>

theorem tools_call_forwarded_iff:
  assumes "unmarshalRPC (pe_JSON env) (take (2 ^ 20) raw) = Inr req" and "jr_Method req = MethodToolsCall"
    and "h_engine h = Evaluate eng"
  shows "(\<exists>h' r. Handler_ServeHTTP env h hs (Some raw) hex now = Finished h' r \<and> hd_Sent r = Some (u, b)) \<longleftrightarrow>
     u = h_upstream h \<and>
     (\<exists>i tc. h_verifier h hs = Inr i \<and> integrityAccepts (h_integrity h) i (instant now) \<and>
        ParseToolsCall req = Inr tc \<and> Gates_Admit (h_gates h) (callOf tc i) (instant now) = None \<and>
        (let d = Evaluate eng (requestOf req tc i) in
         d_Allowed d \<and>
         (\<exists>tc' rc mods. scopeStage env (h_credentials h) d tc (take (2 ^ 20) raw) = ScopeOk tc' b rc mods) \<and>
         (\<exists>g w. Gates_Charge (h_gates h) (callOf tc i) d now = (g, None, w))))"
proof -
  have np: "d_Allowed (Evaluate eng q) \<Longrightarrow> \<not> parks h (Evaluate eng q)" for q
    using rules.held_not_allowed [of eng q] by (auto simp: parks_def)
  from ServeHTTP_toolsCall [OF assms(1,2), of h hs now hex] show ?thesis
  proof (elim disjE exE conjE)
    fix i x
    assume v: "h_verifier h hs = Inr i" "integrityAccepts (h_integrity h) i (instant now)"
      and eq: "Handler_ServeHTTP env h hs (Some raw) hex now =
         handleToolsCall env (h\<lparr>h_integrity := x\<rparr>) req (take (2 ^ 20) raw) i hex now"
    show ?thesis
      unfolding eq handleToolsCall_sent_iff using v np assms(3) by (auto simp: Let_def)
  next
    fix h1 r
    assume "Handler_ServeHTTP env h hs (Some raw) hex now = Finished h1 r" "hd_Sent r = None"
      "\<forall>i. h_verifier h hs = Inr i \<longrightarrow> \<not> integrityAccepts (h_integrity h) i (instant now)"
    then show ?thesis by auto
  qed
qed

definition demo_env :: proxy_env where
  "demo_env = \<lparr>pe_JSON = demo_json, pe_Regexp = (\<lambda>_. None), pe_Post = (\<lambda>_ _. PostFailed),
     pe_Cats = []\<rparr>"

definition demo_engine :: "Rule \<Rightarrow> RuleEngine" where
  "demo_engine rule = NewRuleEngine (\<lambda>_. Inl []) [rule]"

definition demo_handler :: "Rule \<Rightarrow> Handler" where
  "demo_handler rule = NewHandler ''up'' (Evaluate (demo_engine rule))
     (\<lambda>_. Inr (emptyIdentity\<lparr>id_Subject := ''u''\<rparr>)) None None None (Some NewManager) None None None None"

lemma demo_request:
  "unmarshalRPC (pe_JSON demo_env) (take (2 ^ 20) ''A'') =
     Inr \<lparr>jr_JSONRPC = [], jr_ID = VInt 7, jr_Method = MethodToolsCall,
          jr_Params = Some (VMap [(''name'', VStr ''ls'')])\<rparr>"
  by (simp add: demo_env_def demo_json_def demo_doc_def unmarshalRPC_def emptyRPC_def str_eval
      decodeString_def MethodToolsCall_def Let_def)

lemma demo_parse:
  "ParseToolsCall \<lparr>jr_JSONRPC = [], jr_ID = VInt 7, jr_Method = MethodToolsCall,
     jr_Params = Some (VMap [(''name'', VStr ''ls'')])\<rparr> = Inr \<lparr>tc_Name = ''ls'', tc_Arguments = None\<rparr>"
  by (simp add: ParseToolsCall_def str_eval decodeString_def)

lemmas policy_eval = Evaluate_def evalRule_def matchesMethod_def matchesToolName_def matchesWhen_def
  matchesCEL_def evaluateIdentityGuards_def evaluateDelegationGuards_def emptyRule_def

lemmas gates_eval = Gates_Admit_def Gates_Charge_def chargeRates_def chargeBudget_def
  ruleLimits_def toolLimits_def

lemma tools_call_forwarded_iff_witness:
  "\<exists>h' r. Handler_ServeHTTP demo_env (demo_handler (emptyRule\<lparr>r_Action := ActionAllow\<rparr>)) [] (Some ''A'')
      ''1'' \<lparr>instant = 0, YearDay = 1\<rparr> = Finished h' r \<and> hd_Sent r = Some (''up'', ''A'')"
proof -
  let ?h = "demo_handler (emptyRule\<lparr>r_Action := ActionAllow\<rparr>)"
  have "h_engine ?h = Evaluate (demo_engine (emptyRule\<lparr>r_Action := ActionAllow\<rparr>))"
    by (simp add: demo_handler_def NewHandler_def)
  from tools_call_forwarded_iff [OF demo_request _ this, of "[]" "''1''" "\<lparr>instant = 0, YearDay = 1\<rparr>"
      "''up''" "''A''"]
  show ?thesis
    by (simp add: demo_parse demo_handler_def NewHandler_def demo_engine_def policy_eval
        integrityAccepts_def gates_eval scopeStage_def Let_def)
qed

text \<open>
  C2. A held call goes out only on approval. If the first half of the handler parks a tools/call,
  its identity was verified and accepted, the gates admitted it and the policy held it; nothing
  has been sent. When the resolution arrives, the call is sent iff the resolution approves it,
  SCOPE succeeds and the charging gates, asked then, do not refuse it.
\<close>

theorem held_call_needs_approval:
  assumes "unmarshalRPC (pe_JSON env) (take (2 ^ 20) raw) = Inr req" and "jr_Method req = MethodToolsCall"
    and "Handler_ServeHTTP env h hs (Some raw) hex now = OnHold h1 evs c"
  shows "h_verifier h hs = Inr (hc_Identity c) \<and>
     integrityAccepts (h_integrity h) (hc_Identity c) (instant now) \<and>
     ParseToolsCall req = Inr (hc_Call c) \<and>
     Gates_Admit (h_gates h) (callOf (hc_Call c) (hc_Identity c)) (instant now) = None \<and>
     hc_Decision c = h_engine h (requestOf req (hc_Call c) (hc_Identity c)) \<and> d_Held (hc_Decision c) \<and>
     (hd_Sent (snd (resumeHeld env h2 c res now2)) = Some (u, b) \<longleftrightarrow>
        rs_Approved res \<and> u = h_upstream h2 \<and>
        (\<exists>tc' rc mods. scopeStage env (h_credentials h2) (hc_Decision c) (hc_Call c)
            (take (2 ^ 20) raw) = ScopeOk tc' b rc mods) \<and>
        (\<exists>g w. Gates_Charge (h_gates h2) (callOf (hc_Call c) (hc_Identity c)) (hc_Decision c) now2 =
            (g, None, w)))"
proof -
  from assms obtain i tc m r where "h_verifier h hs = Inr i" "integrityAccepts (h_integrity h) i (instant now)" "ParseToolsCall req = Inr tc"
    "Gates_Admit (h_gates h) (callOf tc i) (instant now) = None" "parks h (h_engine h (requestOf req tc i))"
    "hc_Decision c = h_engine h (requestOf req tc i)" "hc_Identity c = i" "hc_Call c = tc" "hc_Body c = take (2 ^ 20) raw"
    by (rule ServeHTTP_parked)
  then show ?thesis
    unfolding resumeHeld_sent_iff by (simp add: parks_def)
qed

definition demo_hold_rule :: Rule where
  "demo_hold_rule = emptyRule\<lparr>r_Action := ActionHold,
     r_Hold := Some \<lparr>hc_Timeout = [], hc_OnTimeout = [], hc_Notify = None\<rparr>\<rparr>"

lemma held_call_needs_approval_witness:
  "\<exists>h1 evs c. Handler_ServeHTTP demo_env (demo_handler demo_hold_rule) [] (Some ''A'') ''1''
      \<lparr>instant = 0, YearDay = 1\<rparr> = OnHold h1 evs c \<and> d_Held (hc_Decision c) \<and>
     hd_Sent (snd (resumeHeld demo_env h1 c \<lparr>rs_Approved = False, rs_By = ''op''\<rparr> \<lparr>instant = 5, YearDay = 1\<rparr>))
       \<noteq> Some (''up'', ''A'')"
proof -
  obtain h1 evs c where held: "Handler_ServeHTTP demo_env (demo_handler demo_hold_rule) [] (Some ''A'') ''1''
      \<lparr>instant = 0, YearDay = 1\<rparr> = OnHold h1 evs c"
    by (simp add: Handler_ServeHTTP_def demo_request [simplified] handleToolsCall_def demo_parse
        demo_handler_def NewHandler_def demo_engine_def demo_hold_rule_def policy_eval gates_eval
        Manager_Hold_def Let_def action_defs)
  have m: "jr_Method \<lparr>jr_JSONRPC = [], jr_ID = VInt 7, jr_Method = MethodToolsCall,
     jr_Params = Some (VMap [(''name'', VStr ''ls'')])\<rparr> = MethodToolsCall" by simp
  have no: "\<not> rs_Approved \<lparr>rs_Approved = False, rs_By = ''op''\<rparr>" by simp
  have "d_Held (hc_Decision c) \<and>
     hd_Sent (snd (resumeHeld demo_env h1 c \<lparr>rs_Approved = False, rs_By = ''op''\<rparr> \<lparr>instant = 5, YearDay = 1\<rparr>))
       \<noteq> Some (''up'', ''A'')"
    using held_call_needs_approval [OF demo_request m held, of h1
      "\<lparr>rs_Approved = False, rs_By = ''op''\<rparr>" "\<lparr>instant = 5, YearDay = 1\<rparr>" "''up''" "''A''"] no
    by blast
  with held show ?thesis by blast
qed

text \<open>
  C29. What is sent is audited once. When a tools/call has been handled, immediately or after its
  hold, the events contain exactly one \<open>tool.allowed\<close> if a body was sent to the upstream and
  none otherwise.
\<close>

theorem forwarded_iff_audited:
  assumes "unmarshalRPC (pe_JSON env) (take (2 ^ 20) raw) = Inr req" and "jr_Method req = MethodToolsCall"
  shows "(\<forall>h' r. Handler_ServeHTTP env h hs (Some raw) hex now = Finished h' r \<longrightarrow>
        allowedEvents (hd_Events r) = (if hd_Sent r = None then 0 else 1)) \<and>
     (let r = snd (resumeHeld env h2 c res now2) in
        allowedEvents (hd_Events r) = (if hd_Sent r = None then 0 else 1))"
proof -
  have 1: "allowedEvents (hd_Events r) = (if hd_Sent r = None then 0 else 1)"
    if "Handler_ServeHTTP env h hs (Some raw) hex now = Finished h' r" for h' r
    using ServeHTTP_toolsCall [OF assms, of h hs now hex] that handleToolsCall_events by fastforce
  have "let r = snd (resumeHeld env h2 c res now2) in
      allowedEvents (hd_Events r) = (if hd_Sent r = None then 0 else 1)"
    using deliverCall_events [of env h2 "hc_Req c" "hc_Call c" "hc_Identity c" "hc_Decision c"
        "hc_Body c" now2]
    by (auto simp: resumeHeld_def Let_def split: prod.splits)
  with 1 show ?thesis by blast
qed

lemma forwarded_iff_audited_witness:
  "\<exists>h' r. Handler_ServeHTTP demo_env (demo_handler (emptyRule\<lparr>r_Action := ActionDeny\<rparr>)) [] (Some ''A'')
      ''1'' \<lparr>instant = 0, YearDay = 1\<rparr> = Finished h' r \<and>
      allowedEvents (hd_Events r) = (if hd_Sent r = None then 0 else 1)"
proof -
  let ?h = "demo_handler (emptyRule\<lparr>r_Action := ActionDeny\<rparr>)" and ?t = "\<lparr>instant = 0, YearDay = 1\<rparr>"
  obtain h' r where "Handler_ServeHTTP demo_env ?h [] (Some ''A'') ''1'' ?t = Finished h' r"
    by (simp add: Handler_ServeHTTP_def demo_request [simplified] handleToolsCall_def demo_parse
        demo_handler_def NewHandler_def demo_engine_def policy_eval gates_eval Let_def action_defs)
  with forwarded_iff_audited [OF demo_request, of ?h "[]" "''1''" ?t] show ?thesis by simp
qed

text \<open>
  C33. A JSON-RPC batch bypasses everything. A body that parses as an array, whatever calls it
  contains, is sent to the upstream as it is: no identity is verified, no gate or policy is asked
  and nothing is audited. (The same holds of any body that does not decode as one request.)
\<close>

theorem batch_bypasses_policy:
  assumes "js_unmarshal (pe_JSON env) (take (2 ^ 20) raw) = Inr (VArr calls)"
  shows "Handler_ServeHTTP env h hs (Some raw) hex now =
     Finished h \<lparr>hd_Events = [], hd_Sent = Some (h_upstream h, take (2 ^ 20) raw), hd_Reply = Proxied\<rparr>"
  using assms by (simp add: Handler_ServeHTTP_def unmarshalRPC_def)

definition demo_batch_json :: json_lib where
  "demo_batch_json = \<lparr>js_unmarshal = (\<lambda>_. Inr (VArr [VMap (demo_doc [(''name'', VStr ''rm'')])])),
     js_marshal = (\<lambda>_. Inl ''unsupported'')\<rparr>"

lemma batch_bypasses_policy_witness:
  "Handler_ServeHTTP (demo_env\<lparr>pe_JSON := demo_batch_json\<rparr>)
      (demo_handler (emptyRule\<lparr>r_Action := ActionDeny\<rparr>)) [] (Some ''A'') ''1'' \<lparr>instant = 0, YearDay = 1\<rparr> =
    Finished (demo_handler (emptyRule\<lparr>r_Action := ActionDeny\<rparr>))
      \<lparr>hd_Events = [], hd_Sent = Some (''up'', ''A''), hd_Reply = Proxied\<rparr>"
  using batch_bypasses_policy [of "demo_env\<lparr>pe_JSON := demo_batch_json\<rparr>" "''A''"
      "[VMap (demo_doc [(''name'', VStr ''rm'')])]" "demo_handler (emptyRule\<lparr>r_Action := ActionDeny\<rparr>)" "[]"
      "''1''" "\<lparr>instant = 0, YearDay = 1\<rparr>"]
  by (simp add: demo_batch_json_def demo_env_def demo_handler_def NewHandler_def)

text \<open>
  Injecting a credential into a call without arguments panics: under a SCOPE rule that
  injects a credential which can be fetched, an allowed tools/call that names no arguments ends
  in a write to a nil map, before any gate is charged.
\<close>

theorem credential_injection_panics:
  assumes "d_Scoped d" and "d_MatchedRule d = Some rule" and "r_Scope rule = Some sc"
    and "sc_Request sc = Some rq" and "InjectCredentials rq = cred # creds"
    and "h_credentials h = Some fetch" and "fetch (cr_From cred) (cr_SecretRef cred) = Inr val"
    and "tc_Arguments tc = None"
  shows "deliverCall env h req tc i d body now =
     (h, \<lparr>hd_Events = [], hd_Sent = None, hd_Reply = Panicked\<rparr>)"
  using assms by (simp add: deliverCall_def scopeStage_def ModifyRequest_def Let_def)

definition demo_cred_rule :: Rule where
  "demo_cred_rule = emptyRule\<lparr>r_Scope := Some \<lparr>sc_Request = Some \<lparr>StripArguments = [],
     InjectArguments = [], InjectCredentials = [\<lparr>cr_SecretRef = ''k'', cr_From = ''env'', cr_InjectAs = []\<rparr>],
     BlockRedirects = False\<rparr>, sc_Response = None\<rparr>\<rparr>"

lemma credential_injection_panics_witness:
  "hd_Reply (snd (deliverCall demo_env ((demo_handler demo_cred_rule)\<lparr>h_credentials := Some (\<lambda>_ _. Inr ''s'')\<rparr>)
      emptyRPC \<lparr>tc_Name = ''ls'', tc_Arguments = None\<rparr> emptyIdentity
      (emptyDecision\<lparr>d_Scoped := True, d_MatchedRule := Some demo_cred_rule\<rparr>) ''A''
      \<lparr>instant = 0, YearDay = 1\<rparr>)) = Panicked"
  using credential_injection_panics [of "emptyDecision\<lparr>d_Scoped := True, d_MatchedRule := Some demo_cred_rule\<rparr>"
      demo_cred_rule "the (r_Scope demo_cred_rule)" "the (sc_Request (the (r_Scope demo_cred_rule)))"
      "\<lparr>cr_SecretRef = ''k'', cr_From = ''env'', cr_InjectAs = []\<rparr>" "[]"
      "(demo_handler demo_cred_rule)\<lparr>h_credentials := Some (\<lambda>_ _. Inr ''s'')\<rparr>" "\<lambda>_ _. Inr ''s''" "''s''"
      "\<lparr>tc_Name = ''ls'', tc_Arguments = None\<rparr>" demo_env emptyRPC emptyIdentity "''A''"
      "\<lparr>instant = 0, YearDay = 1\<rparr>"]
  by (simp add: demo_cred_rule_def emptyRule_def emptyDecision_def)

text \<open>
  SCOPE is lost on a misspelt key. If the document has no key spelt \<open>params\<close> (a spelling
  such as \<open>Params\<close> is read as the parameters all the same), the rewritten arguments never
  reach the body: SCOPE succeeds and the body that goes out is the one that came in.
\<close>

theorem scope_lost_on_misspelt_params:
  assumes "js_unmarshal (pe_JSON env) body = Inr (VMap doc)" and "map_of doc ''params'' = None"
    and "scopeStage env creds d tc body = ScopeOk tc' body' rc mods"
  shows "body' = body"
proof -
  have "RebuildRequestBody (pe_JSON env) body args = Inr body" for args
    using assms(1,2) by (simp add: RebuildRequestBody_def mget_def)
  then show ?thesis
    using assms(3)
    by (auto simp: scopeStage_def split: bool.splits option.splits prod.splits scoped_args.splits)
qed

definition demo_misspelt :: gomap where
  "demo_misspelt = [(''method'', VStr ''tools/call''),
     (''Params'', VMap [(''name'', VStr ''ls''), (''arguments'', VMap [(''debug'', VBool True)])])]"

definition demo_misspelt_env :: proxy_env where
  "demo_misspelt_env = demo_env\<lparr>pe_JSON := \<lparr>js_unmarshal = (\<lambda>_. Inr (VMap demo_misspelt)),
     js_marshal = (\<lambda>_. Inl ''unsupported'')\<rparr>\<rparr>"

definition demo_strip_decision :: Decision where
  "demo_strip_decision = emptyDecision\<lparr>d_Scoped := True, d_MatchedRule := Some (emptyRule\<lparr>
     r_Scope := Some \<lparr>sc_Request = Some \<lparr>StripArguments = [''debug''], InjectArguments = [],
       InjectCredentials = [], BlockRedirects = False\<rparr>, sc_Response = None\<rparr>\<rparr>)\<rparr>"

lemma scope_lost_on_misspelt_params_witness:
  "\<exists>req tc tc' b rc mods. unmarshalRPC (pe_JSON demo_misspelt_env) ''A'' = Inr req \<and>
     ParseToolsCall req = Inr tc \<and> tc_Name tc = ''ls'' \<and>
     scopeStage demo_misspelt_env None demo_strip_decision tc ''A'' = ScopeOk tc' b rc mods \<and>
     tc_Arguments tc' = Some [] \<and> b = ''A''"
proof -
  let ?tc = "\<lparr>tc_Name = ''ls'', tc_Arguments = Some [(''debug'', VBool True)]\<rparr>"
  have req: "unmarshalRPC (pe_JSON demo_misspelt_env) ''A'' = Inr \<lparr>jr_JSONRPC = [], jr_ID = VNil,
      jr_Method = ''tools/call'', jr_Params = Some (VMap [(''name'', VStr ''ls''),
        (''arguments'', VMap [(''debug'', VBool True)])])\<rparr>" (is "_ = Inr ?req")
    by (simp add: demo_misspelt_env_def demo_misspelt_def unmarshalRPC_def emptyRPC_def str_eval
        decodeString_def)
  have tc: "ParseToolsCall ?req = Inr ?tc"
    by (simp add: ParseToolsCall_def MethodToolsCall_def str_eval decodeString_def)
  obtain b rc mods where sc: "scopeStage demo_misspelt_env None demo_strip_decision ?tc ''A'' =
      ScopeOk (?tc\<lparr>tc_Arguments := Some []\<rparr>) b rc mods"
    by (simp add: scopeStage_def demo_strip_decision_def emptyDecision_def emptyRule_def
        ModifyRequest_def RebuildRequestBody_def demo_misspelt_env_def demo_misspelt_def mget_def)
  have "b = ''A''"
    by (rule scope_lost_on_misspelt_params [OF _ _ sc, of demo_misspelt])
      (simp_all add: demo_misspelt_env_def demo_misspelt_def)
  with req tc sc show ?thesis by fastforce
qed

end
