(* ===== verification/Gateway.thy ===== *)
theory Gateway
  imports Proxy
begin

text \<open>
  Package \<open>proxy\<close>, the gateway front door: the router (\<open>route.go\<close>), the loading of its
  configuration (\<open>gateway_config.go\<close>) and the handler that runs the gates with the registry
  and the policy of the route (\<open>gateway.go\<close>).
\<close>

section \<open>Routes\<close>

record Route =
  ro_Name :: string
  ro_UpstreamAddr :: string
  ro_ToolPrefix :: string
  ro_ToolNames :: "string list"
  ro_Engine :: "Request \<Rightarrow> Decision"
  ro_Registry :: Registry

record RouteConfig =
  rc_Name :: string
  rc_Upstream :: string
  rc_ToolPrefix :: string
  rc_ToolNames :: "string list"
  rc_PolicyFile :: string
  rc_RegistryFile :: string

record Router =
  rr_routes :: "Route list"
  rr_prefixMap :: "(string \<times> Route) list"
  rr_exactMap :: "string \<rightharpoonup> Route"

definition addRoute :: "Route \<Rightarrow> Router \<Rightarrow> Router" where
  "addRoute route r =
     (let r = (if ro_ToolPrefix route \<noteq> []
               then r\<lparr>rr_prefixMap := AList.update (ro_ToolPrefix route) route (rr_prefixMap r)\<rparr> else r)
      in r\<lparr>rr_exactMap := fold (\<lambda>name m. m(name \<mapsto> route)) (ro_ToolNames route) (rr_exactMap r)\<rparr>)"

definition NewRouter :: "Route list \<Rightarrow> Router" where
  "NewRouter routes =
     fold addRoute routes \<lparr>rr_routes = routes, rr_prefixMap = [], rr_exactMap = Map.empty\<rparr>"

text \<open>
  Go ranges over a map in an unspecified order, anew each time: \<open>ord\<close> is the order of this
  call.
\<close>

definition Router_Resolve :: "(string \<times> Route) list \<Rightarrow> Router \<Rightarrow> string \<Rightarrow> Route option" where
  "Router_Resolve ord r toolName =
     (case rr_exactMap r toolName of
        Some route \<Rightarrow> Some route
      | None \<Rightarrow> map_option snd (List.find (\<lambda>(prefix, route). HasPrefix toolName prefix) ord))"

definition range_order :: "Router \<Rightarrow> (string \<times> Route) list \<Rightarrow> bool" where
  "range_order r ord \<longleftrightarrow> distinct ord \<and> set ord = set (rr_prefixMap r)"

definition Router_AllRegisteredTools :: "Router \<Rightarrow> string list" where
  "Router_AllRegisteredTools r =
     fold (\<lambda>name tools. if name \<in> set tools then tools else tools @ [name])
       (concat (map (\<lambda>route. map te_Name (Registry_All (ro_Registry route))) (rr_routes r))) []"

text \<open>
  \<open>BuildRoute\<close> with the outcome of parsing the upstream address (its host), of loading the
  registry file and of loading the policy file as arguments, each asked only where it is used.
\<close>

definition BuildRoute ::
  "(string \<Rightarrow> string + string) \<Rightarrow> (string \<Rightarrow> string + ToolRegistry) \<Rightarrow> (string \<Rightarrow> string + NullfieldPolicySpec) \<Rightarrow>
     cel_env \<Rightarrow> RouteConfig \<Rightarrow> string + Route" where
  "BuildRoute parseURL loadRegistry loadPolicy cel cfg =
     (if rc_Upstream cfg = [] then Inl (''route '' @ Quote (rc_Name cfg) @ '': upstream is required'')
      else case parseURL (''http://'' @ rc_Upstream cfg) of
        Inl err \<Rightarrow> Inl (''route '' @ Quote (rc_Name cfg) @ '': invalid upstream '' @ Quote (rc_Upstream cfg) @
                      '': '' @ err)
      | Inr host \<Rightarrow>
          (case (if rc_RegistryFile cfg \<noteq> []
                 then Registry_LoadFromFile (loadRegistry (rc_RegistryFile cfg)) Registry_New
                 else (Registry_New, None)) of
             (reg, Some err) \<Rightarrow> Inl (''route '' @ Quote (rc_Name cfg) @ '': registry load failed: '' @ err)
           | (reg, None) \<Rightarrow>
               (case (if rc_PolicyFile cfg \<noteq> []
                      then map_sum (\<lambda>e. e) ps_Rules (loadPolicy (rc_PolicyFile cfg)) else Inr []) of
                  Inl err \<Rightarrow> Inl (''route '' @ Quote (rc_Name cfg) @ '': policy load failed: '' @ err)
                | Inr rules \<Rightarrow> Inr \<lparr>ro_Name = rc_Name cfg, ro_UpstreamAddr = host,
                    ro_ToolPrefix = rc_ToolPrefix cfg, ro_ToolNames = rc_ToolNames cfg,
                    ro_Engine = Evaluate (NewRuleEngine cel rules), ro_Registry = reg\<rparr>)))"

text \<open>\<open>LoadGatewayConfig\<close> after reading and decoding: the checks, in order.\<close>

fun checkRoutes :: "nat \<Rightarrow> RouteConfig list \<Rightarrow> string option" where
  "checkRoutes i [] = None"
| "checkRoutes i (r # rs) =
     (if rc_Name r = [] then Some (''route '' @ itoa (int i) @ '': name is required'')
      else if rc_Upstream r = [] then Some (''route '' @ Quote (rc_Name r) @ '': upstream is required'')
      else if rc_ToolPrefix r = [] \<and> rc_ToolNames r = []
      then Some (''route '' @ Quote (rc_Name r) @ '': toolPrefix or toolNames is required'')
      else checkRoutes (Suc i) rs)"

definition LoadGatewayConfig :: "string + string \<Rightarrow> (string \<Rightarrow> string + RouteConfig list) \<Rightarrow> string + RouteConfig list" where
  "LoadGatewayConfig file decode =
     (case file of
        Inl err \<Rightarrow> Inl (''read gateway config: '' @ err)
      | Inr data \<Rightarrow>
          (case decode data of
             Inl err \<Rightarrow> Inl (''parse gateway config: '' @ err)
           | Inr routes \<Rightarrow>
               if routes = [] then Inl ''gateway config has no routes''
               else case checkRoutes 0 routes of Some err \<Rightarrow> Inl err | None \<Rightarrow> Inr routes))"

section \<open>The gateway handler\<close>

record GatewayHandler =
  gw_router :: Router
  gw_verifier :: "http_header \<Rightarrow> string + Identity"
  gw_integrity :: "IntegrityChecker option"
  gw_gates :: Gates
  gw_holds :: "Manager option"
  gw_credentials :: "(string \<Rightarrow> string \<Rightarrow> string + string) option"

definition NewGatewayHandler ::
  "Router \<Rightarrow> (http_header \<Rightarrow> string + Identity) \<Rightarrow> IntegrityChecker option \<Rightarrow> VelocityTracker option \<Rightarrow>
     Tracker option \<Rightarrow> Manager option \<Rightarrow> Breaker option \<Rightarrow> (string \<Rightarrow> string \<Rightarrow> string + string) option \<Rightarrow>
     GatewayHandler" where
  "NewGatewayHandler router vrf integrity velocity budgets holds breaker creds =
     \<lparr>gw_router = router, gw_verifier = vrf, gw_integrity = integrity,
      gw_gates = \<lparr>g_Registry = None, g_Breaker = breaker, g_Budgets = budgets,
        g_Velocity = velocity, g_Rates = Some NewRates\<rparr>,
      gw_holds = holds, gw_credentials = creds\<rparr>"

text \<open>
  The struct of gates is copied per call and given the registry of the route; its other members
  are pointers, so what they count stays with the handler.
\<close>

definition routeGates :: "GatewayHandler \<Rightarrow> Route \<Rightarrow> Gates" where
  "routeGates h route = (gw_gates h)\<lparr>g_Registry := Some (ro_Registry route)\<rparr>"

definition keepGates :: "GatewayHandler \<Rightarrow> Gates \<Rightarrow> GatewayHandler" where
  "keepGates h g = h\<lparr>gw_gates := g\<lparr>g_Registry := g_Registry (gw_gates h)\<rparr>\<rparr>"

definition gatewayRefuse ::
  "GatewayHandler \<Rightarrow> Route \<Rightarrow> Gates \<Rightarrow> JSONRPCRequest \<Rightarrow> ToolsCallParams \<Rightarrow> Identity \<Rightarrow> Refusal \<Rightarrow> Decision \<Rightarrow>
     Event list \<Rightarrow> GatewayHandler \<times> handled" where
  "gatewayRefuse h route gs req tc i r d evs =
     (case gateEvent gs (id_SessionID i) r (jr_Method req) (tc_Name tc) of
        (gs, e) \<Rightarrow>
          let evs = evs @ [eventWithDecision (e\<lparr>ev_Route := ro_Name route\<rparr>) d (Some i)] in
          if rf_Gate r = GateRegistry
          then (keepGates h gs, refusedWith evs (jr_ID req) ErrCodeToolUnknown
                 (''tool not registered in route '' @ Quote (ro_Name route) @ '': '' @ tc_Name tc))
          else (case gateError r (tc_Name tc) of
                  (code, msg) \<Rightarrow> (keepGates h gs, refusedWith evs (jr_ID req) code msg)))"

definition gatewayDeliver ::
  "proxy_env \<Rightarrow> GatewayHandler \<Rightarrow> Route \<Rightarrow> JSONRPCRequest \<Rightarrow> ToolsCallParams \<Rightarrow> Identity \<Rightarrow> Decision \<Rightarrow> string \<Rightarrow>
     clock \<Rightarrow> GatewayHandler \<times> handled" where
  "gatewayDeliver env h route req tc i d body now =
     (let call = \<lparr>c_Tool = tc_Name tc, c_Subject = id_Subject i, c_Session = id_SessionID i\<rparr> in
      case scopeStage env (gw_credentials h) d tc body of
        ScopeFailed msg \<Rightarrow> (h, refusedWith [] (jr_ID req) ErrCodeScopeViolation msg)
      | ScopePanic \<Rightarrow> (h, \<lparr>hd_Events = [], hd_Sent = None, hd_Reply = Panicked\<rparr>)
      | ScopeOk tc' body' respCfg mods \<Rightarrow>
          let evs = (case mods of
                None \<Rightarrow> []
              | Some m \<Rightarrow> [eventWithDecision ((event EventScopeModified)\<lparr>ev_Method := jr_Method req,
                    ev_ToolName := tc_Name tc', ev_Route := ro_Name route,
                    ev_Reason := ''stripped='' @ fmtStrings (StrippedArgs m) @ '' injected='' @
                      fmtStrings (InjectedArgs m) @ '' route='' @ ro_Name route\<rparr>) d (Some i)])
          in (case Gates_Charge (routeGates h route) call d now of
                (gs, Some r, _) \<Rightarrow> gatewayRefuse h route gs req tc' i r d evs
              | (gs, None, warning) \<Rightarrow>
                  let (gs, evs) = (case warning of
                        None \<Rightarrow> (gs, evs)
                      | Some wn \<Rightarrow> (case gateEvent gs (c_Session call) wn (jr_Method req) (tc_Name tc') of
                          (gs, e) \<Rightarrow> (gs, evs @ [eventWithDecision (e\<lparr>ev_Route := ro_Name route\<rparr>) d (Some i)])));
                      evs = evs @ [eventWithDecision ((event EventToolAllowed)\<lparr>ev_Method := jr_Method req,
                          ev_ToolName := tc_Name tc', ev_Route := ro_Name route,
                          ev_Args := tc_Arguments tc'\<rparr>) d (Some i)];
                      h = keepGates h gs;
                      sent = Some (ro_UpstreamAddr route, body')
                  in (case respCfg of
                        Some c \<Rightarrow>
                          if RedactPatterns c \<noteq> []
                          then (h, \<lparr>hd_Events = evs, hd_Sent = sent, hd_Reply =
                             (case pe_Post env (ro_UpstreamAddr route) body' of
                                PostFailed \<Rightarrow> RPCError (jr_ID req) ErrCodeInternal ''scope: upstream request failed''
                              | ReadFailed \<Rightarrow> RPCError (jr_ID req) ErrCodeInternal
                                   ''scope: failed to read upstream response''
                              | PostOk status raw \<Rightarrow>
                                  Respond status (fst (ModifyResponse (pe_Regexp env) (take (2 ^ 20) raw) (Some c))))\<rparr>)
                          else (h, \<lparr>hd_Events = evs, hd_Sent = sent, hd_Reply = Proxied\<rparr>)
                      | None \<Rightarrow> (h, \<lparr>hd_Events = evs, hd_Sent = sent, hd_Reply = Proxied\<rparr>))))"

datatype gserved =
    GFinished GatewayHandler handled
  | GOnHold GatewayHandler "Event list" Route held_call

definition gatewayToolsCall ::
  "proxy_env \<Rightarrow> (string \<times> Route) list \<Rightarrow> GatewayHandler \<Rightarrow> JSONRPCRequest \<Rightarrow> string \<Rightarrow> Identity \<Rightarrow> string \<Rightarrow>
     clock \<Rightarrow> gserved" where
  "gatewayToolsCall env ord h req body i hex now =
     (case ParseToolsCall req of
        Inl err \<Rightarrow> GFinished h (refusedWith [] (jr_ID req) ErrCodeInvalidPar err)
      | Inr tc \<Rightarrow>
          (case Router_Resolve ord (gw_router h) (tc_Name tc) of
             None \<Rightarrow> GFinished h (refusedWith
               [eventWithIdentity ((event EventToolDenied)\<lparr>ev_Method := jr_Method req,
                  ev_ToolName := tc_Name tc, ev_Gate := ''route'', ev_ReasonClass := ''no_route'',
                  ev_Reason := ''no route for tool''\<rparr>) (Some i)]
               (jr_ID req) ErrCodeToolUnknown (''no route for tool: '' @ tc_Name tc))
           | Some route \<Rightarrow>
               let call = \<lparr>c_Tool = tc_Name tc, c_Subject = id_Subject i, c_Session = id_SessionID i\<rparr> in
               (case Gates_Admit (routeGates h route) call (instant now) of
                  Some r \<Rightarrow>
                    (case gatewayRefuse h route (routeGates h route) req tc i r
                            (emptyDecision\<lparr>d_RuleIndex := -1\<rparr>) [] of
                       (h', out) \<Rightarrow> GFinished h' out)
                | None \<Rightarrow>
                    let d = ro_Engine route (emptyRequest\<lparr>q_Method := jr_Method req,
                          q_ToolName := tc_Name tc, q_Arguments := tc_Arguments tc, q_Identity := Some i\<rparr>)
                    in (case (d_Held d, gw_holds h, Option.bind (d_MatchedRule d) r_Hold) of
                          (True, Some m, Some holdCfg) \<Rightarrow>
                            let timeout = (case ParseDuration (hc_Timeout holdCfg) of
                                  Inr t \<Rightarrow> if hc_Timeout holdCfg \<noteq> [] then t else 5 * Minute
                                | Inl _ \<Rightarrow> 5 * Minute);
                                (m', holdID) = Manager_Hold m hex (tc_Name tc) (tc_Arguments tc)
                                  (id_Subject i) (id_SessionID i) (d_Reason d) (instant now)
                            in GOnHold (h\<lparr>gw_holds := Some m'\<rparr>)
                                 [eventWithDecision ((event EventHoldCreated)\<lparr>ev_Method := jr_Method req,
                                    ev_ToolName := tc_Name tc, ev_Route := ro_Name route,
                                    ev_Reason := ''held: '' @ d_Reason d @ '' (id='' @ holdID @ '', route='' @
                                      ro_Name route @ '')''\<rparr>) d (Some i)]
                                 route
                                 \<lparr>hc_ID = holdID, hc_Wait = timeout, hc_Req = req, hc_Call = tc,
                                  hc_Identity = i, hc_Decision = d, hc_Body = body\<rparr>
                        | _ \<Rightarrow>
                            if \<not> d_Allowed d
                            then GFinished h (refusedWith
                                   [eventWithDecision ((event EventToolDenied)\<lparr>ev_Method := jr_Method req,
                                      ev_ToolName := tc_Name tc, ev_Route := ro_Name route,
                                      ev_Reason := d_Reason d\<rparr>) d (Some i)]
                                   (jr_ID req) ErrCodePolicyDenied (''denied by policy: '' @ d_Reason d))
                            else (case gatewayDeliver env h route req tc i d body now of
                                    (h', r) \<Rightarrow> GFinished h' r)))))"

definition gatewayResume ::
  "proxy_env \<Rightarrow> GatewayHandler \<Rightarrow> Route \<Rightarrow> held_call \<Rightarrow> Resolution \<Rightarrow> clock \<Rightarrow> GatewayHandler \<times> handled" where
  "gatewayResume env h route c res now =
     (let d = hc_Decision c; i = Some (hc_Identity c); req = hc_Req c; tc = hc_Call c in
      if \<not> rs_Approved res
      then
        let e = eventWithDecision ((event EventToolDenied)\<lparr>ev_Method := jr_Method req,
              ev_ToolName := tc_Name tc, ev_Gate := ''hold'', ev_ReasonClass := holdReasonClass (rs_By res),
              ev_Route := ro_Name route,
              ev_Reason := ''hold '' @ hc_ID c @ '': denied by '' @ rs_By res\<rparr>) d i
        in (h, if rs_By res = ''timeout''
               then refusedWith [e] (jr_ID req) ErrCodeHoldTimeout ''hold timed out without approval''
               else refusedWith [e] (jr_ID req) ErrCodePolicyDenied (''hold denied by '' @ rs_By res))
      else gatewayDeliver env h route req tc (hc_Identity c) d (hc_Body c) now)"

definition GatewayHandler_ServeHTTP ::
  "proxy_env \<Rightarrow> (string \<times> Route) list \<Rightarrow> GatewayHandler \<Rightarrow> http_header \<Rightarrow> string option \<Rightarrow> string \<Rightarrow> clock \<Rightarrow> gserved" where
  "GatewayHandler_ServeHTTP env ord h headers raw hex now =
     (case raw of
        None \<Rightarrow> GFinished h (refusedWith [] VNil ErrCodeParse ''failed to read request body'')
      | Some full \<Rightarrow>
          let body = take (2 ^ 20) full in
          (case unmarshalRPC (pe_JSON env) body of
             Inl err \<Rightarrow> GFinished h (refusedWith [] VNil ErrCodeParse ''gateway mode requires JSON-RPC requests'')
           | Inr req \<Rightarrow>
               (case gw_verifier h headers of
                  Inl err \<Rightarrow> GFinished h (refusedWith
                     [(event EventIdentityFailed)\<lparr>ev_Method := jr_Method req, ev_Error := err\<rparr>]
                     (jr_ID req) ErrCodeIdentityFailed ''identity verification failed'')
                | Inr i \<Rightarrow>
                    let (integ, err) = (case gw_integrity h of
                          None \<Rightarrow> (None, None)
                        | Some ic \<Rightarrow> (case IntegrityChecker_Check ic i (instant now) of (ic', e) \<Rightarrow> (Some ic', e)));
                        h = h\<lparr>gw_integrity := integ\<rparr>
                    in (case err of
                          Some e \<Rightarrow> GFinished h (refusedWith [] (jr_ID req) ErrCodeIdentityFailed
                             (''integrity check failed: '' @ integrityMsg e))
                        | None \<Rightarrow>
                            if jr_Method req = MethodToolsCall
                            then gatewayToolsCall env ord h req body i hex now
                            else case rr_routes (gw_router h) of
                              route # _ \<Rightarrow> GFinished h \<lparr>hd_Events = [(event EventMCPRequest)\<lparr>
                                   ev_Method := jr_Method req, ev_Identity := id_Subject i\<rparr>],
                                 hd_Sent = Some (ro_UpstreamAddr route, body), hd_Reply = Proxied\<rparr>
                            | [] \<Rightarrow> GFinished h (refusedWith [] (jr_ID req) ErrCodeInternal ''no routes configured'')))))"

section \<open>Lemmas\<close>

lemma gatewayRefuse_sent:
  "hd_Sent (snd (gatewayRefuse h route gs req tc i r d evs)) = None"
  by (auto simp: gatewayRefuse_def Let_def split: prod.splits)

lemma gatewayDeliver_sent_iff:
  "hd_Sent (snd (gatewayDeliver env h route req tc i d body now)) = Some (u, b) \<longleftrightarrow>
     u = ro_UpstreamAddr route \<and>
     (\<exists>tc' rc mods. scopeStage env (gw_credentials h) d tc body = ScopeOk tc' b rc mods) \<and>
     (\<exists>g w. Gates_Charge (routeGates h route) (callOf tc i) d now = (g, None, w))"
proof (cases "scopeStage env (gw_credentials h) d tc body")
  case (ScopeOk tc' b' rc mods)
  obtain g e w where ch: "Gates_Charge (routeGates h route) (callOf tc i) d now = (g, e, w)"
    by (metis prod_cases3)
  show ?thesis
  proof (cases e)
    case None
    then show ?thesis
      using ScopeOk ch
      by (cases rc) (auto simp: gatewayDeliver_def callOf_def Let_def split: prod.splits)
  next
    case (Some r)
    then show ?thesis
      using ScopeOk ch gatewayRefuse_sent
      by (auto simp: gatewayDeliver_def callOf_def Let_def split: prod.splits)
  qed
qed (auto simp: gatewayDeliver_def Let_def)

definition gparks :: "GatewayHandler \<Rightarrow> Decision \<Rightarrow> bool" where
  "gparks h d \<longleftrightarrow> d_Held d \<and> gw_holds h \<noteq> None \<and> Option.bind (d_MatchedRule d) r_Hold \<noteq> None"

lemma gatewayToolsCall_decided:
  assumes "ParseToolsCall req = Inr tc" and "Router_Resolve ord (gw_router h) (tc_Name tc) = Some route"
    and "Gates_Admit (routeGates h route) (callOf tc i) (instant now) = None"
    and "\<not> gparks h (ro_Engine route (requestOf req tc i))"
  shows "\<exists>h' r. gatewayToolsCall env ord h req body i hex now = GFinished h' r \<and>
     hd_Sent r = (if d_Allowed (ro_Engine route (requestOf req tc i))
       then hd_Sent (snd (gatewayDeliver env h route req tc i (ro_Engine route (requestOf req tc i)) body now))
       else None)"
  using assms
  by (cases "d_Held (ro_Engine route (requestOf req tc i))"; cases "gw_holds h";
      cases "Option.bind (d_MatchedRule (ro_Engine route (requestOf req tc i))) r_Hold")
    (auto simp: gatewayToolsCall_def callOf_def requestOf_def gparks_def Let_def split: prod.splits)

lemma gatewayToolsCall_parked:
  assumes "ParseToolsCall req = Inr tc" and "Router_Resolve ord (gw_router h) (tc_Name tc) = Some route"
    and "Gates_Admit (routeGates h route) (callOf tc i) (instant now) = None"
    and "gparks h (ro_Engine route (requestOf req tc i))"
  shows "\<exists>h' evs c. gatewayToolsCall env ord h req body i hex now = GOnHold h' evs route c"
proof -
  let ?d = "ro_Engine route (requestOf req tc i)"
  obtain m cfg where "d_Held ?d" "gw_holds h = Some m" "Option.bind (d_MatchedRule ?d) r_Hold = Some cfg"
    using assms(4) by (auto simp: gparks_def)
  then show ?thesis
    using assms(1-3) by (simp add: gatewayToolsCall_def callOf_def requestOf_def Manager_Hold_def Let_def)
qed

lemma gatewayToolsCall_sent_iff:
  "(\<exists>h' r. gatewayToolsCall env ord h req body i hex now = GFinished h' r \<and> hd_Sent r = Some (u, b)) \<longleftrightarrow>
     (\<exists>tc route. ParseToolsCall req = Inr tc \<and> Router_Resolve ord (gw_router h) (tc_Name tc) = Some route \<and>
        Gates_Admit (routeGates h route) (callOf tc i) (instant now) = None \<and>
        (let d = ro_Engine route (requestOf req tc i) in
         d_Allowed d \<and> \<not> gparks h d \<and> u = ro_UpstreamAddr route \<and>
         (\<exists>tc' rc mods. scopeStage env (gw_credentials h) d tc body = ScopeOk tc' b rc mods) \<and>
         (\<exists>g w. Gates_Charge (routeGates h route) (callOf tc i) d now = (g, None, w))))"
proof (cases "ParseToolsCall req")
  case (Inl err)
  then show ?thesis by (simp add: gatewayToolsCall_def)
next
  case (Inr tc)
  show ?thesis
  proof (cases "Router_Resolve ord (gw_router h) (tc_Name tc)")
    case None
    then show ?thesis using Inr by (simp add: gatewayToolsCall_def)
  next
    case (Some route)
    let ?d = "ro_Engine route (requestOf req tc i)"
    show ?thesis
    proof (cases "Gates_Admit (routeGates h route) (callOf tc i) (instant now)")
      case r: (Some r)
      have "\<exists>h' r'. gatewayToolsCall env ord h req body i hex now = GFinished h' r' \<and> hd_Sent r' = None"
        using Inr Some r gatewayRefuse_sent
        by (auto simp: gatewayToolsCall_def callOf_def Let_def split: prod.splits) (metis snd_conv)
      then show ?thesis using Inr Some r by auto
    next
      case None
      show ?thesis
      proof (cases "gparks h ?d")
        case True
        from gatewayToolsCall_parked [OF Inr Some None True, of env body hex] show ?thesis
          using Inr Some True by (auto simp: Let_def)
      next
        case False
        from gatewayToolsCall_decided [OF Inr Some None False, of env body hex] show ?thesis
          using Inr Some None False gatewayDeliver_sent_iff [of env h route req tc i ?d body now u b]
          by (auto simp: Let_def split: if_splits)
      qed
    qed
  qed
qed

text \<open>A tools/call gets past the front of the handler exactly if its caller verifies and is accepted.\<close>

lemma gateway_ServeHTTP_toolsCall:
  assumes "unmarshalRPC (pe_JSON env) (take (2 ^ 20) raw) = Inr req" and "jr_Method req = MethodToolsCall"
  obtains (front) h' r where "GatewayHandler_ServeHTTP env ord h hs (Some raw) hex now = GFinished h' r" "hd_Sent r = None"
      "\<nexists>i. gw_verifier h hs = Inr i \<and> integrityAccepts (gw_integrity h) i (instant now)"
  | (passed) i x where "gw_verifier h hs = Inr i" "integrityAccepts (gw_integrity h) i (instant now)"
      "GatewayHandler_ServeHTTP env ord h hs (Some raw) hex now =
         gatewayToolsCall env ord (h\<lparr>gw_integrity := x\<rparr>) req (take (2 ^ 20) raw) i hex now"
proof (cases "gw_verifier h hs")
  case (Inl err)
  then show thesis
    using assms front by (auto simp: GatewayHandler_ServeHTTP_def)
next
  case (Inr i)
  show thesis
  proof (cases "integrityAccepts (gw_integrity h) i (instant now)")
    case False
    then show thesis
      using assms Inr front
      by (cases "gw_integrity h"; cases "IntegrityChecker_Check (the (gw_integrity h)) i (instant now)")
        (auto simp: GatewayHandler_ServeHTTP_def integrityAccepts_def)
  next
    case True
    then show thesis
      using assms Inr passed
      by (cases "gw_integrity h"; cases "IntegrityChecker_Check (the (gw_integrity h)) i (instant now)")
        (auto simp: GatewayHandler_ServeHTTP_def integrityAccepts_def)
  qed
qed

lemma find_first_in:
  assumes "List.find P xs = Some x"
  shows "x \<in> set xs \<and> P x"
  using assms by (auto simp: find_Some_iff)

lemma fold_addRoute_prefix:
  "rr_prefixMap (fold addRoute routes r) =
     fold (\<lambda>route m. if ro_ToolPrefix route \<noteq> [] then AList.update (ro_ToolPrefix route) route m else m)
       routes (rr_prefixMap r)"
  by (induction routes arbitrary: r) (simp_all add: addRoute_def Let_def)

lemma prefixMap_distinct: "distinct (map fst (rr_prefixMap (NewRouter routes)))"
proof -
  have "distinct (map fst m) \<Longrightarrow> distinct (map fst (fold (\<lambda>route m. if ro_ToolPrefix route \<noteq> []
      then AList.update (ro_ToolPrefix route) route m else m) routes m))" for m :: "(string \<times> Route) list"
    by (induction routes arbitrary: m) (auto intro: distinct_update)
  then show ?thesis by (simp add: NewRouter_def fold_addRoute_prefix)
qed

lemma exactMap_from:
  "rr_exactMap (fold addRoute routes r) name = Some route \<Longrightarrow>
     rr_exactMap r name = Some route \<or> route \<in> set routes \<and> name \<in> set (ro_ToolNames route)"
proof (induction routes arbitrary: r)
  case (Cons x routes)
  have names: "fold (\<lambda>name m. m(name \<mapsto> x)) ns m name = Some route \<Longrightarrow> m name = Some route \<or> route = x \<and> name \<in> set ns" for ns m
  proof (induction ns arbitrary: m)
    case (Cons n ns)
    from Cons.IH [of "m(n \<mapsto> x)"] Cons.prems show ?case by (auto split: if_splits)
  qed simp
  from Cons.IH [of "addRoute x r"] Cons.prems names [of "ro_ToolNames x" "rr_exactMap r"] show ?case
    by (auto simp: addRoute_def Let_def split: if_splits)
qed simp

lemma prefixMap_from:
  "(p, route) \<in> set (rr_prefixMap (fold addRoute routes r)) \<Longrightarrow>
     (p, route) \<in> set (rr_prefixMap r) \<or> route \<in> set routes \<and> p = ro_ToolPrefix route \<and> p \<noteq> []"
proof (induction routes arbitrary: r)
  case (Cons x routes)
  have upd: "(p, route) \<in> set (AList.update k v m) \<Longrightarrow> (p, route) \<in> set m \<or> p = k \<and> route = v" for k m and v :: Route
    by (induction m) (auto split: if_splits)
  from Cons.IH [of "addRoute x r"] Cons.prems upd [of "ro_ToolPrefix x" x "rr_prefixMap r"] show ?case
    by (auto simp: addRoute_def Let_def split: if_splits)
qed simp

text \<open>A tool is sent to a route of the list that names it or whose prefix it has.\<close>

lemma Resolve_serves:
  assumes "range_order (NewRouter routes) ord" and "Router_Resolve ord (NewRouter routes) name = Some route"
  shows "route \<in> set routes \<and>
    (name \<in> set (ro_ToolNames route) \<or> ro_ToolPrefix route \<noteq> [] \<and> HasPrefix name (ro_ToolPrefix route))"
proof (cases "rr_exactMap (NewRouter routes) name")
  case (Some x)
  with assms(2) have "rr_exactMap (NewRouter routes) name = Some route"
    by (simp add: Router_Resolve_def)
  from exactMap_from [OF this [unfolded NewRouter_def]] show ?thesis by simp
next
  case None
  with assms(2) obtain p where p: "List.find (\<lambda>(prefix, route). HasPrefix name prefix) ord = Some (p, route)"
    by (auto simp: Router_Resolve_def)
  from find_first_in [OF p] assms(1) have "(p, route) \<in> set (rr_prefixMap (NewRouter routes))" "HasPrefix name p"
    by (auto simp: range_order_def)
  from prefixMap_from [OF this(1) [unfolded NewRouter_def]] this(2) show ?thesis by auto
qed

section \<open>Properties\<close>

text \<open>
  C4. Exactly the cleared calls go through the gateway, each to its own route. For a body that
  decodes as a tools/call, a body \<open>b\<close> is sent to the address \<open>u\<close> iff the identity verifies
  and is accepted, the call parses, the router resolves the tool to a route with that address,
  the route's registry and the breaker admit the call, the route's policy allows it, SCOPE gives
  \<open>b\<close>, and no charging gate refuses it.
\<close>

theorem gateway_forwarded_iff:
  assumes "unmarshalRPC (pe_JSON env) (take (2 ^ 20) raw) = Inr req" and "jr_Method req = MethodToolsCall"
    and "\<forall>tool route. Router_Resolve ord (gw_router h) tool = Some route \<longrightarrow>
      (\<exists>eng. ro_Engine route = Evaluate eng)"
  shows "(\<exists>h' r. GatewayHandler_ServeHTTP env ord h hs (Some raw) hex now = GFinished h' r \<and>
        hd_Sent r = Some (u, b)) \<longleftrightarrow>
     (\<exists>i tc route. gw_verifier h hs = Inr i \<and> integrityAccepts (gw_integrity h) i (instant now) \<and>
        ParseToolsCall req = Inr tc \<and> Router_Resolve ord (gw_router h) (tc_Name tc) = Some route \<and>
        u = ro_UpstreamAddr route \<and>
        Gates_Admit (routeGates h route) (callOf tc i) (instant now) = None \<and>
        (let d = ro_Engine route (requestOf req tc i) in
         d_Allowed d \<and>
         (\<exists>tc' rc mods. scopeStage env (gw_credentials h) d tc (take (2 ^ 20) raw) = ScopeOk tc' b rc mods) \<and>
         (\<exists>g w. Gates_Charge (routeGates h route) (callOf tc i) d now = (g, None, w))))"
proof -
  have rg: "routeGates (h\<lparr>gw_integrity := x\<rparr>) route = routeGates h route" for x route
    by (simp add: routeGates_def)
  have np: "\<not> gparks (h\<lparr>gw_integrity := x\<rparr>) (ro_Engine route q)"
    if "Router_Resolve ord (gw_router h) tool = Some route" "d_Allowed (ro_Engine route q)"
    for x route q tool
    using assms(3) that rules.held_not_allowed by (metis gparks_def)
  show ?thesis
  proof (rule gateway_ServeHTTP_toolsCall [OF assms(1,2), of ord h hs hex now])
    fix i x
    assume i: "gw_verifier h hs = Inr i" "integrityAccepts (gw_integrity h) i (instant now)"
      and eq: "GatewayHandler_ServeHTTP env ord h hs (Some raw) hex now =
         gatewayToolsCall env ord (h\<lparr>gw_integrity := x\<rparr>) req (take (2 ^ 20) raw) i hex now"
    show ?thesis
      unfolding eq gatewayToolsCall_sent_iff rg using i by (auto simp: Let_def dest: np)
  qed auto
qed

definition demo_route :: "string \<Rightarrow> string \<Rightarrow> Route" where
  "demo_route name pfx = \<lparr>ro_Name = name, ro_UpstreamAddr = name, ro_ToolPrefix = pfx,
     ro_ToolNames = [], ro_Engine = Evaluate (demo_engine (emptyRule\<lparr>r_Action := ActionAllow\<rparr>)),
     ro_Registry = [(''ls'', demo_tool ''ls'' [] [])]\<rparr>"

definition demo_gateway :: GatewayHandler where
  "demo_gateway = NewGatewayHandler (NewRouter [demo_route ''up'' ''l''])
     (\<lambda>_. Inr (emptyIdentity\<lparr>id_Subject := ''u''\<rparr>)) None None None (Some NewManager) None None"

lemma gateway_forwarded_iff_witness:
  "\<exists>h' r. GatewayHandler_ServeHTTP demo_env [(''l'', demo_route ''up'' ''l'')] demo_gateway [] (Some ''A'')
      ''1'' \<lparr>instant = 0, YearDay = 1\<rparr> = GFinished h' r \<and> hd_Sent r = Some (''up'', ''A'')"
proof -
  have router: "gw_router demo_gateway = \<lparr>rr_routes = [demo_route ''up'' ''l''],
      rr_prefixMap = [(''l'', demo_route ''up'' ''l'')], rr_exactMap = Map.empty\<rparr>"
    by (simp add: demo_gateway_def NewGatewayHandler_def NewRouter_def addRoute_def demo_route_def)
  then have "\<forall>tool route. Router_Resolve [(''l'', demo_route ''up'' ''l'')] (gw_router demo_gateway) tool =
      Some route \<longrightarrow> (\<exists>eng. ro_Engine route = Evaluate eng)"
    by (auto simp: Router_Resolve_def demo_route_def split: if_splits)
  from gateway_forwarded_iff [OF demo_request _ this, of "[]" "''1''" "\<lparr>instant = 0, YearDay = 1\<rparr>"
      "''up''" "''A''"]
  show ?thesis
    by (simp add: demo_parse router Router_Resolve_def routeGates_def)
      (simp add: demo_gateway_def NewGatewayHandler_def demo_route_def demo_engine_def policy_eval
        integrityAccepts_def gates_eval scopeStage_def callOf_def Registry_IsRegistered_def
        Registry_Get_def demo_tool_def Let_def)
qed

text \<open>
  When routing is unambiguous, and only then. For a tool no route names exactly, the route
  \<open>Resolve\<close> picks is the same under every order in which the prefix table may be ranged over
  iff all routes whose prefix fits the tool are one route; so two overlapping prefixes of
  different routes make the choice depend on the order, which changes from call to call.
\<close>

theorem Resolve_deterministic_iff:
  assumes "r = NewRouter routes" and "rr_exactMap r tool = None"
  shows "(\<forall>ord ord'. range_order r ord \<and> range_order r ord' \<longrightarrow>
        Router_Resolve ord r tool = Router_Resolve ord' r tool) \<longleftrightarrow>
     (\<forall>p q a b. (p, a) \<in> set (rr_prefixMap r) \<and> (q, b) \<in> set (rr_prefixMap r) \<and>
        HasPrefix tool p \<and> HasPrefix tool q \<longrightarrow> a = b)"
  (is "?L = ?R")
proof
  assume L: ?L
  show ?R
  proof (intro allI impI, elim conjE)
    fix p q a b
    assume e: "(p, a) \<in> set (rr_prefixMap r)" "(q, b) \<in> set (rr_prefixMap r)"
      "HasPrefix tool p" "HasPrefix tool q"
    have dist: "distinct (rr_prefixMap r)"
      using prefixMap_distinct assms(1) by (simp add: distinct_map)
    have first: "\<exists>ord. range_order r ord \<and> Router_Resolve ord r tool = Some c"
      if "(s, c) \<in> set (rr_prefixMap r)" "HasPrefix tool s" for s c
    proof -
      have "range_order r ((s, c) # remove1 (s, c) (rr_prefixMap r))"
        using that dist by (auto simp: range_order_def)
      moreover have "Router_Resolve ((s, c) # remove1 (s, c) (rr_prefixMap r)) r tool = Some c"
        using that assms(2) by (simp add: Router_Resolve_def)
      ultimately show ?thesis by blast
    qed
    from first [OF e(1,3)] first [OF e(2,4)] L show "a = b" by (metis option.inject)
  qed
next
  assume R: ?R
  show ?L
  proof (intro allI impI, elim conjE)
    fix ord ord'
    assume o1: "range_order r ord" "range_order r ord'"
    let ?P = "\<lambda>(prefix, route). HasPrefix tool prefix"
    show "Router_Resolve ord r tool = Router_Resolve ord' r tool"
    proof (cases "List.find ?P ord")
      case None
      then have "List.find ?P ord' = None"
        using o1 by (auto simp: find_None_iff range_order_def)
      with None show ?thesis using assms(2) by (simp add: Router_Resolve_def)
    next
      case (Some x)
      have "\<exists>y. List.find ?P ord' = Some y"
      proof (rule ccontr)
        assume "\<not> ?thesis"
        then have "List.find ?P ord' = None" by (cases "List.find ?P ord'") blast+
        then show False using find_first_in [OF Some] o1 by (auto simp: find_None_iff range_order_def)
      qed
      then obtain y where y: "List.find ?P ord' = Some y" by blast
      have "snd x = snd y"
        using R find_first_in [OF Some] find_first_in [OF y] o1
        by (cases x; cases y) (auto simp: range_order_def)
      with Some y show ?thesis using assms(2) by (simp add: Router_Resolve_def)
    qed
  qed
qed

lemma Resolve_deterministic_iff_witness:
  "\<exists>ord ord'. range_order (NewRouter [demo_route ''x'' ''a'', demo_route ''y'' ''ab'']) ord \<and>
     range_order (NewRouter [demo_route ''x'' ''a'', demo_route ''y'' ''ab'']) ord' \<and>
     Router_Resolve ord (NewRouter [demo_route ''x'' ''a'', demo_route ''y'' ''ab'']) ''abc'' \<noteq>
     Router_Resolve ord' (NewRouter [demo_route ''x'' ''a'', demo_route ''y'' ''ab'']) ''abc''"
proof -
  let ?r = "NewRouter [demo_route ''x'' ''a'', demo_route ''y'' ''ab'']"
  have r: "?r = \<lparr>rr_routes = [demo_route ''x'' ''a'', demo_route ''y'' ''ab''],
      rr_prefixMap = [(''a'', demo_route ''x'' ''a''), (''ab'', demo_route ''y'' ''ab'')],
      rr_exactMap = Map.empty\<rparr>"
    by (simp add: NewRouter_def addRoute_def demo_route_def)
  have ne: "demo_route ''x'' ''a'' \<noteq> demo_route ''y'' ''ab''" by (simp add: demo_route_def)
  have in1: "(''a'', demo_route ''x'' ''a'') \<in> set (rr_prefixMap ?r)"
    and in2: "(''ab'', demo_route ''y'' ''ab'') \<in> set (rr_prefixMap ?r)"
    and p1: "HasPrefix ''abc'' ''a''" and p2: "HasPrefix ''abc'' ''ab''" by (simp_all add: r)
  note iff = Resolve_deterministic_iff [of ?r "[demo_route ''x'' ''a'', demo_route ''y'' ''ab'']" "''abc''"]
  show ?thesis
  proof (rule ccontr)
    assume "\<not> ?thesis"
    then have "\<forall>ord ord'. range_order ?r ord \<and> range_order ?r ord' \<longrightarrow>
        Router_Resolve ord ?r ''abc'' = Router_Resolve ord' ?r ''abc''" by (simp only: not_ex de_Morgan_conj) blast
    then have all: "\<forall>p q a b. (p, a) \<in> set (rr_prefixMap ?r) \<and> (q, b) \<in> set (rr_prefixMap ?r) \<and>
        HasPrefix ''abc'' p \<and> HasPrefix ''abc'' q \<longrightarrow> a = b"
      using iff by (simp only: r Router.select_convs)
    from all [rule_format, OF conjI [OF in1 conjI [OF in2 conjI [OF p1 p2]]]] ne show False by simp
  qed
qed

text \<open>Unlike the sidecar, the gateway answers a batch, or any body that is not one request, with an error.\<close>

lemma gateway_refuses_batch:
  "js_unmarshal (pe_JSON env) (take (2 ^ 20) raw) = Inr (VArr calls) \<Longrightarrow>
   GatewayHandler_ServeHTTP env ord h hs (Some raw) hex now =
     GFinished h (refusedWith [] VNil ErrCodeParse ''gateway mode requires JSON-RPC requests'')"
  by (simp add: GatewayHandler_ServeHTTP_def unmarshalRPC_def)

end
