(* ===== verification/Credentials.thy ===== *)
theory Credentials
  imports Values PolicyLoader
begin

text \<open>
  Package \<open>credentials\<close>: the providers of \<open>provider.go\<close>, the cache of \<open>cache.go\<close> and the Vault client
  of \<open>vault.go\<close>. A provider acts on a state of its own or of the outside; the environment and the
  static secrets do not change.
\<close>

section \<open>Providers\<close>

type_synonym 's provider = "'s \<Rightarrow> string \<Rightarrow> 's \<times> (string + string)"

definition EnvProvider_Fetch :: "(string \<Rightarrow> string) provider" where
  "EnvProvider_Fetch getenv ref =
     (getenv, if getenv ref = [] then Inl (''env credential '' @ Quote ref @ '' not found'') else Inr (getenv ref))"

definition StaticProvider_Fetch :: "(string \<rightharpoonup> string) provider" where
  "StaticProvider_Fetch secrets ref =
     (secrets, case secrets ref of None \<Rightarrow> Inl (''static credential '' @ Quote ref @ '' not found'') | Some val \<Rightarrow> Inr val)"

type_synonym 's MultiProvider = "string \<rightharpoonup> 's provider"

definition NewMultiProvider :: "'s MultiProvider" where
  "NewMultiProvider = Map.empty"

definition MultiProvider_Register :: "'s MultiProvider \<Rightarrow> string \<Rightarrow> 's provider \<Rightarrow> 's MultiProvider" where
  "MultiProvider_Register p name prov = p(name \<mapsto> prov)"

definition MultiProvider_FetchFrom :: "'s MultiProvider \<Rightarrow> 's \<Rightarrow> string \<Rightarrow> string \<Rightarrow> 's \<times> (string + string)" where
  "MultiProvider_FetchFrom p s source ref =
     (let source = (if source = [] then ''env'' else source)
      in case p source of
           None \<Rightarrow> (s, Inl (''unknown credential provider '' @ Quote source))
         | Some fetch \<Rightarrow> fetch s ref)"

definition MultiProvider_Fetch :: "'s MultiProvider \<Rightarrow> 's \<Rightarrow> string \<Rightarrow> 's \<times> (string + string)" where
  "MultiProvider_Fetch p s ref = MultiProvider_FetchFrom p s [] ref"

definition HasProvider :: "'s MultiProvider \<Rightarrow> string \<Rightarrow> bool" where
  "HasProvider p name \<longleftrightarrow> p name \<noteq> None"

section \<open>The cache\<close>

record cacheEntry =
  ce_value :: string
  ce_fetched :: time

record CachedProvider =
  cp_ttl :: duration
  cp_cache :: "string \<rightharpoonup> cacheEntry"

definition NewCachedProvider :: "duration \<Rightarrow> CachedProvider" where
  "NewCachedProvider ttl = \<lparr>cp_ttl = ttl, cp_cache = Map.empty\<rparr>"

text \<open>
  The two critical sections of \<open>Fetch\<close>: the look-up under the read lock, and storing what the
  provider returned, under the lock, with the clock read then.
\<close>

definition cacheLookup :: "CachedProvider \<Rightarrow> string \<Rightarrow> time \<Rightarrow> string option" where
  "cacheLookup p ref now =
     (case cp_cache p ref of
        Some entry \<Rightarrow> if now - ce_fetched entry < cp_ttl p then Some (ce_value entry) else None
      | None \<Rightarrow> None)"

definition cacheStore :: "CachedProvider \<Rightarrow> string \<Rightarrow> string \<Rightarrow> time \<Rightarrow> CachedProvider" where
  "cacheStore p ref val now = p\<lparr>cp_cache := (cp_cache p)(ref \<mapsto> \<lparr>ce_value = val, ce_fetched = now\<rparr>)\<rparr>"

definition CachedProvider_Fetch ::
  "'s provider \<Rightarrow> CachedProvider \<Rightarrow> 's \<Rightarrow> string \<Rightarrow> time \<Rightarrow> time \<Rightarrow> CachedProvider \<times> 's \<times> (string + string)" where
  "CachedProvider_Fetch inner p s ref now1 now2 =
     (case cacheLookup p ref now1 of
        Some val \<Rightarrow> (p, s, Inr val)
      | None \<Rightarrow>
          (case inner s ref of
             (s, Inl err) \<Rightarrow> (p, s, Inl err)
           | (s, Inr val) \<Rightarrow> (cacheStore p ref val now2, s, Inr val)))"

definition CachedProvider_Sweep :: "CachedProvider \<Rightarrow> time \<Rightarrow> CachedProvider" where
  "CachedProvider_Sweep p now =
     p\<lparr>cp_cache := (\<lambda>k. case cp_cache p k of
         Some entry \<Rightarrow> if cp_ttl p \<le> now - ce_fetched entry then None else Some entry
       | None \<Rightarrow> None)\<rparr>"

text \<open>
  What a provider promises its clients: it returns nothing but what its source has under that name
  at that moment.
\<close>

locale credential_provider =
  fixes fetch :: "'s provider" and has :: "'s \<Rightarrow> string \<Rightarrow> string \<Rightarrow> bool"
  assumes fetch_sound: "fetch s ref = (s', Inr v) \<Longrightarrow> has s ref v"
begin

text \<open>A cache over the provider, all of whose entries were had in some state of the past.\<close>

definition genuine :: "'s set \<Rightarrow> CachedProvider \<Rightarrow> bool" where
  "genuine past p \<longleftrightarrow> (\<forall>ref e. cp_cache p ref = Some e \<longrightarrow> (\<exists>s \<in> past. has s ref (ce_value e)))"

lemma genuine_new: "genuine past (NewCachedProvider ttl)"
  by (simp add: genuine_def NewCachedProvider_def)

lemma genuine_sweep: "genuine past p \<Longrightarrow> genuine past (CachedProvider_Sweep p now)"
  by (auto simp: genuine_def CachedProvider_Sweep_def split: option.splits if_splits)

lemma genuine_mono: "genuine past p \<Longrightarrow> genuine (insert s past) p"
  by (auto simp: genuine_def)

lemma genuine_store: "genuine past p \<Longrightarrow> has s ref v \<Longrightarrow> genuine (insert s past) (cacheStore p ref v now)"
  by (auto simp: genuine_def cacheStore_def)

lemma genuine_lookup: "genuine past p \<Longrightarrow> cacheLookup p ref now = Some v \<Longrightarrow> \<exists>s \<in> past. has s ref v"
  by (auto simp: genuine_def cacheLookup_def split: option.splits if_splits)

lemma cached_fetch_genuine:
  assumes "genuine past p" and "CachedProvider_Fetch fetch p s ref now1 now2 = (p', s', r)"
  shows "genuine (insert s past) p' \<and> (\<forall>v. r = Inr v \<longrightarrow> (\<exists>s0 \<in> insert s past. has s0 ref v))"
proof (cases "cacheLookup p ref now1")
  case (Some v)
  with assms show ?thesis
    by (auto simp: CachedProvider_Fetch_def genuine_mono dest: genuine_lookup)
next
  case None
  with assms show ?thesis
    by (auto simp: CachedProvider_Fetch_def genuine_mono genuine_store fetch_sound split: prod.splits sum.splits)
qed

end

interpretation env_credentials: credential_provider EnvProvider_Fetch "\<lambda>getenv ref v. getenv ref = v \<and> v \<noteq> []"
  by unfold_locales (auto simp: EnvProvider_Fetch_def split: if_splits)

interpretation static_credentials: credential_provider StaticProvider_Fetch "\<lambda>secrets ref v. secrets ref = Some v"
  by unfold_locales (auto simp: StaticProvider_Fetch_def split: option.splits)

section \<open>Vault\<close>

record VaultConfig =
  vc_Addr :: string
  vc_Token :: string
  vc_Role :: string
  vc_AuthMethod :: string

record VaultProvider =
  vp_addr :: string
  vp_token :: string
  vp_role :: string
  vp_authMethod :: string

definition NewVaultProvider :: "VaultConfig \<Rightarrow> string + VaultProvider" where
  "NewVaultProvider cfg =
     (if vc_Addr cfg = [] then Inl ''vault address is required''
      else Inr \<lparr>vp_addr = rev (dropWhile (\<lambda>c. c = CHR ''/'') (rev (vc_Addr cfg))), vp_token = vc_Token cfg, vp_role = vc_Role cfg,
             vp_authMethod = (if vc_AuthMethod cfg \<noteq> [] then vc_AuthMethod cfg
                              else if vc_Token cfg \<noteq> [] then ''token'' else ''kubernetes'')\<rparr>)"

record vault_request =
  vr_Method :: string
  vr_URL :: string
  vr_Token :: "string option"
  vr_Body :: string

record vault_response =
  vs_StatusCode :: nat
  vs_Body :: "string + string"

text \<open>
  The outside: the HTTP client, the token file, URL and JSON parsing. \<open>vv_Any\<close> is the entry Go's
  range over a map yields first, which the language leaves open.
\<close>

record 'w vault_env =
  vv_HTTP :: "'w \<Rightarrow> vault_request \<Rightarrow> 'w \<times> (string + vault_response)"
  vv_SAToken :: "'w \<Rightarrow> file_read"
  vv_BadURL :: "string \<Rightarrow> string option"
  vv_Secret :: "string \<Rightarrow> string + gomap"
  vv_Login :: "string \<Rightarrow> string + string"
  vv_Any :: "gomap \<Rightarrow> goval"

definition dquote :: "string \<Rightarrow> string" where
  "dquote s = CHR 0x22 # s @ [CHR 0x22]"

definition loginPayload :: "string \<Rightarrow> string \<Rightarrow> string" where
  "loginPayload jwt role = ''{'' @ dquote ''jwt'' @ '':'' @ dquote jwt @ '','' @ dquote ''role'' @ '':'' @ dquote role @ ''}''"

definition vaultLogin :: "'w vault_env \<Rightarrow> VaultProvider \<Rightarrow> 'w \<Rightarrow> string \<Rightarrow> VaultProvider \<times> 'w \<times> (string + string)" where
  "vaultLogin env p w saToken =
     (let url = vp_addr p @ ''/v1/auth/kubernetes/login'' in
      case vv_BadURL env url of
        Some err \<Rightarrow> (p, w, Inl err)
      | None \<Rightarrow>
          (case vv_HTTP env w \<lparr>vr_Method = ''POST'', vr_URL = url, vr_Token = None,
                   vr_Body = loginPayload (TrimSpace saToken) (vp_role p)\<rparr> of
             (w, Inl err) \<Rightarrow> (p, w, Inl (''vault k8s login failed: '' @ err))
           | (w, Inr resp) \<Rightarrow>
               (case vs_Body resp of
                  Inl err \<Rightarrow> (p, w, Inl err)
                | Inr full \<Rightarrow>
                    let body = take (2 ^ 20) full in
                    if vs_StatusCode resp \<noteq> 200
                    then (p, w, Inl (''vault k8s login returned '' @ itoa (int (vs_StatusCode resp)) @ '': '' @ body))
                    else case vv_Login env body of
                        Inl err \<Rightarrow> (p, w, Inl (''vault login parse failed: '' @ err))
                      | Inr tok \<Rightarrow>
                          if tok = [] then (p, w, Inl ''vault k8s login returned empty token'')
                          else (p\<lparr>vp_token := tok\<rparr>, w, Inr tok))))"

definition resolveToken :: "'w vault_env \<Rightarrow> VaultProvider \<Rightarrow> 'w \<Rightarrow> VaultProvider \<times> 'w \<times> (string + string)" where
  "resolveToken env p w =
     (if vp_authMethod p = ''token'' \<and> vp_token p \<noteq> [] then (p, w, Inr (vp_token p))
      else case vv_SAToken env w of
          Inl err \<Rightarrow> (p, w, Inl (''cannot read SA token for vault k8s auth: '' @ err))
        | Inr saToken \<Rightarrow> vaultLogin env p w saToken)"

text \<open>The value of a secret: key \<open>value\<close> of the inner map (KV v2) or of the outer one (KV v1), or any entry.\<close>

definition innerValue :: "'w vault_env \<Rightarrow> gomap \<Rightarrow> goval option" where
  "innerValue env data =
     (case map_of data ''data'' of
        Some (VMap m) \<Rightarrow> (case map_of m ''value'' of Some v \<Rightarrow> Some v | None \<Rightarrow> if m = [] then None else Some (vv_Any env m))
      | _ \<Rightarrow> None)"

definition extractValue :: "'w vault_env \<Rightarrow> string \<Rightarrow> gomap \<Rightarrow> string + string" where
  "extractValue env ref data =
     (case innerValue env data of
        Some v \<Rightarrow> Inr (Sprint v)
      | None \<Rightarrow>
          (case map_of data ''value'' of
             Some v \<Rightarrow> Inr (Sprint v)
           | None \<Rightarrow> if data = [] then Inl (''vault secret '' @ Quote ref @ '' has no extractable value'')
                     else Inr (Sprint (vv_Any env data))))"

definition VaultProvider_Fetch :: "'w vault_env \<Rightarrow> (VaultProvider \<times> 'w) provider" where
  "VaultProvider_Fetch env s ref =
     (case s of (p, w) \<Rightarrow>
        case resolveToken env p w of
          (p, w, Inl err) \<Rightarrow> ((p, w), Inl (''vault auth failed: '' @ err))
        | (p, w, Inr token) \<Rightarrow>
            let url = vp_addr p @ ''/v1/'' @ ref in
            (case vv_BadURL env url of
               Some err \<Rightarrow> ((p, w), Inl (''vault request build failed: '' @ err))
             | None \<Rightarrow>
                 (case vv_HTTP env w \<lparr>vr_Method = ''GET'', vr_URL = url, vr_Token = Some token, vr_Body = []\<rparr> of
                    (w, Inl err) \<Rightarrow> ((p, w), Inl (''vault request failed: '' @ err))
                  | (w, Inr resp) \<Rightarrow>
                      ((p, w),
                       case vs_Body resp of
                         Inl err \<Rightarrow> Inl (''vault response read failed: '' @ err)
                       | Inr full \<Rightarrow>
                           let body = take (2 ^ 20) full in
                           if vs_StatusCode resp \<noteq> 200
                           then Inl (''vault returned '' @ itoa (int (vs_StatusCode resp)) @ '': '' @ body)
                           else case vv_Secret env body of
                               Inl err \<Rightarrow> Inl (''vault response parse failed: '' @ err)
                             | Inr data \<Rightarrow> extractValue env ref data))))"

text \<open>
  What Vault has for a name: a secret document it returns for the path, under a token that is
  configured or was issued on login, from which the value is taken.
\<close>

definition vault_has :: "'w vault_env \<Rightarrow> VaultProvider \<times> 'w \<Rightarrow> string \<Rightarrow> string \<Rightarrow> bool" where
  "vault_has env s ref v \<longleftrightarrow>
     (\<exists>p' w1 token w2 resp full data. resolveToken env (fst s) (snd s) = (p', w1, Inr token) \<and> token \<noteq> [] \<and>
        vv_HTTP env w1 \<lparr>vr_Method = ''GET'', vr_URL = vp_addr (fst s) @ ''/v1/'' @ ref, vr_Token = Some token, vr_Body = []\<rparr> = (w2, Inr resp) \<and>
        vs_StatusCode resp = 200 \<and> vs_Body resp = Inr full \<and> vv_Secret env (take (2 ^ 20) full) = Inr data \<and>
        extractValue env ref data = Inr v)"

lemma resolveToken_ok: "resolveToken env p w = (p', w', Inr token) \<Longrightarrow> token \<noteq> [] \<and> vp_addr p' = vp_addr p"
  by (auto simp: resolveToken_def vaultLogin_def Let_def split: if_splits sum.splits option.splits prod.splits)

lemma Vault_sound:
  assumes "VaultProvider_Fetch env s ref = (s', Inr v)"
  shows "vault_has env s ref v"
proof -
  obtain p w where s: "s = (p, w)" by (cases s)
  obtain p1 w1 r where t: "resolveToken env p w = (p1, w1, r)" by (metis prod_cases3)
  from assms s t obtain token where r: "r = Inr token"
    by (cases r) (auto simp: VaultProvider_Fetch_def)
  let ?req = "\<lparr>vr_Method = ''GET'', vr_URL = vp_addr p1 @ ''/v1/'' @ ref, vr_Token = Some token, vr_Body = []\<rparr>"
  obtain w2 ans where h: "vv_HTTP env w1 ?req = (w2, ans)" by fastforce
  from assms obtain resp full data where "ans = Inr resp" "vs_StatusCode resp = 200" "vs_Body resp = Inr full"
    "vv_Secret env (take (2 ^ 20) full) = Inr data" "extractValue env ref data = Inr v"
    unfolding VaultProvider_Fetch_def s prod.case t r sum.case Let_def h
    by (auto split: option.splits sum.splits if_splits)
  moreover have "token \<noteq> []" "vp_addr p1 = vp_addr p"
    using resolveToken_ok [OF t [unfolded r]] by simp_all
  ultimately show ?thesis
    unfolding vault_has_def s fst_conv snd_conv using t r h by metis
qed

interpretation vault_credentials: credential_provider "VaultProvider_Fetch env" "vault_has env" for env :: "'w vault_env"
  by unfold_locales (rule Vault_sound)

text \<open>Fetches through the cache, one after another: what each found the provider in, asked for and got.\<close>

fun cached_run :: "'s provider \<Rightarrow> CachedProvider \<Rightarrow> 's \<Rightarrow> (string \<times> time \<times> time) list \<Rightarrow> ('s \<times> string \<times> (string + string)) list" where
  "cached_run inner p s [] = []"
| "cached_run inner p s ((ref, now1, now2) # calls) =
     (case CachedProvider_Fetch inner p s ref now1 now2 of (p', s', r) \<Rightarrow> (s, ref, r) # cached_run inner p' s' calls)"

context credential_provider
begin

lemma cached_run_genuine:
  assumes "genuine past p" and "cached_run fetch p s calls = xs @ (s1, ref, Inr v) # ys"
  shows "\<exists>s0 \<in> past \<union> fst ` set (xs @ [(s1, ref, Inr v)]). has s0 ref v"
  using assms
proof (induction calls arbitrary: past p s xs)
  case (Cons call calls)
  obtain ref0 now1 now2 where call: "call = (ref0, now1, now2)" by (cases call) auto
  obtain p' s' r where f: "CachedProvider_Fetch fetch p s ref0 now1 now2 = (p', s', r)" by (metis prod_cases3)
  note g = cached_fetch_genuine [OF Cons.prems(1) f]
  show ?case
  proof (cases xs)
    case Nil
    with Cons.prems(2) call f g show ?thesis by auto
  next
    case (Cons x xs')
    with Cons.prems(2) call f have x: "x = (s, ref0, r)" "cached_run fetch p' s' calls = xs' @ (s1, ref, Inr v) # ys"
      by simp_all
    have "\<exists>s0 \<in> insert s past \<union> fst ` set (xs' @ [(s1, ref, Inr v)]). has s0 ref v"
      by (rule Cons.IH) (use g x in auto)
    with Cons x(1) show ?thesis by auto
  qed
qed simp

end

section \<open>The cache over time\<close>

text \<open>The critical sections of concurrent fetches and sweeps, in the order they run.\<close>

datatype cache_op = CLookup string time | CStore string string time | CSweep time

fun cache_exec :: "cache_op \<Rightarrow> CachedProvider \<Rightarrow> CachedProvider" where
  "cache_exec (CLookup ref now) p = p"
| "cache_exec (CStore ref val now) p = cacheStore p ref val now"
| "cache_exec (CSweep now) p = CachedProvider_Sweep p now"

fun cache_time :: "cache_op \<Rightarrow> time" where
  "cache_time (CLookup ref now) = now"
| "cache_time (CStore ref val now) = now"
| "cache_time (CSweep now) = now"

text \<open>The value stored last under a name, and when.\<close>

definition last_store :: "string \<Rightarrow> cache_op list \<Rightarrow> (string \<times> time) option" where
  "last_store ref ops = fold (\<lambda>op acc. case op of CStore r v t \<Rightarrow> if r = ref then Some (v, t) else acc | _ \<Rightarrow> acc) ops None"

lemma last_store_snoc: "last_store ref (ops @ [op]) =
    (case op of CStore r v t \<Rightarrow> if r = ref then Some (v, t) else last_store ref ops | _ \<Rightarrow> last_store ref ops)"
  by (simp add: last_store_def split: cache_op.split)

definition entry_of :: "cacheEntry \<Rightarrow> string \<times> time" where
  "entry_of e = (ce_value e, ce_fetched e)"

text \<open>An entry is what was stored last; what was stored last is there, unless it has expired.\<close>

lemma cache_tracks:
  assumes "sorted (map cache_time ops)" and "\<forall>op \<in> set ops. cache_time op \<le> now"
  shows "cp_ttl (fold cache_exec ops (NewCachedProvider ttl)) = ttl \<and>
    (case cp_cache (fold cache_exec ops (NewCachedProvider ttl)) ref of
       Some e \<Rightarrow> last_store ref ops = Some (entry_of e)
     | None \<Rightarrow> (\<forall>v t. last_store ref ops = Some (v, t) \<longrightarrow> ttl \<le> now - t))"
  using assms
proof (induction ops arbitrary: now rule: rev_induct)
  case Nil
  then show ?case by (simp add: NewCachedProvider_def last_store_def)
next
  case (snoc op ops)
  let ?p = "fold cache_exec ops (NewCachedProvider ttl)"
  have IH: "cp_ttl ?p = ttl \<and> (case cp_cache ?p ref of Some e \<Rightarrow> last_store ref ops = Some (entry_of e)
      | None \<Rightarrow> (\<forall>v t. last_store ref ops = Some (v, t) \<longrightarrow> ttl \<le> cache_time op - t))"
    by (rule snoc.IH) (use snoc.prems in \<open>auto simp: sorted_append\<close>)
  have le: "cache_time op \<le> now" using snoc.prems by simp
  show ?case
  proof (cases op)
    case (CLookup r t)
    with IH le show ?thesis by (force simp: last_store_snoc split: option.splits)
  next
    case (CStore r v t)
    with IH le show ?thesis by (force simp: last_store_snoc cacheStore_def entry_of_def split: option.splits)
  next
    case (CSweep t)
    with IH le show ?thesis
      by (force simp: last_store_snoc CachedProvider_Sweep_def entry_of_def split: option.splits if_splits)
  qed
qed

section \<open>Properties\<close>

text \<open>
  The cache is exact. However the critical sections of concurrent fetches and sweeps are
  ordered, a look-up answers with the value stored last under that name iff it was stored less
  than the time to live ago; in particular it never serves an expired credential, never one that
  has been replaced, and a sweep changes no answer.\<close>

theorem cache_lookup_exact:
  assumes "sorted (map cache_time ops)" and "\<forall>op \<in> set ops. cache_time op \<le> now"
  shows "cacheLookup (fold cache_exec ops (NewCachedProvider ttl)) ref now = Some v \<longleftrightarrow>
    (\<exists>t. last_store ref ops = Some (v, t) \<and> now - t < ttl)"
  using cache_tracks [OF assms, of ttl ref] by (auto simp: cacheLookup_def entry_of_def split: option.splits)

lemma cache_lookup_exact_witness:
  "cacheLookup (fold cache_exec [CStore ''k'' ''old'' 0, CSweep 1, CStore ''k'' ''new'' 2, CLookup ''k'' 3, CSweep 4]
     (NewCachedProvider 5)) ''k'' 6 = Some ''new''"
  by (subst cache_lookup_exact) (simp_all add: last_store_def)


definition demo_vault :: "nat vault_env" where
  "demo_vault = \<lparr>vv_HTTP = (\<lambda>n _. (Suc n, Inr \<lparr>vs_StatusCode = 200, vs_Body = Inr []\<rparr>)), vv_SAToken = (\<lambda>_. Inl ''none''),
     vv_BadURL = (\<lambda>_. None), vv_Secret = (\<lambda>_. Inr [(''data'', VMap [(''value'', VStr ''s3cret'')])]), vv_Login = (\<lambda>_. Inl []),
     vv_Any = (\<lambda>_. VNil)\<rparr>"

definition demo_vp :: VaultProvider where
  "demo_vp = \<lparr>vp_addr = ''a'', vp_token = ''t'', vp_role = [], vp_authMethod = ''token''\<rparr>"

text \<open>Two fetches of the same name: Vault is asked once.\<close>

lemma demo_vault_run:
  "cached_run (VaultProvider_Fetch demo_vault) (NewCachedProvider 10) (demo_vp, 0) [(''x'', 0, 1), (''x'', 2, 3)] =
     [((demo_vp, 0), ''x'', Inr ''s3cret'')] @ ((demo_vp, 1), ''x'', Inr ''s3cret'') # []"
  by (simp add: CachedProvider_Fetch_def cacheLookup_def cacheStore_def NewCachedProvider_def VaultProvider_Fetch_def resolveToken_def
      extractValue_def innerValue_def demo_vault_def demo_vp_def Let_def)


text \<open>
  An empty secret is not refused: for a KV v2 document without keys, what is injected is the
  text of a Go map, the secret's metadata or the empty inner map, as the range over the map has it.
\<close>

lemma empty_secret_leaks_metadata:
  assumes "vv_Any env [(''data'', VMap []), (''metadata'', VMap m)] = VMap m"
  shows "extractValue env ref [(''data'', VMap []), (''metadata'', VMap m)] = Inr (Sprint (VMap m))"
  using assms by (simp add: extractValue_def innerValue_def del: Sprint.simps)

text \<open>With Kubernetes authentication the token of a login is stored but never used again.\<close>

lemma kubernetes_ignores_stored_token:
  assumes "vp_authMethod p \<noteq> ''token''"
  shows "snd (resolveToken env (p\<lparr>vp_token := t\<rparr>) w) = snd (resolveToken env p w)"
  using assms by (simp add: resolveToken_def vaultLogin_def Let_def split: sum.split option.split prod.split)

lemma FetchFrom_registered: "MultiProvider_FetchFrom (MultiProvider_Register p name prov) s source ref =
    (if (if source = [] then ''env'' else source) = name then prov s ref else MultiProvider_FetchFrom p s source ref)"
  by (simp add: MultiProvider_FetchFrom_def MultiProvider_Register_def Let_def)

lemma FetchFrom_unknown:
  "\<not> HasProvider p (if source = [] then ''env'' else source) \<Longrightarrow> \<exists>err. MultiProvider_FetchFrom p s source ref = (s, Inl err)"
  by (simp add: MultiProvider_FetchFrom_def HasProvider_def Let_def)

end
