(* ===== verification/Tokens.thy ===== *)
theory Tokens
  imports Mcp RunToken Durations
begin

text \<open>
  Token verification: \<open>identity/jwks.go\<close>, \<open>multi.go\<close>, \<open>select.go\<close>, \<open>drift.go\<close> and the constructor of
  \<open>runtoken.go\<close>. The JWT library is a parameter: its parser, asked with the answer of the key
  function, and its readers of the registered claims. The JWKS endpoint's answer is an argument.
\<close>

section \<open>Keys\<close>

text \<open>\<open>base64.RawURLEncoding\<close>: line ends are skipped, no padding, trailing bits ignored.\<close>

definition b64_value :: "char \<Rightarrow> nat option" where
  "b64_value c = (let n = of_char c :: nat in
     if 65 \<le> n \<and> n \<le> 90 then Some (n - 65)
     else if 97 \<le> n \<and> n \<le> 122 then Some (n - 71)
     else if 48 \<le> n \<and> n \<le> 57 then Some (n + 4)
     else if n = 45 then Some 62
     else if n = 95 then Some 63
     else None)"

fun b64_groups :: "nat list \<Rightarrow> nat list option" where
  "b64_groups [] = Some []"
| "b64_groups [a] = None"
| "b64_groups [a, b] = Some [4 * a + b div 16]"
| "b64_groups [a, b, c] = Some [4 * a + b div 16, 16 * (b mod 16) + c div 4]"
| "b64_groups (a # b # c # d # r) =
     map_option (\<lambda>bs. (4 * a + b div 16) # (16 * (b mod 16) + c div 4) # (64 * (c mod 4) + d) # bs) (b64_groups r)"

definition RawURLDecode :: "string \<Rightarrow> nat list option" where
  "RawURLDecode s =
     Option.bind (those (map b64_value (filter (\<lambda>c. of_char c \<noteq> (10 :: nat) \<and> of_char c \<noteq> (13 :: nat)) s))) b64_groups"

text \<open>\<open>new(big.Int).SetBytes\<close>: big endian.\<close>

definition SetBytes :: "nat list \<Rightarrow> nat" where
  "SetBytes bs = foldl (\<lambda>n b. 256 * n + b) 0 bs"

datatype public_key = RSAKey nat int | ECKey string nat nat

text \<open>A string field of a struct decoded from an object: the last matching key that is not null.\<close>

definition structField :: "string \<Rightarrow> gomap \<Rightarrow> string + string" where
  "structField name m =
     foldl (\<lambda>acc (k, v). case acc of Inl e \<Rightarrow> Inl e
        | Inr cur \<Rightarrow> if EqualFold k name then decodeString cur v else acc) (Inr []) m"

text \<open>The fields of a raw message decoded into a struct of strings; \<open>None\<close> is an error.\<close>

definition structFields :: "string list \<Rightarrow> goval \<Rightarrow> string list option" where
  "structFields names raw =
     (case raw of
        VNil \<Rightarrow> Some (map (\<lambda>_. []) names)
      | VMap m \<Rightarrow> those (map (\<lambda>n. case structField n m of Inl e \<Rightarrow> None | Inr s \<Rightarrow> Some s) names)
      | _ \<Rightarrow> None)"

definition parseRSAKey :: "goval \<Rightarrow> public_key option" where
  "parseRSAKey raw =
     (case structFields [''n'', ''e''] raw of
        Some [n, e] \<Rightarrow>
          (case (RawURLDecode n, RawURLDecode e) of
             (Some nb, Some eb) \<Rightarrow> Some (RSAKey (SetBytes nb) (wrap64 (int (SetBytes eb))))
           | _ \<Rightarrow> None)
      | _ \<Rightarrow> None)"

definition parseECKey :: "goval \<Rightarrow> public_key option" where
  "parseECKey raw =
     (case structFields [''crv'', ''x'', ''y''] raw of
        Some [crv, x, y] \<Rightarrow>
          if crv \<notin> {''P-256'', ''P-384'', ''P-521''} then None
          else (case (RawURLDecode x, RawURLDecode y) of
             (Some xb, Some yb) \<Rightarrow> Some (ECKey crv (SetBytes xb) (SetBytes yb))
           | _ \<Rightarrow> None)
      | _ \<Rightarrow> None)"

text \<open>One entry of the key set: a key that cannot be read is skipped.\<close>

definition addKey :: "goval \<Rightarrow> (string \<rightharpoonup> public_key) \<Rightarrow> (string \<rightharpoonup> public_key)" where
  "addKey raw newKeys =
     (case structFields [''kid'', ''kty'', ''alg''] raw of
        Some [kid, kty, alg] \<Rightarrow>
          let key = (if kty = ''RSA'' then parseRSAKey raw
                     else if kty = ''EC'' then parseECKey raw else None)
          in (case key of Some k \<Rightarrow> newKeys(kid \<mapsto> k) | None \<Rightarrow> newKeys)
      | _ \<Rightarrow> newKeys)"

text \<open>The \<open>keys\<close> field of the document.\<close>

definition jwksKeys :: "goval \<Rightarrow> string + goval list" where
  "jwksKeys doc =
     (case doc of
        VNil \<Rightarrow> Inr []
      | VMap m \<Rightarrow>
          foldl (\<lambda>acc (k, v). case acc of Inl e \<Rightarrow> Inl e
             | Inr cur \<Rightarrow> if \<not> EqualFold k ''keys'' then acc
                 else (case v of VArr xs \<Rightarrow> Inr xs | VNil \<Rightarrow> Inr [] | _ \<Rightarrow> Inl jsonTypeError)) (Inr []) m
      | _ \<Rightarrow> Inl jsonTypeError)"

section \<open>The JWKS verifier\<close>

record JWKSVerifierConfig =
  jc_ProviderName :: string
  jc_Issuer :: string
  jc_JWKSURI :: string
  jc_Audiences :: "string list"
  jc_ClockSkew :: duration
  jc_AllowedAlgs :: "string list"
  jc_Header :: string
  jc_CacheTTL :: duration
  jc_RequireExpiry :: bool
  jc_MaxLifetime :: duration
  jc_Bare :: bool
  jc_Type :: string

definition emptyJWKSConfig :: JWKSVerifierConfig where
  "emptyJWKSConfig = \<lparr>jc_ProviderName = [], jc_Issuer = [], jc_JWKSURI = [], jc_Audiences = [],
     jc_ClockSkew = 0, jc_AllowedAlgs = [], jc_Header = [], jc_CacheTTL = 0, jc_RequireExpiry = False,
     jc_MaxLifetime = 0, jc_Bare = False, jc_Type = []\<rparr>"

text \<open>\<open>fetchedAt\<close> is \<open>None\<close> for the zero time, when no keys have been fetched.\<close>

record JWKSVerifier =
  jv_providerName :: string
  jv_issuer :: string
  jv_jwksURI :: string
  jv_audiences :: "string list"
  jv_clockSkew :: duration
  jv_allowedAlgs :: "string set"
  jv_header :: string
  jv_requireExpiry :: bool
  jv_maxLifetime :: duration
  jv_bare :: bool
  jv_typ :: string
  jv_keys :: "string \<rightharpoonup> public_key"
  jv_fetchedAt :: "time option"
  jv_cacheTTL :: duration

definition NewJWKSVerifier :: "JWKSVerifierConfig \<Rightarrow> JWKSVerifier" where
  "NewJWKSVerifier cfg =
     \<lparr>jv_providerName = jc_ProviderName cfg, jv_issuer = jc_Issuer cfg, jv_jwksURI = jc_JWKSURI cfg,
      jv_audiences = jc_Audiences cfg, jv_clockSkew = jc_ClockSkew cfg,
      jv_allowedAlgs = (if jc_AllowedAlgs cfg = [] then {''RS256'', ''ES256''}
        else ToUpper ` set (jc_AllowedAlgs cfg)),
      jv_header = (if jc_Header cfg = [] then ''Authorization'' else jc_Header cfg),
      jv_requireExpiry = jc_RequireExpiry cfg, jv_maxLifetime = jc_MaxLifetime cfg,
      jv_bare = jc_Bare cfg, jv_typ = jc_Type cfg, jv_keys = Map.empty, jv_fetchedAt = None,
      jv_cacheTTL = (if jc_CacheTTL cfg = 0 then 5 * Minute else jc_CacheTTL cfg)\<rparr>"

record jwt_token =
  jt_Header :: gomap
  jt_Alg :: string
  jt_Claims :: gomap
  jt_Valid :: bool

record jwt_opts =
  jo_Leeway :: duration
  jo_Issuer :: string
  jo_ExpRequired :: bool

record jwt_lib =
  jw_ParseUnverified :: "string \<Rightarrow> string + jwt_token"
  jw_Parse :: "jwt_opts \<Rightarrow> time \<Rightarrow> string \<Rightarrow> string + public_key \<Rightarrow> string + jwt_token"
  jw_ExpirationTime :: "gomap \<Rightarrow> string + time option"
  jw_IssuedAt :: "gomap \<Rightarrow> string + time option"
  jw_Audience :: "gomap \<Rightarrow> string + string list"

text \<open>The libraries, and the answer of the key endpoint: an error or the body.\<close>

record token_env =
  tk_JWT :: jwt_lib
  tk_JSON :: json_lib
  tk_Get :: "string \<Rightarrow> string + string"

definition getCachedKey :: "JWKSVerifier \<Rightarrow> string \<Rightarrow> time \<Rightarrow> public_key option" where
  "getCachedKey v kid now =
     (case jv_fetchedAt v of
        None \<Rightarrow> None
      | Some t \<Rightarrow> if jv_cacheTTL v < now - t then None else jv_keys v kid)"

definition fetchKeys :: "token_env \<Rightarrow> JWKSVerifier \<Rightarrow> time \<Rightarrow> JWKSVerifier \<times> string option" where
  "fetchKeys env v now =
     (case tk_Get env (jv_jwksURI v) of
        Inl err \<Rightarrow> (v, Some err)
      | Inr body \<Rightarrow>
          (case js_unmarshal (tk_JSON env) (take (2 ^ 20) body) of
             Inl err \<Rightarrow> (v, Some (''invalid JWKS response: '' @ err))
           | Inr doc \<Rightarrow>
               (case jwksKeys doc of
                  Inl err \<Rightarrow> (v, Some (''invalid JWKS response: '' @ err))
                | Inr raws \<Rightarrow> (v\<lparr>jv_keys := fold addKey raws Map.empty, jv_fetchedAt := Some now\<rparr>, None))))"

definition keyFunc :: "token_env \<Rightarrow> JWKSVerifier \<Rightarrow> jwt_token \<Rightarrow> time \<Rightarrow> JWKSVerifier \<times> (string + public_key)" where
  "keyFunc env v token now =
     (let kid = claimString (jt_Header token) ''kid'' in
      if kid = [] then (v, Inl ''token missing kid header'')
      else case getCachedKey v kid now of
        Some key \<Rightarrow> (v, Inr key)
      | None \<Rightarrow>
          (case fetchKeys env v now of
             (v, Some err) \<Rightarrow> (v, Inl (''failed to fetch JWKS: '' @ err))
           | (v, None) \<Rightarrow>
               (case getCachedKey v kid now of
                  Some key \<Rightarrow> (v, Inr key)
                | None \<Rightarrow> (v, Inl (''key '' @ kid @ '' not found in JWKS'')))))"

datatype token_error =
    TokenMissing string
  | TokenMalformed
  | TokenRejected string
  | TokenInvalid
  | AlgDisallowed string
  | TypMismatch string string
  | NoAudience
  | AudienceMismatch "string list" "string list"
  | NoExpiry
  | LifetimeTooLong duration duration
  | NoProvider string
  | AllFailed "token_error option"

text \<open>Their texts; \<open>%v\<close> of a list of strings has brackets and blanks, and \<open>%w\<close> of no error says so.\<close>

definition fmt_strings :: "string list \<Rightarrow> string" where
  "fmt_strings xs = ''['' @ Join xs '' '' @ '']''"

fun token_text :: "token_error \<Rightarrow> string" where
  "token_text (TokenMissing header) = ''missing header: '' @ header"
| "token_text TokenMalformed = ''malformed Bearer token''"
| "token_text (TokenRejected err) = ''token validation failed: '' @ err"
| "token_text TokenInvalid = ''invalid token''"
| "token_text (AlgDisallowed alg) = ''disallowed signing algorithm: '' @ alg"
| "token_text (TypMismatch typ want) = ''token typ '' @ Quote typ @ '', want '' @ Quote want"
| "token_text NoAudience = ''token missing audience claim''"
| "token_text (AudienceMismatch aud want) = ''audience mismatch: got '' @ fmt_strings aud @ '', want one of '' @ fmt_strings want"
| "token_text NoExpiry = ''token has no expiry to bound''"
| "token_text (LifetimeTooLong life most) =
     ''token lifetime '' @ Duration_String (Duration_Round life Second) @ '' exceeds maxLifetime '' @ Duration_String most"
| "token_text (NoProvider iss) = ''no provider configured for issuer: '' @ iss"
| "token_text (AllFailed None) = ''all providers failed, last error: %!w(<nil>)''"
| "token_text (AllFailed (Some err)) = ''all providers failed, last error: '' @ token_text err"

fun verify_text :: "verify_error \<Rightarrow> string" where
  "verify_text (MissingHeader header) = ''missing identity header: '' @ header"
| "verify_text (MalformedBearer header) = ''malformed Bearer token in '' @ header"

definition checkAudience :: "jwt_lib \<Rightarrow> JWKSVerifier \<Rightarrow> gomap \<Rightarrow> token_error option" where
  "checkAudience lib v claims =
     (case jw_Audience lib claims of
        Inl err \<Rightarrow> Some NoAudience
      | Inr aud \<Rightarrow>
          if aud = [] then Some NoAudience
          else if \<exists>expected \<in> set (jv_audiences v). expected \<in> set aud then None
          else Some (AudienceMismatch aud (jv_audiences v)))"

text \<open>\<open>Time.Sub\<close> saturates.\<close>

definition time_Sub :: "time \<Rightarrow> time \<Rightarrow> duration" where
  "time_Sub a b = max (- (2 ^ 63)) (min (2 ^ 63 - 1) (a - b))"

definition checkLifetime :: "jwt_lib \<Rightarrow> JWKSVerifier \<Rightarrow> gomap \<Rightarrow> time \<Rightarrow> token_error option" where
  "checkLifetime lib v claims now =
     (case jw_ExpirationTime lib claims of
        Inr (Some expiry) \<Rightarrow>
          let start = (case jw_IssuedAt lib claims of Inr (Some iat) \<Rightarrow> iat | _ \<Rightarrow> now);
              life = time_Sub expiry start
          in if wrap64 (jv_maxLifetime v + jv_clockSkew v) < life then Some (LifetimeTooLong life (jv_maxLifetime v)) else None
      | _ \<Rightarrow> Some NoExpiry)"

definition inferIdentityType :: "gomap \<Rightarrow> string" where
  "inferIdentityType claims =
     (let byScope = (if as_str (mget claims ''sub'') \<noteq> None \<and> Contains (claimString claims ''scope'') ''openid''
                     then ''human'' else ''unknown'')
      in case as_str (mget claims ''identity_type'') of
           Some typ \<Rightarrow> if typ \<in> {''human'', ''agent'', ''autonomous''} then typ else byScope
         | None \<Rightarrow> byScope)"

definition claimStringSlice :: "gomap \<Rightarrow> string \<Rightarrow> string list" where
  "claimStringSlice claims key =
     (case mget claims key of
        VArr v \<Rightarrow> List.map_filter as_str v
      | VStrs v \<Rightarrow> v
      | _ \<Rightarrow> [])"

text \<open>\<open>strings.Fields\<close> on ASCII white space.\<close>

fun Fields :: "string \<Rightarrow> string list" where
  "Fields [] = []"
| "Fields (c # s) =
     (if is_space c then Fields s
      else (case s of [] \<Rightarrow> [[c]]
            | c' # s' \<Rightarrow> if is_space c' then [c] # Fields s
                else (case Fields s of [] \<Rightarrow> [[c]] | w # ws \<Rightarrow> (c # w) # ws)))"

definition tokenIdentity :: "JWKSVerifier \<Rightarrow> http_header \<Rightarrow> string \<Rightarrow> gomap \<Rightarrow> Identity" where
  "tokenIdentity v hs tokenStr claims =
     \<lparr>id_Subject = claimString claims ''sub'', id_Issuer = claimString claims ''iss'',
      id_SessionID = HTTPHeaders_Get hs mcpSessionHeader, id_Scopes = Fields (claimString claims ''scope''),
      id_Raw = tokenStr, id_Type = inferIdentityType claims, id_Provider = jv_providerName v,
      id_Groups = claimStringSlice claims ''groups'', id_Claims = Some claims,
      id_ExpiresAt = (case mget claims ''exp'' of VNum e \<Rightarrow> wrap64 e | _ \<Rightarrow> 0),
      id_JTI = claimString claims ''jti''\<rparr>"

text \<open>The checks after the library has accepted the token.\<close>

definition checkToken :: "jwt_lib \<Rightarrow> JWKSVerifier \<Rightarrow> jwt_token \<Rightarrow> time \<Rightarrow> token_error option" where
  "checkToken lib v token now =
     (let typ = claimString (jt_Header token) ''typ'' in
      if \<not> jt_Valid token then Some TokenInvalid
      else if jt_Alg token \<notin> jv_allowedAlgs v then Some (AlgDisallowed (jt_Alg token))
      else if jv_typ v \<noteq> [] \<and> \<not> EqualFold typ (jv_typ v) then Some (TypMismatch typ (jv_typ v))
      else case (if jv_audiences v \<noteq> [] then checkAudience lib v (jt_Claims token) else None) of
        Some e \<Rightarrow> Some e
      | None \<Rightarrow> if 0 < jv_maxLifetime v then checkLifetime lib v (jt_Claims token) now else None)"

definition jwksOpts :: "JWKSVerifier \<Rightarrow> jwt_opts" where
  "jwksOpts v = \<lparr>jo_Leeway = jv_clockSkew v, jo_Issuer = jv_issuer v,
     jo_ExpRequired = (jv_requireExpiry v \<or> 0 < jv_maxLifetime v)\<rparr>"

text \<open>\<open>jwt.Parse\<close> calls the key function with the token it has parsed, if it parses.\<close>

definition parseToken :: "token_env \<Rightarrow> JWKSVerifier \<Rightarrow> string \<Rightarrow> time \<Rightarrow> JWKSVerifier \<times> (string + jwt_token)" where
  "parseToken env v tokenStr now =
     (case jw_ParseUnverified (tk_JWT env) tokenStr of
        Inl err \<Rightarrow> (v, Inl err)
      | Inr unverified \<Rightarrow>
          (case keyFunc env v unverified now of
             (v', key) \<Rightarrow> (v', jw_Parse (tk_JWT env) (jwksOpts v) now tokenStr key)))"

definition bearerToken :: "JWKSVerifier \<Rightarrow> http_header \<Rightarrow> token_error + string" where
  "bearerToken v hs =
     (let raw = HTTPHeaders_Get hs (jv_header v); tokenStr = TrimPrefix raw bearer in
      if raw = [] then Inl (TokenMissing (jv_header v))
      else if jv_bare v then Inr (TrimSpace raw)
      else if tokenStr = raw then Inl TokenMalformed
      else Inr tokenStr)"

definition JWKSVerifier_Verify ::
  "token_env \<Rightarrow> JWKSVerifier \<Rightarrow> http_header \<Rightarrow> time \<Rightarrow> JWKSVerifier \<times> (token_error + Identity)" where
  "JWKSVerifier_Verify env v hs now =
     (case bearerToken v hs of
        Inl e \<Rightarrow> (v, Inl e)
      | Inr tokenStr \<Rightarrow>
          (case parseToken env v tokenStr now of
             (v', Inl err) \<Rightarrow> (v', Inl (TokenRejected err))
           | (v', Inr token) \<Rightarrow>
               (case checkToken (tk_JWT env) v' token now of
                  Some e \<Rightarrow> (v', Inl e)
                | None \<Rightarrow> (v', Inr (tokenIdentity v' hs tokenStr (jt_Claims token))))))"

definition MatchesIssuer :: "JWKSVerifier \<Rightarrow> string \<Rightarrow> bool" where
  "MatchesIssuer v iss \<longleftrightarrow> jv_issuer v = iss"

text \<open>\<open>NewRunTokenVerifier\<close>: the token verifier of a run token.\<close>

record RunTokenSettings =
  rs_JWKSURI :: string
  rs_Audience :: string
  rs_Issuer :: string
  rs_MaxLifetime :: duration
  rs_ClockSkew :: duration

definition NewRunTokenVerifier :: "RunTokenSettings \<Rightarrow> JWKSVerifier" where
  "NewRunTokenVerifier cfg = NewJWKSVerifier (emptyJWKSConfig\<lparr>jc_ProviderName := ''run-token'',
     jc_Issuer := rs_Issuer cfg, jc_JWKSURI := rs_JWKSURI cfg, jc_Audiences := [rs_Audience cfg],
     jc_ClockSkew := rs_ClockSkew cfg, jc_Header := RunTokenHeader, jc_RequireExpiry := True,
     jc_MaxLifetime := rs_MaxLifetime cfg, jc_Bare := True, jc_Type := ''txntoken+jwt''\<rparr>)"

text \<open>
  The run token verifier with the key cache it has at \<open>now\<close>: the token is handed to the JWKS verifier in a
  request that carries nothing else.
\<close>

definition runTokenAt :: "token_env \<Rightarrow> JWKSVerifier \<Rightarrow> time \<Rightarrow> RunTokenVerifier" where
  "runTokenAt env v now =
     \<lparr>rv_jwks = (\<lambda>token. map_sum token_text (\<lambda>i. i) (snd (JWKSVerifier_Verify env v [(RunTokenHeader, token)] now)))\<rparr>"

section \<open>Several providers\<close>

record MultiVerifier =
  mv_providers :: "JWKSVerifier list"
  mv_header :: string

definition NewMultiVerifier :: "JWKSVerifier list \<Rightarrow> string \<Rightarrow> MultiVerifier" where
  "NewMultiVerifier providers header =
     \<lparr>mv_providers = providers, mv_header = (if header = [] then ''Authorization'' else header)\<rparr>"

definition peekIssuer :: "jwt_lib \<Rightarrow> string \<Rightarrow> string" where
  "peekIssuer lib tokenStr =
     (case jw_ParseUnverified lib tokenStr of
        Inl err \<Rightarrow> []
      | Inr token \<Rightarrow> claimString (jt_Claims token) ''iss'')"

text \<open>The first provider of the issuer; every provider keeps its own cache.\<close>

fun verifyIssuer ::
  "token_env \<Rightarrow> JWKSVerifier list \<Rightarrow> string \<Rightarrow> http_header \<Rightarrow> time \<Rightarrow> JWKSVerifier list \<times> (token_error + Identity)" where
  "verifyIssuer env [] iss hs now = ([], Inl (NoProvider iss))"
| "verifyIssuer env (p # ps) iss hs now =
     (if MatchesIssuer p iss
      then (case JWKSVerifier_Verify env p hs now of (p', r) \<Rightarrow> (p' # ps, r))
      else (case verifyIssuer env ps iss hs now of (ps', r) \<Rightarrow> (p # ps', r)))"

fun verifyAny ::
  "token_env \<Rightarrow> JWKSVerifier list \<Rightarrow> token_error option \<Rightarrow> http_header \<Rightarrow> time \<Rightarrow>
     JWKSVerifier list \<times> (token_error + Identity)" where
  "verifyAny env [] lastErr hs now = ([], Inl (AllFailed lastErr))"
| "verifyAny env (p # ps) lastErr hs now =
     (case JWKSVerifier_Verify env p hs now of
        (p', Inr i) \<Rightarrow> (p' # ps, Inr i)
      | (p', Inl e) \<Rightarrow> (case verifyAny env ps (Some e) hs now of (ps', r) \<Rightarrow> (p' # ps', r)))"

definition MultiVerifier_Verify ::
  "token_env \<Rightarrow> MultiVerifier \<Rightarrow> http_header \<Rightarrow> time \<Rightarrow> MultiVerifier \<times> (token_error + Identity)" where
  "MultiVerifier_Verify env m hs now =
     (let raw = HTTPHeaders_Get hs (mv_header m) in
      if raw = [] then (m, Inl (TokenMissing (mv_header m)))
      else
        let iss = peekIssuer (tk_JWT env) (TrimPrefix raw bearer);
            (ps, r) = (if iss \<noteq> [] then verifyIssuer env (mv_providers m) iss hs now
                       else verifyAny env (mv_providers m) None hs now)
        in (m\<lparr>mv_providers := ps\<rparr>, r))"

section \<open>The verifier of the environment\<close>

record EnvVerifierConfig =
  ev_JWKSURL :: string
  ev_Issuer :: string
  ev_Audiences :: "string list"
  ev_ClockSkew :: duration
  ev_AllowedAlgs :: "string list"
  ev_Header :: string
  ev_TrustHeader :: bool

datatype env_verifier = EnvJWKS JWKSVerifier | EnvHeader string | EnvNone
datatype env_error = BothConfigured | JWKSIssuerRequired

definition VerifierFromEnv :: "EnvVerifierConfig \<Rightarrow> env_error + env_verifier" where
  "VerifierFromEnv cfg =
     (if ev_JWKSURL cfg \<noteq> [] \<and> ev_TrustHeader cfg then Inl BothConfigured
      else if ev_JWKSURL cfg \<noteq> []
      then (if ev_Issuer cfg = [] then Inl JWKSIssuerRequired
            else Inr (EnvJWKS (NewJWKSVerifier (emptyJWKSConfig\<lparr>jc_ProviderName := ''env'',
              jc_Issuer := ev_Issuer cfg, jc_JWKSURI := ev_JWKSURL cfg, jc_Audiences := ev_Audiences cfg,
              jc_ClockSkew := ev_ClockSkew cfg, jc_AllowedAlgs := ev_AllowedAlgs cfg, jc_Header := ev_Header cfg\<rparr>))))
      else if ev_TrustHeader cfg
      then Inr (EnvHeader (ev_Header cfg))
      else Inr EnvNone)"

section \<open>Claims drift\<close>

record claimsSnapshot =
  cl_scopes :: string
  cl_groups :: string

type_synonym DriftDetector = "string \<rightharpoonup> claimsSnapshot"

definition NewDriftDetector :: DriftDetector where
  "NewDriftDetector = Map.empty"

definition normalizeSlice :: "string list \<Rightarrow> string" where
  "normalizeSlice s = (if s = [] then [] else Join (sort s) '','')"

definition snapshot :: "Identity \<Rightarrow> claimsSnapshot" where
  "snapshot i = \<lparr>cl_scopes = normalizeSlice (id_Scopes i), cl_groups = normalizeSlice (id_Groups i)\<rparr>"

text \<open>The drifts reported, by claim: what it was and what it is. No drift is no error.\<close>

datatype drift = ScopesChanged string string | GroupsChanged string string

definition DriftDetector_Check :: "DriftDetector \<Rightarrow> Identity option \<Rightarrow> DriftDetector \<times> drift list" where
  "DriftDetector_Check d ident =
     (case ident of
        None \<Rightarrow> (d, [])
      | Some i \<Rightarrow>
          if id_SessionID i = [] then (d, [])
          else (case d (id_SessionID i) of
                  None \<Rightarrow> (d(id_SessionID i \<mapsto> snapshot i), [])
                | Some snap \<Rightarrow>
                    (d, (if cl_scopes snap \<noteq> cl_scopes (snapshot i)
                         then [ScopesChanged (cl_scopes snap) (cl_scopes (snapshot i))] else []) @
                        (if cl_groups snap \<noteq> cl_groups (snapshot i)
                         then [GroupsChanged (cl_groups snap) (cl_groups (snapshot i))] else []))))"

definition DriftDetector_Clear :: "DriftDetector \<Rightarrow> string \<Rightarrow> DriftDetector" where
  "DriftDetector_Clear d sessionID = d(sessionID := None)"

definition DriftDetector_Sweep :: "DriftDetector \<Rightarrow> DriftDetector" where
  "DriftDetector_Sweep d = Map.empty"

section \<open>Lemmas\<close>

text \<open>What the cache holds: a key handed out comes from a key set at most one TTL old.\<close>

definition fresh_key :: "JWKSVerifier \<Rightarrow> string \<Rightarrow> public_key \<Rightarrow> time \<Rightarrow> bool" where
  "fresh_key v kid key now \<longleftrightarrow> (\<exists>t. jv_fetchedAt v = Some t \<and> now - t \<le> jv_cacheTTL v \<and> jv_keys v kid = Some key)"

lemma getCachedKey_iff: "getCachedKey v kid now = Some key \<longleftrightarrow> fresh_key v kid key now"
  by (auto simp: getCachedKey_def fresh_key_def split: option.splits if_splits)

text \<open>Everything but the cache is configuration.\<close>

definition same_settings :: "JWKSVerifier \<Rightarrow> JWKSVerifier \<Rightarrow> bool" where
  "same_settings v v' \<longleftrightarrow> v' = v\<lparr>jv_keys := jv_keys v', jv_fetchedAt := jv_fetchedAt v'\<rparr>"

lemma same_settings_refl [simp]: "same_settings v v"
  by (simp add: same_settings_def)

lemma fetchKeys_settings: "fetchKeys env v now = (v', r) \<Longrightarrow> same_settings v v'"
  by (auto simp: fetchKeys_def same_settings_def split: sum.splits)

lemma keyFunc_settings: "keyFunc env v token now = (v', r) \<Longrightarrow> same_settings v v'"
  by (auto simp: keyFunc_def Let_def split: if_splits option.splits prod.splits dest: fetchKeys_settings)

lemma keyFunc_fresh:
  "keyFunc env v token now = (v', Inr key) \<Longrightarrow> fresh_key v' (claimString (jt_Header token) ''kid'') key now"
  by (auto simp: keyFunc_def Let_def getCachedKey_iff split: if_splits option.splits prod.splits)

text \<open>
  What the library documents of \<open>jwt.Parse\<close>: a token it returns is the one it parsed, the key
  function succeeded, a configured issuer is the token's, and a required expiry is present.
\<close>

definition jwt_documented :: "jwt_lib \<Rightarrow> bool" where
  "jwt_documented lib \<longleftrightarrow> (\<forall>opts now s key t. jw_Parse lib opts now s key = Inr t \<longrightarrow>
     (\<exists>u k. jw_ParseUnverified lib s = Inr u \<and> jt_Header u = jt_Header t \<and> jt_Claims u = jt_Claims t \<and> key = Inr k) \<and>
     (jo_Issuer opts \<noteq> [] \<longrightarrow> claimString (jt_Claims t) ''iss'' = jo_Issuer opts) \<and>
     (jo_ExpRequired opts \<longrightarrow> (\<exists>e. jw_ExpirationTime lib (jt_Claims t) = Inr (Some e))))"

lemma jwt_documentedD:
  assumes "jwt_documented lib" and "jw_Parse lib opts now s key = Inr t"
  obtains u k where "jw_ParseUnverified lib s = Inr u" "jt_Header u = jt_Header t" "jt_Claims u = jt_Claims t"
    "key = Inr k" "jo_Issuer opts \<noteq> [] \<Longrightarrow> claimString (jt_Claims t) ''iss'' = jo_Issuer opts"
  using assms unfolding jwt_documented_def by blast

lemma parseToken_settings: "parseToken env v s now = (v', r) \<Longrightarrow> same_settings v v'"
  by (auto simp: parseToken_def split: sum.splits prod.splits dest: keyFunc_settings)

lemma Verify_settings: "JWKSVerifier_Verify env v hs now = (v', r) \<Longrightarrow> same_settings v v'"
  by (auto simp: JWKSVerifier_Verify_def split: sum.splits prod.splits option.splits dest: parseToken_settings)

lemma Verify_accepts:
  assumes "JWKSVerifier_Verify env v hs now = (v', Inr i)"
  obtains s token where "bearerToken v hs = Inr s" "parseToken env v s now = (v', Inr token)"
    "checkToken (tk_JWT env) v' token now = None" "i = tokenIdentity v' hs s (jt_Claims token)"
  using assms by (auto simp: JWKSVerifier_Verify_def split: sum.splits prod.splits option.splits)

interpretation jwksv: verifier "\<lambda>hs. snd (JWKSVerifier_Verify env v hs now)" for env v now
proof
  fix hs i
  assume "snd (JWKSVerifier_Verify env v hs now) = Inr i"
  then obtain v' where "JWKSVerifier_Verify env v hs now = (v', Inr i)"
    by (cases "JWKSVerifier_Verify env v hs now") auto
  then show "id_SessionID i = HTTPHeaders_Get hs mcpSessionHeader"
    by (rule Verify_accepts) (simp add: tokenIdentity_def)
qed

lemma verifyIssuer_accepts:
  "verifyIssuer env ps iss hs now = (ps', Inr i) \<Longrightarrow>
     \<exists>p p'. p \<in> set ps \<and> jv_issuer p = iss \<and> JWKSVerifier_Verify env p hs now = (p', Inr i)"
  by (induction ps arbitrary: ps') (auto simp: MatchesIssuer_def split: if_splits prod.splits)

lemma verifyAny_accepts:
  "verifyAny env ps e hs now = (ps', Inr i) \<Longrightarrow>
     \<exists>p p'. p \<in> set ps \<and> JWKSVerifier_Verify env p hs now = (p', Inr i)"
proof (induction ps arbitrary: ps' e)
  case (Cons p ps)
  show ?case
  proof (cases "JWKSVerifier_Verify env p hs now")
    case (Pair p' r)
    show ?thesis
    proof (cases r)
      case (Inl err)
      then obtain qs where "verifyAny env ps (Some err) hs now = (qs, Inr i)"
        using Cons.prems Pair by (auto split: prod.splits)
      from Cons.IH [OF this] show ?thesis
        by auto
    next
      case (Inr j)
      then show ?thesis
        using Cons.prems Pair by auto
    qed
  qed
qed simp

lemma MultiVerifier_accepts:
  assumes "MultiVerifier_Verify env m hs now = (m', Inr i)"
  obtains p p' where "p \<in> set (mv_providers m)" "JWKSVerifier_Verify env p hs now = (p', Inr i)"
    "peekIssuer (tk_JWT env) (TrimPrefix (HTTPHeaders_Get hs (mv_header m)) bearer) \<in> {[], jv_issuer p}"
proof -
  let ?iss = "peekIssuer (tk_JWT env) (TrimPrefix (HTTPHeaders_Get hs (mv_header m)) bearer)"
  show ?thesis
  proof (cases "?iss = []")
    case True
    then obtain ps' where "verifyAny env (mv_providers m) None hs now = (ps', Inr i)"
      using assms by (auto simp: MultiVerifier_Verify_def Let_def split: if_splits prod.splits)
    then show ?thesis
      using True verifyAny_accepts that by blast
  next
    case False
    then obtain ps' where "verifyIssuer env (mv_providers m) ?iss hs now = (ps', Inr i)"
      using assms by (auto simp: MultiVerifier_Verify_def Let_def split: if_splits prod.splits)
    from verifyIssuer_accepts [OF this] obtain p p' where "p \<in> set (mv_providers m)"
        "JWKSVerifier_Verify env p hs now = (p', Inr i)" "?iss = jv_issuer p"
      by auto
    then show ?thesis
      by (intro that [of p p']) simp_all
  qed
qed

interpretation multiv: verifier "\<lambda>hs. snd (MultiVerifier_Verify env m hs now)" for env m now
proof
  fix hs i
  assume "snd (MultiVerifier_Verify env m hs now) = Inr i"
  then obtain m' where "MultiVerifier_Verify env m hs now = (m', Inr i)"
    by (cases "MultiVerifier_Verify env m hs now") auto
  then obtain p p' where "JWKSVerifier_Verify env p hs now = (p', Inr i)"
    by (rule MultiVerifier_accepts)
  then show "id_SessionID i = HTTPHeaders_Get hs mcpSessionHeader"
    using jwksv.session_from_header [of env p hs now i] by simp
qed

text \<open>The issuer of an accepted token is the one the provider is configured for.\<close>

lemma same_settings_parts:
  "same_settings v v' \<Longrightarrow> jv_issuer v' = jv_issuer v \<and> jv_header v' = jv_header v \<and> jv_bare v' = jv_bare v \<and>
     jv_requireExpiry v' = jv_requireExpiry v \<and> jwksOpts v' = jwksOpts v"
proof -
  assume "same_settings v v'"
  then obtain k f where "v' = v\<lparr>jv_keys := k, jv_fetchedAt := f\<rparr>" unfolding same_settings_def by blast
  then show ?thesis by (simp add: jwksOpts_def)
qed

text \<open>Everything that has been established of a token when it is accepted.\<close>

lemma same_settings_check:
  "same_settings v v' \<Longrightarrow> checkToken lib v' token now = checkToken lib v token now \<and> tokenIdentity v' hs s claims = tokenIdentity v hs s claims"
proof -
  assume "same_settings v v'"
  then obtain k f where v': "v' = v\<lparr>jv_keys := k, jv_fetchedAt := f\<rparr>" unfolding same_settings_def by blast
  have sel: "jv_allowedAlgs v' = jv_allowedAlgs v" "jv_typ v' = jv_typ v" "jv_audiences v' = jv_audiences v"
      "jv_maxLifetime v' = jv_maxLifetime v" "jv_clockSkew v' = jv_clockSkew v" "jv_providerName v' = jv_providerName v"
    by (simp_all add: v')
  show ?thesis
    unfolding checkToken_def checkAudience_def checkLifetime_def tokenIdentity_def sel by simp
qed

lemma Verify_checked:
  assumes "jwt_documented (tk_JWT env)" and "JWKSVerifier_Verify env v hs now = (v', Inr i)"
  obtains s u token key where "bearerToken v hs = Inr s" "jw_ParseUnverified (tk_JWT env) s = Inr u" "jt_Claims u = jt_Claims token"
    "jw_Parse (tk_JWT env) (jwksOpts v) now s (Inr key) = Inr token" "fresh_key v' (claimString (jt_Header token) ''kid'') key now"
    "checkToken (tk_JWT env) v token now = None" "i = tokenIdentity v hs s (jt_Claims token)"
    "jv_issuer v = [] \<or> claimString (jt_Claims token) ''iss'' = jv_issuer v"
    "jv_requireExpiry v \<longrightarrow> (\<exists>e. jw_ExpirationTime (tk_JWT env) (jt_Claims token) = Inr (Some e))"
  using assms(2)
proof (rule Verify_accepts)
  fix s token
  assume s: "bearerToken v hs = Inr s" and p: "parseToken env v s now = (v', Inr token)"
    and c: "checkToken (tk_JWT env) v' token now = None" "i = tokenIdentity v' hs s (jt_Claims token)"
  obtain u k where u: "jw_ParseUnverified (tk_JWT env) s = Inr u" "keyFunc env v u now = (v', k)"
      "jw_Parse (tk_JWT env) (jwksOpts v) now s k = Inr token"
    using p by (auto simp: parseToken_def split: sum.splits prod.splits)
  with assms(1) obtain key where key: "k = Inr key" "jt_Header u = jt_Header token" "jt_Claims u = jt_Claims token"
      "jv_issuer v = [] \<or> claimString (jt_Claims token) ''iss'' = jv_issuer v"
      "jv_requireExpiry v \<longrightarrow> (\<exists>e. jw_ExpirationTime (tk_JWT env) (jt_Claims token) = Inr (Some e))"
    unfolding jwt_documented_def by (fastforce simp: jwksOpts_def)
  have "fresh_key v' (claimString (jt_Header token) ''kid'') key now"
    using keyFunc_fresh [of env v u now v' key] u(2) key(1,2) by simp
  then show thesis
    using that [OF s u(1) key(3)] u(3) key c same_settings_check [OF parseToken_settings [OF p]] by simp
qed

lemma Verify_issuer:
  assumes "jwt_documented (tk_JWT env)" and "JWKSVerifier_Verify env v hs now = (v', Inr i)"
  obtains s u where "bearerToken v hs = Inr s" "jw_ParseUnverified (tk_JWT env) s = Inr u"
    "id_Issuer i = claimString (jt_Claims u) ''iss''" "jv_issuer v = [] \<or> id_Issuer i = jv_issuer v"
  using assms by (rule Verify_checked) (simp add: tokenIdentity_def that)

lemma checkToken_passed:
  "checkToken lib v token now = None \<longleftrightarrow>
     jt_Valid token \<and> jt_Alg token \<in> jv_allowedAlgs v \<and>
     (jv_typ v = [] \<or> EqualFold (claimString (jt_Header token) ''typ'') (jv_typ v)) \<and>
     (jv_audiences v = [] \<or> (\<exists>aud. jw_Audience lib (jt_Claims token) = Inr aud \<and> set aud \<inter> set (jv_audiences v) \<noteq> {})) \<and>
     (jv_maxLifetime v \<le> 0 \<or> checkLifetime lib v (jt_Claims token) now = None)"
  by (auto simp: checkToken_def Let_def checkAudience_def split: if_splits option.splits sum.splits)

text \<open>
  What is known of a run token that verifies for a workload: the text presented parses, under a key the verifier
  \<open>v\<close> holds that was fetched within its cache lifetime, to a token with these claims.
\<close>

definition run_token_ok :: "token_env \<Rightarrow> RunTokenSettings \<Rightarrow> JWKSVerifier \<Rightarrow> time \<Rightarrow> string \<Rightarrow> string \<Rightarrow> Run \<Rightarrow> bool" where
  "run_token_ok env rs v now token workload run \<longleftrightarrow>
     (\<exists>tok key. jw_Parse (tk_JWT env) (jwksOpts (NewRunTokenVerifier rs)) now (TrimSpace token) (Inr key) = Inr tok \<and>
        fresh_key (fst (JWKSVerifier_Verify env v [(RunTokenHeader, token)] now)) (claimString (jt_Header tok) ''kid'') key now \<and>
        EqualFold (claimString (jt_Header tok) ''typ'') ''txntoken+jwt'' \<and> jt_Alg tok \<in> {''RS256'', ''ES256''} \<and>
        (\<exists>aud. jw_Audience (tk_JWT env) (jt_Claims tok) = Inr aud \<and> rs_Audience rs \<in> set aud) \<and>
        (rs_Issuer rs = [] \<or> claimString (jt_Claims tok) ''iss'' = rs_Issuer rs) \<and>
        (\<exists>e. jw_ExpirationTime (tk_JWT env) (jt_Claims tok) = Inr (Some e)) \<and>
        (rs_MaxLifetime rs \<le> 0 \<or> checkLifetime (tk_JWT env) (NewRunTokenVerifier rs) (jt_Claims tok) now = None) \<and>
        claimString (jt_Claims tok) ''txn'' = run_ID run \<and> claimString (jt_Claims tok) ''req_wl'' = workload)"

lemma NewRunTokenVerifier_sel:
  "jv_typ (NewRunTokenVerifier rs) = ''txntoken+jwt''" "jv_audiences (NewRunTokenVerifier rs) = [rs_Audience rs]"
  "jv_issuer (NewRunTokenVerifier rs) = rs_Issuer rs" "jv_allowedAlgs (NewRunTokenVerifier rs) = {''RS256'', ''ES256''}"
  "jv_requireExpiry (NewRunTokenVerifier rs)" "jv_bare (NewRunTokenVerifier rs)" "jv_header (NewRunTokenVerifier rs) = RunTokenHeader"
  "jv_maxLifetime (NewRunTokenVerifier rs) = rs_MaxLifetime rs"
  by (simp_all add: NewRunTokenVerifier_def NewJWKSVerifier_def emptyJWKSConfig_def RunTokenHeader_def)

lemma run_token_checked:
  assumes "jwt_documented (tk_JWT env)" and "same_settings (NewRunTokenVerifier rs) v"
    and "RunTokenVerifier_Verify (runTokenAt env v now) token workload = Inr (i, run)"
  shows "run_token_ok env rs v now token workload run"
proof -
  let ?v0 = "NewRunTokenVerifier rs"
  from assms(3) obtain j where j: "rv_jwks (runTokenAt env v now) token = Inr j"
    "run_ID run = claimString (case id_Claims j of None \<Rightarrow> [] | Some m \<Rightarrow> m) ''txn''"
    "workload = claimString (case id_Claims j of None \<Rightarrow> [] | Some m \<Rightarrow> m) ''req_wl''"
    by (auto simp: RunTokenVerifier_Verify_def readRun_def Let_def split: if_splits sum.splits prod.splits option.splits)
  then obtain v' where v': "JWKSVerifier_Verify env v [(RunTokenHeader, token)] now = (v', Inr j)"
    by (cases "JWKSVerifier_Verify env v [(RunTokenHeader, token)] now") (auto simp: runTokenAt_def map_sum_def split: sum.splits)
  from assms(1) v' show ?thesis
  proof (rule Verify_checked)
    fix s tok key
    assume s: "bearerToken v [(RunTokenHeader, token)] = Inr s"
      and parse: "jw_Parse (tk_JWT env) (jwksOpts v) now s (Inr key) = Inr tok" "fresh_key v' (claimString (jt_Header tok) ''kid'') key now"
      and t: "checkToken (tk_JWT env) v tok now = None" "j = tokenIdentity v [(RunTokenHeader, token)] s (jt_Claims tok)"
      "jv_issuer v = [] \<or> claimString (jt_Claims tok) ''iss'' = jv_issuer v"
      "jv_requireExpiry v \<longrightarrow> (\<exists>e. jw_ExpirationTime (tk_JWT env) (jt_Claims tok) = Inr (Some e))"
    note same = same_settings_parts [OF assms(2)]
    have "checkToken (tk_JWT env) ?v0 tok now = None"
      using same_settings_check [OF assms(2)] t(1) by simp
    moreover have "id_Claims j = Some (jt_Claims tok)"
      by (simp add: t(2) tokenIdentity_def)
    moreover have "s = TrimSpace token"
      using s same by (auto simp: bearerToken_def NewRunTokenVerifier_sel Let_def split: if_splits)
    ultimately show ?thesis
      using t(3,4) j(2,3) parse same v' unfolding checkToken_passed run_token_ok_def
      by (intro exI [of _ tok] exI [of _ key]) (auto simp: NewRunTokenVerifier_sel)
  qed
qed

lemma Multi_issuer:
  assumes "jwt_documented (tk_JWT env)" and "MultiVerifier_Verify env m hs now = (m', Inr i)"
    and "\<forall>p \<in> set (mv_providers m). jv_header p = mv_header m \<and> \<not> jv_bare p"
  shows "\<exists>p \<in> set (mv_providers m). id_Issuer i = jv_issuer p"
  using assms(2)
proof (rule MultiVerifier_accepts)
  fix p p'
  assume p: "p \<in> set (mv_providers m)" "JWKSVerifier_Verify env p hs now = (p', Inr i)"
    "peekIssuer (tk_JWT env) (TrimPrefix (HTTPHeaders_Get hs (mv_header m)) bearer) \<in> {[], jv_issuer p}"
  from assms(1) p(2) obtain s u where u: "bearerToken p hs = Inr s" "jw_ParseUnverified (tk_JWT env) s = Inr u"
    "id_Issuer i = claimString (jt_Claims u) ''iss''" "jv_issuer p = [] \<or> id_Issuer i = jv_issuer p"
    by (rule Verify_issuer)
  have "s = TrimPrefix (HTTPHeaders_Get hs (mv_header m)) bearer"
    using u(1) p(1) assms(3) by (auto simp: bearerToken_def Let_def split: if_splits)
  then have "id_Issuer i \<in> {[], jv_issuer p}"
    using p(3) u(2,3) by (simp add: peekIssuer_def)
  with u(4) have "id_Issuer i = jv_issuer p" by auto
  with p(1) show ?thesis by blast
qed

text \<open>Joined by commas, lists of comma-free words are told apart up to order.\<close>

lemma Split_normalizeSlice:
  "zs \<noteq> [] \<Longrightarrow> \<forall>z \<in> set zs. CHR '','' \<notin> set z \<Longrightarrow> Split CHR '','' (normalizeSlice zs) = sort zs"
  using Split_Join [of "sort zs" "CHR '',''"] by (simp add: normalizeSlice_def) (metis length_0_conv length_sort)

lemma normalizeSlice_Nil:
  assumes "zs \<noteq> []" and "\<forall>z \<in> set zs. z \<noteq> [] \<and> CHR '','' \<notin> set z"
  shows "normalizeSlice zs \<noteq> []"
proof
  assume "normalizeSlice zs = []"
  then have "sort zs = [[]]"
    using Split_normalizeSlice [of zs] assms by simp
  then have "[] \<in> set (sort zs)"
    by simp
  then have "[] \<in> set zs"
    by simp
  then show False
    using assms(2) by blast
qed

lemma normalizeSlice_inj:
  assumes "\<forall>x \<in> set (xs @ ys). x \<noteq> [] \<and> CHR '','' \<notin> set x"
  shows "normalizeSlice xs = normalizeSlice ys \<longleftrightarrow> sort xs = sort ys"
proof (cases "xs = [] \<or> ys = []")
  case True
  have n: "normalizeSlice zs = [] \<longleftrightarrow> zs = []" if "\<forall>z \<in> set zs. z \<noteq> [] \<and> CHR '','' \<notin> set z" for zs
    using normalizeSlice_Nil [OF _ that] by (cases "zs = []") (simp_all add: normalizeSlice_def)
  have l: "sort zs = [] \<longleftrightarrow> zs = []" for zs :: "string list"
    by (metis length_0_conv length_sort)
  have "normalizeSlice xs = [] \<longleftrightarrow> xs = []" "normalizeSlice ys = [] \<longleftrightarrow> ys = []"
    using n [of xs] n [of ys] assms by simp_all
  then show ?thesis
    using True l [of xs] l [of ys] by (metis)
next
  case False
  then have "sort xs = Split CHR '','' (normalizeSlice xs)" "sort ys = Split CHR '','' (normalizeSlice ys)"
    using assms by (simp_all add: Split_normalizeSlice)
  then show ?thesis
    using False by (metis normalizeSlice_def)
qed

section \<open>Properties\<close>


text \<open>
  A token is validated only by the provider of its issuer: when the verifier of several
  providers accepts, some configured provider accepted by itself, and if the token names an
  issuer that provider is configured for it; no other provider can vouch for the token.\<close>

theorem Multi_binds_issuer:
  assumes "MultiVerifier_Verify env m hs now = (m', Inr i)"
  shows "\<exists>p p'. p \<in> set (mv_providers m) \<and> JWKSVerifier_Verify env p hs now = (p', Inr i) \<and>
    peekIssuer (tk_JWT env) (TrimPrefix (HTTPHeaders_Get hs (mv_header m)) bearer) \<in> {[], jv_issuer p}"
  using assms by (rule MultiVerifier_accepts) blast

text \<open>
  Claims drift is seen exactly, for scopes and groups without commas: a later request of a
  session is reported unless its scopes and its groups are those of the session's first request
  up to order.\<close>

theorem drift_exact:
  assumes "id_SessionID i = id_SessionID j" and "id_SessionID i \<noteq> []"
    and "\<forall>x \<in> set (id_Scopes i @ id_Groups i @ id_Scopes j @ id_Groups j). x \<noteq> [] \<and> CHR '','' \<notin> set x"
  shows "snd (DriftDetector_Check (fst (DriftDetector_Check NewDriftDetector (Some i))) (Some j)) = [] \<longleftrightarrow>
    sort (id_Scopes i) = sort (id_Scopes j) \<and> sort (id_Groups i) = sort (id_Groups j)"
  using assms normalizeSlice_inj [of "id_Scopes i" "id_Scopes j"] normalizeSlice_inj [of "id_Groups i" "id_Groups j"]
  by (auto simp: DriftDetector_Check_def NewDriftDetector_def snapshot_def)

text \<open>Scopes are joined by commas, so a scope with a comma passes for two.\<close>

lemma drift_comma_collision: "normalizeSlice [''read,write''] = normalizeSlice [''write'', ''read'']"
  by (simp add: normalizeSlice_def)

text \<open>A library that accepts one token, and a verifier for it.\<close>

definition demo_token :: jwt_token where
  "demo_token = \<lparr>jt_Header = [(''kid'', VStr ''k1'')], jt_Alg = ''RS256'',
     jt_Claims = [(''iss'', VStr ''idp''), (''sub'', VStr ''alice'')], jt_Valid = True\<rparr>"

definition demo_jwt :: jwt_lib where
  "demo_jwt = \<lparr>jw_ParseUnverified = (\<lambda>s. if s = ''tok'' then Inr demo_token else Inl ''malformed''),
     jw_Parse = (\<lambda>opts now s key. if s = ''tok'' \<and> (\<exists>k. key = Inr k) \<and> jo_Issuer opts = ''idp'' \<and> \<not> jo_ExpRequired opts
       then Inr demo_token else Inl ''rejected''),
     jw_ExpirationTime = (\<lambda>_. Inr None), jw_IssuedAt = (\<lambda>_. Inr None), jw_Audience = (\<lambda>_. Inr [])\<rparr>"

definition demo_token_env :: token_env where
  "demo_token_env = \<lparr>tk_JWT = demo_jwt,
     tk_JSON = \<lparr>js_unmarshal = (\<lambda>_. Inr (VMap [(''keys'', VArr [VMap [(''kid'', VStr ''k1''), (''kty'', VStr ''RSA''),
       (''n'', VStr ''AQAB''), (''e'', VStr ''AQAB'')]])])), js_marshal = (\<lambda>_. Inl [])\<rparr>,
     tk_Get = (\<lambda>_. Inr ''{}'')\<rparr>"

definition demo_jwks :: JWKSVerifier where
  "demo_jwks = NewJWKSVerifier (emptyJWKSConfig\<lparr>jc_Issuer := ''idp''\<rparr>)"

lemma demo_documented: "jwt_documented (tk_JWT demo_token_env)"
  by (auto simp: jwt_documented_def demo_token_env_def demo_jwt_def demo_token_def claimString_def split: if_splits)

lemma b64_AQAB: "RawURLDecode ''AQAB'' = Some [1, 0, 1]"
  by (simp add: RawURLDecode_def b64_value_def)

lemma demo_keys: "\<exists>key. addKey (VMap [(''kid'', VStr ''k1''), (''kty'', VStr ''RSA''),
       (''n'', VStr ''AQAB''), (''e'', VStr ''AQAB'')]) Map.empty ''k1'' = Some key"
  by (simp add: addKey_def structFields_def structField_def str_eval decodeString_def parseRSAKey_def b64_AQAB)

lemma demo_jwks_accepts:
  "\<exists>v' i. JWKSVerifier_Verify demo_token_env demo_jwks [(''Authorization'', ''Bearer tok'')] 0 = (v', Inr i)"
proof -
  have b: "bearerToken demo_jwks [(''Authorization'', ''Bearer tok'')] = Inr ''tok''"
    by (simp add: bearerToken_def demo_jwks_def NewJWKSVerifier_def emptyJWKSConfig_def bearer_def TrimPrefix_def)
  obtain key where key: "addKey (VMap [(''kid'', VStr ''k1''), (''kty'', VStr ''RSA''),
       (''n'', VStr ''AQAB''), (''e'', VStr ''AQAB'')]) Map.empty ''k1'' = Some key"
    using demo_keys by blast
  have k: "\<exists>v' k. keyFunc demo_token_env demo_jwks demo_token 0 = (v', Inr k) \<and> same_settings demo_jwks v'"
    using key
    by (auto simp: keyFunc_def claimString_def demo_token_def demo_jwks_def NewJWKSVerifier_def emptyJWKSConfig_def getCachedKey_def
        fetchKeys_def demo_token_env_def jwksKeys_def str_eval duration_defs same_settings_def)
  then obtain v' k where k: "keyFunc demo_token_env demo_jwks demo_token 0 = (v', Inr k)" "same_settings demo_jwks v'"
    by blast
  have p: "parseToken demo_token_env demo_jwks ''tok'' 0 = (v', Inr demo_token)"
    using k(1) by (simp add: parseToken_def demo_token_env_def demo_jwt_def jwksOpts_def demo_jwks_def NewJWKSVerifier_def emptyJWKSConfig_def)
  have eq: "v' = demo_jwks\<lparr>jv_keys := jv_keys v', jv_fetchedAt := jv_fetchedAt v'\<rparr>"
    using k(2) by (simp add: same_settings_def)
  have "checkToken (tk_JWT demo_token_env) v' demo_token 0 = None"
    by (subst eq) (simp add: checkToken_def demo_token_def demo_jwks_def NewJWKSVerifier_def emptyJWKSConfig_def)
  then show ?thesis
    using b p by (simp add: JWKSVerifier_Verify_def)
qed


lemma Multi_binds_issuer_witness:
  "\<exists>m' i p. MultiVerifier_Verify demo_token_env (NewMultiVerifier [demo_jwks] []) [(''Authorization'', ''Bearer tok'')] 0 = (m', Inr i) \<and>
     p \<in> set (mv_providers (NewMultiVerifier [demo_jwks] [])) \<and>
     peekIssuer (tk_JWT demo_token_env) (TrimPrefix ''Bearer tok'' bearer) \<in> {[], jv_issuer p}"
proof -
  have h: "HTTPHeaders_Get [(''Authorization'', ''Bearer tok'')] (mv_header (NewMultiVerifier [demo_jwks] [])) = ''Bearer tok''"
    by (simp add: NewMultiVerifier_def)
  obtain v' i where v: "JWKSVerifier_Verify demo_token_env demo_jwks [(''Authorization'', ''Bearer tok'')] 0 = (v', Inr i)"
    using demo_jwks_accepts by blast
  have "peekIssuer (tk_JWT demo_token_env) (TrimPrefix ''Bearer tok'' bearer) = ''idp''"
    by (simp add: peekIssuer_def demo_token_env_def demo_jwt_def demo_token_def claimString_def bearer_def TrimPrefix_def)
  then obtain m' where m: "MultiVerifier_Verify demo_token_env (NewMultiVerifier [demo_jwks] [])
      [(''Authorization'', ''Bearer tok'')] 0 = (m', Inr i)"
    using v h by (auto simp: MultiVerifier_Verify_def MatchesIssuer_def demo_jwks_def NewJWKSVerifier_def NewMultiVerifier_def)
  then show ?thesis
    using Multi_binds_issuer [OF m] unfolding h by blast
qed

lemma drift_exact_witness:
  "snd (DriftDetector_Check (fst (DriftDetector_Check NewDriftDetector
      (Some (emptyIdentity\<lparr>id_SessionID := ''s'', id_Scopes := [''read'']\<rparr>))))
      (Some (emptyIdentity\<lparr>id_SessionID := ''s'', id_Scopes := [''read'', ''write'']\<rparr>))) \<noteq> []"
  using drift_exact [of "emptyIdentity\<lparr>id_SessionID := ''s'', id_Scopes := [''read'']\<rparr>"
      "emptyIdentity\<lparr>id_SessionID := ''s'', id_Scopes := [''read'', ''write'']\<rparr>"]
  by (simp add: emptyIdentity_def)

end
