(* ===== verification/ControllerStores.thy ===== *)
theory ControllerStores
  imports Hold Budget
begin

text \<open>
  Package \<open>controller\<close>, the deciding half: the store of holds (\<open>holds.go\<close>), a second
  implementation of the contract of package \<open>hold\<close>, and the store of budgets (\<open>budget.go\<close>),
  which refines the in-process tracker of package \<open>budget\<close>.
\<close>

section \<open>Holds\<close>

datatype HoldState = HoldPending | HoldApproved | HoldDenied | HoldTimeout

record CHold =
  ch_ID :: string
  ch_Tool :: string
  ch_Identity :: string
  ch_SessionID :: string
  ch_Reason :: string
  ch_State :: HoldState
  ch_OnTimeout :: string
  ch_Payload :: string
  ch_CreatedAt :: time
  ch_ResolvedAt :: "time option"
  ch_ResolvedBy :: string

text \<open>The entry of a pending hold is the hold; the channel is what is sent on it.\<close>

record HoldStore =
  hs_pending :: "string \<rightharpoonup> CHold"
  hs_history :: "CHold list"
  hs_maxHist :: nat

definition NewHoldStore :: HoldStore where
  "NewHoldStore = \<lparr>hs_pending = Map.empty, hs_history = [], hs_maxHist = 500\<rparr>"

definition generateHoldID :: "string \<Rightarrow> string" where
  "generateHoldID hex = ''hold-'' @ hex"

definition HoldStore_Create ::
  "HoldStore \<Rightarrow> string \<Rightarrow> string \<Rightarrow> string \<Rightarrow> string \<Rightarrow> string \<Rightarrow> string \<Rightarrow> string \<Rightarrow> time \<Rightarrow> HoldStore \<times> string" where
  "HoldStore_Create s hex tool identity sessionID reason onTimeout payload now =
     (let hid = generateHoldID hex;
          h = \<lparr>ch_ID = hid, ch_Tool = tool, ch_Identity = identity, ch_SessionID = sessionID,
               ch_Reason = reason, ch_State = HoldPending, ch_OnTimeout = onTimeout,
               ch_Payload = payload, ch_CreatedAt = now, ch_ResolvedAt = None, ch_ResolvedBy = []\<rparr>
      in (s\<lparr>hs_pending := (hs_pending s)(hid \<mapsto> h)\<rparr>, hid))"

definition HoldStore_archive :: "HoldStore \<Rightarrow> CHold \<Rightarrow> HoldStore" where
  "HoldStore_archive s h = s\<lparr>hs_history := keep_last (hs_maxHist s) (hs_history s @ [h])\<rparr>"

definition HoldStore_resolve ::
  "HoldStore \<Rightarrow> string \<Rightarrow> HoldState \<Rightarrow> string \<Rightarrow> time \<Rightarrow> HoldStore \<times> (string + (string \<times> HoldState))" where
  "HoldStore_resolve s hid state who now =
     (case hs_pending s hid of
        None \<Rightarrow> (s, Inl (''hold '' @ hid @ '' not found or already resolved''))
      | Some h \<Rightarrow>
          (HoldStore_archive (s\<lparr>hs_pending := (hs_pending s)(hid := None)\<rparr>)
             (h\<lparr>ch_State := state, ch_ResolvedAt := Some now, ch_ResolvedBy := who\<rparr>), Inr (hid, state)))"

definition HoldStore_Approve where
  "HoldStore_Approve s hid who now = HoldStore_resolve s hid HoldApproved who now"

definition HoldStore_Deny where
  "HoldStore_Deny s hid who now = HoldStore_resolve s hid HoldDenied who now"

text \<open>\<open>runTimeout\<close> after its sleep.\<close>

definition HoldStore_runTimeout ::
  "HoldStore \<Rightarrow> string \<Rightarrow> string \<Rightarrow> time \<Rightarrow> HoldStore \<times> (string \<times> HoldState) option" where
  "HoldStore_runTimeout s hid onTimeout now =
     (case hs_pending s hid of
        None \<Rightarrow> (s, None)
      | Some h \<Rightarrow>
          (HoldStore_archive (s\<lparr>hs_pending := (hs_pending s)(hid := None)\<rparr>)
             (h\<lparr>ch_State := HoldTimeout, ch_ResolvedAt := Some now, ch_ResolvedBy := ''timeout''\<rparr>),
           Some (hid, if onTimeout = ''ALLOW'' then HoldApproved else HoldDenied)))"

definition HoldStore_Get :: "HoldStore \<Rightarrow> string \<Rightarrow> CHold option" where
  "HoldStore_Get s hid =
     (case hs_pending s hid of
        Some h \<Rightarrow> Some h
      | None \<Rightarrow> List.find (\<lambda>h. ch_ID h = hid) (hs_history s))"

text \<open>\<open>ids\<close> is the order in which Go ranges over the pending table.\<close>

definition HoldStore_List :: "HoldStore \<Rightarrow> string list \<Rightarrow> CHold list" where
  "HoldStore_List s ids = List.map_filter (hs_pending s) ids @ hs_history s"

subsection \<open>The store keeps the contract\<close>

datatype chold_op =
    COpCreate string string string string string string string time
  | COpApprove string string time
  | COpDeny string string time
  | COpTimeout string string time

fun chold_exec :: "HoldStore \<Rightarrow> chold_op \<Rightarrow> HoldStore \<times> (string \<times> HoldState) option" where
  "chold_exec s (COpCreate hex tool ident sess reason onTimeout payload now) =
     (fst (HoldStore_Create s hex tool ident sess reason onTimeout payload now), None)"
| "chold_exec s (COpApprove i who now) = sent_of (HoldStore_Approve s i who now)"
| "chold_exec s (COpDeny i who now) = sent_of (HoldStore_Deny s i who now)"
| "chold_exec s (COpTimeout i onTimeout now) = HoldStore_runTimeout s i onTimeout now"

fun chold_creates :: "chold_op \<Rightarrow> string option" where
  "chold_creates (COpCreate hex tool ident sess reason onTimeout payload now) = Some (generateHoldID hex)"
| "chold_creates _ = None"

fun chold_expires :: "chold_op \<Rightarrow> string option" where
  "chold_expires (COpTimeout i onTimeout now) = Some i"
| "chold_expires _ = None"

definition chold_open :: "HoldStore \<Rightarrow> string \<Rightarrow> bool" where
  "chold_open s i \<longleftrightarrow> hs_pending s i \<noteq> None"

lemmas chold_defs = HoldStore_Create_def HoldStore_resolve_def HoldStore_Approve_def HoldStore_Deny_def
  HoldStore_runTimeout_def HoldStore_archive_def sent_of_def chold_open_def Let_def

interpretation cholds: hold_store chold_open chold_exec chold_creates chold_expires
proof unfold_locales
  fix x i s s' m assume "chold_creates x = Some i" "chold_exec s x = (s', m)"
  then show "m = None \<and> (\<forall>j. chold_open s' j = (j = i \<or> chold_open s j))"
    by (cases x) (auto simp: chold_defs)
next
  fix s x s' i a assume "chold_exec s x = (s', Some (i, a))"
  then show "chold_open s i \<and> \<not> chold_open s' i \<and> (\<forall>j. j \<noteq> i \<longrightarrow> chold_open s' j = chold_open s j)"
    by (cases x) (auto simp: chold_defs split: option.splits)
next
  fix x s s' j assume "chold_creates x = None" "chold_exec s x = (s', None)"
  then show "chold_open s' j = chold_open s j"
    by (cases x) (auto simp: chold_defs split: option.splits)
next
  fix x i s assume "chold_expires x = Some i" "chold_open s i"
  then show "\<exists>s' a. chold_exec s x = (s', Some (i, a))"
    by (cases x) (auto simp: chold_defs)
qed

text \<open>Who sends what: an approval is an operator's, or the expiry of a hold that allows it.\<close>

lemma csent_from:
  "(i, a) \<in> set (deliveries chold_exec s xs) \<Longrightarrow>
   \<exists>x \<in> set xs. (\<exists>who now. x = COpApprove i who now \<and> a = HoldApproved) \<or>
     (\<exists>who now. x = COpDeny i who now \<and> a = HoldDenied) \<or>
     (\<exists>onTimeout now. x = COpTimeout i onTimeout now \<and> a = (if onTimeout = ''ALLOW'' then HoldApproved else HoldDenied))"
proof (induction xs arbitrary: s)
  case (Cons x xs)
  obtain s' d where st: "chold_exec s x = (s', d)" by fastforce
  show ?case
  proof (cases "d = Some (i, a)")
    case True
    then show ?thesis using st by (cases x) (auto simp: chold_defs split: option.splits if_splits)
  next
    case False
    then show ?thesis using Cons st by (auto split: option.splits)
  qed
qed simp

section \<open>Budgets\<close>

definition DefaultMaxCallsPerHour :: int where "DefaultMaxCallsPerHour = 100"
definition DefaultMaxCallsPerDay :: int where "DefaultMaxCallsPerDay = 1000"
definition DefaultMaxTokensPerDay :: int where "DefaultMaxTokensPerDay = 500000"

record CBudgetLimits =
  cb_MaxCallsPerHour :: int
  cb_MaxCallsPerDay :: int
  cb_MaxTokensPerDay :: int

record budgetRecord =
  br_hourlyCalls :: "time list"
  br_dailyCalls :: "time list"
  br_dailyTokens :: int
  br_lastResetDay :: int

record BudgetUsage =
  bu_Identity :: string
  bu_HourlyCalls :: nat
  bu_DailyCalls :: nat
  bu_DailyTokens :: int
  bu_MaxCallsPerHour :: int
  bu_MaxCallsPerDay :: int
  bu_MaxTokensPerDay :: int

record BudgetStore =
  bs_identity :: "string \<rightharpoonup> budgetRecord"
  bs_sessions :: "string \<rightharpoonup> budgetRecord"
  bs_limits :: CBudgetLimits

definition NewBudgetStore :: "CBudgetLimits \<Rightarrow> BudgetStore" where
  "NewBudgetStore l =
     \<lparr>bs_identity = Map.empty, bs_sessions = Map.empty,
      bs_limits = \<lparr>cb_MaxCallsPerHour = (if cb_MaxCallsPerHour l \<le> 0 then DefaultMaxCallsPerHour else cb_MaxCallsPerHour l),
        cb_MaxCallsPerDay = (if cb_MaxCallsPerDay l \<le> 0 then DefaultMaxCallsPerDay else cb_MaxCallsPerDay l),
        cb_MaxTokensPerDay = (if cb_MaxTokensPerDay l \<le> 0 then DefaultMaxTokensPerDay else cb_MaxTokensPerDay l)\<rparr>\<rparr>"

definition trimBudgetTimestamps :: "budgetRecord \<Rightarrow> time \<Rightarrow> budgetRecord" where
  "trimBudgetTimestamps rec now =
     rec\<lparr>br_hourlyCalls := live (now - Hour) (br_hourlyCalls rec),
         br_dailyCalls := live (now - 24 * Hour) (br_dailyCalls rec)\<rparr>"

definition BudgetStore_getOrCreate :: "(string \<rightharpoonup> budgetRecord) \<Rightarrow> string \<Rightarrow> clock \<Rightarrow> budgetRecord" where
  "BudgetStore_getOrCreate m key now =
     (case m key of
        None \<Rightarrow> \<lparr>br_hourlyCalls = [], br_dailyCalls = [], br_dailyTokens = 0, br_lastResetDay = YearDay now\<rparr>
      | Some rec \<Rightarrow>
          let rec = trimBudgetTimestamps rec (instant now)
          in if YearDay now \<noteq> br_lastResetDay rec
             then rec\<lparr>br_dailyTokens := 0, br_lastResetDay := YearDay now\<rparr> else rec)"

definition BudgetStore_checkLimits :: "CBudgetLimits \<Rightarrow> budgetRecord \<Rightarrow> time \<Rightarrow> budgetRecord \<times> string option" where
  "BudgetStore_checkLimits l rec now =
     (let rec = trimBudgetTimestamps rec now;
          hourly = int (length (br_hourlyCalls rec)); daily = int (length (br_dailyCalls rec))
      in (rec,
          if cb_MaxCallsPerHour l \<le> hourly
          then Some (''hourly call limit reached ('' @ itoa hourly @ ''/'' @ itoa (cb_MaxCallsPerHour l) @ '')'')
          else if cb_MaxCallsPerDay l \<le> daily
          then Some (''daily call limit reached ('' @ itoa daily @ ''/'' @ itoa (cb_MaxCallsPerDay l) @ '')'')
          else if 0 < cb_MaxTokensPerDay l \<and> cb_MaxTokensPerDay l \<le> br_dailyTokens rec
          then Some (''daily token limit reached ('' @ itoa (br_dailyTokens rec) @ ''/'' @ itoa (cb_MaxTokensPerDay l) @ '')'')
          else None))"

text \<open>The check of one key, if it is named.\<close>

definition storeKey ::
  "CBudgetLimits \<Rightarrow> (string \<rightharpoonup> budgetRecord) \<Rightarrow> string \<Rightarrow> clock \<Rightarrow> (string \<rightharpoonup> budgetRecord) \<times> string option" where
  "storeKey l m key now =
     (if key = [] then (m, None)
      else case BudgetStore_checkLimits l (BudgetStore_getOrCreate m key now) (instant now) of
        (rec, err) \<Rightarrow> (m(key \<mapsto> rec), err))"

definition recordCall :: "(string \<rightharpoonup> budgetRecord) \<Rightarrow> string \<Rightarrow> int \<Rightarrow> time \<Rightarrow> (string \<rightharpoonup> budgetRecord)" where
  "recordCall m key tokens now =
     (if key = [] then m
      else case m key of
        None \<Rightarrow> m
      | Some rec \<Rightarrow> m(key \<mapsto> rec\<lparr>br_hourlyCalls := br_hourlyCalls rec @ [now],
            br_dailyCalls := br_dailyCalls rec @ [now],
            br_dailyTokens := wrap64 (br_dailyTokens rec + tokens)\<rparr>))"

text \<open>The verdict: allowed, the reason, and what remains.\<close>

record budget_verdict =
  bv_Allowed :: bool
  bv_Reason :: string
  bv_RemainCalls :: int
  bv_RemainTokens :: int

definition BudgetStore_Check ::
  "BudgetStore \<Rightarrow> string \<Rightarrow> string \<Rightarrow> int \<Rightarrow> clock \<Rightarrow> BudgetStore \<times> budget_verdict" where
  "BudgetStore_Check s identity sessionID tokens now =
     (let l = bs_limits s; (ident, err) = storeKey l (bs_identity s) identity now; s = s\<lparr>bs_identity := ident\<rparr>
      in case err of
           Some e \<Rightarrow> (s, \<lparr>bv_Allowed = False, bv_Reason = ''identity budget: '' @ e, bv_RemainCalls = 0, bv_RemainTokens = 0\<rparr>)
         | None \<Rightarrow>
             let (sess, err) = storeKey l (bs_sessions s) sessionID now; s = s\<lparr>bs_sessions := sess\<rparr>
             in case err of
                  Some e \<Rightarrow> (s, \<lparr>bv_Allowed = False, bv_Reason = ''session budget: '' @ e, bv_RemainCalls = 0, bv_RemainTokens = 0\<rparr>)
                | None \<Rightarrow>
                    let s = s\<lparr>bs_identity := recordCall (bs_identity s) identity tokens (instant now),
                              bs_sessions := recordCall (bs_sessions s) sessionID tokens (instant now)\<rparr>
                    in (s, case (if identity = [] then None else bs_identity s identity) of
                             None \<Rightarrow> \<lparr>bv_Allowed = True, bv_Reason = [], bv_RemainCalls = cb_MaxCallsPerHour l,
                                bv_RemainTokens = cb_MaxTokensPerDay l\<rparr>
                           | Some rec \<Rightarrow> \<lparr>bv_Allowed = True, bv_Reason = [],
                                bv_RemainCalls = cb_MaxCallsPerHour l - int (length (br_hourlyCalls rec)),
                                bv_RemainTokens = wrap64 (cb_MaxTokensPerDay l - br_dailyTokens rec)\<rparr>))"

text \<open>\<open>ids\<close> is the order in which Go ranges over the identities.\<close>

definition BudgetStore_GetUsage :: "BudgetStore \<Rightarrow> string list \<Rightarrow> time \<Rightarrow> BudgetStore \<times> BudgetUsage list" where
  "BudgetStore_GetUsage s ids now =
     (let m = (\<lambda>k. map_option (\<lambda>rec. trimBudgetTimestamps rec now) (bs_identity s k))
      in (s\<lparr>bs_identity := m\<rparr>,
          List.map_filter (\<lambda>k. map_option (\<lambda>rec. \<lparr>bu_Identity = k, bu_HourlyCalls = length (br_hourlyCalls rec),
              bu_DailyCalls = length (br_dailyCalls rec), bu_DailyTokens = br_dailyTokens rec,
              bu_MaxCallsPerHour = cb_MaxCallsPerHour (bs_limits s), bu_MaxCallsPerDay = cb_MaxCallsPerDay (bs_limits s),
              bu_MaxTokensPerDay = cb_MaxTokensPerDay (bs_limits s)\<rparr>) (m k)) ids))"

definition sweepStore :: "(string \<rightharpoonup> budgetRecord) \<Rightarrow> time \<Rightarrow> (string \<rightharpoonup> budgetRecord)" where
  "sweepStore m cutoff = (\<lambda>k. case m k of
      None \<Rightarrow> None
    | Some rec \<Rightarrow> if br_dailyCalls rec = [] \<or> last (br_dailyCalls rec) < cutoff then None else Some rec)"

definition BudgetStore_Sweep :: "BudgetStore \<Rightarrow> time \<Rightarrow> BudgetStore" where
  "BudgetStore_Sweep s now =
     s\<lparr>bs_identity := sweepStore (bs_identity s) (now - 24 * Hour), bs_sessions := sweepStore (bs_sessions s) (now - 24 * Hour)\<rparr>"

subsection \<open>The store refines the tracker\<close>

definition abs_rec :: "budgetRecord \<Rightarrow> usageRecord" where
  "abs_rec r = \<lparr>hourlyCalls = br_hourlyCalls r, dailyCalls = br_dailyCalls r, dailyTokens = br_dailyTokens r,
     lastResetDay = br_lastResetDay r\<rparr>"

definition abs_limits :: "CBudgetLimits \<Rightarrow> Limits" where
  "abs_limits l = \<lparr>l_MaxCallsPerHour = cb_MaxCallsPerHour l, l_MaxCallsPerDay = cb_MaxCallsPerDay l,
     l_MaxTokensPerDay = cb_MaxTokensPerDay l\<rparr>"

definition abs_table :: "(string \<rightharpoonup> budgetRecord) \<Rightarrow> (string \<rightharpoonup> usageRecord)" where
  "abs_table m = (\<lambda>k. map_option abs_rec (m k))"

definition abs_store :: "BudgetStore \<Rightarrow> Tracker" where
  "abs_store s = \<lparr>t_identity = abs_table (bs_identity s), t_sessions = abs_table (bs_sessions s)\<rparr>"

definition store_ok :: "BudgetStore \<Rightarrow> bool" where
  "store_ok s \<longleftrightarrow> 0 < cb_MaxCallsPerHour (bs_limits s) \<and> 0 < cb_MaxCallsPerDay (bs_limits s) \<and>
     bs_identity s [] = None \<and> bs_sessions s [] = None"

lemma store_ok_New: "store_ok (NewBudgetStore l)"
  by (simp add: store_ok_def NewBudgetStore_def DefaultMaxCallsPerHour_def DefaultMaxCallsPerDay_def)

lemma abs_table_upd [simp]: "abs_table (m(k \<mapsto> r)) = (abs_table m)(k \<mapsto> abs_rec r)"
  by (auto simp: abs_table_def)

lemma abs_trim: "abs_rec (trimBudgetTimestamps r now) = trimTimestamps (abs_rec r) now"
  by (simp add: abs_rec_def trimBudgetTimestamps_def trimTimestamps_def Let_def)

lemma abs_rec_sel [simp]: "hourlyCalls (abs_rec r) = br_hourlyCalls r" "dailyCalls (abs_rec r) = br_dailyCalls r"
  "dailyTokens (abs_rec r) = br_dailyTokens r" "lastResetDay (abs_rec r) = br_lastResetDay r"
  by (simp_all add: abs_rec_def)

lemma abs_getOrCreate:
  "getOrCreate (abs_table m) k now = ((abs_table m)(k \<mapsto> abs_rec (BudgetStore_getOrCreate m k now)),
     abs_rec (BudgetStore_getOrCreate m k now))"
proof (cases "m k")
  case None
  then show ?thesis
    by (simp add: getOrCreate_def BudgetStore_getOrCreate_def abs_table_def abs_rec_def Let_def)
next
  case (Some r)
  have "abs_rec (BudgetStore_getOrCreate m k now) =
      (let rec = trimTimestamps (abs_rec r) (instant now)
       in if YearDay now \<noteq> lastResetDay rec then rec\<lparr>dailyTokens := 0, lastResetDay := YearDay now\<rparr> else rec)"
    using Some by (simp add: BudgetStore_getOrCreate_def abs_trim [symmetric] Let_def)
  then show ?thesis
    using Some by (simp add: getOrCreate_def abs_table_def Let_def)
qed

lemma abs_checkLimits:
  assumes "0 < cb_MaxCallsPerHour l" and "0 < cb_MaxCallsPerDay l"
  shows "checkLimits (abs_rec r) (abs_limits l) now =
    (abs_rec (fst (BudgetStore_checkLimits l r now)), snd (BudgetStore_checkLimits l r now))"
  using assms
  by (simp add: checkLimits_def BudgetStore_checkLimits_def abs_trim [symmetric] Let_def abs_limits_def limit_msg_def)

lemma abs_storeKey:
  assumes "0 < cb_MaxCallsPerHour l" and "0 < cb_MaxCallsPerDay l"
  shows "checkKey (abs_table m) k (Some (abs_limits l)) now =
    (abs_table (fst (storeKey l m k now)), snd (storeKey l m k now))"
  by (auto simp: checkKey_def storeKey_def abs_getOrCreate abs_checkLimits [OF assms] split: prod.split)

lemma abs_recordCall:
  assumes "m [] = None"
  shows "abs_table (recordCall m k tokens now) = addTokens (appendCall (abs_table m) k (Some l) now) k tokens"
proof (cases "k = [] \<or> m k = None")
  case True
  then show ?thesis
    using assms by (auto simp: recordCall_def addTokens_def appendCall_def abs_table_def split: option.split)
next
  case False
  then show ?thesis
    by (auto simp: recordCall_def addTokens_def appendCall_def abs_table_def abs_rec_def)
qed

lemma storeKey_Nil: "m [] = None \<Longrightarrow> fst (storeKey l m k now) [] = None"
  by (auto simp: storeKey_def split: prod.split)

lemma recordCall_Nil: "m [] = None \<Longrightarrow> recordCall m k tokens now [] = None"
  by (auto simp: recordCall_def split: option.split)

lemma store_ok_Check:
  assumes "store_ok s"
  shows "store_ok (fst (BudgetStore_Check s i se tokens now)) \<and>
    bs_limits (fst (BudgetStore_Check s i se tokens now)) = bs_limits s"
  using assms storeKey_Nil [of "bs_identity s" "bs_limits s" i now] storeKey_Nil [of "bs_sessions s" "bs_limits s" se now]
  by (auto simp: BudgetStore_Check_def Let_def store_ok_def recordCall_Nil split: prod.splits option.splits)

lemma Check_simulates:
  assumes "store_ok s" and "L = Some (abs_limits (bs_limits s))"
    and "BudgetStore_Check s i se tokens now = (s', v)"
    and "CheckAndRecord (abs_store s) i se L L now = (t', e)"
  shows "(bv_Allowed v \<longleftrightarrow> e = None) \<and> bv_Reason v = (case e of None \<Rightarrow> [] | Some r \<Rightarrow> r) \<and>
    abs_store s' = (if e = None then RecordTokens t' i se tokens else t')"
proof -
  note ok = assms(1) [unfolded store_ok_def]
  obtain m1 e1 where k1: "storeKey (bs_limits s) (bs_identity s) i now = (m1, e1)" by fastforce
  obtain m2 e2 where k2: "storeKey (bs_limits s) (bs_sessions s) se now = (m2, e2)" by fastforce
  have a1: "checkKey (abs_table (bs_identity s)) i L now = (abs_table m1, e1)"
    using abs_storeKey [of "bs_limits s" "bs_identity s" i now] ok k1 assms(2) by simp
  have a2: "checkKey (abs_table (bs_sessions s)) se L now = (abs_table m2, e2)"
    using abs_storeKey [of "bs_limits s" "bs_sessions s" se now] ok k2 assms(2) by simp
  have nil: "m1 [] = None" "m2 [] = None"
    using storeKey_Nil [of "bs_identity s" "bs_limits s" i now] storeKey_Nil [of "bs_sessions s" "bs_limits s" se now] ok k1 k2
    by auto
  show ?thesis
    using assms(3,4) k1 k2 a1 a2
    by (cases e1; cases e2)
      (auto simp: BudgetStore_Check_def CheckAndRecord_def abs_store_def RecordTokens_def Let_def assms(2)
        abs_recordCall [where m = m1 and l = "abs_limits (bs_limits s)", OF nil(1)]
        abs_recordCall [where m = m2 and l = "abs_limits (bs_limits s)", OF nil(2)] split: option.splits)
qed

text \<open>The operations of the store as steps of a run; a check says whether it allowed the call.\<close>

datatype store_op =
    SCheck string string int int
  | SUsage "string list"
  | SSweep

fun store_exec :: "BudgetStore \<Rightarrow> store_op \<Rightarrow> time \<Rightarrow> BudgetStore \<times> bool" where
  "store_exec s (SCheck i se tokens day) now =
     (case BudgetStore_Check s i se tokens \<lparr>instant = now, YearDay = day\<rparr> of (s', v) \<Rightarrow> (s', bv_Allowed v))"
| "store_exec s (SUsage ids) now = (fst (BudgetStore_GetUsage s ids now), False)"
| "store_exec s SSweep now = (BudgetStore_Sweep s now, False)"

fun store_counts :: "side \<Rightarrow> string \<Rightarrow> store_op \<Rightarrow> bool" where
  "store_counts sd k (SCheck i se tokens day) = (k \<noteq> [] \<and> keyOf sd i se = k)"
| "store_counts sd k _ = False"

definition store_cap :: "span \<Rightarrow> CBudgetLimits \<Rightarrow> nat" where
  "store_cap sp l = nat (spanMax sp (abs_limits l))"

definition store_good :: "CBudgetLimits \<Rightarrow> time \<Rightarrow> BudgetStore \<Rightarrow> bool" where
  "store_good l t s \<longleftrightarrow> store_ok s \<and> bs_limits s = l \<and> tracker_ok t (abs_store s)"

lemma abs_Sweep: "abs_store (BudgetStore_Sweep s now) = Tracker_Sweep (abs_store s) now"
  by (auto simp: abs_store_def BudgetStore_Sweep_def Tracker_Sweep_def sweepStore_def sweepTable_def abs_table_def
      Let_def fun_eq_iff split: option.split)

lemma store_step_Check:
  assumes "store_good l now s" and "store_exec s (SCheck i se tokens day) now = (s', b)"
  shows "\<exists>t'. budget_exec (abs_store s) (BCharge i se (Some (abs_limits l)) (Some (abs_limits l)) day) now = (t', b) \<and>
    abs_store s' = (if b then fst (budget_exec t' (BTokens i se tokens) now) else t') \<and> store_ok s' \<and> bs_limits s' = l"
proof -
  let ?now = "\<lparr>instant = now, YearDay = day\<rparr>" and ?L = "Some (abs_limits l)"
  obtain v where v: "BudgetStore_Check s i se tokens ?now = (s', v)" "b = bv_Allowed v"
    using assms(2) by (auto split: prod.splits)
  obtain t' e where e: "CheckAndRecord (abs_store s) i se ?L ?L ?now = (t', e)" by fastforce
  show ?thesis
    using Check_simulates [OF _ _ v(1) e] store_ok_Check [of s i se tokens ?now] assms(1) v e
    by (auto simp: store_good_def)
qed

lemma store_good_exec:
  assumes "store_good l now s" and "store_exec s x now = (s', b)"
  shows "store_good l now s'"
proof (cases x)
  case (SCheck i se tokens day)
  obtain t' where t: "budget_exec (abs_store s) (BCharge i se (Some (abs_limits l)) (Some (abs_limits l)) day) now = (t', b)"
      "abs_store s' = (if b then fst (budget_exec t' (BTokens i se tokens) now) else t')" "store_ok s'" "bs_limits s' = l"
    using store_step_Check [OF assms(1), of i se tokens day s' b] assms(2) SCheck by blast
  have ok: "tracker_ok now t'"
    using budget_exec_ok [OF t(1)] assms(1) by (simp add: store_good_def)
  then have "tracker_ok now (fst (budget_exec t' (BTokens i se tokens) now))"
    by (rule budget_exec_ok [OF surjective_pairing])
  then show ?thesis
    using t(2-4) ok by (simp add: store_good_def)
next
  case (SUsage ids)
  then have s': "s' = fst (BudgetStore_GetUsage s ids now)"
    using assms(2) by simp
  have "table_ok now (abs_table (bs_identity s'))"
    using assms(1) unfolding s'
    by (auto simp: store_good_def tracker_ok_def table_ok_def abs_store_def abs_table_def BudgetStore_GetUsage_def
        Let_def abs_trim intro!: rec_ok_trim) blast
  then show ?thesis
    using assms(1) unfolding s'
    by (auto simp: store_good_def tracker_ok_def abs_store_def BudgetStore_GetUsage_def Let_def store_ok_def)
next
  case SSweep
  then show ?thesis
    using assms budget_exec_ok [of "abs_store s" BSweep now _ False]
    by (auto simp: store_good_def abs_Sweep store_ok_def) (simp_all add: BudgetStore_Sweep_def sweepStore_def)
qed

lemma store_exec_calls:
  assumes "store_good l now s" and "store_exec s x now = (s', b)"
  shows "live (now - width sp) (recorded_at sp sd k (abs_store s')) =
    live (now - width sp) (recorded_at sp sd k (abs_store s)) @ (if b \<and> store_counts sd k x then [now] else [])"
proof (cases x)
  case (SCheck i se tokens day)
  let ?L = "Some (abs_limits l)"
  have c: "budget_counts sd k (BCharge i se ?L ?L day) = store_counts sd k x"
    using SCheck by (cases sd) (auto simp: charges_key_def)
  obtain t' where t: "budget_exec (abs_store s) (BCharge i se ?L ?L day) now = (t', b)"
      "abs_store s' = (if b then fst (budget_exec t' (BTokens i se tokens) now) else t')"
    using store_step_Check [OF assms(1), of i se tokens day s' b] assms(2) SCheck by blast
  have ok: "tracker_ok now (abs_store s)"
    using assms(1) by (simp add: store_good_def)
  have "live (now - width sp) (recorded_at sp sd k (abs_store s')) = live (now - width sp) (recorded_at sp sd k t')"
    using t(2) budget_exec_other_calls [OF surjective_pairing budget_exec_ok [OF t(1) ok], of sd k "BTokens i se tokens" sp]
    by simp
  then show ?thesis
    using budget_exec_counted [OF t(1), of sd k sp] budget_exec_other_calls [OF t(1) ok, of sd k sp] c
    by (cases "store_counts sd k x") auto
next
  case (SUsage ids)
  then show ?thesis
    using assms(2)
    by (cases sd) (auto simp: BudgetStore_GetUsage_def Let_def recorded_at_def calls_at_def abs_store_def abs_table_def
        abs_trim spanCalls_trim split: option.split)
next
  case SSweep
  then show ?thesis
    using assms budget_exec_other_calls [of "abs_store s" BSweep now _ False sd k sp]
    by (auto simp: store_good_def abs_Sweep)
qed

lemma store_exec_room:
  assumes "store_good l now s" and "store_exec s x now = (s', True)" and "store_counts sd k x"
  shows "length (live (now - width sp) (recorded_at sp sd k (abs_store s))) < store_cap sp l"
proof -
  let ?L = "Some (abs_limits l)"
  obtain i se tokens day where x: "x = SCheck i se tokens day" and k: "k \<noteq> []" "keyOf sd i se = k"
    using assms(3) by (cases x) auto
  obtain t' where t: "budget_exec (abs_store s) (BCharge i se ?L ?L day) now = (t', True)"
    using store_step_Check [OF assms(1), of i se tokens day s' True] assms(2) x by blast
  have "0 < spanMax sp (abs_limits l)"
    using assms(1) by (cases sp) (auto simp: store_good_def store_ok_def abs_limits_def)
  then have "budget_capped sp sd k (store_cap sp l) (BCharge i se ?L ?L day)"
    by (cases sd) (auto simp: store_cap_def)
  moreover have "budget_counts sd k (BCharge i se ?L ?L day)"
    using k by (cases sd) (auto simp: charges_key_def)
  ultimately show ?thesis
    using budget_exec_room [OF t] by blast
qed

interpretation cbudget: sliding_limiter "width sp" "store_cap sp l" "\<lambda>s. recorded_at sp sd k (abs_store s)"
    store_exec "store_counts sd k" "\<lambda>_. True" "store_good l"
  for sp l sd k
proof unfold_locales
  show "store_good l t s \<Longrightarrow> t \<le> t' \<Longrightarrow> store_good l t' s" for t s t'
    by (auto simp: store_good_def intro: tracker_ok_later)
qed (auto intro: width_pos store_good_exec store_exec_room simp: store_exec_calls)

text \<open>
  In any time-ordered run of checks, usage queries and sweeps of a new store, no hour (day) holds
  more allowed calls of one key than the limit the store was built with.
\<close>

lemma cbudget_bound:
  assumes "sorted (map snd cs)"
  shows "in_window (width sp) t (admitted_by store_exec (store_counts sd k) (NewBudgetStore l) cs)
     \<le> store_cap sp (bs_limits (NewBudgetStore l))"
proof -
  define t0 where "t0 = (case cs of [] \<Rightarrow> 0 | c # _ \<Rightarrow> snd c)"
  have "cbudget.good_run sp sd k (bs_limits (NewBudgetStore l)) t0 (NewBudgetStore l) cs"
    using assms store_ok_New [of l] unfolding cbudget.good_run_def t0_def store_good_def
    by (cases cs; cases sd) (auto simp: NewBudgetStore_def recorded_at_def calls_at_def tracker_ok_def
        table_ok_def abs_store_def abs_table_def)
  then show ?thesis by (rule cbudget.window_bound)
qed

section \<open>Properties\<close>

text \<open>
  C27. The controller's budget store refines the tracker of the sidecar: from a store built by
  \<open>NewBudgetStore\<close>, a check allows a call iff the tracker charges it under the store's limits
  for both keys, refuses it with the tracker's reason, and leaves the state that the tracker
  reaches, with the tokens of an allowed call recorded.\<close>

theorem BudgetStore_refines_Tracker:
  assumes "store_ok s" and "L = Some (abs_limits (bs_limits s))"
    and "BudgetStore_Check s i se tokens now = (s', v)"
    and "CheckAndRecord (abs_store s) i se L L now = (t', e)"
  shows "(bv_Allowed v \<longleftrightarrow> e = None) \<and> bv_Reason v = (case e of None \<Rightarrow> [] | Some r \<Rightarrow> r) \<and>
    abs_store s' = (if e = None then RecordTokens t' i se tokens else t') \<and> store_ok s' \<and> store_ok (NewBudgetStore l)"
  using Check_simulates [OF assms] store_ok_Check [OF assms(1), of i se tokens now] assms(3)
  by (simp add: store_ok_New)

lemma BudgetStore_refines_Tracker_witness:
  "\<exists>l. bv_Allowed (snd (BudgetStore_Check (NewBudgetStore l) ''u'' ''s'' 5 \<lparr>instant = 7, YearDay = 1\<rparr>)) =
     (snd (CheckAndRecord (abs_store (NewBudgetStore l)) ''u'' ''s'' (Some (abs_limits (bs_limits (NewBudgetStore l))))
        (Some (abs_limits (bs_limits (NewBudgetStore l)))) \<lparr>instant = 7, YearDay = 1\<rparr>) = None)"
  using BudgetStore_refines_Tracker [OF store_ok_New refl surjective_pairing surjective_pairing] by blast

end
