(* ===== verification/ControllerEvents.thy ===== *)
theory ControllerEvents
  imports Types
begin

text \<open>
  Package \<open>controller\<close>, the observing half: the ring buffer of audit events (\<open>events.go\<close>), the
  register of sidecars (\<open>registry.go\<close>) and the webhook alerter (\<open>alerter.go\<close>).
\<close>

section \<open>The ring buffer of events\<close>

text \<open>A zero timestamp is \<open>None\<close>.\<close>

record AuditEvent =
  ae_EventType :: string
  ae_Method :: string
  ae_Tool :: string
  ae_Identity :: string
  ae_SessionID :: string
  ae_Gate :: string
  ae_ReasonClass :: string
  ae_RuleIndex :: "int option"
  ae_RuleID :: string
  ae_PolicyRef :: string
  ae_RegistryRef :: string
  ae_Route :: string
  ae_Labels :: labels
  ae_Reason :: string
  ae_Target :: string
  ae_Timestamp :: "time option"

definition emptyAuditEvent :: AuditEvent where
  "emptyAuditEvent = \<lparr>ae_EventType = [], ae_Method = [], ae_Tool = [], ae_Identity = [],
     ae_SessionID = [], ae_Gate = [], ae_ReasonClass = [], ae_RuleIndex = None, ae_RuleID = [],
     ae_PolicyRef = [], ae_RegistryRef = [], ae_Route = [], ae_Labels = [], ae_Reason = [],
     ae_Target = [], ae_Timestamp = None\<rparr>"

record EventBuffer =
  eb_buf :: "AuditEvent list"
  eb_size :: nat
  eb_pos :: nat
  eb_count :: nat

definition DefaultEventBufferSize :: nat where "DefaultEventBufferSize = 1000"

definition NewEventBuffer :: "int \<Rightarrow> EventBuffer" where
  "NewEventBuffer sz =
     (let n = (if sz \<le> 0 then DefaultEventBufferSize else nat sz)
      in \<lparr>eb_buf = replicate n emptyAuditEvent, eb_size = n, eb_pos = 0, eb_count = 0\<rparr>)"

definition stamped :: "AuditEvent \<Rightarrow> time \<Rightarrow> AuditEvent" where
  "stamped e now = (case ae_Timestamp e of None \<Rightarrow> e\<lparr>ae_Timestamp := Some now\<rparr> | Some t \<Rightarrow> e)"

definition EventBuffer_Add :: "EventBuffer \<Rightarrow> AuditEvent \<Rightarrow> time \<Rightarrow> EventBuffer" where
  "EventBuffer_Add b e now =
     b\<lparr>eb_buf := (eb_buf b)[eb_pos b := stamped e now],
       eb_pos := Suc (eb_pos b) mod eb_size b,
       eb_count := (if eb_count b < eb_size b then Suc (eb_count b) else eb_count b)\<rparr>"

text \<open>The loop of \<open>List\<close>, from the newest entry back.\<close>

definition backIndex :: "EventBuffer \<Rightarrow> nat \<Rightarrow> nat" where
  "backIndex b i = nat ((int (eb_pos b) - 1 - int i + int (eb_size b)) mod int (eb_size b))"

function listFrom :: "EventBuffer \<Rightarrow> string \<Rightarrow> nat \<Rightarrow> nat \<Rightarrow> AuditEvent list \<Rightarrow> AuditEvent list" where
  "listFrom b eventType limit i out =
     (if i < eb_count b \<and> length out < limit
      then let e = eb_buf b ! backIndex b i
           in if eventType \<noteq> [] \<and> ae_EventType e \<noteq> eventType
              then listFrom b eventType limit (Suc i) out
              else listFrom b eventType limit (Suc i) (out @ [e])
      else out)"
  by pat_completeness auto

termination listFrom
  by (relation "measure (\<lambda>(b, eventType, limit, i, out). eb_count b - i)") auto

declare listFrom.simps [simp del]

definition EventBuffer_List :: "EventBuffer \<Rightarrow> string \<Rightarrow> int \<Rightarrow> AuditEvent list" where
  "EventBuffer_List b eventType limit =
     (let limit = (if limit \<le> 0 \<or> int (eb_count b) < limit then eb_count b else nat limit)
      in listFrom b eventType limit 0 [])"

definition EventBuffer_Count :: "EventBuffer \<Rightarrow> nat" where
  "EventBuffer_Count b = eb_count b"

section \<open>Sidecars\<close>

definition DefaultSidecarTTL :: duration where "DefaultSidecarTTL = 5 * Minute"

record SidecarInfo =
  si_TargetName :: string
  si_TargetNamespace :: string
  si_PodName :: string
  si_Version :: string
  si_ToolCount :: int
  si_RuleCount :: int
  si_RegisteredAt :: time
  si_LastHeartbeat :: time

text \<open>The table as its entries, one per pod name.\<close>

record SidecarRegistry =
  sr_sidecars :: "(string \<times> SidecarInfo) list"
  sr_ttl :: duration

definition NewSidecarRegistry :: SidecarRegistry where
  "NewSidecarRegistry = \<lparr>sr_sidecars = [], sr_ttl = DefaultSidecarTTL\<rparr>"

definition SidecarRegistry_Register :: "SidecarRegistry \<Rightarrow> SidecarInfo \<Rightarrow> time \<Rightarrow> SidecarRegistry" where
  "SidecarRegistry_Register r info now =
     r\<lparr>sr_sidecars := AList.update (si_PodName info) (info\<lparr>si_RegisteredAt := now, si_LastHeartbeat := now\<rparr>)
       (sr_sidecars r)\<rparr>"

definition SidecarRegistry_Heartbeat :: "SidecarRegistry \<Rightarrow> string \<Rightarrow> time \<Rightarrow> SidecarRegistry \<times> bool" where
  "SidecarRegistry_Heartbeat r podName now =
     (case map_of (sr_sidecars r) podName of
        None \<Rightarrow> (r, False)
      | Some s \<Rightarrow> (r\<lparr>sr_sidecars := AList.update podName (s\<lparr>si_LastHeartbeat := now\<rparr>) (sr_sidecars r)\<rparr>, True))"

definition SidecarRegistry_List :: "SidecarRegistry \<Rightarrow> SidecarInfo list" where
  "SidecarRegistry_List r = map snd (sr_sidecars r)"

definition SidecarRegistry_Sweep :: "SidecarRegistry \<Rightarrow> time \<Rightarrow> SidecarRegistry \<times> nat" where
  "SidecarRegistry_Sweep r now =
     (let cutoff = now - sr_ttl r;
          keep = filter (\<lambda>(pod, s). \<not> si_LastHeartbeat s < cutoff) (sr_sidecars r)
      in (r\<lparr>sr_sidecars := keep\<rparr>, length (sr_sidecars r) - length keep))"

section \<open>Alerts\<close>

definition DefaultDedupeWindow :: duration where "DefaultDedupeWindow = 60 * Second"
definition DefaultMaxAlertsPerMin :: int where "DefaultMaxAlertsPerMin = 10"

record Alerter =
  al_webhookURL :: string
  al_dedupeWindow :: duration
  al_maxPerMin :: int
  al_seen :: "string \<rightharpoonup> time"
  al_recentAlerts :: "time list"

definition NewAlerter :: "string \<Rightarrow> Alerter" where
  "NewAlerter webhookURL = \<lparr>al_webhookURL = webhookURL, al_dedupeWindow = DefaultDedupeWindow,
     al_maxPerMin = DefaultMaxAlertsPerMin, al_seen = Map.empty, al_recentAlerts = []\<rparr>"

definition Alerter_SetWebhook :: "Alerter \<Rightarrow> string \<Rightarrow> Alerter" where
  "Alerter_SetWebhook a url = a\<lparr>al_webhookURL := url\<rparr>"

definition dedupeKey :: "AuditEvent \<Rightarrow> string" where
  "dedupeKey e = ae_EventType e @ ''|'' @ ae_Tool e @ ''|'' @ ae_Identity e"

text \<open>
  The state and the event posted, with the URL; \<open>marshal\<close> is the JSON encoder. The post itself
  runs in the background, and its outcome is only logged.
\<close>

definition Alerter_Alert ::
  "(AuditEvent \<Rightarrow> string + string) \<Rightarrow> Alerter \<Rightarrow> AuditEvent \<Rightarrow> time \<Rightarrow> Alerter \<times> (string \<times> string) option" where
  "Alerter_Alert marshal a e now =
     (if al_webhookURL a = [] then (a, None)
      else if (case al_seen a (dedupeKey e) of None \<Rightarrow> False | Some t \<Rightarrow> now - t < al_dedupeWindow a) then (a, None)
      else
        let a = a\<lparr>al_recentAlerts := live (now - Minute) (al_recentAlerts a)\<rparr>
        in if al_maxPerMin a \<le> int (length (al_recentAlerts a)) then (a, None)
           else (case marshal e of
                   Inl err \<Rightarrow> (a, None)
                 | Inr body \<Rightarrow> (a\<lparr>al_seen := (al_seen a)(dedupeKey e \<mapsto> now),
                      al_recentAlerts := al_recentAlerts a @ [now]\<rparr>, Some (al_webhookURL a, body))))"

section \<open>The buffer refines a bounded log\<close>

text \<open>
  A log that remembers the last \<open>cap\<close> entries: what its clients see is a list, newest first.
\<close>

locale bounded_log =
  fixes add :: "'s \<Rightarrow> 'i \<Rightarrow> 's"
    and entry :: "'i \<Rightarrow> 'e"
    and recent :: "'s \<Rightarrow> 'e list"
    and ok :: "'s \<Rightarrow> bool"
    and cap :: nat
  assumes add_recent: "ok s \<Longrightarrow> recent (add s x) = take cap (entry x # recent s)"
    and add_ok: "ok s \<Longrightarrow> ok (add s x)"
begin

lemma adds_ok: "ok s \<Longrightarrow> ok (foldl add s xs)"
  by (induction xs arbitrary: s) (simp_all add: add_ok)

lemma take_take_Cons: "take cap (x # take cap xs) = take cap (x # xs)"
  by (cases cap) simp_all

text \<open>After any number of additions: the newest entries of everything ever added.\<close>

lemma adds_recent:
  assumes "ok s" and "recent s = []"
  shows "recent (foldl add s xs) = take cap (rev (map entry xs))"
  by (induction xs rule: rev_induct)
    (simp_all add: assms add_recent [OF adds_ok [OF assms(1)]] take_take_Cons)

end

definition ring_ok :: "nat \<Rightarrow> EventBuffer \<Rightarrow> bool" where
  "ring_ok n b \<longleftrightarrow> 0 < n \<and> eb_size b = n \<and> length (eb_buf b) = n \<and> eb_pos b < n \<and> eb_count b \<le> n"

text \<open>The entries of the ring, newest first.\<close>

definition ring_recent :: "EventBuffer \<Rightarrow> AuditEvent list" where
  "ring_recent b = map (\<lambda>i. eb_buf b ! ((eb_pos b + eb_size b - Suc i) mod eb_size b)) [0..<eb_count b]"

lemma length_ring_recent [simp]: "length (ring_recent b) = eb_count b"
  by (simp add: ring_recent_def)

lemma ring_ok_New: "ring_ok (eb_size (NewEventBuffer n)) (NewEventBuffer n)"
  by (auto simp: ring_ok_def NewEventBuffer_def Let_def DefaultEventBufferSize_def)

lemma ring_recent_New [simp]: "ring_recent (NewEventBuffer n) = []"
  by (simp add: ring_recent_def NewEventBuffer_def Let_def)

text \<open>The newest entry is before the position; one step further back is one step back before.\<close>

lemma ring_step:
  assumes "pos < n"
  shows "(Suc pos mod n + n - Suc 0) mod n = pos"
    and "Suc i < n \<Longrightarrow> (Suc pos mod n + n - Suc (Suc i)) mod n = (pos + n - Suc i) mod n"
proof -
  show "(Suc pos mod n + n - Suc 0) mod n = pos"
    using assms by (cases "Suc pos = n") auto
  show "(Suc pos mod n + n - Suc (Suc i)) mod n = (pos + n - Suc i) mod n" if "Suc i < n"
  proof (cases "Suc pos = n")
    case True
    have "pos + n - Suc i = n - Suc (Suc i) + n"
      using True that by arith
    then have "(pos + n - Suc i) mod n = n - Suc (Suc i)"
      using that by (metis add_diff_cancel_right' mod_add_self2 mod_less diff_less zero_less_Suc less_trans_Suc zero_less_iff_neq_zero less_nat_zero_code)
    then show ?thesis
      using True that by simp
  qed (use assms in simp)
qed

lemma ring_back_neq: "pos < n \<Longrightarrow> Suc i < n \<Longrightarrow> (pos + n - Suc i) mod n \<noteq> pos"
proof (cases "Suc i \<le> pos")
  case True
  assume a: "pos < n" "Suc i < n"
  have "(pos + n - Suc i) mod n = (pos - Suc i + n) mod n"
    using True by simp
  also have "\<dots> = pos - Suc i"
    using a by simp
  finally show ?thesis
    using True by simp
next
  case False
  assume "pos < n" "Suc i < n"
  with False show ?thesis
    by simp
qed

lemma ring_Add:
  assumes "ring_ok n b"
  shows "ring_recent (EventBuffer_Add b e now) = take n (stamped e now # ring_recent b)"
proof (rule nth_equalityI)
  note ok = assms [unfolded ring_ok_def]
  show "length (ring_recent (EventBuffer_Add b e now)) = length (take n (stamped e now # ring_recent b))"
    using ok by (auto simp: EventBuffer_Add_def)
  fix i
  assume "i < length (ring_recent (EventBuffer_Add b e now))"
  then have i: "i < eb_count (EventBuffer_Add b e now)" "i < n"
    using ok by (auto simp: EventBuffer_Add_def split: if_splits)
  show "ring_recent (EventBuffer_Add b e now) ! i = take n (stamped e now # ring_recent b) ! i"
  proof (cases i)
    case 0
    then show ?thesis
      using i ok ring_step(1) [of "eb_pos b" n] by (simp add: ring_recent_def EventBuffer_Add_def)
  next
    case (Suc j)
    then have "j < eb_count b"
      using i ok by (auto simp: EventBuffer_Add_def split: if_splits)
    then show ?thesis
      using Suc i ok ring_step(2) [of "eb_pos b" n j] ring_back_neq [of "eb_pos b" n j]
      by (simp add: ring_recent_def EventBuffer_Add_def)
  qed
qed

lemma ring_ok_Add: "ring_ok n b \<Longrightarrow> ring_ok n (EventBuffer_Add b e now)"
  by (auto simp: ring_ok_def EventBuffer_Add_def)

interpretation ring: bounded_log "\<lambda>b (e, now). EventBuffer_Add b e now" "\<lambda>(e, now). stamped e now"
    ring_recent "ring_ok n" n for n
  by unfold_locales (auto simp: ring_Add ring_ok_Add)

text \<open>The loop reads the entries newest first, skips those of another type and stops at the limit.\<close>

definition of_type :: "string \<Rightarrow> AuditEvent \<Rightarrow> bool" where
  "of_type ty e \<longleftrightarrow> ty = [] \<or> ae_EventType e = ty"

lemma ring_index:
  assumes "ring_ok n b" and "i < eb_count b"
  shows "eb_buf b ! backIndex b i = ring_recent b ! i"
proof -
  have eq: "int (eb_pos b) - 1 - int i + int (eb_size b) = int (eb_pos b + eb_size b - Suc i)"
    using assms by (auto simp: ring_ok_def)
  have "backIndex b i = (eb_pos b + eb_size b - Suc i) mod eb_size b"
    unfolding backIndex_def eq zmod_int [symmetric] nat_int ..
  then show ?thesis
    using assms(2) by (simp add: ring_recent_def)
qed

lemma listFrom_entries:
  assumes "ring_ok n b"
  shows "listFrom b ty limit i out = out @ take (limit - length out) (filter (of_type ty) (drop i (ring_recent b)))"
  using assms
proof (induction b ty limit i out rule: listFrom.induct)
  case (1 b ty limit i out)
  show ?case
  proof (cases "i < eb_count b \<and> length out < limit")
    case False
    then show ?thesis
      by (subst listFrom.simps) auto
  next
    case True
    let ?e = "ring_recent b ! i"
    have d: "drop i (ring_recent b) = ?e # drop (Suc i) (ring_recent b)"
      using True by (simp add: Cons_nth_drop_Suc)
    obtain k where k: "limit - length out = Suc k"
      using True by (cases "limit - length out") auto
    show ?thesis
    proof (cases "ty \<noteq> [] \<and> ae_EventType ?e \<noteq> ty")
      case skip: True
      then have "listFrom b ty limit i out = listFrom b ty limit (Suc i) out"
        using True 1(3) by (subst listFrom.simps) (simp add: ring_index)
      then show ?thesis
        using 1(1) [OF True refl] skip 1(3) True d by (simp add: ring_index of_type_def)
    next
      case False
      then have "listFrom b ty limit i out = listFrom b ty limit (Suc i) (out @ [?e])"
        using True 1(3) by (subst listFrom.simps) (auto simp add: ring_index Let_def)
      moreover have "limit - Suc (length out) = k"
        using k by simp
      ultimately show ?thesis
        using 1(2) [OF True refl] False 1(3) True d k by (auto simp add: ring_index of_type_def)
    qed
  qed
qed

section \<open>Properties\<close>

text \<open>
  The ring buffer is a bounded log: after any sequence of additions to a new buffer, listing
  it gives the newest of the last \<open>size\<close> events added, newest first, those of the wanted type
  only and at most as many as asked for (all of them for a limit that is not positive), each
  with the time of its addition if it had none.\<close>

theorem event_buffer_refines_log:
  assumes "b = foldl (\<lambda>b (e, now). EventBuffer_Add b e now) (NewEventBuffer sz) adds"
  shows "EventBuffer_List b ty limit =
    (let kept = take (eb_size (NewEventBuffer sz)) (rev (map (\<lambda>(e, now). stamped e now) adds))
     in take (if limit \<le> 0 \<or> int (length kept) < limit then length kept else nat limit) (filter (of_type ty) kept))"
proof -
  let ?n = "eb_size (NewEventBuffer sz)"
  have ok: "ring_ok ?n b"
    unfolding assms by (rule ring.adds_ok [OF ring_ok_New])
  have kept: "ring_recent b = take ?n (rev (map (\<lambda>(e, now). stamped e now) adds))"
    unfolding assms by (rule ring.adds_recent [OF ring_ok_New]) simp
  have "eb_count b = length (ring_recent b)"
    by simp
  then show ?thesis
    unfolding EventBuffer_List_def Let_def listFrom_entries [OF ok] kept [symmetric] by simp
qed

lemma event_buffer_refines_log_witness:
  "map ae_Tool (EventBuffer_List (foldl (\<lambda>b (e, now). EventBuffer_Add b e now) (NewEventBuffer 1)
        [(emptyAuditEvent\<lparr>ae_Tool := ''a''\<rparr>, 1), (emptyAuditEvent\<lparr>ae_Tool := ''b''\<rparr>, 2)]) [] 5) = [''b'']"
  unfolding event_buffer_refines_log [OF refl]
  by (simp add: NewEventBuffer_def Let_def of_type_def stamped_def split: option.split)

section \<open>The alerter is a limiter\<close>

definition alert_exec ::
  "(AuditEvent \<Rightarrow> string + string) \<Rightarrow> Alerter \<Rightarrow> AuditEvent \<Rightarrow> time \<Rightarrow> Alerter \<times> bool" where
  "alert_exec marshal a e now = (case Alerter_Alert marshal a e now of (a', sent) \<Rightarrow> (a', sent \<noteq> None))"

definition alerter_ok :: "nat \<Rightarrow> Alerter \<Rightarrow> bool" where
  "alerter_ok cap a \<longleftrightarrow> al_maxPerMin a = int cap"

lemma alert_exec_cases:
  assumes "alert_exec marshal a e now = (a', b)"
  shows "al_maxPerMin a' = al_maxPerMin a \<and> al_dedupeWindow a' = al_dedupeWindow a \<and>
    (if b then int (length (live (now - Minute) (al_recentAlerts a))) < al_maxPerMin a \<and>
        al_recentAlerts a' = live (now - Minute) (al_recentAlerts a) @ [now] \<and>
        al_seen a' = (al_seen a)(dedupeKey e \<mapsto> now) \<and>
        (\<forall>t. al_seen a (dedupeKey e) = Some t \<longrightarrow> al_dedupeWindow a \<le> now - t)
     else (al_recentAlerts a' = al_recentAlerts a \<or> al_recentAlerts a' = live (now - Minute) (al_recentAlerts a)) \<and>
        al_seen a' = al_seen a)"
  using assms
  by (auto simp: alert_exec_def Alerter_Alert_def Let_def split: if_splits option.splits sum.splits prod.splits)

interpretation alerts: sliding_limiter Minute cap al_recentAlerts "alert_exec marshal" "\<lambda>_. True" "\<lambda>_. True"
    "\<lambda>t. alerter_ok cap" for cap marshal
proof unfold_locales
  show "0 < Minute"
    by (simp add: duration_defs)
  fix now s i s' b
  assume s: "alerter_ok cap s"
  show "alert_exec marshal s i now = (s', b) \<Longrightarrow> alerter_ok cap s'"
    using s alert_exec_cases [of marshal s i now s' b] by (simp add: alerter_ok_def)
  assume t: "alert_exec marshal s i now = (s', True)"
  show "length (live (now - Minute) (al_recentAlerts s)) < cap"
    using s alert_exec_cases [OF t] by (simp add: alerter_ok_def)
  show "live (now - Minute) (al_recentAlerts s') = live (now - Minute) (al_recentAlerts s) @ [now]"
    using alert_exec_cases [OF t] by (simp add: live_single duration_defs)
next
  fix now s i s'
  assume "alert_exec marshal s i now = (s', False)"
  from alert_exec_cases [OF this]
  show "live (now - Minute) (al_recentAlerts s') = live (now - Minute) (al_recentAlerts s)"
    by auto
qed simp_all

lemma alerts_window: "al_dedupeWindow (final_by (alert_exec marshal) a evs) = al_dedupeWindow a"
proof (induction evs arbitrary: a)
  case (Cons x xs)
  obtain e now where x: "x = (e, now)" by (cases x)
  show ?case
    using Cons alert_exec_cases [OF surjective_pairing, of marshal a e now] x by simp
qed simp

lemma final_by_append: "final_by f s (xs @ ys) = final_by f (final_by f s xs) ys"
  by (induction xs arbitrary: s) auto

lemma alerts_run_gap:
  assumes "al_dedupeWindow a = w" and "sorted (map snd ((e1, t1) # mid @ [(e2, t2)]))" and "dedupeKey e1 = dedupeKey e2"
    and "alert_exec marshal a e1 t1 = (a1, True)"
    and "alert_exec marshal (final_by (alert_exec marshal) a1 mid) e2 t2 = (a2, True)"
  shows "w \<le> t2 - t1"
proof -
  have inv: "(\<exists>t. al_seen (final_by (alert_exec marshal) s xs) k = Some t \<and> t1 \<le> t)"
    if "al_seen s k = Some u" "t1 \<le> u" "\<forall>x \<in> set xs. t1 \<le> snd x" for s xs k u
    using that
  proof (induction xs arbitrary: s u)
    case (Cons x xs)
    obtain e now where x: "x = (e, now)" by (cases x)
    obtain s' b where st: "alert_exec marshal s e now = (s', b)" by fastforce
    note c = alert_exec_cases [OF st]
    obtain u' where "al_seen s' k = Some u'" "t1 \<le> u'"
      using c Cons.prems x by (cases b; cases "k = dedupeKey e") auto
    then show ?case
      using Cons.IH [of s' u'] Cons.prems(3) c x st by simp
  qed simp
  have a1: "al_seen a1 (dedupeKey e2) = Some t1" "al_dedupeWindow a1 = w"
    using alert_exec_cases [OF assms(4)] assms(1,3) by simp_all
  obtain t where t: "al_seen (final_by (alert_exec marshal) a1 mid) (dedupeKey e2) = Some t" "t1 \<le> t"
    using inv [OF a1(1), of mid] assms(2) by auto
  then show ?thesis
    using alert_exec_cases [OF assms(5)] a1(2) by (auto simp: alerts_window)
qed

text \<open>
  Alerts are bounded and spaced: of any sequence of events presented to an alerter in time
  order, no sliding minute contains more than its ten posted alerts, and two posted alerts for
  the same event type, tool and identity are at least the deduplication window apart.\<close>

theorem alerts_bounded_and_spaced:
  assumes "sorted (map snd evs)"
  shows "in_window Minute t (admitted_by (alert_exec marshal) (\<lambda>_. True) (NewAlerter url) evs) \<le> 10 \<and>
    (\<forall>pre e1 t1 mid e2 t2 post. evs = pre @ (e1, t1) # mid @ (e2, t2) # post \<longrightarrow> dedupeKey e1 = dedupeKey e2 \<longrightarrow>
      snd (alert_exec marshal (final_by (alert_exec marshal) (NewAlerter url) pre) e1 t1) \<longrightarrow>
      snd (alert_exec marshal (final_by (alert_exec marshal) (NewAlerter url) (pre @ (e1, t1) # mid)) e2 t2) \<longrightarrow>
      60 * Second \<le> t2 - t1)"
proof (intro conjI allI impI)
  obtain t0 where "\<forall>x \<in> set evs. t0 \<le> snd x"
  proof (cases evs)
    case (Cons x xs)
    then show ?thesis
      using assms that [of "snd x"] by auto
  qed (use that in simp)
  then have "alerts.good_run 10 t0 (NewAlerter url) evs"
    using assms unfolding alerts.good_run_def
    by (auto simp: NewAlerter_def alerter_ok_def DefaultMaxAlertsPerMin_def)
  then show "in_window Minute t (admitted_by (alert_exec marshal) (\<lambda>_. True) (NewAlerter url) evs) \<le> 10"
    by (rule alerts.window_bound)
next
  fix pre e1 t1 mid e2 t2 post
  assume e: "evs = pre @ (e1, t1) # mid @ (e2, t2) # post" and k: "dedupeKey e1 = dedupeKey e2"
    and s1: "snd (alert_exec marshal (final_by (alert_exec marshal) (NewAlerter url) pre) e1 t1)"
    and s2: "snd (alert_exec marshal (final_by (alert_exec marshal) (NewAlerter url) (pre @ (e1, t1) # mid)) e2 t2)"
  show "60 * Second \<le> t2 - t1"
  proof (rule alerts_run_gap [of "final_by (alert_exec marshal) (NewAlerter url) pre" _ e1 t1 mid e2 t2 marshal])
    show "al_dedupeWindow (final_by (alert_exec marshal) (NewAlerter url) pre) = 60 * Second"
      by (simp add: alerts_window NewAlerter_def DefaultDedupeWindow_def)
    show "sorted (map snd ((e1, t1) # mid @ [(e2, t2)]))"
      using assms e by (simp add: sorted_append)
    show "alert_exec marshal (final_by (alert_exec marshal) (NewAlerter url) pre) e1 t1 =
        (fst (alert_exec marshal (final_by (alert_exec marshal) (NewAlerter url) pre) e1 t1), True)"
      using s1 by (simp add: prod_eq_iff)
    show "alert_exec marshal (final_by (alert_exec marshal) (fst (alert_exec marshal (final_by (alert_exec marshal) (NewAlerter url) pre) e1 t1)) mid) e2 t2 =
        (fst (alert_exec marshal (final_by (alert_exec marshal) (NewAlerter url) (pre @ (e1, t1) # mid)) e2 t2), True)"
      using s2 by (simp add: final_by_append prod_eq_iff)
  qed (rule k)
qed

lemma alerts_bounded_and_spaced_witness:
  "in_window Minute 5 (admitted_by (alert_exec (\<lambda>_. Inr [])) (\<lambda>_. True) (NewAlerter ''http://x'')
      [(emptyAuditEvent, 1), (emptyAuditEvent, 2)]) \<le> 10"
  by (rule conjunct1 [OF alerts_bounded_and_spaced]) simp

lemma map_of_filter_val:
  "distinct (map fst m) \<Longrightarrow> map_of (filter (\<lambda>(k, v). P v) m) k =
     (case map_of m k of None \<Rightarrow> None | Some v \<Rightarrow> if P v then Some v else None)"
proof (induction m)
  case (Cons x m)
  have "map_of (filter (\<lambda>(k, v). P v) m) (fst x) = None"
    using Cons.prems by (auto simp: map_of_eq_None_iff)
  then show ?case
    using Cons by (cases x) auto
qed simp

text \<open>A sidecar is swept exactly when its last heartbeat is older than the time to live.\<close>

lemma Sweep_exact:
  assumes "distinct (map fst (sr_sidecars r))"
  shows "map_of (sr_sidecars (fst (SidecarRegistry_Sweep r now))) pod =
    (case map_of (sr_sidecars r) pod of
       None \<Rightarrow> None
     | Some s \<Rightarrow> if si_LastHeartbeat s < now - sr_ttl r then None else Some s)"
  using map_of_filter_val [OF assms, of "\<lambda>s. \<not> si_LastHeartbeat s < now - sr_ttl r" pod]
  by (simp add: SidecarRegistry_Sweep_def Let_def split: option.split)

end
