(* ===== verification/Controller.thy ===== *)
theory Controller
  imports ControllerStores ControllerEvents Durations
begin

text \<open>
  The controller as a service: the gRPC handlers (\<open>pkg/controller/server.go\<close>), the sidecar's
  client (\<open>client.go\<close>) with the budget client built on it (\<open>pkg/budget/remote.go\<close>), and the admin
  endpoints and the background sweep of \<open>cmd/nullfield-controller/main.go\<close>. The stores are
  those of the theories imported; here they run together, and the properties are about any
  interleaving of the handlers.
\<close>

section \<open>The service\<close>

record Server =
  srv_Holds :: HoldStore
  srv_Budgets :: BudgetStore
  srv_Events :: EventBuffer
  srv_Sidecars :: SidecarRegistry
  srv_Alerter :: Alerter

record CheckBudgetRequest =
  cbq_Identity :: string
  cbq_SessionId :: string
  cbq_Tool :: string
  cbq_Tokens :: int

record CreateHoldRequest =
  chq_Tool :: string
  chq_Identity :: string
  chq_SessionId :: string
  chq_Reason :: string
  chq_Timeout :: string
  chq_OnTimeout :: string
  chq_Payload :: string

record CreateHoldResponse =
  chr_HoldId :: string
  chr_Decision :: string
  chr_Reason :: string

record ReportEventRequest =
  req_EventType :: string
  req_Method :: string
  req_Tool :: string
  req_Identity :: string
  req_SessionId :: string
  req_Reason :: string
  req_Target :: string
  req_Timestamp :: "time option"
  req_Gate :: string
  req_ReasonClass :: string
  req_RuleIndex :: "int option"
  req_RuleId :: string
  req_PolicyRef :: string
  req_RegistryRef :: string
  req_Route :: string
  req_Labels :: labels

record RegisterSidecarRequest =
  rsq_TargetName :: string
  rsq_TargetNamespace :: string
  rsq_PodName :: string
  rsq_Version :: string
  rsq_ToolCount :: int
  rsq_RuleCount :: int

text \<open>
  Handlers give the new state, the response and the alert posted, if any. \<open>marshal\<close> is the JSON
  encoder of the alerter.
\<close>

type_synonym marshal = "AuditEvent \<Rightarrow> string + string"
type_synonym alert = "(string \<times> string) option"

definition Server_add :: "Server \<Rightarrow> AuditEvent \<Rightarrow> time \<Rightarrow> Server" where
  "Server_add s e now = s\<lparr>srv_Events := EventBuffer_Add (srv_Events s) e now\<rparr>"

definition Server_alert :: "marshal \<Rightarrow> Server \<Rightarrow> AuditEvent \<Rightarrow> time \<Rightarrow> Server \<times> alert" where
  "Server_alert marshal s e now =
     (case Alerter_Alert marshal (srv_Alerter s) e now of (a, sent) \<Rightarrow> (s\<lparr>srv_Alerter := a\<rparr>, sent))"

definition Server_CheckBudget ::
  "marshal \<Rightarrow> Server \<Rightarrow> CheckBudgetRequest \<Rightarrow> clock \<Rightarrow> Server \<times> budget_verdict \<times> alert" where
  "Server_CheckBudget marshal s req now =
     (let (b, v) = BudgetStore_Check (srv_Budgets s) (cbq_Identity req) (cbq_SessionId req) (cbq_Tokens req) now;
          s = Server_add (s\<lparr>srv_Budgets := b\<rparr>)
                (emptyAuditEvent\<lparr>ae_EventType := ''budget.check'', ae_Tool := cbq_Tool req, ae_Identity := cbq_Identity req,
                   ae_SessionID := cbq_SessionId req, ae_Reason := bv_Reason v\<rparr>) (instant now)
      in if \<not> bv_Allowed v
         then (case Server_alert marshal s
                 (emptyAuditEvent\<lparr>ae_EventType := ''budget.denied'', ae_Tool := cbq_Tool req, ae_Identity := cbq_Identity req,
                    ae_Reason := bv_Reason v\<rparr>) (instant now) of (s, sent) \<Rightarrow> (s, v, sent))
         else (s, v, None))"

text \<open>
  \<open>CreateHold\<close> up to its \<open>select\<close>: the hold is open and its timeout goroutine is started with the
  duration and the resolution given here.
\<close>

definition holdTimeout :: "CreateHoldRequest \<Rightarrow> duration" where
  "holdTimeout req =
     (if chq_Timeout req \<noteq> []
      then (case ParseDuration (chq_Timeout req) of Inr d \<Rightarrow> d | Inl _ \<Rightarrow> 5 * Minute)
      else 5 * Minute)"

definition holdOnTimeout :: "CreateHoldRequest \<Rightarrow> string" where
  "holdOnTimeout req = (if chq_OnTimeout req \<noteq> [] then chq_OnTimeout req else ''DENY'')"

definition Server_CreateHold ::
  "marshal \<Rightarrow> Server \<Rightarrow> CreateHoldRequest \<Rightarrow> string \<Rightarrow> time \<Rightarrow> Server \<times> string \<times> alert" where
  "Server_CreateHold marshal s req hex now =
     (let (h, hid) = HoldStore_Create (srv_Holds s) hex (chq_Tool req) (chq_Identity req) (chq_SessionId req)
             (chq_Reason req) (holdOnTimeout req) (chq_Payload req) now;
          s = Server_add (s\<lparr>srv_Holds := h\<rparr>)
                (emptyAuditEvent\<lparr>ae_EventType := ''hold.created'', ae_Tool := chq_Tool req, ae_Identity := chq_Identity req,
                   ae_SessionID := chq_SessionId req, ae_Reason := chq_Reason req\<rparr>) now;
          (s, sent) = Server_alert marshal s
                (emptyAuditEvent\<lparr>ae_EventType := ''hold.created'', ae_Tool := chq_Tool req, ae_Identity := chq_Identity req,
                   ae_Reason := chq_Reason req\<rparr>) now
      in (s, hid, sent))"

fun holdStateString :: "HoldState \<Rightarrow> string" where
  "holdStateString HoldPending = ''pending''"
| "holdStateString HoldApproved = ''approved''"
| "holdStateString HoldDenied = ''denied''"
| "holdStateString HoldTimeout = ''timeout''"

text \<open>What the \<open>select\<close> returns: what came on the channel, or \<open>None\<close> for a cancelled context.\<close>

definition Server_CreateHold_reply :: "string \<Rightarrow> HoldState option \<Rightarrow> CreateHoldResponse" where
  "Server_CreateHold_reply hid ev =
     (case ev of
        Some state \<Rightarrow> \<lparr>chr_HoldId = hid, chr_Decision = holdStateString state, chr_Reason = []\<rparr>
      | None \<Rightarrow> \<lparr>chr_HoldId = hid, chr_Decision = ''denied'', chr_Reason = ''context cancelled''\<rparr>)"

definition optionalRuleIndex :: "int option \<Rightarrow> int option" where
  "optionalRuleIndex ri = (case ri of None \<Rightarrow> None | Some i \<Rightarrow> Some i)"

definition reportedEvent :: "ReportEventRequest \<Rightarrow> time \<Rightarrow> AuditEvent" where
  "reportedEvent req now =
     \<lparr>ae_EventType = req_EventType req, ae_Method = req_Method req, ae_Tool = req_Tool req,
      ae_Identity = req_Identity req, ae_SessionID = req_SessionId req, ae_Gate = req_Gate req,
      ae_ReasonClass = req_ReasonClass req, ae_RuleIndex = optionalRuleIndex (req_RuleIndex req),
      ae_RuleID = req_RuleId req, ae_PolicyRef = req_PolicyRef req, ae_RegistryRef = req_RegistryRef req,
      ae_Route = req_Route req, ae_Labels = req_Labels req, ae_Reason = req_Reason req, ae_Target = req_Target req,
      ae_Timestamp = Some (case req_Timestamp req of None \<Rightarrow> now | Some t \<Rightarrow> t)\<rparr>"

definition Server_ReportEvent :: "marshal \<Rightarrow> Server \<Rightarrow> ReportEventRequest \<Rightarrow> time \<Rightarrow> Server \<times> alert" where
  "Server_ReportEvent marshal s req now =
     (let event = reportedEvent req now; s = Server_add s event now in Server_alert marshal s event now)"

definition Server_RegisterSidecar :: "Server \<Rightarrow> RegisterSidecarRequest \<Rightarrow> time \<Rightarrow> Server \<times> bool \<times> string" where
  "Server_RegisterSidecar s req now =
     (let r = SidecarRegistry_Register (srv_Sidecars s)
                \<lparr>si_TargetName = rsq_TargetName req, si_TargetNamespace = rsq_TargetNamespace req,
                 si_PodName = rsq_PodName req, si_Version = rsq_Version req, si_ToolCount = rsq_ToolCount req,
                 si_RuleCount = rsq_RuleCount req, si_RegisteredAt = 0, si_LastHeartbeat = 0\<rparr> now;
          s = Server_add (s\<lparr>srv_Sidecars := r\<rparr>)
                (emptyAuditEvent\<lparr>ae_EventType := ''sidecar.registered'',
                   ae_Target := rsq_TargetNamespace req @ ''/'' @ rsq_TargetName req,
                   ae_Reason := ''pod='' @ rsq_PodName req\<rparr>) now
      in (s, True, ''registered''))"

section \<open>The sidecar's clients\<close>

text \<open>\<open>rpc\<close> is the generated gRPC stub: an error of the transport, or the handler's response.\<close>

definition Client_CheckBudget ::
  "(CheckBudgetRequest \<Rightarrow> string + budget_verdict) \<Rightarrow> string \<Rightarrow> string \<Rightarrow> string \<Rightarrow> int \<Rightarrow> string + (bool \<times> int)" where
  "Client_CheckBudget rpc identity sessionID tool tokens =
     (case rpc \<lparr>cbq_Identity = identity, cbq_SessionId = sessionID, cbq_Tool = tool, cbq_Tokens = tokens\<rparr> of
        Inl err \<Rightarrow> Inl err
      | Inr resp \<Rightarrow> Inr (bv_Allowed resp, bv_RemainCalls resp))"

definition Client_CreateHold ::
  "(CreateHoldRequest \<Rightarrow> string + CreateHoldResponse) \<Rightarrow> string \<Rightarrow> string \<Rightarrow> string \<Rightarrow> string \<Rightarrow> string \<Rightarrow> string \<Rightarrow> string \<Rightarrow>
     string + string" where
  "Client_CreateHold rpc tool identity sessionID reason timeout onTimeout payload =
     (case rpc \<lparr>chq_Tool = tool, chq_Identity = identity, chq_SessionId = sessionID, chq_Reason = reason,
            chq_Timeout = timeout, chq_OnTimeout = onTimeout, chq_Payload = payload\<rparr> of
        Inl err \<Rightarrow> Inl err
      | Inr resp \<Rightarrow> Inr (chr_Decision resp))"

text \<open>The budget client: its two operations as the request each makes.\<close>

definition RemoteTracker_request :: "string \<Rightarrow> string \<Rightarrow> string \<Rightarrow> int \<Rightarrow> CheckBudgetRequest" where
  "RemoteTracker_request identity sessionID tool tokens =
     \<lparr>cbq_Identity = identity, cbq_SessionId = sessionID, cbq_Tool = tool, cbq_Tokens = tokens\<rparr>"

definition RemoteTracker_Check ::
  "(CheckBudgetRequest \<Rightarrow> string + budget_verdict) \<Rightarrow> string \<Rightarrow> string \<Rightarrow> string \<Rightarrow> string + bool" where
  "RemoteTracker_Check rpc identity sessionID tool =
     (case Client_CheckBudget rpc identity sessionID tool 0 of
        Inl err \<Rightarrow> Inl err
      | Inr (allowed, _) \<Rightarrow> Inr allowed)"

text \<open>\<open>Record\<close> only logs an error; its effect is the one of the request it sends.\<close>

definition RemoteTracker_Record ::
  "marshal \<Rightarrow> Server \<Rightarrow> string \<Rightarrow> string \<Rightarrow> string \<Rightarrow> int \<Rightarrow> clock \<Rightarrow> Server" where
  "RemoteTracker_Record marshal s identity sessionID tool tokens now =
     fst (Server_CheckBudget marshal s (RemoteTracker_request identity sessionID tool tokens) now)"

section \<open>The controller process\<close>

definition initialServer :: "string \<Rightarrow> Server" where
  "initialServer webhookURL =
     \<lparr>srv_Holds = NewHoldStore,
      srv_Budgets = NewBudgetStore \<lparr>cb_MaxCallsPerHour = 0, cb_MaxCallsPerDay = 0, cb_MaxTokensPerDay = 0\<rparr>,
      srv_Events = NewEventBuffer 0, srv_Sidecars = NewSidecarRegistry, srv_Alerter = NewAlerter webhookURL\<rparr>"

text \<open>One tick of the background sweep.\<close>

definition sweepTick :: "Server \<Rightarrow> time \<Rightarrow> Server" where
  "sweepTick s now =
     s\<lparr>srv_Budgets := BudgetStore_Sweep (srv_Budgets s) now,
       srv_Sidecars := fst (SidecarRegistry_Sweep (srv_Sidecars s) now)\<rparr>"

text \<open>The index of the last slash, searched from the end; \<open>None\<close> stands for -1.\<close>

function lastSlashFrom :: "string \<Rightarrow> nat \<Rightarrow> nat option" where
  "lastSlashFrom s i = (if i = 0 then None else if s ! (i - 1) = CHR ''/'' then Some (i - 1) else lastSlashFrom s (i - 1))"
  by pat_completeness auto

termination lastSlashFrom
  by (relation "measure snd") auto

declare lastSlashFrom.simps [simp del]

definition lastSlash :: "string \<Rightarrow> nat option" where
  "lastSlash s = lastSlashFrom s (length s)"

datatype controller_reply =
    CError string nat
  | CText string
  | CHolds "CHold list"
  | CHoldOne CHold
  | CStatus string string
  | CBudgets "BudgetUsage list"
  | CEvents "AuditEvent list"
  | CTargets "SidecarInfo list"

definition controllerHoldItem ::
  "HoldStore \<Rightarrow> string \<Rightarrow> string \<Rightarrow> string \<Rightarrow> time \<Rightarrow> HoldStore \<times> controller_reply \<times> (string \<times> HoldState) option" where
  "controllerHoldItem h meth path xApprover now =
     (if path = [] then (h, CError ''hold ID required'' 400, None)
      else
        let (holdID, action) = (case lastSlash path of Some i \<Rightarrow> (take i path, drop (Suc i) path) | None \<Rightarrow> (path, []))
        in if action = []
           then (if meth \<noteq> ''GET'' then (h, CError ''method not allowed'' 405, None)
                 else case HoldStore_Get h holdID of
                   None \<Rightarrow> (h, CError ''not found'' 404, None)
                 | Some x \<Rightarrow> (h, CHoldOne x, None))
           else if meth \<noteq> ''POST'' then (h, CError ''method not allowed'' 405, None)
           else
             let approver = (if xApprover = [] then ''admin-api'' else xApprover) in
             if action = ''approve''
             then (case HoldStore_Approve h holdID approver now of
                     (h', Inl err) \<Rightarrow> (h', CError err 404, None)
                   | (h', Inr d) \<Rightarrow> (h', CStatus ''approved'' holdID, Some d))
             else if action = ''deny''
             then (case HoldStore_Deny h holdID approver now of
                     (h', Inl err) \<Rightarrow> (h', CError err 404, None)
                   | (h', Inr d) \<Rightarrow> (h', CStatus ''denied'' holdID, Some d))
             else (h, CError (''unknown action: '' @ action) 400, None))"

text \<open>
  The admin endpoints. \<open>holdIDs\<close> and \<open>budgetIDs\<close> are the orders in which Go ranges over the tables,
  \<open>ty\<close> the query parameter \<open>type\<close>. A path none of the patterns matches is not found.
\<close>

definition controllerAdmin ::
  "Server \<Rightarrow> string list \<Rightarrow> string list \<Rightarrow> string \<Rightarrow> string \<Rightarrow> string \<Rightarrow> string \<Rightarrow> time \<Rightarrow>
     Server \<times> controller_reply \<times> (string \<times> HoldState) option" where
  "controllerAdmin s holdIDs budgetIDs meth path ty xApprover now =
     (let getOnly = (\<lambda>r. (s, if meth \<noteq> ''GET'' then CError ''method not allowed'' 405 else r, None))
      in if path = ''/healthz'' \<or> path = ''/readyz'' then (s, CText ''ok'', None)
         else if path = ''/admin/holds'' then getOnly (CHolds (HoldStore_List (srv_Holds s) holdIDs))
         else if HasPrefix path ''/admin/holds/''
         then (case controllerHoldItem (srv_Holds s) meth (drop (length ''/admin/holds/'') path) xApprover now of
                 (h, r, d) \<Rightarrow> (s\<lparr>srv_Holds := h\<rparr>, r, d))
         else if path = ''/admin/budgets''
         then (if meth \<noteq> ''GET'' then (s, CError ''method not allowed'' 405, None)
               else case BudgetStore_GetUsage (srv_Budgets s) budgetIDs now of
                 (b, us) \<Rightarrow> (s\<lparr>srv_Budgets := b\<rparr>, CBudgets us, None))
         else if path = ''/admin/events'' then getOnly (CEvents (EventBuffer_List (srv_Events s) ty 200))
         else if path = ''/admin/targets'' then getOnly (CTargets (SidecarRegistry_List (srv_Sidecars s)))
         else (s, CError ''404 page not found'' 404, None))"

section \<open>Interleavings of the handlers\<close>

text \<open>
  Everything that can happen to the controller: a request of a sidecar, the timeout of a hold, a
  request to the admin endpoints, a tick of the sweep. A step says whether it allowed a budgeted
  call and what it sent on the channel of a hold.
\<close>

datatype server_op =
    GCheckBudget CheckBudgetRequest int
  | GCreateHold CreateHoldRequest string
  | GTimeout string string
  | GReportEvent ReportEventRequest
  | GRegisterSidecar RegisterSidecarRequest
  | GAdmin "string list" "string list" string string string string
  | GSweep

fun server_exec :: "marshal \<Rightarrow> Server \<Rightarrow> server_op \<Rightarrow> time \<Rightarrow> Server \<times> bool \<times> (string \<times> HoldState) option" where
  "server_exec marshal s (GCheckBudget req day) now =
     (case Server_CheckBudget marshal s req \<lparr>instant = now, YearDay = day\<rparr> of (s', v, _) \<Rightarrow> (s', bv_Allowed v, None))"
| "server_exec marshal s (GCreateHold req hex) now =
     (case Server_CreateHold marshal s req hex now of (s', _) \<Rightarrow> (s', False, None))"
| "server_exec marshal s (GTimeout hid onTimeout) now =
     (case HoldStore_runTimeout (srv_Holds s) hid onTimeout now of (h, d) \<Rightarrow> (s\<lparr>srv_Holds := h\<rparr>, False, d))"
| "server_exec marshal s (GReportEvent req) now =
     (case Server_ReportEvent marshal s req now of (s', _) \<Rightarrow> (s', False, None))"
| "server_exec marshal s (GRegisterSidecar req) now =
     (case Server_RegisterSidecar s req now of (s', _) \<Rightarrow> (s', False, None))"
| "server_exec marshal s (GAdmin holdIDs budgetIDs meth path ty xApprover) now =
     (case controllerAdmin s holdIDs budgetIDs meth path ty xApprover now of (s', _, d) \<Rightarrow> (s', False, d))"
| "server_exec marshal s GSweep now = (sweepTick s now, False, None)"

definition server_budget :: "marshal \<Rightarrow> Server \<Rightarrow> server_op \<Rightarrow> time \<Rightarrow> Server \<times> bool" where
  "server_budget marshal s x now = (case server_exec marshal s x now of (s', b, d) \<Rightarrow> (s', b))"

definition server_hold :: "marshal \<Rightarrow> Server \<Rightarrow> server_op \<times> time \<Rightarrow> Server \<times> (string \<times> HoldState) option" where
  "server_hold marshal s x = (case server_exec marshal s (fst x) (snd x) of (s', b, d) \<Rightarrow> (s', d))"

text \<open>What a step means to the store of budgets, and to the store of holds.\<close>

fun budget_op_of :: "server_op \<Rightarrow> store_op option" where
  "budget_op_of (GCheckBudget req day) = Some (SCheck (cbq_Identity req) (cbq_SessionId req) (cbq_Tokens req) day)"
| "budget_op_of (GAdmin holdIDs budgetIDs meth path ty xApprover) =
     (if path = ''/admin/budgets'' \<and> meth = ''GET'' then Some (SUsage budgetIDs) else None)"
| "budget_op_of GSweep = Some SSweep"
| "budget_op_of _ = None"

text \<open>The hold a request to the admin endpoints approves or denies, if it does.\<close>

definition admin_action :: "string \<Rightarrow> string \<Rightarrow> (string \<times> string) option" where
  "admin_action meth path =
     (if meth = ''POST'' \<and> HasPrefix path ''/admin/holds/''
      then (let p = drop (length ''/admin/holds/'') path in
            case lastSlash p of None \<Rightarrow> None | Some i \<Rightarrow> Some (take i p, drop (Suc i) p))
      else None)"

fun hold_op_of :: "server_op \<times> time \<Rightarrow> chold_op option" where
  "hold_op_of (GCreateHold req hex, now) =
     Some (COpCreate hex (chq_Tool req) (chq_Identity req) (chq_SessionId req) (chq_Reason req)
        (holdOnTimeout req) (chq_Payload req) now)"
| "hold_op_of (GTimeout hid onTimeout, now) = Some (COpTimeout hid onTimeout now)"
| "hold_op_of (GAdmin holdIDs budgetIDs meth path ty xApprover, now) =
     (case admin_action meth path of
        None \<Rightarrow> None
      | Some (hid, act) \<Rightarrow>
          let who = (if xApprover = [] then ''admin-api'' else xApprover)
          in if act = ''approve'' then Some (COpApprove hid who now)
             else if act = ''deny'' then Some (COpDeny hid who now) else None)"
| "hold_op_of _ = None"

text \<open>Runs of a composed system seen by one of its parts.\<close>

lemma admitted_by_project:
  assumes "\<And>s x now. case pr x of
      None \<Rightarrow> ab (fst (f s x now)) = ab s \<and> \<not> snd (f s x now)
    | Some y \<Rightarrow> g (ab s) y now = (ab (fst (f s x now)), snd (f s x now))"
  shows "admitted_by f (\<lambda>x. case pr x of None \<Rightarrow> False | Some y \<Rightarrow> cnt y) s xs =
     admitted_by g cnt (ab s) (List.map_filter (\<lambda>(x, t). map_option (\<lambda>y. (y, t)) (pr x)) xs)"
proof (induction xs arbitrary: s)
  case (Cons c xs)
  obtain x now where c: "c = (x, now)" by (cases c)
  show ?case
    using assms [where s = s and x = x and now = now] Cons [of "fst (f s x now)"]
    by (cases "pr x"; cases "f s x now") (auto simp: c)
qed simp

lemma deliveries_project:
  assumes "\<And>s x. case pr x of
      None \<Rightarrow> ab (fst (f s x)) = ab s \<and> snd (f s x) = None
    | Some y \<Rightarrow> g (ab s) y = (ab (fst (f s x)), snd (f s x))"
  shows "deliveries f s xs = deliveries g (ab s) (List.map_filter pr xs)"
proof (induction xs arbitrary: s)
  case (Cons x xs)
  show ?case
    using assms [where s = s and x = x] Cons [of "fst (f s x)"]
    by (cases "pr x"; cases "f s x") auto
qed simp

lemmas handler_defs = Server_CheckBudget_def Server_CreateHold_def Server_ReportEvent_def Server_RegisterSidecar_def
  Server_add_def Server_alert_def sweepTick_def Let_def

lemma server_budget_part:
  "case budget_op_of x of
      None \<Rightarrow> srv_Budgets (fst (server_budget marshal s x now)) = srv_Budgets s \<and> \<not> snd (server_budget marshal s x now)
    | Some y \<Rightarrow> store_exec (srv_Budgets s) y now =
        (srv_Budgets (fst (server_budget marshal s x now)), snd (server_budget marshal s x now))"
proof (cases x)
  case (GAdmin holdIDs budgetIDs meth path ty xApprover)
  then show ?thesis
    by (auto simp: server_budget_def controllerAdmin_def Let_def split: prod.splits)
qed (auto simp: server_budget_def handler_defs split: prod.splits)

lemma controllerHoldItem_part:
  "case (case lastSlash path of None \<Rightarrow> None | Some i \<Rightarrow> if meth = ''POST'' then Some (take i path, drop (Suc i) path) else None) of
      None \<Rightarrow> fst (controllerHoldItem h meth path a now) = h \<and> snd (snd (controllerHoldItem h meth path a now)) = None
    | Some (hid, act) \<Rightarrow>
        (let who = (if a = [] then ''admin-api'' else a); r = controllerHoldItem h meth path a now
         in if act = ''approve'' then chold_exec h (COpApprove hid who now) = (fst r, snd (snd r))
            else if act = ''deny'' then chold_exec h (COpDeny hid who now) = (fst r, snd (snd r))
            else fst r = h \<and> snd (snd r) = None)"
  by (auto simp: controllerHoldItem_def Let_def sent_of_def lastSlash_def lastSlashFrom.simps [of "[]"]
      split: option.splits prod.splits sum.splits)

lemma server_hold_part:
  "case hold_op_of x of
      None \<Rightarrow> srv_Holds (fst (server_hold marshal s x)) = srv_Holds s \<and> snd (server_hold marshal s x) = None
    | Some y \<Rightarrow> chold_exec (srv_Holds s) y = (srv_Holds (fst (server_hold marshal s x)), snd (server_hold marshal s x))"
proof -
  obtain x1 now where x: "x = (x1, now)" by (cases x)
  show ?thesis
  proof (cases x1)
    case (GAdmin holdIDs budgetIDs meth path ty a)
    show ?thesis
    proof (cases "HasPrefix path ''/admin/holds/''")
      case True
      obtain p where p: "p = drop (length ''/admin/holds/'') path" by simp
      let ?r = "controllerHoldItem (srv_Holds s) meth p a now"
      have "path \<noteq> ''/admin/holds''" "path \<noteq> ''/healthz''" "path \<noteq> ''/readyz''"
        using True by auto
      then have st: "server_hold marshal s x = (s\<lparr>srv_Holds := fst ?r\<rparr>, snd (snd ?r))"
        using GAdmin True by (simp add: x p server_hold_def controllerAdmin_def split: prod.split)
      have act: "admin_action meth path =
          (case lastSlash p of None \<Rightarrow> None | Some i \<Rightarrow> if meth = ''POST'' then Some (take i p, drop (Suc i) p) else None)"
        using True by (simp add: admin_action_def p Let_def split: option.split)
      from controllerHoldItem_part [where path = p and meth = meth and h = "srv_Holds s" and a = a and now = now]
      have "case hold_op_of x of None \<Rightarrow> fst ?r = srv_Holds s \<and> snd (snd ?r) = None
          | Some y \<Rightarrow> chold_exec (srv_Holds s) y = (fst ?r, snd (snd ?r))"
        unfolding act [symmetric] using GAdmin
        by (cases "admin_action meth path"; cases ?r) (auto simp: x Let_def)
      then show ?thesis
        unfolding st by (cases "hold_op_of x") simp_all
    next
      case False
      then show ?thesis
        using GAdmin by (auto simp: x server_hold_def controllerAdmin_def admin_action_def Let_def split: prod.splits)
    qed
  qed (auto simp: x server_hold_def handler_defs split: prod.splits)
qed

section \<open>Properties\<close>

text \<open>Whether a step is a budget check charged to the key \<open>k\<close>.\<close>

definition server_counts :: "side \<Rightarrow> string \<Rightarrow> server_op \<Rightarrow> bool" where
  "server_counts sd k x = (case budget_op_of x of None \<Rightarrow> False | Some y \<Rightarrow> store_counts sd k y)"

lemma sorted_map_filter: "sorted (map snd xs) \<Longrightarrow>
    sorted (map snd (List.map_filter (\<lambda>(x, t). map_option (\<lambda>y. (y, t)) (pr x)) xs))"
proof (induction xs)
  case (Cons c xs)
  have "set (map snd (List.map_filter (\<lambda>(x, t). map_option (\<lambda>y. (y, t)) (pr x)) xs)) \<subseteq> set (map snd xs)"
    by (induction xs) (auto split: option.splits)
  then show ?case
    using Cons by (force split: option.splits prod.splits)
qed simp

text \<open>
  C26. The budgets hold for the running controller. Take any interleaving, in time order, of the
  requests of all sidecars, the expiry of holds, the admin endpoints and the background sweep,
  from the state the process starts in. No hour, wherever it starts, contains more than 100 calls
  that \<open>CheckBudget\<close> allowed to one identity, or to one session, and no day more than 1000.\<close>

theorem controller_budget_bound:
  assumes "sorted (map snd run)"
  shows "in_window (width sp) t (admitted_by (server_budget marshal) (server_counts sd k) (initialServer url) run)
     \<le> (case sp of Hourly \<Rightarrow> 100 | Daily \<Rightarrow> 1000)"
proof -
  have eq: "admitted_by (server_budget marshal) (server_counts sd k) (initialServer url) run =
      admitted_by store_exec (store_counts sd k) (srv_Budgets (initialServer url))
        (List.map_filter (\<lambda>(x, t). map_option (\<lambda>y. (y, t)) (budget_op_of x)) run)"
    unfolding server_counts_def [abs_def] by (rule admitted_by_project) (rule server_budget_part)
  show ?thesis
    using cbudget_bound [OF sorted_map_filter [OF assms, where pr = budget_op_of], where sp = sp and t = t and sd = sd
        and k = k and l = "\<lparr>cb_MaxCallsPerHour = 0, cb_MaxCallsPerDay = 0, cb_MaxTokensPerDay = 0\<rparr>"]
    unfolding eq by (cases sp) (auto simp: initialServer_def store_cap_def abs_limits_def NewBudgetStore_def
        DefaultMaxCallsPerHour_def DefaultMaxCallsPerDay_def)
qed

lemma controller_budget_bound_witness:
  "in_window Hour 9 (admitted_by (server_budget (\<lambda>_. Inr [])) (server_counts IdentitySide ''a'') (initialServer [])
      [(GCheckBudget (RemoteTracker_request ''a'' [] ''t'' 0) 1, 3), (GSweep, 5)]) \<le> 100"
  using controller_budget_bound [of "[(GCheckBudget (RemoteTracker_request ''a'' [] ''t'' 0) 1, 3), (GSweep, 5)]"
      Hourly 9 "\<lambda>_. Inr []" IdentitySide "''a''" "[]"]
  by (simp del: admitted_by.simps)

text \<open>The requests to the admin endpoints that approve a hold.\<close>

definition approves :: "string \<Rightarrow> server_op \<times> time \<Rightarrow> bool" where
  "approves hid x \<longleftrightarrow> (case fst x of
      GAdmin _ _ meth path _ _ \<Rightarrow> admin_action meth path = Some (hid, ''approve'') | _ \<Rightarrow> False)"

lemma hold_op_Approve: "hold_op_of x = Some (COpApprove hid who t) \<Longrightarrow> approves hid x"
  by (cases x rule: hold_op_of.cases) (auto simp: approves_def Let_def split: option.splits if_splits)

lemma hold_op_Timeout: "hold_op_of x = Some (COpTimeout hid o1 t) \<Longrightarrow> x = (GTimeout hid o1, t)"
  by (cases x rule: hold_op_of.cases) (auto simp: Let_def split: option.splits if_splits)

text \<open>
  C25. A held call gets one answer from the running controller. Take any interleaving of
  everything the controller does in which no hold identifier is issued twice. If a sidecar's
  \<open>CreateHold\<close> is followed by the timeout it started, exactly one state comes on the channel its
  handler waits on; the decision returned to the sidecar is approved or denied, and approved only
  if the admin endpoint was asked to approve that hold, or the request itself said that the
  timeout allows. A cancelled request is answered denied.\<close>

theorem controller_hold_decision:
  assumes "distinct (List.map_filter chold_creates (List.map_filter hold_op_of run))"
    and "run = xs @ (GCreateHold req hex, now) # ys @ (GTimeout (generateHoldID hex) (holdOnTimeout req), now') # zs"
    and "\<forall>o1 t. (GTimeout (generateHoldID hex) o1, t) \<in> set run \<longrightarrow> o1 = holdOnTimeout req"
  shows "\<exists>a. filter (\<lambda>d. fst d = generateHoldID hex) (deliveries (server_hold marshal) (initialServer url) run) =
        [(generateHoldID hex, a)] \<and>
     chr_Decision (Server_CreateHold_reply (generateHoldID hex) (Some a)) \<in> {''approved'', ''denied''} \<and>
     (chr_Decision (Server_CreateHold_reply (generateHoldID hex) (Some a)) = ''approved'' \<longrightarrow>
        (\<exists>x \<in> set run. approves (generateHoldID hex) x) \<or> chq_OnTimeout req = ''ALLOW'') \<and>
     chr_Decision (Server_CreateHold_reply (generateHoldID hex) None) = ''denied''"
proof -
  let ?i = "generateHoldID hex" and ?ops = "List.map_filter hold_op_of run"
  let ?ds = "deliveries chold_exec NewHoldStore ?ops"
  have eq: "deliveries (server_hold marshal) (initialServer url) run = ?ds"
    using deliveries_project [where pr = hold_op_of and f = "server_hold marshal" and g = chold_exec and ab = srv_Holds
        and s = "initialServer url" and xs = run] server_hold_part
    by (simp add: initialServer_def)
  have "length (filter (\<lambda>d. fst d = ?i) ?ds) = 1"
    using cholds.answered_once [of "COpCreate hex (chq_Tool req) (chq_Identity req) (chq_SessionId req) (chq_Reason req)
          (holdOnTimeout req) (chq_Payload req) now" ?i "COpTimeout ?i (holdOnTimeout req) now'"
        "List.map_filter hold_op_of xs" "List.map_filter hold_op_of ys" "List.map_filter hold_op_of zs" NewHoldStore] assms(1)
    by (simp add: cholds.created_def assms(2) map_filter_def chold_open_def NewHoldStore_def)
  then obtain d where d: "filter (\<lambda>d. fst d = ?i) ?ds = [d]"
    by (auto simp: length_Suc_conv)
  then have "d \<in> set (filter (\<lambda>d. fst d = ?i) ?ds)" by simp
  then have mem: "d = (?i, snd d)" "d \<in> set ?ds" by (simp_all add: prod_eq_iff)
  then have "(?i, snd d) \<in> set ?ds" by simp
  from csent_from [OF this] obtain y where y: "y \<in> set ?ops"
    and c: "(\<exists>who t. y = COpApprove ?i who t \<and> snd d = HoldApproved) \<or> (\<exists>who t. y = COpDeny ?i who t \<and> snd d = HoldDenied) \<or>
      (\<exists>o1 t. y = COpTimeout ?i o1 t \<and> snd d = (if o1 = ''ALLOW'' then HoldApproved else HoldDenied))"
    by blast
  obtain x where x: "x \<in> set run" "hold_op_of x = Some y"
    using y by (auto simp: map_filter_def)
  have "(\<exists>x \<in> set run. approves ?i x) \<or> chq_OnTimeout req = ''ALLOW''" if "snd d = HoldApproved"
    using c that x hold_op_Approve [of x ?i] hold_op_Timeout [of x ?i] assms(3)
    by (auto simp: holdOnTimeout_def split: if_splits)
  moreover have "snd d = HoldApproved \<or> snd d = HoldDenied"
    using c by (auto split: if_splits)
  ultimately show ?thesis
    using d mem(1) unfolding eq by (intro exI [of _ "snd d"]) (auto simp: Server_CreateHold_reply_def)
qed

definition demo_hold :: CreateHoldRequest where
  "demo_hold = \<lparr>chq_Tool = ''rm'', chq_Identity = ''u'', chq_SessionId = ''s'', chq_Reason = ''r'',
     chq_Timeout = ''5m'', chq_OnTimeout = [], chq_Payload = []\<rparr>"

lemma controller_hold_decision_witness:
  "\<exists>a. filter (\<lambda>d. fst d = generateHoldID ''1'') (deliveries (server_hold (\<lambda>_. Inr [])) (initialServer [])
      [(GCreateHold demo_hold ''1'', 0), (GSweep, 5), (GTimeout (generateHoldID ''1'') ''DENY'', 9)]) = [(generateHoldID ''1'', a)]"
  using controller_hold_decision [of "[(GCreateHold demo_hold ''1'', 0), (GSweep, 5), (GTimeout (generateHoldID ''1'') ''DENY'', 9)]"
      "[]" demo_hold "''1''" 0 "[(GSweep, 5)]" 9 "[]" "\<lambda>_. Inr []" "[]"]
  by (simp add: demo_hold_def holdOnTimeout_def del: deliveries.simps) metis

end
