(* ===== verification/SidecarMain.thy ===== *)
theory SidecarMain
  imports Gateway Signals Credentials Configuration Tokens Controller
begin

text \<open>
  The sidecar process (\<open>cmd/nullfield/main.go\<close>): from the environment and the files it is started
  with to the handler that serves, the audit emitters, the hot reload of its policy, the report of
  events to a controller and the reconciliation with the upstream's tools. Every file, address
  and library the process meets is a field of \<open>boot\<close>.
\<close>

section \<open>Policy\<close>

definition denyAllSpec :: NullfieldPolicySpec where
  "denyAllSpec = \<lparr>ps_Selector = \<lparr>MatchLabels = []\<rparr>, ps_Identity = None, ps_RunToken = None, ps_Integrity = None, ps_Anomaly = None,
     ps_Rules = [emptyRule\<lparr>r_Action := ActionDeny, r_MCPMethod := ''tools/call'', r_ToolNames := [''*''], r_RequireIdentity := True\<rparr>],
     ps_CircuitBreaker = \<lparr>MaxToolCallsPerSession = 0, MaxSessionDuration = 0, OnTrip = []\<rparr>,
     ps_Audit = \<lparr>EmitTo = [], LogLevel = []\<rparr>\<rparr>"

definition startupSpec :: "'h loader_env \<Rightarrow> string \<Rightarrow> file_read \<Rightarrow> NullfieldPolicySpec" where
  "startupSpec le path read =
     (case (if path = [] then Inl [] else le_load le read) of
        Inl err \<Rightarrow> denyAllSpec
      | Inr spec \<Rightarrow> if ps_Rules spec = [] then denyAllSpec else spec)"

text \<open>The engine that decides: a fixed one, or the one the hot loader holds at the moment.\<close>

datatype 'h engine_source = StaticEngine RuleEngine | HotEngine "'h HotLoader"

definition chooseEngine ::
  "'h loader_env \<Rightarrow> 'h \<Rightarrow> string \<Rightarrow> NullfieldPolicySpec \<Rightarrow> file_read \<Rightarrow> file_read \<Rightarrow> 'h engine_source" where
  "chooseEngine le zero path spec read1 read2 =
     (if path = [] then StaticEngine (NewRuleEngine (le_cel le) (ps_Rules spec))
      else case LoadInitial le (NewHotLoader zero) read1 read2 of
          (l, Inl err) \<Rightarrow> StaticEngine (NewRuleEngine (le_cel le) (ps_Rules spec))
        | (l, Inr _) \<Rightarrow> HotEngine l)"

text \<open>\<open>hotLoaderEngine.Evaluate\<close>; \<open>None\<close> is the nil dereference there would be without an engine.\<close>

definition hotLoaderEngine_Evaluate :: "'h HotLoader \<Rightarrow> (Request \<Rightarrow> Decision) option" where
  "hotLoaderEngine_Evaluate l = map_option Evaluate (hl_engine l)"

fun activeEngine :: "'h engine_source \<Rightarrow> (Request \<Rightarrow> Decision) option" where
  "activeEngine (StaticEngine e) = Some (Evaluate e)"
| "activeEngine (HotEngine l) = hotLoaderEngine_Evaluate l"

text \<open>The watching goroutine runs only with the hot loader.\<close>

fun engineTicks :: "'h loader_env \<Rightarrow> 'h engine_source \<Rightarrow> (file_read \<times> file_read) list \<Rightarrow> 'h engine_source" where
  "engineTicks le (StaticEngine e) ticks = StaticEngine e"
| "engineTicks le (HotEngine l) ticks = HotEngine (HotLoader_Watch le l ticks)"

section \<open>Identity\<close>

datatype sidecar_verifier = SVMulti MultiVerifier | SVJWKS JWKSVerifier | SVHeader string | SVNoop

definition durationOr0 :: "string \<Rightarrow> duration" where
  "durationOr0 s = (if s = [] then 0 else case ParseDuration s of Inl _ \<Rightarrow> 0 | Inr d \<Rightarrow> d)"

definition providerVerifier :: "string \<Rightarrow> ValidationConfig option \<Rightarrow> IdentityProvider \<Rightarrow> JWKSVerifier" where
  "providerVerifier header val p =
     NewJWKSVerifier (emptyJWKSConfig\<lparr>jc_ProviderName := ip_Name p, jc_Issuer := ip_Issuer p, jc_JWKSURI := ip_JWKSURI p,
       jc_Audiences := ip_Audiences p, jc_ClockSkew := durationOr0 (ip_ClockSkew p),
       jc_AllowedAlgs := (case val of None \<Rightarrow> [] | Some v \<Rightarrow> vc_AllowedAlgorithms v), jc_Header := header,
       jc_RequireExpiry := (case val of None \<Rightarrow> False | Some v \<Rightarrow> vc_RequireExpiry v),
       jc_MaxLifetime := (case val of None \<Rightarrow> 0 | Some v \<Rightarrow> durationOr0 (vc_MaxLifetime v))\<rparr>)"

definition envIdentity :: "AppConfig \<Rightarrow> env_error + sidecar_verifier" where
  "envIdentity cfg =
     (case VerifierFromEnv \<lparr>ev_JWKSURL = cf_IdentityJWKSURL cfg, ev_Issuer = cf_IdentityJWKSIssuer cfg,
             ev_Audiences = cf_IdentityJWKSAudiences cfg, ev_ClockSkew = 0, ev_AllowedAlgs = [],
             ev_Header = cf_IdentityTokenHeader cfg, ev_TrustHeader = cf_IdentityTrustHeader cfg\<rparr> of
        Inl err \<Rightarrow> Inl err
      | Inr (EnvJWKS v) \<Rightarrow> Inr (SVJWKS v)
      | Inr (EnvHeader header) \<Rightarrow> Inr (SVHeader header)
      | Inr EnvNone \<Rightarrow> Inr SVNoop)"

definition chooseVerifier :: "AppConfig \<Rightarrow> NullfieldPolicySpec \<Rightarrow> env_error + sidecar_verifier" where
  "chooseVerifier cfg spec =
     (case ps_Identity spec of
        Some ic \<Rightarrow>
          if idc_Enabled ic \<and> idc_Providers ic \<noteq> []
          then Inr (SVMulti (NewMultiVerifier (map (providerVerifier (cf_IdentityTokenHeader cfg) (idc_Validation ic)) (idc_Providers ic))
                 (cf_IdentityTokenHeader cfg)))
          else envIdentity cfg
      | None \<Rightarrow> envIdentity cfg)"

text \<open>Verification by the verifier that was chosen, with the key caches it has at \<open>now\<close>.\<close>

fun verifyAs :: "token_env \<Rightarrow> sidecar_verifier \<Rightarrow> time \<Rightarrow> http_header \<Rightarrow> string + Identity" where
  "verifyAs te (SVMulti m) now hs = map_sum token_text (\<lambda>i. i) (snd (MultiVerifier_Verify te m hs now))"
| "verifyAs te (SVJWKS v) now hs = map_sum token_text (\<lambda>i. i) (snd (JWKSVerifier_Verify te v hs now))"
| "verifyAs te (SVHeader header) now hs = map_sum verify_text (\<lambda>i. i) (HeaderVerifier_Verify header hs)"
| "verifyAs te SVNoop now hs = map_sum verify_text (\<lambda>i. i) (NoopVerifier_Verify hs)"

text \<open>The same verifier with other keys in its caches: what it is at any later moment.\<close>

fun later_verifier :: "sidecar_verifier \<Rightarrow> sidecar_verifier \<Rightarrow> bool" where
  "later_verifier (SVMulti m) (SVMulti m') \<longleftrightarrow>
     mv_header m' = mv_header m \<and> list_all2 same_settings (mv_providers m) (mv_providers m')"
| "later_verifier (SVJWKS v) (SVJWKS v') \<longleftrightarrow> same_settings v v'"
| "later_verifier v v' \<longleftrightarrow> v' = v"

section \<open>The rest of the policy\<close>

definition startIntegrity :: "NullfieldPolicySpec \<Rightarrow> IntegrityChecker option" where
  "startIntegrity spec =
     (case ps_Integrity spec of
        None \<Rightarrow> None
      | Some ic \<Rightarrow> if igc_Enabled ic then Some (NewIntegrityChecker (igc_BindToSession ic) (igc_DetectReplay ic) 0) else None)"

definition startBreaker :: "AppConfig \<Rightarrow> NullfieldPolicySpec \<Rightarrow> Breaker" where
  "startBreaker cfg spec =
     (case ResolveLimits (MaxToolCallsPerSession (ps_CircuitBreaker spec)) (MaxSessionDuration (ps_CircuitBreaker spec))
             (cf_CircuitMaxCalls cfg) (cf_CircuitMaxDuration cfg) of
        (calls, dur, _) \<Rightarrow> Breaker_New calls dur)"

definition startVelocity :: "NullfieldPolicySpec \<Rightarrow> VelocityTracker option" where
  "startVelocity spec =
     (case ps_Anomaly spec of
        None \<Rightarrow> None
      | Some a \<Rightarrow>
          (case an_Velocity a of
             None \<Rightarrow> None
           | Some v \<Rightarrow>
               if an_Enabled a
               then Some (NewVelocityTracker \<lparr>vcf_Threshold = vel_Threshold v,
                      vcf_AlertAction = (if vel_AlertAction v = ''DENY'' then AlertActionDeny else AlertActionLog)\<rparr>)
               else None))"

definition startBudgets :: "bool \<Rightarrow> NullfieldPolicySpec \<Rightarrow> Tracker option" where
  "startBudgets controller spec =
     (if \<not> controller \<and> (\<exists>r \<in> set (ps_Rules spec). r_Budget r \<noteq> None) then Some Tracker_New else None)"

definition startHolds :: "bool \<Rightarrow> NullfieldPolicySpec \<Rightarrow> Manager option" where
  "startHolds controller spec =
     (if \<not> controller \<and> (\<exists>r \<in> set (ps_Rules spec). r_Action r = ActionHold) then Some NewManager else None)"

definition startInspector :: "regexp_lib \<Rightarrow> NullfieldPolicySpec \<Rightarrow> Inspector option" where
  "startInspector rx spec =
     (if \<exists>r \<in> set (ps_Rules spec). \<exists>ic. r_Inspection r = Some ic \<and> ic_Enabled ic then Some (Inspector_New rx DefaultConfig) else None)"

text \<open>
  The credential providers and the state they act on: the clock, the Vault client behind its cache,
  if one is configured, and the world outside. Only a configured client is registered, so that a fetch
  finds it.
\<close>

record 'w cred_state =
  cs_Clock :: time
  cs_Vault :: "(CachedProvider \<times> VaultProvider) option"
  cs_World :: 'w

definition startVault :: "environ \<Rightarrow> AppConfig \<Rightarrow> (CachedProvider \<times> VaultProvider) option" where
  "startVault getenv cfg =
     (if cf_VaultAddr cfg = [] then None
      else case NewVaultProvider \<lparr>vc_Addr = cf_VaultAddr cfg, vc_Token = getenv ''VAULT_TOKEN'', vc_Role = cf_VaultRole cfg,
                   vc_AuthMethod = cf_VaultAuthMethod cfg\<rparr> of
          Inl err \<Rightarrow> None
        | Inr vp \<Rightarrow> Some (NewCachedProvider (cf_CredentialCacheTTL cfg), vp))"

definition vaultFetch :: "'w vault_env \<Rightarrow> 'w cred_state provider" where
  "vaultFetch venv s ref =
     (case cs_Vault s of
        None \<Rightarrow> (s, Inl [])
      | Some (c, vp) \<Rightarrow>
          (case CachedProvider_Fetch (VaultProvider_Fetch venv) c (vp, cs_World s) ref (cs_Clock s) (cs_Clock s) of
             (c', (vp', w'), r) \<Rightarrow> (s\<lparr>cs_Vault := Some (c', vp'), cs_World := w'\<rparr>, r)))"

definition startCredentials :: "environ \<Rightarrow> 'w vault_env \<Rightarrow> AppConfig \<Rightarrow> 'w cred_state MultiProvider" where
  "startCredentials getenv venv cfg =
     (let p = MultiProvider_Register NewMultiProvider ''env'' (\<lambda>s ref. (s, snd (EnvProvider_Fetch getenv ref)));
          p = MultiProvider_Register p ''static'' (\<lambda>s ref. (s, snd (StaticProvider_Fetch Map.empty ref)))
      in if startVault getenv cfg = None then p else MultiProvider_Register p ''vault'' (vaultFetch venv))"

section \<open>Starting\<close>

record ('h, 'w) boot =
  bt_Getenv :: environ
  bt_ParseURL :: "string \<Rightarrow> string + string"
  bt_Dial :: "string \<Rightarrow> string option"
  bt_Registry :: "string \<Rightarrow> string + ToolRegistry"
  bt_OTLP :: "string \<Rightarrow> string option"
  bt_Signals :: signals_env
  bt_Loader :: "'h loader_env"
  bt_ZeroHash :: 'h
  bt_PolicyReads :: "file_read \<times> file_read \<times> file_read"
  bt_Routes :: "string \<Rightarrow> string + string"
  bt_DecodeRoutes :: "string \<Rightarrow> string + RouteConfig list"
  bt_RoutePolicy :: "string \<Rightarrow> file_read"
  bt_Regexp :: regexp_lib
  bt_Vault :: "'w vault_env"

datatype emitter = LogEmitter | MetricsEmitter | OTLPEmitter | ControllerEmitter | SignalEmitter channel Sink

datatype mode = SidecarMode string "Inspector option" | GatewayMode Router

record ('h, 'w) process =
  pr_Config :: AppConfig
  pr_Emitters :: "emitter list"
  pr_Spec :: NullfieldPolicySpec
  pr_Engine :: "'h engine_source"
  pr_Verifier :: sidecar_verifier
  pr_Integrity :: "IntegrityChecker option"
  pr_Breaker :: Breaker
  pr_Velocity :: "VelocityTracker option"
  pr_Budgets :: "Tracker option"
  pr_Holds :: "Manager option"
  pr_Credentials :: "'w cred_state MultiProvider"
  pr_Vault :: "(CachedProvider \<times> VaultProvider) option"
  pr_Registry :: Registry
  pr_Reconciles :: bool
  pr_Mode :: mode
  pr_WriteTimeout :: duration

definition sidecarEmits :: "EventType list" where
  "sidecarEmits = [EventCircuitTripped, EventToolDenied, EventAnomalyVelocity, EventIdentityFailed, EventHoldCreated]"

definition startEmitters :: "('h, 'w) boot \<Rightarrow> AppConfig \<Rightarrow> (channel \<times> Sink) list \<Rightarrow> emitter list" where
  "startEmitters b cfg sinks =
     [LogEmitter, MetricsEmitter] @
     (if cf_AuditEndpoint cfg \<noteq> [] \<and> bt_OTLP b (cf_AuditEndpoint cfg) = None then [OTLPEmitter] else []) @
     (if cf_ControllerAddr cfg \<noteq> [] then [ControllerEmitter] else []) @
     map (\<lambda>(c, s). SignalEmitter c s) sinks"

fun buildRoutes :: "(RouteConfig \<Rightarrow> string + Route) \<Rightarrow> RouteConfig list \<Rightarrow> string + Route list" where
  "buildRoutes build [] = Inr []"
| "buildRoutes build (rc # rcs) =
     (case build rc of
        Inl err \<Rightarrow> Inl err
      | Inr r \<Rightarrow> (case buildRoutes build rcs of Inl err \<Rightarrow> Inl err | Inr rs \<Rightarrow> Inr (r # rs)))"

definition chooseMode :: "('h, 'w) boot \<Rightarrow> AppConfig \<Rightarrow> NullfieldPolicySpec \<Rightarrow> string \<Rightarrow> string + mode" where
  "chooseMode b cfg spec upstream =
     (if cf_RoutesPath cfg \<noteq> []
      then (case LoadGatewayConfig (bt_Routes b (cf_RoutesPath cfg)) (bt_DecodeRoutes b) of
              Inl err \<Rightarrow> Inl err
            | Inr rcs \<Rightarrow>
                (case buildRoutes (BuildRoute (bt_ParseURL b) (bt_Registry b) (\<lambda>path. le_load (bt_Loader b) (bt_RoutePolicy b path))
                    (le_cel (bt_Loader b))) rcs of
                   Inl err \<Rightarrow> Inl err
                 | Inr routes \<Rightarrow> Inr (GatewayMode (NewRouter routes))))
      else Inr (SidecarMode upstream (startInspector (bt_Regexp b) spec)))"

text \<open>A registry file that cannot be loaded leaves the registry empty.\<close>

definition startRegistry :: "('h, 'w) boot \<Rightarrow> AppConfig \<Rightarrow> Registry" where
  "startRegistry b cfg =
     (if cf_ToolRegistryPath cfg = [] then Registry_New
      else fst (Registry_LoadFromFile (bt_Registry b (cf_ToolRegistryPath cfg)) Registry_New))"

text \<open>Why the process ends with status 1.\<close>

datatype fatal = BadConfig config_error | BadUpstream string | NoController string | BadSignals string
  | BadIdentity env_error | BadRoutes string

definition sidecarProcess ::
  "('h, 'w) boot \<Rightarrow> AppConfig \<Rightarrow> (channel \<times> Sink) list \<Rightarrow> NullfieldPolicySpec \<Rightarrow> sidecar_verifier \<Rightarrow> mode \<Rightarrow> ('h, 'w) process" where
  "sidecarProcess b cfg sinks spec v m =
     (let controller = (cf_ControllerAddr cfg \<noteq> []); holds = startHolds controller spec;
          reg = startRegistry b cfg;
          (_, read1, read2) = bt_PolicyReads b
      in \<lparr>pr_Config = cfg, pr_Emitters = startEmitters b cfg sinks, pr_Spec = spec,
          pr_Engine = chooseEngine (bt_Loader b) (bt_ZeroHash b) (cf_PolicyPath cfg) spec read1 read2,
          pr_Verifier = v, pr_Integrity = startIntegrity spec, pr_Breaker = startBreaker cfg spec,
          pr_Velocity = startVelocity spec, pr_Budgets = startBudgets controller spec, pr_Holds = holds,
          pr_Credentials = startCredentials (bt_Getenv b) (bt_Vault b) cfg,
          pr_Vault = startVault (bt_Getenv b) cfg, pr_Registry = reg,
          pr_Reconciles = (cf_UpstreamAddr cfg \<noteq> [] \<and> Registry_All reg \<noteq> []), pr_Mode = m,
          pr_WriteTimeout = (if holds \<noteq> None then 10 * Minute else 30 * Second)\<rparr>)"

definition sidecarMain :: "('h, 'w) boot \<Rightarrow> fatal + ('h, 'w) process" where
  "sidecarMain b =
     (case Config_Load (bt_Getenv b) of
        Inl err \<Rightarrow> Inl (BadConfig err)
      | Inr cfg \<Rightarrow>
          (case (if cf_UpstreamAddr cfg = [] then Inr [] else bt_ParseURL b (''http://'' @ cf_UpstreamAddr cfg)) of
             Inl err \<Rightarrow> Inl (BadUpstream err)
           | Inr upstream \<Rightarrow>
               (case (if cf_ControllerAddr cfg = [] then None else bt_Dial b (cf_ControllerAddr cfg)) of
                  Some err \<Rightarrow> Inl (NoController err)
                | None \<Rightarrow>
                    (case FromEnv (bt_Signals b) \<lparr>so_Emits = sidecarEmits, so_KubeEvents = False\<rparr> of
                       Inl err \<Rightarrow> Inl (BadSignals err)
                     | Inr sinks \<Rightarrow>
                         let spec = startupSpec (bt_Loader b) (cf_PolicyPath cfg) (fst (bt_PolicyReads b)) in
                         (case chooseVerifier cfg spec of
                            Inl err \<Rightarrow> Inl (BadIdentity err)
                          | Inr v \<Rightarrow>
                              (case chooseMode b cfg spec upstream of
                                 Inl err \<Rightarrow> Inl (BadRoutes err)
                               | Inr m \<Rightarrow> Inr (sidecarProcess b cfg sinks spec v m)))))))"

text \<open>
  A moment of the running process: the clock, the key caches of the verifier and the state of the
  credential providers. The handler that serves then, with the engine that is active; a request
  sees the credentials as they are when it comes in.
\<close>

record 'w moment =
  mo_Now :: time
  mo_Verifier :: sidecar_verifier
  mo_Credentials :: "'w cred_state"

definition started_moment :: "('h, 'w) process \<Rightarrow> time \<Rightarrow> 'w \<Rightarrow> 'w moment" where
  "started_moment p now w =
     \<lparr>mo_Now = now, mo_Verifier = pr_Verifier p, mo_Credentials = \<lparr>cs_Clock = now, cs_Vault = pr_Vault p, cs_World = w\<rparr>\<rparr>"

definition processFetch :: "('h, 'w) process \<Rightarrow> 'w moment \<Rightarrow> string \<Rightarrow> string \<Rightarrow> string + string" where
  "processFetch p mo source ref = snd (MultiProvider_FetchFrom (pr_Credentials p) (mo_Credentials mo) source ref)"

definition processHandler :: "token_env \<Rightarrow> ('h, 'w) process \<Rightarrow> (Request \<Rightarrow> Decision) \<Rightarrow> 'w moment \<Rightarrow> Handler option" where
  "processHandler te p engine mo =
     (case pr_Mode p of
        SidecarMode upstream inspector \<Rightarrow>
          Some (NewHandler upstream engine (verifyAs te (mo_Verifier mo) (mo_Now mo)) (pr_Integrity p) (pr_Velocity p) (pr_Budgets p)
            (pr_Holds p) (Some (pr_Registry p)) (Some (pr_Breaker p)) (Some (processFetch p mo)) inspector)
      | GatewayMode _ \<Rightarrow> None)"

definition processGateway :: "token_env \<Rightarrow> ('h, 'w) process \<Rightarrow> 'w moment \<Rightarrow> GatewayHandler option" where
  "processGateway te p mo =
     (case pr_Mode p of
        SidecarMode _ _ \<Rightarrow> None
      | GatewayMode router \<Rightarrow>
          Some (NewGatewayHandler router (verifyAs te (mo_Verifier mo) (mo_Now mo)) (pr_Integrity p) (pr_Velocity p) (pr_Budgets p)
            (pr_Holds p) (Some (pr_Breaker p)) (Some (processFetch p mo))))"

text \<open>One tick of the minute's sweep, of the breaker and the integrity checker the handler holds.\<close>

definition sidecarSweep :: "Handler \<Rightarrow> time \<Rightarrow> Handler" where
  "sidecarSweep h now =
     h\<lparr>h_gates := (h_gates h)\<lparr>g_Breaker := map_option (\<lambda>b. Breaker_Sweep b now) (g_Breaker (h_gates h))\<rparr>,
       h_integrity := map_option (\<lambda>c. IntegrityChecker_Sweep c now) (h_integrity h)\<rparr>"

text \<open>
  The admin server: health, readiness and metrics always, the held calls only with a manager. \<open>ids\<close> is
  the order in which Go ranges over the pending calls.
\<close>

datatype admin_reply = AdminText string nat | AdminMetrics | AdminHolds reply

definition sidecarAdmin ::
  "Manager option \<Rightarrow> string list \<Rightarrow> string \<Rightarrow> string \<Rightarrow> string \<Rightarrow> time \<Rightarrow>
     Manager option \<times> admin_reply \<times> (string \<times> Resolution) option" where
  "sidecarAdmin holds ids meth path xApprover now =
     (if path = ''/healthz'' \<or> path = ''/readyz'' then (holds, AdminText ''ok'' 200, None)
      else if path = ''/metrics'' then (holds, AdminMetrics, None)
      else case holds of
          None \<Rightarrow> (holds, AdminText ''404 page not found'' 404, None)
        | Some m \<Rightarrow>
            (case admin_holds m ids meth path xApprover now of
               None \<Rightarrow> (holds, AdminText ''404 page not found'' 404, None)
             | Some (m', r, d) \<Rightarrow> (Some m', AdminHolds r, d)))"

section \<open>Reports to the controller\<close>

definition wrap32 :: "int \<Rightarrow> int" where
  "wrap32 x = (x + 2 ^ 31) mod 2 ^ 32 - 2 ^ 31"

definition int32PtrFromIntPtr :: "int option \<Rightarrow> int option" where
  "int32PtrFromIntPtr v = map_option wrap32 v"

definition controllerEmitter_Emit :: "Event \<Rightarrow> ReportEventRequest" where
  "controllerEmitter_Emit e = \<lparr>
     req_EventType = eventTypeName (ev_Type e), req_Method = ev_Method e, req_Tool = ev_ToolName e, req_Identity = ev_Identity e,
     req_SessionId = ev_SessionID e, req_Reason = ev_Reason e, req_Target = ev_Target e, req_Timestamp = ev_Time e,
     req_Gate = ev_Gate e, req_ReasonClass = ev_ReasonClass e, req_RuleIndex = int32PtrFromIntPtr (ev_RuleIndex e),
     req_RuleId = ev_RuleID e, req_PolicyRef = ev_PolicyRef e, req_RegistryRef = ev_RegistryRef e, req_Route = ev_Route e,
     req_Labels = ev_Labels e\<rparr>"

definition registration :: "environ \<Rightarrow> ('h, 'w) process \<Rightarrow> RegisterSidecarRequest" where
  "registration getenv p = \<lparr>rsq_TargetName = [], rsq_TargetNamespace = [], rsq_PodName = getenv ''HOSTNAME'', rsq_Version = ''dev'',
     rsq_ToolCount = wrap32 (int (length (Registry_All (pr_Registry p)))),
     rsq_RuleCount = wrap32 (int (length (ps_Rules (pr_Spec p))))\<rparr>"

section \<open>Reconciliation\<close>

definition startTracker :: "canon \<Rightarrow> Registry \<Rightarrow> time \<Rightarrow> LifecycleTracker" where
  "startTracker canon reg now = fst (LifecycleTracker_Snapshot canon (NewLifecycleTracker 10) reg now)"

text \<open>One tick: the tracker after it, and what is logged. \<open>tools\<close> is the upstream's list, or an error.\<close>

datatype drift_log = LogRugPull string string string | LogAdded "string list" | LogRemoved "string list"

definition driftLogs :: "DriftReport \<Rightarrow> drift_log list" where
  "driftLogs report =
     (if \<not> HasDrift report then []
      else (if HasRugPull report
            then map (\<lambda>d. LogRugPull (de_ToolName d) (de_PreviousHash d) (de_CurrentHash d)) (RugPulls report) else []) @
           (if rp_Added report \<noteq> [] then [LogAdded (map de_ToolName (rp_Added report))] else []) @
           (if rp_Removed report \<noteq> [] then [LogRemoved (map de_ToolName (rp_Removed report))] else []))"

definition reconcileTick ::
  "canon \<Rightarrow> Registry \<Rightarrow> LifecycleTracker \<Rightarrow> string + (string \<times> string) list \<Rightarrow> time \<Rightarrow> LifecycleTracker \<times> drift_log list" where
  "reconcileTick canon reg tracker tools now =
     (case tools of
        Inl err \<Rightarrow> (tracker, [])
      | Inr ts \<Rightarrow> (fst (LifecycleTracker_Snapshot canon tracker reg now), driftLogs (Reconcile canon reg (upstreamEntries ts) now)))"

section \<open>The engine in force\<close>

lemma Watch_engine:
  "hl_engine (HotLoader_Watch le l ticks) = Some e \<Longrightarrow>
     hl_engine l = Some e \<or> (\<exists>read \<in> snd ` set ticks. \<exists>s. le_load le read = Inr s \<and> e = NewRuleEngine (le_cel le) (ps_Rules s))"
proof (induction le l ticks rule: HotLoader_Watch.induct)
  case (2 le l read1 read2 ticks)
  have step: "hl_engine (fst (HotLoader_check le l read1 read2)) = Some e \<Longrightarrow>
      hl_engine l = Some e \<or> (\<exists>s. le_load le read2 = Inr s \<and> e = NewRuleEngine (le_cel le) (ps_Rules s))"
    by (auto simp: HotLoader_check_def Let_def split: sum.splits if_splits)
  from 2 step show ?case by auto
qed simp

lemma Watch_keeps_engine: "hl_engine l \<noteq> None \<Longrightarrow> hl_engine (HotLoader_Watch le l ticks) \<noteq> None"
proof (induction le l ticks rule: HotLoader_Watch.induct)
  case (2 le l read1 read2 ticks)
  have "hl_engine (fst (HotLoader_check le l read1 read2)) \<noteq> None"
    using 2(2) by (auto simp: HotLoader_check_def Let_def split: sum.splits)
  with 2(1) show ?case by simp
qed simp

lemma chooseEngine_cases:
  obtains "chooseEngine le zero path spec read1 read2 = StaticEngine (NewRuleEngine (le_cel le) (ps_Rules spec))"
  | l s where "chooseEngine le zero path spec read1 read2 = HotEngine l" "le_load le read1 = Inr s"
      "hl_engine l = Some (NewRuleEngine (le_cel le) (ps_Rules s))"
proof (cases "path = []")
  case True
  then show ?thesis using that(1) by (simp add: chooseEngine_def)
next
  case False
  then show ?thesis
    using that by (cases "le_load le read1") (simp_all add: chooseEngine_def LoadInitial_def Let_def)
qed

lemma startupSpec_cases:
  obtains "startupSpec le path read = denyAllSpec" | "le_load le read = Inr (startupSpec le path read)"
proof (cases "path = []")
  case True
  then show ?thesis using that(1) by (simp add: startupSpec_def)
next
  case False
  then have "startupSpec le path read = denyAllSpec \<or> le_load le read = Inr (startupSpec le path read)"
    by (cases "le_load le read") (auto simp: startupSpec_def)
  then show ?thesis using that by blast
qed

text \<open>The engine was built from a document the loader accepted, or it is the one that denies everything.\<close>

lemma engine_from_accepted:
  assumes "activeEngine (engineTicks le (chooseEngine le zero path (startupSpec le path read0) read1 read2) ticks) = Some engine"
  shows "engine = Evaluate (NewRuleEngine (le_cel le) (ps_Rules denyAllSpec)) \<or>
    (\<exists>read \<in> {read0, read1} \<union> snd ` set ticks. \<exists>s. le_load le read = Inr s \<and> engine = Evaluate (NewRuleEngine (le_cel le) (ps_Rules s)))"
proof (rule chooseEngine_cases [of le zero path "startupSpec le path read0" read1 read2])
  assume "chooseEngine le zero path (startupSpec le path read0) read1 read2 =
      StaticEngine (NewRuleEngine (le_cel le) (ps_Rules (startupSpec le path read0)))"
  with assms have "engine = Evaluate (NewRuleEngine (le_cel le) (ps_Rules (startupSpec le path read0)))"
    by simp
  then show ?thesis
    by (metis startupSpec_cases UnI1 insertI1)
next
  fix l s
  assume l: "chooseEngine le zero path (startupSpec le path read0) read1 read2 = HotEngine l" "le_load le read1 = Inr s"
    "hl_engine l = Some (NewRuleEngine (le_cel le) (ps_Rules s))"
  from assms l(1) obtain e where "hl_engine (HotLoader_Watch le l ticks) = Some e" "engine = Evaluate e"
    by (auto simp: hotLoaderEngine_Evaluate_def)
  with Watch_engine [of le l ticks e] l(2,3) show ?thesis by auto
qed

lemma engine_always_there:
  "activeEngine (engineTicks le (chooseEngine le zero path spec read1 read2) ticks) \<noteq> None"
proof (rule chooseEngine_cases [of le zero path spec read1 read2])
  fix l s
  assume "chooseEngine le zero path spec read1 read2 = HotEngine l" "hl_engine l = Some (NewRuleEngine (le_cel le) (ps_Rules s))"
  with Watch_keeps_engine [of l le ticks] show ?thesis by (simp add: hotLoaderEngine_Evaluate_def)
qed simp

lemma deny_all_denies: "\<not> d_Allowed (Evaluate (NewRuleEngine cel (ps_Rules denyAllSpec)) q)"
  by (auto simp: denyAllSpec_def policy_eval newRuleDecision_def defaultDeny_def ActionDeny_def ActionAllow_def ActionHold_def ActionScope_def
      split: sum.splits)

lemma loaded_tool:
  fixes f :: "string + ToolRegistry"
  assumes "Registry_IsRegistered (fst (Registry_LoadFromFile f Registry_New)) name"
  shows "\<exists>doc. f = Inr doc \<and> name \<in> te_Name ` set (tr_Tools doc)"
proof (cases f)
  case (Inl err)
  with assms show ?thesis by (simp add: Registry_LoadFromFile_def Registry_New_def Registry_IsRegistered_def)
next
  case (Inr doc)
  with assms LoadFromFile_lookup [of "()" Registry_New doc] show ?thesis by (simp add: Registry_LoadFromFile_def Let_def)
qed

lemma started_tool:
  assumes "Registry_IsRegistered (startRegistry b cfg) name"
  shows "\<exists>doc. bt_Registry b (cf_ToolRegistryPath cfg) = Inr doc \<and> name \<in> te_Name ` set (tr_Tools doc)"
  using assms by (intro loaded_tool) (simp add: startRegistry_def Registry_New_def Registry_IsRegistered_def split: if_splits)

lemma toolsCall_never_held:
  assumes "h_holds h = None"
  shows "handleToolsCall env h req body i hex now \<noteq> OnHold h1 evs c"
proof (cases "ParseToolsCall req")
  case (Inl err)
  then show ?thesis by (simp add: handleToolsCall_def)
next
  case (Inr tc)
  have np: "\<not> parks h d" for d using assms by (simp add: parks_def)
  show ?thesis
  proof (cases "Gates_Admit (h_gates h) (callOf tc i) (instant now)")
    case None
    show ?thesis
      unfolding handleToolsCall_not_parked [OF Inr None np] by (simp add: Let_def split: prod.split)
  next
    case (Some r)
    with handleToolsCall_admit_refused [OF Inr Some, of env body hex] show ?thesis by auto
  qed
qed

lemma never_held:
  assumes "h_holds h = None"
  shows "Handler_ServeHTTP env h hs raw hex now \<noteq> OnHold h1 evs c"
proof -
  have "h_holds (h\<lparr>h_integrity := y\<rparr>) = None" for y using assms by simp
  note toolsCall_never_held [OF this]
  then show ?thesis
    unfolding Handler_ServeHTTP_def Let_def by (auto split: option.split sum.split prod.split)
qed

lemma gateway_never_held:
  assumes "gw_holds gw = None"
  shows "GatewayHandler_ServeHTTP env ord gw hs raw hex now \<noteq> GOnHold gw1 evs route c"
proof -
  have call: "gatewayToolsCall env ord h req body i hex now \<noteq> GOnHold gw1 evs route c" if h: "gw_holds h = None" for h req body i
  proof (cases "ParseToolsCall req")
    case (Inr tc)
    have np: "\<not> gparks h d" for d using h by (simp add: gparks_def)
    show ?thesis
    proof (cases "Router_Resolve ord (gw_router h) (tc_Name tc)")
      case (Some ro)
      show ?thesis
      proof (cases "Gates_Admit (routeGates h ro) (callOf tc i) (instant now)")
        case None
        from gatewayToolsCall_decided [OF Inr Some None np, of env body hex] show ?thesis by auto
      qed (use Inr Some in \<open>auto simp: gatewayToolsCall_def callOf_def Let_def split: prod.splits\<close>)
    qed (use Inr in \<open>simp add: gatewayToolsCall_def\<close>)
  qed (simp add: gatewayToolsCall_def)
  have "gw_holds (gw\<lparr>gw_integrity := y\<rparr>) = None" for y using assms by simp
  note call [OF this]
  then show ?thesis
    unfolding GatewayHandler_ServeHTTP_def Let_def by (auto split: option.split sum.split prod.split list.split)
qed

lemma process_parts:
  "pr_Config (sidecarProcess b cfg sinks spec v m) = cfg" "pr_Spec (sidecarProcess b cfg sinks spec v m) = spec"
  "pr_Budgets (sidecarProcess b cfg sinks spec v m) = startBudgets (cf_ControllerAddr cfg \<noteq> []) spec"
  "pr_Holds (sidecarProcess b cfg sinks spec v m) = startHolds (cf_ControllerAddr cfg \<noteq> []) spec"
  "pr_Registry (sidecarProcess b cfg sinks spec v m) = startRegistry b cfg"
  "pr_Verifier (sidecarProcess b cfg sinks spec v m) = v" "pr_Mode (sidecarProcess b cfg sinks spec v m) = m"
  "pr_Engine (sidecarProcess b cfg sinks spec v m) = chooseEngine (bt_Loader b) (bt_ZeroHash b) (cf_PolicyPath cfg) spec
     (fst (snd (bt_PolicyReads b))) (snd (snd (bt_PolicyReads b)))"
  by (simp_all add: sidecarProcess_def Let_def split: prod.split)

lemma sidecarMain_process:
  assumes "sidecarMain b = Inr p"
  obtains cfg sinks v m up where "Config_Load (bt_Getenv b) = Inr cfg"
    "p = sidecarProcess b cfg sinks (startupSpec (bt_Loader b) (cf_PolicyPath cfg) (fst (bt_PolicyReads b))) v m"
    "chooseVerifier cfg (startupSpec (bt_Loader b) (cf_PolicyPath cfg) (fst (bt_PolicyReads b))) = Inr v"
    "chooseMode b cfg (startupSpec (bt_Loader b) (cf_PolicyPath cfg) (fst (bt_PolicyReads b))) up = Inr m"
  using assms by (auto simp: sidecarMain_def Let_def split: sum.splits option.splits)

text \<open>The issuers whose tokens the process accepts: those of the policy's providers, else that of the environment.\<close>

definition trusted_issuers :: "AppConfig \<Rightarrow> NullfieldPolicySpec \<Rightarrow> string set option" where
  "trusted_issuers cfg spec =
     (case ps_Identity spec of
        Some ic \<Rightarrow> if idc_Enabled ic \<and> idc_Providers ic \<noteq> [] then Some (ip_Issuer ` set (idc_Providers ic))
                    else if cf_IdentityJWKSURL cfg \<noteq> [] then Some {cf_IdentityJWKSIssuer cfg} else None
      | None \<Rightarrow> if cf_IdentityJWKSURL cfg \<noteq> [] then Some {cf_IdentityJWKSIssuer cfg} else None)"

lemma multi_issuer_trusted:
  assumes "later_verifier (SVMulti (NewMultiVerifier (map (providerVerifier header val) ps) header)) v"
    and "jwt_documented (tk_JWT te)" and "verifyAs te v now hs = Inr i"
  shows "id_Issuer i \<in> ip_Issuer ` set ps"
proof -
  let ?qs = "map (providerVerifier header val) ps"
  from assms(1) obtain m where m: "v = SVMulti m" "mv_header m = (if header = [] then ''Authorization'' else header)"
    "list_all2 same_settings ?qs (mv_providers m)"
    by (cases v) (auto simp: NewMultiVerifier_def)
  have q: "\<exists>q \<in> set ps. same_settings (providerVerifier header val q) x" if "x \<in> set (mv_providers m)" for x
    using m(3) that by (auto simp: list_all2_conv_all_nth in_set_conv_nth [of x]) (metis nth_mem)
  have "jv_header (providerVerifier header val q) = mv_header m \<and> \<not> jv_bare (providerVerifier header val q) \<and>
      jv_issuer (providerVerifier header val q) = ip_Issuer q" for q
    by (simp add: providerVerifier_def NewJWKSVerifier_def emptyJWKSConfig_def m(2))
  with q same_settings_parts
  have x: "jv_header x = mv_header m \<and> \<not> jv_bare x \<and> jv_issuer x \<in> ip_Issuer ` set ps" if "x \<in> set (mv_providers m)" for x
    using that by (metis imageI)
  obtain m' where "MultiVerifier_Verify te m hs now = (m', Inr i)"
    using assms(3) m(1) by (cases "MultiVerifier_Verify te m hs now") (auto simp: map_sum_def split: sum.splits)
  from Multi_issuer [OF assms(2) this] x show ?thesis by fastforce
qed

lemma env_issuer_trusted:
  assumes "envIdentity cfg = Inr v0" and "later_verifier v0 v" and "cf_IdentityJWKSURL cfg \<noteq> []"
    and "jwt_documented (tk_JWT te)" and "verifyAs te v now hs = Inr i"
  shows "id_Issuer i = cf_IdentityJWKSIssuer cfg"
proof -
  from assms(1,3) obtain w where w: "v0 = SVJWKS w" "jv_issuer w = cf_IdentityJWKSIssuer cfg" "jv_issuer w \<noteq> []"
    by (auto simp: envIdentity_def VerifierFromEnv_def NewJWKSVerifier_def split: if_splits sum.splits)
  with assms(2) obtain w' where w': "v = SVJWKS w'" "same_settings w w'" by (cases v) auto
  then obtain w'' where "JWKSVerifier_Verify te w' hs now = (w'', Inr i)"
    using assms(5) by (cases "JWKSVerifier_Verify te w' hs now") (auto simp: map_sum_def split: sum.splits)
  with assms(4) have "jv_issuer w' = [] \<or> id_Issuer i = jv_issuer w'"
    by (rule Verify_issuer)
  with w w' show ?thesis by (metis same_settings_parts)
qed

lemma chosen_issuer:
  assumes "chooseVerifier cfg spec = Inr v0" and "later_verifier v0 v"
    and "jwt_documented (tk_JWT te)" and "verifyAs te v now hs = Inr i" and "trusted_issuers cfg spec = Some S"
  shows "id_Issuer i \<in> S"
proof (cases "\<exists>ic. ps_Identity spec = Some ic \<and> idc_Enabled ic \<and> idc_Providers ic \<noteq> []")
  case True
  with assms show ?thesis
    by (auto simp: chooseVerifier_def trusted_issuers_def dest: multi_issuer_trusted)
next
  case False
  with assms(1,5) have "envIdentity cfg = Inr v0" "cf_IdentityJWKSURL cfg \<noteq> []" "S = {cf_IdentityJWKSIssuer cfg}"
    by (auto simp: chooseVerifier_def trusted_issuers_def split: option.splits if_splits)
  with env_issuer_trusted assms(2-4) show ?thesis by blast
qed

lemma started_issuer:
  assumes "sidecarMain b = Inr p" and "later_verifier (pr_Verifier p) v"
    and "jwt_documented (tk_JWT te)" and "verifyAs te v now hs = Inr i" and "trusted_issuers (pr_Config p) (pr_Spec p) = Some S"
  shows "id_Issuer i \<in> S"
proof -
  from assms(1) obtain cfg sinks w m where cfg: "p = sidecarProcess b cfg sinks
      (startupSpec (bt_Loader b) (cf_PolicyPath cfg) (fst (bt_PolicyReads b))) w m"
    and "chooseVerifier cfg (startupSpec (bt_Loader b) (cf_PolicyPath cfg) (fst (bt_PolicyReads b))) = Inr w"
    by (rule sidecarMain_process)
  with chosen_issuer assms(2-5) show ?thesis unfolding cfg process_parts by blast
qed

section \<open>A process\<close>

text \<open>A sidecar started with an empty environment, two registered tools and a policy with one rule.\<close>

definition demo_boot :: "Action \<Rightarrow> (string, nat) boot" where
  "demo_boot a = \<lparr>bt_Getenv = (\<lambda>_. []), bt_ParseURL = (\<lambda>_. Inr ''up''), bt_Dial = (\<lambda>_. None),
     bt_Registry = (\<lambda>_. Inr \<lparr>tr_APIVersion = [], tr_Kind = [], tr_Metadata = \<lparr>md_Name = [], md_Namespace = [], md_Labels = []\<rparr>,
        tr_Tools = [\<lparr>te_Name = ''ls'', te_Description = [], te_AllowedScopes = [], te_SignatureHash = [], te_MaxCallsPerMin = 0\<rparr>,
          \<lparr>te_Name = ''cat'', te_Description = [], te_AllowedScopes = [], te_SignatureHash = [], te_MaxCallsPerMin = 1\<rparr>]\<rparr>),
     bt_OTLP = (\<lambda>_. None),
     bt_Signals = \<lparr>sv_Getenv = (\<lambda>_. []), sv_ReadFile = (\<lambda>_. Inl []), sv_HasCerts = (\<lambda>_. False), sv_ParseURL = (\<lambda>_. Inl [])\<rparr>,
     bt_Loader = demo_loader, bt_ZeroHash = [], bt_PolicyReads = (Inr a, Inr a, Inr a),
     bt_Routes = (\<lambda>_. Inl []), bt_DecodeRoutes = (\<lambda>_. Inl []), bt_RoutePolicy = (\<lambda>_. Inl []),
     bt_Regexp = pe_Regexp demo_env, bt_Vault = demo_vault\<rparr>"

lemma demo_config: "\<exists>cfg. Config_Load (\<lambda>_. []) = Inr cfg \<and> cf_ControllerAddr cfg = [] \<and> cf_RoutesPath cfg = [] \<and>
    cf_PolicyPath cfg \<noteq> [] \<and> cf_IdentityJWKSURL cfg = [] \<and> \<not> cf_IdentityTrustHeader cfg \<and> cf_ToolRegistryPath cfg \<noteq> []"
  by (simp add: Config_Load_def envConfig_def envOr_def Atoi_def digit_value_def splitAudiences_def Let_def)

lemma demo_process_with:
  assumes "le_load le (Inr a) = Inr (demo_spec a)"
  shows "\<exists>cfg m. sidecarMain ((demo_boot a)\<lparr>bt_Loader := le\<rparr>) =
       Inr (sidecarProcess ((demo_boot a)\<lparr>bt_Loader := le\<rparr>) cfg [] (demo_spec a) SVNoop (SidecarMode ''up'' m)) \<and>
     cf_ControllerAddr cfg = [] \<and> cf_PolicyPath cfg \<noteq> [] \<and> cf_ToolRegistryPath cfg \<noteq> []"
proof -
  let ?b = "(demo_boot a)\<lparr>bt_Loader := le\<rparr>"
  obtain cfg where cfg: "Config_Load (\<lambda>_. []) = Inr cfg" "cf_ControllerAddr cfg = []" "cf_RoutesPath cfg = []"
    "cf_PolicyPath cfg \<noteq> []" "cf_IdentityJWKSURL cfg = []" "\<not> cf_IdentityTrustHeader cfg" "cf_ToolRegistryPath cfg \<noteq> []"
    using demo_config by blast
  have start: "startupSpec le path (Inr a) = (if path = [] then denyAllSpec else demo_spec a)" for path
    using assms by (simp add: startupSpec_def) (simp add: demo_spec_def)
  have v: "chooseVerifier cfg (demo_spec a) = Inr SVNoop"
    using cfg by (simp add: chooseVerifier_def demo_spec_def envIdentity_def VerifierFromEnv_def)
  have s: "FromEnv (bt_Signals ?b) \<lparr>so_Emits = sidecarEmits, so_KubeEvents = False\<rparr> = Inr []"
    by (simp add: FromEnv_def demo_boot_def kubeChannel_def webhookChannel_def Let_def)
  have b: "bt_Getenv ?b = (\<lambda>_. [])" "bt_ParseURL ?b x = Inr ''up''" "bt_Loader ?b = le" "fst (bt_PolicyReads ?b) = Inr a" for x
    by (simp_all add: demo_boot_def)
  have m: "chooseMode ?b cfg (demo_spec a) u = Inr (SidecarMode u (startInspector (bt_Regexp ?b) (demo_spec a)))" for u
    using cfg by (simp add: chooseMode_def)
  have u: "cf_UpstreamAddr cfg \<noteq> []"
    using Load_settings(3) [OF cfg(1)] by (simp add: envOr_def)
  have "sidecarMain ?b = Inr (sidecarProcess ?b cfg [] (demo_spec a) SVNoop
      (SidecarMode ''up'' (startInspector (bt_Regexp ?b) (demo_spec a))))"
    unfolding sidecarMain_def b cfg(1) sum.case s start using cfg u v m by (simp add: Let_def)
  with cfg show ?thesis by blast
qed

lemma demo_process:
  "\<exists>cfg m. sidecarMain (demo_boot a) = Inr (sidecarProcess (demo_boot a) cfg [] (demo_spec a) SVNoop (SidecarMode ''up'' m)) \<and>
     cf_ControllerAddr cfg = [] \<and> cf_PolicyPath cfg \<noteq> [] \<and> cf_ToolRegistryPath cfg \<noteq> []"
proof -
  have "(demo_boot a)\<lparr>bt_Loader := demo_loader\<rparr> = demo_boot a"
    by (simp add: demo_boot_def)
  with demo_process_with [OF demo_load, of a] show ?thesis by simp
qed

lemma demo_hot:
  "path \<noteq> [] \<Longrightarrow> \<exists>l. chooseEngine demo_loader [] path spec (Inr a) (Inr a) = HotEngine l \<and>
     hl_engine l = Some (NewRuleEngine (le_cel demo_loader) (ps_Rules (demo_spec a)))"
  by (simp add: chooseEngine_def LoadInitial_def demo_load Let_def)

definition demo_moment :: "nat moment" where
  "demo_moment = \<lparr>mo_Now = 0, mo_Verifier = SVNoop, mo_Credentials = \<lparr>cs_Clock = 0, cs_Vault = None, cs_World = 0\<rparr>\<rparr>"

lemma demo_serving:
  "\<exists>p e h. sidecarMain (demo_boot a) = Inr p \<and> activeEngine (engineTicks demo_loader (pr_Engine p) []) = Some (Evaluate e) \<and>
     e = NewRuleEngine (le_cel demo_loader) (ps_Rules (demo_spec a)) \<and> pr_Spec p = demo_spec a \<and>
     cf_ControllerAddr (pr_Config p) = [] \<and> pr_Verifier p = SVNoop \<and>
     processHandler demo_token_env p (Evaluate e) demo_moment = Some h \<and> g_Registry (h_gates h) = Some (pr_Registry p) \<and>
     h_engine h = Evaluate e \<and> h_upstream h = ''up'' \<and> h_verifier h = verifyAs demo_token_env SVNoop 0 \<and> h_integrity h = None \<and>
     Registry_Get (pr_Registry p) ''ls'' =
       Some \<lparr>te_Name = ''ls'', te_Description = [], te_AllowedScopes = [], te_SignatureHash = [], te_MaxCallsPerMin = 0\<rparr> \<and>
     g_Budgets (h_gates h) = None \<and> g_Velocity (h_gates h) = None"
proof -
  obtain cfg m where p: "sidecarMain (demo_boot a) = Inr (sidecarProcess (demo_boot a) cfg [] (demo_spec a) SVNoop (SidecarMode ''up'' m))"
    "cf_ControllerAddr cfg = []" "cf_PolicyPath cfg \<noteq> []" "cf_ToolRegistryPath cfg \<noteq> []"
    using demo_process by blast
  let ?p = "sidecarProcess (demo_boot a) cfg [] (demo_spec a) SVNoop (SidecarMode ''up'' m)"
  obtain l where "pr_Engine ?p = HotEngine l" "hl_engine l = Some (NewRuleEngine (le_cel demo_loader) (ps_Rules (demo_spec a)))"
    using demo_hot [OF p(3), of "demo_spec a" a] unfolding process_parts by (auto simp: demo_boot_def)
  moreover have "pr_Mode ?p = SidecarMode ''up'' m" "pr_Verifier ?p = SVNoop" "pr_Integrity ?p = startIntegrity (demo_spec a)"
    "pr_Velocity ?p = startVelocity (demo_spec a)"
    by (simp_all add: sidecarProcess_def Let_def split: prod.split)
  moreover have "startIntegrity (demo_spec a) = None" "startVelocity (demo_spec a) = None" "startBudgets False (demo_spec a) = None"
    by (simp_all add: startIntegrity_def startVelocity_def startBudgets_def demo_spec_def emptyRule_def)
  moreover have "Registry_Get (pr_Registry ?p) ''ls'' =
      Some \<lparr>te_Name = ''ls'', te_Description = [], te_AllowedScopes = [], te_SignatureHash = [], te_MaxCallsPerMin = 0\<rparr>"
    unfolding process_parts using p(4) by (simp add: startRegistry_def demo_boot_def Registry_LoadFromFile_def Registry_Register_def Registry_New_def Registry_Get_def)
  ultimately show ?thesis
    using p by (simp add: hotLoaderEngine_Evaluate_def processHandler_def demo_moment_def NewHandler_def process_parts(1-4))
qed

section \<open>Properties\<close>

text \<open>
  C5. What the running sidecar forwards. However the process was started and whatever has happened to
  the policy file, the key caches and the gates since, an incoming tools/call is forwarded only if the verifier
  chosen at start accepts the caller, under an issuer it was configured with, the tool is in the
  registry file, and the rules of one policy document allow the call, where that document was read from the
  policy file and accepted by the loader. In particular nothing is forwarded when no policy, or no
  registry, could be loaded.\<close>

theorem sidecar_forwards_only_accepted:
  assumes "sidecarMain b = Inr p"
    and "activeEngine (engineTicks (bt_Loader b) (pr_Engine p) ticks) = Some engine"
    and "later_verifier (pr_Verifier p) (mo_Verifier mo)"
    and "processHandler te p engine mo = Some h" and "g_Registry g = Some (pr_Registry p)"
    and "unmarshalRPC (pe_JSON env) (take (2 ^ 20) raw) = Inr req" and "jr_Method req = MethodToolsCall"
    and "Handler_ServeHTTP env (h\<lparr>h_gates := g, h_integrity := x\<rparr>) hs (Some raw) hex now = Finished h' r"
    and "hd_Sent r = Some (u, body)"
  shows "\<exists>i tc doc read spec. verifyAs te (mo_Verifier mo) (mo_Now mo) hs = Inr i \<and> ParseToolsCall req = Inr tc \<and>
     (\<forall>S. trusted_issuers (pr_Config p) (pr_Spec p) = Some S \<longrightarrow> jwt_documented (tk_JWT te) \<longrightarrow> id_Issuer i \<in> S) \<and>
     bt_Registry b (cf_ToolRegistryPath (pr_Config p)) = Inr doc \<and> tc_Name tc \<in> te_Name ` set (tr_Tools doc) \<and>
     read \<in> {fst (bt_PolicyReads b), fst (snd (bt_PolicyReads b))} \<union> snd ` set ticks \<and>
     le_load (bt_Loader b) read = Inr spec \<and>
     d_Allowed (Evaluate (NewRuleEngine (le_cel (bt_Loader b)) (ps_Rules spec)) (requestOf req tc i))"
proof -
  from assms(1) obtain cfg sinks v m where cfg: "p = sidecarProcess b cfg sinks
      (startupSpec (bt_Loader b) (cf_PolicyPath cfg) (fst (bt_PolicyReads b))) v m"
    by (rule sidecarMain_process)
  have h: "h_verifier h = verifyAs te (mo_Verifier mo) (mo_Now mo)" "h_engine h = engine"
    using assms(4) by (auto simp: processHandler_def NewHandler_def split: mode.splits)
  from ServeHTTP_toolsCall [OF assms(6,7), of "h\<lparr>h_gates := g, h_integrity := x\<rparr>" hs now hex] assms(8,9)
  obtain i y where i: "verifyAs te (mo_Verifier mo) (mo_Now mo) hs = Inr i"
    "handleToolsCall env (h\<lparr>h_gates := g, h_integrity := y\<rparr>) req (take (2 ^ 20) raw) i hex now = Finished h' r"
    using h by fastforce
  then obtain tc where tc: "ParseToolsCall req = Inr tc" "Gates_Admit g (callOf tc i) (instant now) = None"
    "d_Allowed (engine (requestOf req tc i))"
    using handleToolsCall_sent_iff [of env "h\<lparr>h_gates := g, h_integrity := y\<rparr>" req "take (2 ^ 20) raw" i hex now u body] assms(9) h
    by (auto simp: Let_def)
  have "Registry_IsRegistered (pr_Registry p) (tc_Name tc)"
    using tc(2) assms(5) ParseToolsCall_named [OF tc(1)] by (auto simp: Gates_Admit_def callOf_def split: if_splits)
  then obtain doc where doc: "bt_Registry b (cf_ToolRegistryPath (pr_Config p)) = Inr doc" "tc_Name tc \<in> te_Name ` set (tr_Tools doc)"
    using started_tool unfolding cfg process_parts by blast
  have issuer: "id_Issuer i \<in> S" if "trusted_issuers (pr_Config p) (pr_Spec p) = Some S" "jwt_documented (tk_JWT te)" for S
    using started_issuer [OF assms(1,3) that(2) i(1) that(1)] .
  from engine_from_accepted [OF assms(2) [unfolded cfg process_parts]] tc(3) deny_all_denies
  obtain read spec where "read \<in> {fst (bt_PolicyReads b), fst (snd (bt_PolicyReads b))} \<union> snd ` set ticks"
    "le_load (bt_Loader b) read = Inr spec" "engine = Evaluate (NewRuleEngine (le_cel (bt_Loader b)) (ps_Rules spec))"
    by metis
  with i(1) tc(1,3) doc issuer show ?thesis by blast
qed

lemma demo_forwards:
  "\<exists>p e h h' r. sidecarMain (demo_boot ActionAllow) = Inr p \<and>
     activeEngine (engineTicks demo_loader (pr_Engine p) []) = Some (Evaluate e) \<and> processHandler demo_token_env p (Evaluate e) demo_moment = Some h \<and>
     g_Registry (h_gates h) = Some (pr_Registry p) \<and> pr_Verifier p = SVNoop \<and>
     Handler_ServeHTTP demo_env h [] (Some ''A'') ''1'' \<lparr>instant = 0, YearDay = 1\<rparr> = Finished h' r \<and> hd_Sent r = Some (''up'', ''A'')"
proof -
  obtain p e h where h: "sidecarMain (demo_boot ActionAllow) = Inr p" "activeEngine (engineTicks demo_loader (pr_Engine p) []) = Some (Evaluate e)"
    "e = NewRuleEngine (le_cel demo_loader) (ps_Rules (demo_spec ActionAllow))"
    "processHandler demo_token_env p (Evaluate e) demo_moment = Some h" "g_Registry (h_gates h) = Some (pr_Registry p)"
    "h_engine h = Evaluate e" "h_upstream h = ''up''" "h_verifier h = verifyAs demo_token_env SVNoop 0" "h_integrity h = None"
    "Registry_Get (pr_Registry p) ''ls'' =
       Some \<lparr>te_Name = ''ls'', te_Description = [], te_AllowedScopes = [], te_SignatureHash = [], te_MaxCallsPerMin = 0\<rparr>"
    "g_Budgets (h_gates h) = None" "g_Velocity (h_gates h) = None" "pr_Verifier p = SVNoop"
    using demo_serving [of ActionAllow] by blast
  let ?req = "\<lparr>jr_JSONRPC = [], jr_ID = VInt 7, jr_Method = MethodToolsCall, jr_Params = Some (VMap [(''name'', VStr ''ls'')])\<rparr>"
  let ?i = "emptyIdentity\<lparr>id_Subject := ''dev-user'', id_SessionID := []\<rparr>" and ?now = "\<lparr>instant = 0, YearDay = 1\<rparr>"
  let ?tc = "\<lparr>tc_Name = ''ls'', tc_Arguments = None\<rparr>"
  have v: "h_verifier h [] = Inr ?i"
    by (simp add: h(8) NoopVerifier_Verify_def)
  have up: "h\<lparr>h_integrity := None\<rparr> = h" using h(9) by simp
  have eq: "Handler_ServeHTTP demo_env h [] (Some ''A'') ''1'' ?now = handleToolsCall demo_env h ?req ''A'' ?i ''1'' ?now"
    using demo_request v h(9) by (simp add: Handler_ServeHTTP_def) (simp only: up)
  have "Gates_Admit (h_gates h) (callOf ?tc ?i) 0 = None"
    using h(5,10) by (simp add: Gates_Admit_def callOf_def Breaker_Allow_def Registry_IsRegistered_def Registry_Get_def split: option.split)
  moreover have d: "d_Allowed (Evaluate e q)" "\<not> d_Scoped (Evaluate e q)" "\<exists>r. d_MatchedRule (Evaluate e q) = Some r \<and> r_MaxCallsPerMin r = 0 \<and> r_Budget r = None" for q
    by (simp_all add: h(3) demo_spec_def policy_eval newRuleDecision_def NewRuleEngine_def emptyDecision_def)
  moreover have "\<not> parks h (Evaluate e q)" for q
    using rules.held_not_allowed [of e q] d(1) by (auto simp: parks_def)
  moreover have "\<exists>g w. Gates_Charge (h_gates h) (callOf ?tc ?i) (Evaluate e q) ?now = (g, None, w)" for q
    using h(5,10,11,12) d(3) [of q]
    by (auto simp: Gates_Charge_def chargeRates_def chargeBudget_def ruleLimits_def toolLimits_def callOf_def Let_def)
  ultimately have "\<exists>h' r. handleToolsCall demo_env h ?req ''A'' ?i ''1'' ?now = Finished h' r \<and> hd_Sent r = Some (''up'', ''A'')"
    unfolding handleToolsCall_sent_iff using Proxy.demo_parse h(6,7) by (simp add: scopeStage_def Let_def)
  with eq h show ?thesis by metis
qed

lemma sidecar_forwards_only_accepted_witness:
  "\<exists>p h h' r i tc spec. sidecarMain (demo_boot ActionAllow) = Inr p \<and>
     Handler_ServeHTTP demo_env h [] (Some ''A'') ''1'' \<lparr>instant = 0, YearDay = 1\<rparr> = Finished h' r \<and> hd_Sent r = Some (''up'', ''A'') \<and>
     verifyAs demo_token_env SVNoop 0 [] = Inr i \<and> le_load demo_loader (Inr ActionAllow) = Inr spec \<and>
     d_Allowed (Evaluate (NewRuleEngine (le_cel demo_loader) (ps_Rules spec)) (requestOf
       \<lparr>jr_JSONRPC = [], jr_ID = VInt 7, jr_Method = MethodToolsCall, jr_Params = Some (VMap [(''name'', VStr ''ls'')])\<rparr> tc i))"
proof -
  obtain p e h h' r where r: "sidecarMain (demo_boot ActionAllow) = Inr p"
    "activeEngine (engineTicks demo_loader (pr_Engine p) []) = Some (Evaluate e)" "processHandler demo_token_env p (Evaluate e) demo_moment = Some h"
    "g_Registry (h_gates h) = Some (pr_Registry p)"
    "Handler_ServeHTTP demo_env h [] (Some ''A'') ''1'' \<lparr>instant = 0, YearDay = 1\<rparr> = Finished h' r" "hd_Sent r = Some (''up'', ''A'')"
    "pr_Verifier p = SVNoop"
    using demo_forwards by blast
  have b: "bt_Loader (demo_boot ActionAllow) = demo_loader" "bt_PolicyReads (demo_boot ActionAllow) = (Inr ActionAllow, Inr ActionAllow, Inr ActionAllow)"
    by (simp_all add: demo_boot_def)
  have "later_verifier (pr_Verifier p) (mo_Verifier demo_moment)" and mo: "mo_Verifier demo_moment = SVNoop" "mo_Now demo_moment = 0"
    using r(7) by (simp_all add: demo_moment_def)
  moreover have "h\<lparr>h_gates := h_gates h, h_integrity := h_integrity h\<rparr> = h" by simp
  ultimately obtain i tc spec where "verifyAs demo_token_env SVNoop 0 [] = Inr i" "le_load demo_loader (Inr ActionAllow) = Inr spec"
    "d_Allowed (Evaluate (NewRuleEngine (le_cel demo_loader) (ps_Rules spec)) (requestOf
       \<lparr>jr_JSONRPC = [], jr_ID = VInt 7, jr_Method = MethodToolsCall, jr_Params = Some (VMap [(''name'', VStr ''ls'')])\<rparr> tc i))"
    using sidecar_forwards_only_accepted [OF r(1) _ _ r(3,4) demo_request _ _ r(6), of "[]" "h_integrity h" "[]" "''1''" "\<lparr>instant = 0, YearDay = 1\<rparr>" h'] r(2,5)
    unfolding b mo by auto
  with r show ?thesis by blast
qed

text \<open>
  C39. The sidecar never lacks an engine: once the process has started, whatever the policy file was at
  each read during the start and whatever it has been at each poll since, the hot loader's engine
  is never nil when a call is evaluated.\<close>

theorem sidecar_engine_never_nil:
  assumes "sidecarMain b = Inr p"
  shows "\<exists>engine. activeEngine (engineTicks (bt_Loader b) (pr_Engine p) ticks) = Some engine"
proof -
  from assms obtain cfg sinks v m where "p = sidecarProcess b cfg sinks
      (startupSpec (bt_Loader b) (cf_PolicyPath cfg) (fst (bt_PolicyReads b))) v m"
    by (rule sidecarMain_process)
  with engine_always_there show ?thesis
    by (metis process_parts(8) not_None_eq)
qed

lemma sidecar_engine_never_nil_witness:
  "\<exists>p engine. sidecarMain (demo_boot ActionAllow) = Inr p \<and>
     activeEngine (engineTicks (bt_Loader (demo_boot ActionAllow)) (pr_Engine p) [(Inl ''gone'', Inl ''gone'')]) = Some engine"
proof -
  obtain p where "sidecarMain (demo_boot ActionAllow) = Inr p" using demo_serving by blast
  with sidecar_engine_never_nil [OF this] show ?thesis by blast
qed

text \<open>
  Budgets and holds are wired once, from one file. When a controller is configured, or no rule of the
  policy read at the start has a budget or holds calls, the process has neither a budget tracker nor a hold
  manager, in either mode: a freshly started handler charges no budget and parks no call. (What this means for
  traffic is in \<open>Traffic\<close>.)\<close>

theorem late_wiring:
  assumes "sidecarMain b = Inr p"
    and "cf_ControllerAddr (pr_Config p) \<noteq> [] \<or> (\<forall>r \<in> set (ps_Rules (pr_Spec p)). r_Budget r = None \<and> r_Action r \<noteq> ActionHold)"
  shows "(\<forall>h. processHandler te p engine mo = Some h \<longrightarrow>
      chargeBudget (h_gates h) call rule now = (h_gates h, None) \<and> Handler_ServeHTTP env h hs raw hex now \<noteq> OnHold h1 evs c) \<and>
    (\<forall>gw. processGateway te p mo = Some gw \<longrightarrow>
      chargeBudget (routeGates gw route) call rule now = (routeGates gw route, None) \<and>
      GatewayHandler_ServeHTTP env ord gw hs raw hex now \<noteq> GOnHold gw1 evs route' c)"
proof -
  from assms(1) obtain cfg sinks v m where p: "p = sidecarProcess b cfg sinks
      (startupSpec (bt_Loader b) (cf_PolicyPath cfg) (fst (bt_PolicyReads b))) v m"
    by (rule sidecarMain_process)
  have none: "pr_Budgets p = None" "pr_Holds p = None"
    using assms(2) unfolding p process_parts by (auto simp: startBudgets_def startHolds_def)
  have charge: "chargeBudget g call rule now = (g, None)" if "g_Budgets g = None" for g
    using that by (simp add: chargeBudget_def)
  have h: "g_Budgets (h_gates h) = None \<and> h_holds h = None" if "processHandler te p engine mo = Some h" for h
    using that none by (auto simp: processHandler_def NewHandler_def split: mode.splits)
  have gw: "g_Budgets (routeGates gw route) = None \<and> gw_holds gw = None" if "processGateway te p mo = Some gw" for gw
    using that none by (auto simp: processGateway_def NewGatewayHandler_def routeGates_def split: mode.splits)
  show ?thesis
    by (intro conjI allI impI charge never_held gateway_never_held) (simp_all add: h gw)
qed

lemma late_wiring_witness:
  "\<exists>p e h. sidecarMain (demo_boot ActionAllow) = Inr p \<and> processHandler demo_token_env p (Evaluate e) demo_moment = Some h \<and>
     chargeBudget (h_gates h) \<lparr>c_Tool = ''ls'', c_Subject = ''u'', c_Session = []\<rparr>
       (Some (emptyRule\<lparr>r_Budget := Some \<lparr>PerIdentity = Some \<lparr>MaxCallsPerHour = 0, MaxCallsPerDay = 0, MaxTokensPerDay = 0\<rparr>,
          PerSession = None, OnExhausted = []\<rparr>\<rparr>))
       \<lparr>instant = 0, YearDay = 1\<rparr> = (h_gates h, None)"
proof -
  obtain p e h where h: "sidecarMain (demo_boot ActionAllow) = Inr p" "processHandler demo_token_env p (Evaluate e) demo_moment = Some h"
    "pr_Spec p = demo_spec ActionAllow"
    using demo_serving by blast
  have "\<forall>r \<in> set (ps_Rules (pr_Spec p)). r_Budget r = None \<and> r_Action r \<noteq> ActionHold"
    by (simp add: h(3) demo_spec_def emptyRule_def ActionAllow_def ActionHold_def)
  with late_wiring [OF h(1), THEN conjunct1] h(2)
  have "chargeBudget (h_gates h) call rule now = (h_gates h, None)" for call rule now by blast
  with h(1,2) show ?thesis by blast
qed

end
