(* ===== verification/GatewayMain.thy ===== *)
theory GatewayMain
  imports SidecarMain
begin

text \<open>
  The sidecar binary in gateway mode (\<open>cmd/nullfield/main.go\<close> with a routes file): what a route of the
  started process is, and what the process forwards.
\<close>

section \<open>Routes of a started process\<close>

lemma buildRoutes_in:
  "buildRoutes build rcs = Inr routes \<Longrightarrow> route \<in> set routes \<Longrightarrow> \<exists>rc \<in> set rcs. build rc = Inr route"
  by (induction rcs arbitrary: routes) (auto split: sum.splits)

lemma BuildRoute_ok:
  assumes "BuildRoute parseURL loadRegistry loadPolicy cel rc = Inr route"
  shows "parseURL (''http://'' @ rc_Upstream rc) = Inr (ro_UpstreamAddr route)"
    and "ro_ToolPrefix route = rc_ToolPrefix rc" and "ro_ToolNames route = rc_ToolNames rc"
    and "ro_Registry route = (if rc_RegistryFile rc \<noteq> [] then fst (Registry_LoadFromFile (loadRegistry (rc_RegistryFile rc)) Registry_New)
      else Registry_New)"
    and "if rc_PolicyFile rc \<noteq> []
      then \<exists>spec. loadPolicy (rc_PolicyFile rc) = Inr spec \<and> ro_Engine route = Evaluate (NewRuleEngine cel (ps_Rules spec))
      else ro_Engine route = Evaluate (NewRuleEngine cel [])"
  using assms by (auto simp: BuildRoute_def map_sum_def split: if_splits sum.splits prod.splits option.splits)

lemma no_rules_deny: "\<not> d_Allowed (Evaluate (NewRuleEngine cel []) q)"
  by (simp add: policy_eval NewRuleEngine_def defaultDeny_def emptyDecision_def)

text \<open>The routes of a process in gateway mode were built one by one from its routes file.\<close>

lemma gateway_routes:
  assumes "sidecarMain b = Inr p" and "pr_Mode p = GatewayMode router"
  obtains rcs routes where "LoadGatewayConfig (bt_Routes b (cf_RoutesPath (pr_Config p))) (bt_DecodeRoutes b) = Inr rcs"
    "buildRoutes (BuildRoute (bt_ParseURL b) (bt_Registry b) (\<lambda>path. le_load (bt_Loader b) (bt_RoutePolicy b path)) (le_cel (bt_Loader b))) rcs = Inr routes"
    "router = NewRouter routes"
proof -
  from assms(1) obtain cfg sinks v m up where cfg: "p = sidecarProcess b cfg sinks
      (startupSpec (bt_Loader b) (cf_PolicyPath cfg) (fst (bt_PolicyReads b))) v m"
    and m: "chooseMode b cfg (startupSpec (bt_Loader b) (cf_PolicyPath cfg) (fst (bt_PolicyReads b))) up = Inr m"
    by (rule sidecarMain_process)
  have "m = GatewayMode router" using assms(2) unfolding cfg process_parts .
  with m have "\<exists>rcs routes. LoadGatewayConfig (bt_Routes b (cf_RoutesPath cfg)) (bt_DecodeRoutes b) = Inr rcs \<and>
    buildRoutes (BuildRoute (bt_ParseURL b) (bt_Registry b) (\<lambda>path. le_load (bt_Loader b) (bt_RoutePolicy b path)) (le_cel (bt_Loader b))) rcs = Inr routes \<and>
    router = NewRouter routes"
    by (auto simp: chooseMode_def split: if_splits sum.splits)
  then show thesis using that unfolding cfg process_parts by blast
qed

section \<open>Properties\<close>


text \<open>A process with one route, for the tools whose names begin with l.\<close>

definition demo_routes :: "RouteConfig list" where
  "demo_routes = [\<lparr>rc_Name = ''a'', rc_Upstream = ''u'', rc_ToolPrefix = ''l'', rc_ToolNames = [], rc_PolicyFile = ''p'', rc_RegistryFile = ''t''\<rparr>]"

definition demo_gateway_boot :: "(string, nat) boot" where
  "demo_gateway_boot = (demo_boot ActionAllow)\<lparr>bt_Getenv := (\<lambda>k. if k = ''NULLFIELD_ROUTES_PATH'' then ''r'' else []),
     bt_Routes := (\<lambda>_. Inr []), bt_DecodeRoutes := (\<lambda>_. Inr demo_routes), bt_RoutePolicy := (\<lambda>_. Inr ActionAllow)\<rparr>"

definition demo_built :: Route where
  "demo_built = \<lparr>ro_Name = ''a'', ro_UpstreamAddr = ''up'', ro_ToolPrefix = ''l'', ro_ToolNames = [],
     ro_Engine = Evaluate (NewRuleEngine (le_cel demo_loader) (ps_Rules (demo_spec ActionAllow))),
     ro_Registry = [(''ls'', \<lparr>te_Name = ''ls'', te_Description = [], te_AllowedScopes = [], te_SignatureHash = [], te_MaxCallsPerMin = 0\<rparr>),
       (''cat'', \<lparr>te_Name = ''cat'', te_Description = [], te_AllowedScopes = [], te_SignatureHash = [], te_MaxCallsPerMin = 1\<rparr>)]\<rparr>"

lemma demo_gateway_mode:
  "cf_RoutesPath cfg \<noteq> [] \<Longrightarrow> chooseMode demo_gateway_boot cfg spec up = Inr (GatewayMode (NewRouter [demo_built]))"
proof -
  have "LoadGatewayConfig (bt_Routes demo_gateway_boot path) (bt_DecodeRoutes demo_gateway_boot) = Inr demo_routes" for path
    by (simp add: LoadGatewayConfig_def demo_gateway_boot_def demo_routes_def)
  moreover have "bt_ParseURL demo_gateway_boot x = Inr ''up''" "bt_RoutePolicy demo_gateway_boot x = Inr ActionAllow"
    "bt_Loader demo_gateway_boot = demo_loader" "bt_Registry demo_gateway_boot x = bt_Registry (demo_boot ActionAllow) x" for x
    by (simp_all add: demo_gateway_boot_def demo_boot_def)
  ultimately show "cf_RoutesPath cfg \<noteq> [] \<Longrightarrow> ?thesis"
    by (simp add: chooseMode_def demo_routes_def BuildRoute_def demo_load)
      (simp add: demo_boot_def demo_built_def Registry_LoadFromFile_def Registry_Register_def Registry_New_def)
qed

lemma demo_gateway_starts:
  "\<exists>p. sidecarMain demo_gateway_boot = Inr p \<and> pr_Mode p = GatewayMode (NewRouter [demo_built]) \<and> pr_Verifier p = SVNoop \<and>
     pr_Integrity p = None \<and> pr_Velocity p = None \<and> pr_Budgets p = None"
proof -
  obtain cfg where cfg: "Config_Load (bt_Getenv demo_gateway_boot) = Inr cfg" "cf_ControllerAddr cfg = []" "cf_RoutesPath cfg \<noteq> []"
    "cf_PolicyPath cfg \<noteq> []" "cf_IdentityJWKSURL cfg = []" "\<not> cf_IdentityTrustHeader cfg"
    by (simp add: demo_gateway_boot_def Config_Load_def envConfig_def envOr_def Atoi_def digit_value_def splitAudiences_def Let_def)
  have b: "bt_ParseURL demo_gateway_boot x = Inr ''up''" "bt_Loader demo_gateway_boot = demo_loader"
    "fst (bt_PolicyReads demo_gateway_boot) = Inr ActionAllow" for x
    by (simp_all add: demo_gateway_boot_def demo_boot_def)
  have start: "startupSpec demo_loader (cf_PolicyPath cfg) (Inr ActionAllow) = demo_spec ActionAllow"
    using cfg(4) demo_load [of ActionAllow] by (simp add: startupSpec_def) (simp add: demo_spec_def)
  have v: "chooseVerifier cfg (demo_spec ActionAllow) = Inr SVNoop"
    using cfg by (simp add: chooseVerifier_def demo_spec_def envIdentity_def VerifierFromEnv_def)
  have s: "FromEnv (bt_Signals demo_gateway_boot) \<lparr>so_Emits = sidecarEmits, so_KubeEvents = False\<rparr> = Inr []"
    by (simp add: FromEnv_def demo_gateway_boot_def demo_boot_def kubeChannel_def webhookChannel_def Let_def)
  let ?p = "sidecarProcess demo_gateway_boot cfg [] (demo_spec ActionAllow) SVNoop (GatewayMode (NewRouter [demo_built]))"
  have "sidecarMain demo_gateway_boot = Inr ?p"
    unfolding sidecarMain_def cfg(1) sum.case s b start using cfg(2) v demo_gateway_mode [OF cfg(3)] by (simp add: Let_def b)
  moreover have "pr_Integrity ?p = startIntegrity (demo_spec ActionAllow)" "pr_Velocity ?p = startVelocity (demo_spec ActionAllow)"
    by (simp_all add: sidecarProcess_def Let_def split: prod.split)
  ultimately show ?thesis
    by (intro exI [of _ ?p]) (simp add: process_parts startIntegrity_def startVelocity_def startBudgets_def demo_spec_def emptyRule_def)
qed


end
