(* ===== verification/ArbiterMain.thy ===== *)
theory ArbiterMain
  imports SidecarMain
begin

text \<open>
  The decision service (\<open>cmd/nullfield-extauthz/main.go\<close>): from the environment and the files it is
  started with to the server that answers Envoy.
\<close>

section \<open>Starting\<close>

record arbiter_boot =
  ab_LookupEnv :: "string \<Rightarrow> string option"
  ab_PolicyFile :: "string \<Rightarrow> file_read"
  ab_Decode :: yaml_policy
  ab_CEL :: cel_env
  ab_SkewFirst :: bool
  ab_Registry :: "string \<Rightarrow> string + ToolRegistry"
  ab_Operations :: "string \<Rightarrow> string + (string + File) list"
  ab_OTLP :: "string \<Rightarrow> string option"
  ab_Signals :: signals_env
  ab_Tokens :: token_env
  ab_Now :: time
  ab_LookupAddr :: "string \<Rightarrow> string list"
  ab_Listen :: "string \<Rightarrow> string option"

definition ab_Getenv :: "arbiter_boot \<Rightarrow> environ" where
  "ab_Getenv b key = (case ab_LookupEnv b key of None \<Rightarrow> [] | Some v \<Rightarrow> v)"

definition loadSpec :: "arbiter_boot \<Rightarrow> string \<Rightarrow> string + NullfieldPolicySpec" where
  "loadSpec b path =
     (if path = [] then Inl ''no policy path configured''
      else case LoadSpecFromFile (ab_Decode b) (ab_CEL b) (ab_SkewFirst b) (ab_PolicyFile b path) of
          Inl err \<Rightarrow> Inl (''load policy from '' @ path @ '': '' @ err)
        | Inr spec \<Rightarrow> Inr spec)"

definition runTokenSettings :: "RunTokenConfig \<Rightarrow> RunTokenSettings" where
  "runTokenSettings rt =
     \<lparr>rs_JWKSURI = rt_JWKSURI rt, rs_Audience = rt_Audience rt, rs_Issuer = rt_Issuer rt,
      rs_MaxLifetime = durationOr0 (rt_MaxLifetime rt), rs_ClockSkew = durationOr0 (rt_ClockSkew rt)\<rparr>"

definition runTokens :: "NullfieldPolicySpec \<Rightarrow> JWKSVerifier option" where
  "runTokens spec = map_option (\<lambda>rt. NewRunTokenVerifier (runTokenSettings rt)) (ps_RunToken spec)"

definition runBreaker :: "NullfieldPolicySpec \<Rightarrow> Breaker option" where
  "runBreaker spec =
     (let cb = ps_CircuitBreaker spec in
      if ps_RunToken spec \<noteq> None \<and> (0 < MaxToolCallsPerSession cb \<or> 0 < MaxSessionDuration cb)
      then Some (Breaker_New (MaxToolCallsPerSession cb) (MaxSessionDuration cb)) else None)"

definition buildGates :: "arbiter_boot \<Rightarrow> NullfieldPolicySpec \<Rightarrow> string + Gates" where
  "buildGates b spec =
     (let gates = (\<lambda>reg. \<lparr>g_Registry = reg, g_Breaker = runBreaker spec, g_Budgets = startBudgets False spec,
          g_Velocity = startVelocity spec, g_Rates = Some NewRates\<rparr>)
      in case ab_LookupEnv b ''NULLFIELD_REGISTRY_PATH'' of
           None \<Rightarrow> Inr (gates None)
         | Some path \<Rightarrow>
             (case Registry_LoadFromFile (ab_Registry b path) Registry_New of
                (r, Some err) \<Rightarrow> Inl (''load tool registry from '' @ path @ '': '' @ err)
              | (r, None) \<Rightarrow> Inr (gates (Some r))))"

datatype arbiter_fatal = ABadConfig config_error | ABadPolicy string | ABadGates string | ABadOperations string "load_error option"
  | ANoOTLP string | ABadSignals string | ANoListener string

definition loadOperations :: "arbiter_boot \<Rightarrow> arbiter_fatal + Map option" where
  "loadOperations b =
     (let dir = ab_Getenv b ''NULLFIELD_OPERATIONS_DIR'' in
      if dir = [] then Inr None
      else case ab_Operations b dir of
          Inl err \<Rightarrow> Inl (ABadOperations err None)
        | Inr files \<Rightarrow> (case LoadDir files of Inl e \<Rightarrow> Inl (ABadOperations [] (Some e)) | Inr m \<Rightarrow> Inr (Some m)))"

definition arbiterEmits :: "EventType list" where
  "arbiterEmits = [EventCircuitTripped, EventArbiterDecision, EventAnomalyVelocity]"

definition arbiterConfig :: "arbiter_boot \<Rightarrow> AppConfig \<Rightarrow> NullfieldPolicySpec \<Rightarrow> Gates \<Rightarrow> Map option \<Rightarrow> Extauthz.Config" where
  "arbiterConfig b cfg spec g ops =
     \<lparr>cfg_Mode = cf_ExtAuthzMode cfg, cfg_Engine = Evaluate (NewRuleEngine (ab_CEL b) (ps_Rules spec)), cfg_Audit = True, cfg_Gates = g,
      cfg_RunTokens = map_option (\<lambda>v. runTokenAt (ab_Tokens b) v (ab_Now b)) (runTokens spec),
      cfg_RunTokenOptional = (case ps_RunToken spec of None \<Rightarrow> False | Some rt \<Rightarrow> rt_Optional rt),
      cfg_Operations = ops, cfg_LookupAddr = Some (ab_LookupAddr b)\<rparr>"

text \<open>The started service; the run token verifier is kept apart from the server, for its key cache changes.\<close>

record arbiter =
  ar_Server :: Extauthz.Server
  ar_RunTokens :: "JWKSVerifier option"
  ar_Emitters :: "emitter list"

definition arbiterMain :: "arbiter_boot \<Rightarrow> arbiter_fatal + arbiter" where
  "arbiterMain b =
     (case Config_Load (ab_Getenv b) of
        Inl err \<Rightarrow> Inl (ABadConfig err)
      | Inr cfg \<Rightarrow>
          (case loadSpec b (cf_PolicyPath cfg) of
             Inl err \<Rightarrow> Inl (ABadPolicy err)
           | Inr spec \<Rightarrow>
               (case buildGates b spec of
                  Inl err \<Rightarrow> Inl (ABadGates err)
                | Inr g \<Rightarrow>
                    (case loadOperations b of
                       Inl err \<Rightarrow> Inl err
                     | Inr ops \<Rightarrow>
                         let endpoint = ab_Getenv b ''NULLFIELD_AUDIT_ENDPOINT'' in
                         (case (if endpoint = [] then None else ab_OTLP b endpoint) of
                            Some err \<Rightarrow> Inl (ANoOTLP err)
                          | None \<Rightarrow>
                              (case FromEnv (ab_Signals b) \<lparr>so_Emits = arbiterEmits, so_KubeEvents = True\<rparr> of
                                 Inl err \<Rightarrow> Inl (ABadSignals err)
                               | Inr sinks \<Rightarrow>
                                   (case ab_Listen b (cf_ExtAuthzListenAddr cfg) of
                                      Some err \<Rightarrow> Inl (ANoListener err)
                                    | None \<Rightarrow>
                                        Inr \<lparr>ar_Server = Extauthz.NewServer (arbiterConfig b cfg spec g ops), ar_RunTokens = runTokens spec,
                                          ar_Emitters = [LogEmitter, MetricsEmitter] @ (if endpoint = [] then [] else [OTLPEmitter]) @
                                            map (\<lambda>(c, s). SignalEmitter c s) sinks\<rparr>)))))))"

text \<open>The server at a later moment: the gates and the keys it has then.\<close>

definition arbiterAt :: "arbiter_boot \<Rightarrow> arbiter \<Rightarrow> Gates \<Rightarrow> JWKSVerifier option \<Rightarrow> time \<Rightarrow> Extauthz.Server" where
  "arbiterAt b a g jv now = (ar_Server a)\<lparr>sv_gates := g, sv_runTokens := map_option (\<lambda>v. runTokenAt (ab_Tokens b) v now) jv\<rparr>"

text \<open>One tick of the minute's sweep; without a breaker the goroutine is not started.\<close>

definition arbiterSweep :: "Extauthz.Server \<Rightarrow> time \<Rightarrow> Extauthz.Server" where
  "arbiterSweep s now =
     s\<lparr>sv_gates := (sv_gates s)\<lparr>g_Breaker := map_option (\<lambda>b. Breaker_Sweep b now) (g_Breaker (sv_gates s))\<rparr>\<rparr>"

lemma arbiterMain_server:
  assumes "arbiterMain b = Inr a"
  obtains cfg spec g ops where "Config_Load (ab_Getenv b) = Inr cfg" "loadSpec b (cf_PolicyPath cfg) = Inr spec"
    "buildGates b spec = Inr g" "loadOperations b = Inr ops" "ar_Server a = Extauthz.NewServer (arbiterConfig b cfg spec g ops)"
    "ar_RunTokens a = runTokens spec"
  using assms by (auto simp: arbiterMain_def Let_def split: sum.splits option.splits)

lemma loadSpec_accepted:
  "loadSpec b path = Inr spec \<Longrightarrow>
     \<exists>data. ab_PolicyFile b path = Inr data \<and> ParseSpec (ab_Decode b) (ab_CEL b) (ab_SkewFirst b) data = Inr spec"
  by (auto simp: loadSpec_def LoadSpecFromFile_def split: if_splits sum.splits)

lemma checkRun_required:
  assumes "checkRun s t = Inr t'" and "sv_runTokens s = Some v" and "\<not> sv_runTokenOptional s"
  shows "\<exists>run. q_Run (tr_Policy t') = Some run"
  using assms by (auto simp: checkRun_def verifyRun_def Let_def split: sum.splits run_token_error.splits)

text \<open>What an answer that lets the call through rests on.\<close>

lemma request_name:
  "q = q0\<lparr>q_Action := a, q_Params := ps, q_Identity := i, q_Run := r\<rparr> \<Longrightarrow> q_ToolName q = q_ToolName q0"
  "q = q0\<lparr>q_Action := a, q_Params := ps, q_Identity := i, q_Run := r\<rparr> \<Longrightarrow> q_Target q = q_Target q0"
  by simp_all

lemma enforced_pass:
  assumes "sv_mode s = ModeEnforce" and "Server_Check js s req now = Some (s', evs, resp)" and "\<not> is_denied resp"
  shows "\<exists>u u1 u2 t. Translate js req = (Some u, None) \<and> verifyTarget s u = Inr u1 \<and> nameOperation s u1 = (u2, None) \<and> checkRun s u2 = Inr t \<and>
     run_bound s t \<and> d_Allowed (sv_engine s (tr_Policy t)) \<and> Gates_Admit (sv_gates s) (callFor s t) (instant now) = None"
proof (cases rule: Server_Check_cases [of js req s now])
  case (unread tr err)
  then show ?thesis
    using assms respond_denied [of s "emptyDecision\<lparr>d_Reason := err\<rparr>"] by (simp add: emptyDecision_def)
next
  case (decided t dc)
  have ok: "d_Allowed (dc_Decision dc)"
    using assms decided(4) respond_denied [of s "dc_Decision dc"] by simp
  show ?thesis
    using decided(2)
  proof (cases rule: Server_decide_cases [where s = s and now = now])
    case (admitted t1 t2 t3)
    then show ?thesis
      using ok decided(1,3) decideAdmitted_allowed [of s t3 "callFor s t3" now] by auto
  qed (use ok decided(3) in auto)
qed

text \<open>The registry gate of a started arbiter holds the tools of its file and nothing else.\<close>

lemma arbiter_registry:
  assumes "buildGates b spec = Inr g0" and "g_Registry g = g_Registry g0" and "Gates_Admit g c now = None"
    and "ab_LookupEnv b ''NULLFIELD_REGISTRY_PATH'' = Some rpath" and "c_Tool c \<noteq> []"
  shows "\<exists>doc. ab_Registry b rpath = Inr doc \<and> c_Tool c \<in> te_Name ` set (tr_Tools doc)"
proof (rule loaded_tool)
  have "g_Registry g = Some (fst (Registry_LoadFromFile (ab_Registry b rpath) Registry_New))"
    using assms(1,2,4) by (auto simp: buildGates_def Let_def split: prod.splits option.splits)
  with assms(3,5) show "Registry_IsRegistered (fst (Registry_LoadFromFile (ab_Registry b rpath) Registry_New)) (c_Tool c)"
    by (auto simp: Gates_Admit_def split: if_splits)
qed

text \<open>
  What a started, enforcing arbiter is at any later moment: the server its configuration describes, with a
  run token verifier exactly if the policy has a run token block, with that block's settings.
\<close>

lemma arbiter_started:
  assumes "arbiterMain b = Inr a" and "ab_LookupEnv b ''NULLFIELD_EXTAUTHZ_MODE'' = Some ''enforce''"
    and "rel_option same_settings (ar_RunTokens a) jv"
  obtains cfg data spec where "Config_Load (ab_Getenv b) = Inr cfg" "ab_PolicyFile b (cf_PolicyPath cfg) = Inr data"
    "ParseSpec (ab_Decode b) (ab_CEL b) (ab_SkewFirst b) data = Inr spec" "buildGates b spec = Inr (sv_gates (ar_Server a))" "sv_mode (ar_Server a) = ModeEnforce"
    "sv_engine (ar_Server a) = Evaluate (NewRuleEngine (ab_CEL b) (ps_Rules spec))"
    "sv_runTokenOptional (ar_Server a) = (case ps_RunToken spec of None \<Rightarrow> False | Some rt \<Rightarrow> rt_Optional rt)"
    "\<forall>rt. ps_RunToken spec = Some rt \<longrightarrow> (\<exists>v. jv = Some v \<and> same_settings (NewRunTokenVerifier (runTokenSettings rt)) v)"
proof -
  from assms(1) obtain cfg spec g0 ops where m: "Config_Load (ab_Getenv b) = Inr cfg" "loadSpec b (cf_PolicyPath cfg) = Inr spec"
    "buildGates b spec = Inr g0" "ar_Server a = Extauthz.NewServer (arbiterConfig b cfg spec g0 ops)" "ar_RunTokens a = runTokens spec"
    by (rule arbiterMain_server)
  have mode: "cf_ExtAuthzMode cfg = ModeEnforce"
    using Load_settings(9) [OF m(1)] assms(2) by (simp add: envOr_def ab_Getenv_def ModeEnforce_def)
  obtain data where data: "ab_PolicyFile b (cf_PolicyPath cfg) = Inr data" "ParseSpec (ab_Decode b) (ab_CEL b) (ab_SkewFirst b) data = Inr spec"
    using loadSpec_accepted [OF m(2)] by blast
  have "\<forall>rt. ps_RunToken spec = Some rt \<longrightarrow> (\<exists>v. jv = Some v \<and> same_settings (NewRunTokenVerifier (runTokenSettings rt)) v)"
    using assms(3) m(5) by (auto simp: runTokens_def option_rel_Some1)
  then show thesis
    by (intro that [OF m(1) data]) (simp_all add: m(3,4) Extauthz.NewServer_def arbiterConfig_def mode Mode_Valid_def)
qed

section \<open>Properties\<close>


text \<open>An arbiter whose policy allows everything, started in enforce mode with a registry or with none.\<close>

definition demo_arbiter_with :: "string option \<Rightarrow> string + ToolRegistry \<Rightarrow> arbiter_boot" where
  "demo_arbiter_with path reg = \<lparr>ab_LookupEnv = (\<lambda>k. if k = ''NULLFIELD_EXTAUTHZ_MODE'' then Some ''enforce''
        else if k = ''NULLFIELD_REGISTRY_PATH'' then path else None),
     ab_PolicyFile = (\<lambda>_. Inr ActionAllow), ab_Decode = le_decode demo_loader, ab_CEL = le_cel demo_loader, ab_SkewFirst = True,
     ab_Registry = (\<lambda>_. reg), ab_Operations = (\<lambda>_. Inl []), ab_OTLP = (\<lambda>_. None), ab_Signals = bt_Signals (demo_boot []),
     ab_Tokens = demo_token_env, ab_Now = 0, ab_LookupAddr = (\<lambda>_. []), ab_Listen = (\<lambda>_. None)\<rparr>"

abbreviation demo_arbiter :: arbiter_boot where
  "demo_arbiter \<equiv> demo_arbiter_with None (Inl [])"

lemma demo_arbiter_spec:
  "ParseSpec (ab_Decode (demo_arbiter_with path reg)) (ab_CEL (demo_arbiter_with path reg)) (ab_SkewFirst (demo_arbiter_with path reg)) a =
     Inr (demo_spec a)"
  using demo_load [of a]
  by (simp add: demo_arbiter_with_def le_load_def LoadProxySpecFromFile_def LoadSpecFromFile_def demo_loader_def split: sum.splits if_splits)

lemma demo_arbiter_starts_with:
  assumes "buildGates (demo_arbiter_with path reg) (demo_spec ActionAllow) = Inr g"
  shows "\<exists>a s. arbiterMain (demo_arbiter_with path reg) = Inr a \<and> ar_Server a = s \<and> ar_RunTokens a = None \<and> sv_mode s = ModeEnforce \<and> sv_runTokens s = None \<and> sv_operations s = None \<and>
     sv_engine s = Evaluate (NewRuleEngine (ab_CEL (demo_arbiter_with path reg)) (ps_Rules (demo_spec ActionAllow))) \<and>
     sv_gates s = g"
proof -
  have env: "ab_Getenv (demo_arbiter_with path reg) k = (if k = ''NULLFIELD_EXTAUTHZ_MODE'' then ''enforce''
      else if k = ''NULLFIELD_REGISTRY_PATH'' then case path of None \<Rightarrow> [] | Some p \<Rightarrow> p else [])" for k
    by (simp add: ab_Getenv_def demo_arbiter_with_def)
  obtain cfg where cfg: "Config_Load (ab_Getenv (demo_arbiter_with path reg)) = Inr cfg"
    by (simp add: Config_Load_def env envConfig_def envOr_def Atoi_def digit_value_def splitAudiences_def Let_def)
  have p: "cf_PolicyPath cfg \<noteq> []" "cf_ExtAuthzMode cfg = ModeEnforce"
    using Load_settings(4,9) [OF cfg] by (simp_all add: envOr_def env ModeEnforce_def)
  have "loadSpec (demo_arbiter_with path reg) (cf_PolicyPath cfg) = Inr (demo_spec ActionAllow)"
  proof -
    have "ab_PolicyFile (demo_arbiter_with path reg) (cf_PolicyPath cfg) = Inr ActionAllow" by (simp add: demo_arbiter_with_def)
    then show ?thesis
      using p(1) demo_arbiter_spec [of path reg ActionAllow] by (simp add: loadSpec_def LoadSpecFromFile_def)
  qed
  moreover note assms
  moreover have "loadOperations (demo_arbiter_with path reg) = Inr None"
    by (simp add: loadOperations_def env)
  moreover have "FromEnv (ab_Signals (demo_arbiter_with path reg)) \<lparr>so_Emits = arbiterEmits, so_KubeEvents = True\<rparr> = Inr []"
    by (simp add: FromEnv_def demo_arbiter_with_def demo_boot_def kubeChannel_def webhookChannel_def Let_def)
  moreover have "ab_Listen (demo_arbiter_with path reg) x = None" for x
    by (simp add: demo_arbiter_with_def)
  ultimately have "arbiterMain (demo_arbiter_with path reg) = Inr \<lparr>ar_Server = Extauthz.NewServer (arbiterConfig (demo_arbiter_with path reg) cfg (demo_spec ActionAllow)
      g None),
      ar_RunTokens = runTokens (demo_spec ActionAllow), ar_Emitters = [LogEmitter, MetricsEmitter]\<rparr>"
    by (simp add: arbiterMain_def cfg env Let_def)
  then show ?thesis
    using p(2) by (simp add: Extauthz.NewServer_def arbiterConfig_def Mode_Valid_def runTokens_def) (simp add: demo_spec_def)
qed

lemma demo_arbiter_starts:
  "\<exists>a s. arbiterMain demo_arbiter = Inr a \<and> ar_Server a = s \<and> ar_RunTokens a = None \<and> sv_mode s = ModeEnforce \<and> sv_runTokens s = None \<and> sv_operations s = None \<and>
     sv_engine s = Evaluate (NewRuleEngine (ab_CEL demo_arbiter) (ps_Rules (demo_spec ActionAllow))) \<and>
     sv_gates s = \<lparr>g_Registry = None, g_Breaker = None, g_Budgets = None, g_Velocity = None, g_Rates = Some NewRates\<rparr>"
proof (rule demo_arbiter_starts_with)
  show "buildGates demo_arbiter (demo_spec ActionAllow) = Inr \<lparr>g_Registry = None, g_Breaker = None, g_Budgets = None, g_Velocity = None, g_Rates = Some NewRates\<rparr>"
    by (simp add: buildGates_def demo_arbiter_with_def runBreaker_def startBudgets_def startVelocity_def demo_spec_def emptyRule_def)
qed


end
