(* ===== verification/Charging.thy ===== *)
theory Charging
  imports Gates
begin

text \<open>
  The charging gates as the front doors use them. A front door keeps its gates between inputs; an
  input may carry a call, and it leaves the rates alone or charges that call once. This is all
  that is needed for a tool's limit in the registry to hold for what the front door lets through;
  the sidecar and the decision service are its instances.
\<close>

section \<open>One input\<close>

text \<open>The outcome of an input for the gates: untouched, or one charge of the call it carries.\<close>

definition charged_once :: "Gates \<Rightarrow> Gates \<Rightarrow> Call option \<Rightarrow> clock \<Rightarrow> bool \<Rightarrow> bool" where
  "charged_once g g' call now sent \<longleftrightarrow>
     (\<exists>c d g1 r w. call = Some c \<and> Gates_Charge g c d now = (g1, r, w) \<and>
        g_Registry g' = g_Registry g1 \<and> g_Rates g' = g_Rates g1 \<and> (sent \<longrightarrow> r = None))"

lemma charged_once_weaken: "charged_once g g' call now b \<Longrightarrow> (sent \<Longrightarrow> b) \<Longrightarrow> charged_once g g' call now sent"
  unfolding charged_once_def by blast

definition untouched :: "Gates \<Rightarrow> Gates \<Rightarrow> bool" where
  "untouched g g' \<longleftrightarrow> g_Registry g' = g_Registry g \<and> g_Rates g' = g_Rates g"

definition calls_tool :: "('i \<Rightarrow> Call option) \<Rightarrow> string \<Rightarrow> string \<Rightarrow> 'i \<Rightarrow> bool" where
  "calls_tool call tool subject i = (case call i of None \<Rightarrow> False | Some c \<Rightarrow> c_Tool c = tool \<and> c_Subject c = subject)"

section \<open>The limit of a tool\<close>

definition toolKey :: "string \<Rightarrow> string \<Rightarrow> string" where
  "toolKey tool subject = ''tool '' @ tool @ CHR 0x00 # subject"

text \<open>The registry limits a tool to so many calls a minute; a name with a zero byte could be taken for another key.\<close>

definition limited :: "Registry \<Rightarrow> string \<Rightarrow> nat \<Rightarrow> bool" where
  "limited r tool cap \<longleftrightarrow> tool \<noteq> [] \<and> 0 < cap \<and> (\<exists>entry. Registry_Get r tool = Some entry \<and> te_MaxCallsPerMin entry = int cap) \<and>
     (\<forall>name entry. Registry_Get r name = Some entry \<longrightarrow> CHR 0x00 \<notin> set name)"

lemma limit_there:
  "limited r tool cap \<Longrightarrow> c_Tool c = tool \<Longrightarrow> \<lparr>rl_scope = ''tool '' @ tool, rl_max = int cap\<rparr> \<in> set (limitsOf (Some r) c d)"
  by (auto simp: limited_def limitsOf_def toolLimits_def)

lemma toolLimits_of:
  "toolLimits (Some r) c = [] \<or> (\<exists>e. Registry_Get r (c_Tool c) = Some e \<and>
     toolLimits (Some r) c = [\<lparr>rl_scope = ''tool '' @ c_Tool c, rl_max = te_MaxCallsPerMin e\<rparr>])"
  by (cases "Registry_Get r (c_Tool c)") (simp_all add: toolLimits_def)

lemma limit_key:
  assumes "limited r tool cap" and "l \<in> set (limitsOf (Some r) c d)" and "rateKey l (c_Subject c) = toolKey tool subject"
  shows "c_Tool c = tool \<and> c_Subject c = subject \<and> rl_max l = int cap"
proof -
  have "l \<notin> set (ruleLimits d)"
    using ruleLimits_shape [of d] assms(3) by (auto simp: rateKey_def toolKey_def)
  with assms(2) toolLimits_of [of r c] obtain entry where e: "Registry_Get r (c_Tool c) = Some entry"
    and l: "l = \<lparr>rl_scope = ''tool '' @ c_Tool c, rl_max = te_MaxCallsPerMin entry\<rparr>"
    by (auto simp: limitsOf_def)
  have "CHR 0x00 \<notin> set (c_Tool c)" "CHR 0x00 \<notin> set tool"
    using assms(1) e by (auto simp: limited_def)
  then have "c_Tool c = tool \<and> c_Subject c = subject"
    using assms(3) by (auto simp: l rateKey_def toolKey_def append_eq_append_conv2 append_eq_Cons_conv Cons_eq_append_conv)
  with e l assms(1) show ?thesis by (auto simp: limited_def)
qed

section \<open>Front doors\<close>

text \<open>The state with the observation whether the input was counted under a key.\<close>

definition front_counts :: "('s \<Rightarrow> 'i \<Rightarrow> time \<Rightarrow> 's \<times> bool) \<Rightarrow> ('s \<Rightarrow> Gates) \<Rightarrow> string \<Rightarrow> 's \<Rightarrow> 'i \<Rightarrow> time \<Rightarrow> 's \<times> bool" where
  "front_counts step gates k s i now =
     (let s' = fst (step s i now)
      in (s', live (now - Minute) (ratesAt k (gates s')) \<noteq> live (now - Minute) (ratesAt k (gates s))))"

definition tool_limited :: "string \<Rightarrow> nat \<Rightarrow> Gates \<Rightarrow> bool" where
  "tool_limited tool cap g \<longleftrightarrow> (\<exists>r. g_Registry g = Some r \<and> limited r tool cap)"

locale charging_front =
  fixes step :: "'s \<Rightarrow> 'i \<Rightarrow> time \<Rightarrow> 's \<times> bool"
    and gates :: "'s \<Rightarrow> Gates"
    and call :: "'i \<Rightarrow> Call option"
    and day :: "'i \<Rightarrow> int"
  assumes step_gates: "step s i now = (s', sent) \<Longrightarrow>
      untouched (gates s) (gates s') \<and> (call i = None \<or> \<not> sent) \<or>
      charged_once (gates s) (gates s') (call i) \<lparr>instant = now, YearDay = day i\<rparr> sent"
begin

text \<open>
  An input adds its time to what is counted for a tool and a caller, or leaves the count alone. It adds it
  only if it is such a call and the minute has room, and whenever such a call is let through.
\<close>

lemma counted:
  assumes "step s i now = (s', sent)" and "g_Registry (gates s) = Some r" and "limited r tool cap"
  obtains b where "g_Registry (gates s') = Some r"
    "live (now - Minute) (ratesAt (toolKey tool subject) (gates s')) =
       live (now - Minute) (ratesAt (toolKey tool subject) (gates s)) @ (if b then [now] else [])"
    "b \<longrightarrow> calls_tool call tool subject i \<and> length (live (now - Minute) (ratesAt (toolKey tool subject) (gates s))) < cap"
    "sent \<and> calls_tool call tool subject i \<longrightarrow> b"
proof (cases "untouched (gates s) (gates s') \<and> (call i = None \<or> \<not> sent)")
  let ?k = "toolKey tool subject"
  case True
  then have u: "untouched (gates s) (gates s')" and s: "call i = None \<or> \<not> sent" by blast+
  have "ratesAt ?k (gates s') = ratesAt ?k (gates s)" "g_Registry (gates s') = Some r"
    using u assms(2) by (simp_all add: untouched_def ratesAt_def)
  then show thesis
    using s by (intro that [of False]) (auto simp: calls_tool_def)
next
  let ?k = "toolKey tool subject" and ?day = "day i"
  case False
  with step_gates [OF assms(1)]
  have "charged_once (gates s) (gates s') (call i) \<lparr>instant = now, YearDay = ?day\<rparr> sent" by blast
  then obtain c d g1 e w where c: "call i = Some c" "Gates_Charge (gates s) c d \<lparr>instant = now, YearDay = ?day\<rparr> = (g1, e, w)"
    "g_Registry (gates s') = g_Registry g1" "g_Rates (gates s') = g_Rates g1" "sent \<longrightarrow> e = None"
    by (auto simp: charged_once_def)
  define passed where "passed = (snd (chargeRates (gates s) c d now) = None)"
  define b where "b = (passed \<and> rates_count (Some r) ?k (c, d, ?day))"
  have ex: "rates_exec (gates s) (c, d, ?day) now = (g1, passed)"
    using c(2) by (simp add: rates_exec_def passed_def)
  have calls: "calls_tool call tool subject i" if "rates_count (Some r) ?k (c, d, ?day)"
    using that limit_key [OF assms(3)] c(1) by (auto simp: rates_count_def calls_tool_def)
  have "rates_capped (Some r) ?k cap (c, d, ?day)"
    using limit_key [OF assms(3)] by (auto simp: rates_capped_def)
  then have room: "length (live (now - Minute) (ratesAt ?k (gates s))) < cap" if b
    using rates_exec_room [of "gates s" "(c, d, ?day)" now g1 ?k cap] ex that assms(2) by (simp add: b_def)
  have sent: "b" if "sent" "calls_tool call tool subject i"
  proof -
    have "c_Tool c = tool" "c_Subject c = subject" using that(2) c(1) by (simp_all add: calls_tool_def)
    then have "rates_count (Some r) ?k (c, d, ?day)"
      using limit_there [OF assms(3), of c d] by (auto simp: rates_count_def rateKey_def toolKey_def intro!: bexI)
    moreover have passed
      using Gates_Charge_rates [OF c(2)] c(5) that(1) by (simp add: passed_def)
    ultimately show b by (simp add: b_def)
  qed
  have "live (now - Minute) (ratesAt ?k g1) = live (now - Minute) (ratesAt ?k (gates s)) @ (if b then [now] else [])"
    "g_Registry g1 = Some r"
    using rates_exec_live [OF ex, of ?k] assms(2) by (simp_all add: b_def)
  then show thesis
    using c(3,4) calls room sent by (intro that [of b]) (auto simp: ratesAt_def b_def)
qed

lemma counts_step:
  assumes "tool_limited tool cap (gates s)" and "front_counts step gates (toolKey tool subject) s i now = (s', b)"
  shows "tool_limited tool cap (gates s') \<and>
    live (now - Minute) (ratesAt (toolKey tool subject) (gates s')) =
      live (now - Minute) (ratesAt (toolKey tool subject) (gates s)) @ (if b then [now] else []) \<and>
    (b \<longrightarrow> calls_tool call tool subject i \<and> length (live (now - Minute) (ratesAt (toolKey tool subject) (gates s))) < cap) \<and>
    (snd (step s i now) \<and> calls_tool call tool subject i \<longrightarrow> b)"
proof -
  obtain r where r: "g_Registry (gates s) = Some r" "limited r tool cap"
    using assms(1) by (auto simp: tool_limited_def)
  obtain sent where st: "step s i now = (s', sent)"
    using assms(2) by (cases "step s i now") (simp add: front_counts_def)
  obtain b' where b': "g_Registry (gates s') = Some r"
    "live (now - Minute) (ratesAt (toolKey tool subject) (gates s')) =
       live (now - Minute) (ratesAt (toolKey tool subject) (gates s)) @ (if b' then [now] else [])"
    "b' \<longrightarrow> calls_tool call tool subject i \<and> length (live (now - Minute) (ratesAt (toolKey tool subject) (gates s))) < cap"
    "sent \<and> calls_tool call tool subject i \<longrightarrow> b'"
    by (rule counted [OF st r, of subject]) blast
  have "b = b'"
    using assms(2) st b'(2) by (simp add: front_counts_def split: if_splits)
  with b' r(2) st show ?thesis by (simp add: tool_limited_def)
qed

end

text \<open>So a front door is a limiter for each tool and caller, and what it lets through is counted.\<close>

sublocale charging_front \<subseteq> tool: sliding_limiter Minute cap "\<lambda>s. ratesAt (toolKey name subject) (gates s)"
    "front_counts step gates (toolKey name subject)" "calls_tool call name subject" "\<lambda>_. True" "\<lambda>t s. tool_limited name cap (gates s)"
  for cap name subject
proof unfold_locales
  show "0 < Minute" by (simp add: duration_defs)
qed (auto dest: counts_step)

context charging_front
begin

lemma passed_counted:
  assumes "tool_limited name cap (gates s)"
  shows "subseq (admitted_by step (calls_tool call name subject) s run)
      (admitted_by (front_counts step gates (toolKey name subject)) (calls_tool call name subject) s run)"
proof (rule admitted_by_mono_on [where P = "\<lambda>s. tool_limited name cap (gates s)", OF _ assms])
  fix s i now
  assume "tool_limited name cap (gates s)"
  from counts_step [OF this, of subject i now]
  show "fst (step s i now) = fst (front_counts step gates (toolKey name subject) s i now) \<and>
      tool_limited name cap (gates (fst (front_counts step gates (toolKey name subject) s i now))) \<and>
      (snd (step s i now) \<and> calls_tool call name subject i \<longrightarrow> snd (front_counts step gates (toolKey name subject) s i now))"
    by (cases "front_counts step gates (toolKey name subject) s i now") (auto simp: front_counts_def Let_def)
qed

lemma tool_rate:
  assumes "tool_limited name cap (gates s)" and "g_Rates (gates s) = Some NewRates" and "sorted (map snd run)"
  shows "in_window Minute t (admitted_by step (calls_tool call name subject) s run) \<le> cap"
proof -
  define t0 where "t0 = (case run of [] \<Rightarrow> 0 | c # _ \<Rightarrow> snd c)"
  have "tool.good_run name subject cap t0 s run"
    using assms unfolding tool.good_run_def t0_def
    by (cases run) (auto simp: ratesAt_def NewRates_def)
  from tool.window_bound [OF this, of t] in_window_subseq [OF passed_counted [OF assms(1)], of Minute t] show ?thesis
    by (meson le_trans)
qed

end

end
