(* ===== verification/Traffic.thy ===== *)
theory Traffic
  imports SidecarMain Charging
begin

text \<open>
  What a sidecar does with a sequence of requests. The handler of \<open>handler.go\<close> keeps its gates between
  requests; the engine, the keys of the verifier and the credentials may change between any two of
  them (hot reload, key fetches), the sweep ticks, held calls are resolved and resumed. A run is the list of
  these inputs in time order, and the times at which a tool was really called are read off it.
\<close>

section \<open>Runs\<close>

text \<open>A request, with what the process consults while it is served.\<close>

record arrival =
  av_Verifier :: "http_header \<Rightarrow> string + Identity"
  av_Engine :: "Request \<Rightarrow> Decision"
  av_Credentials :: "(string \<Rightarrow> string \<Rightarrow> string + string) option"
  av_Headers :: http_header
  av_Body :: "string option"
  av_Hex :: string

datatype traffic =
    Arrive arrival int
  | Resume "(string \<Rightarrow> string \<Rightarrow> string + string) option" held_call Resolution int
  | HoldsChanged "Manager option"
  | SweepTick

definition handlerAt :: "Handler \<Rightarrow> arrival \<Rightarrow> Handler" where
  "handlerAt h a = h\<lparr>h_verifier := av_Verifier a, h_engine := av_Engine a, h_credentials := av_Credentials a\<rparr>"

text \<open>One input: the handler after it, and whether something was sent upstream.\<close>

fun traffic_step :: "proxy_env \<Rightarrow> Handler \<Rightarrow> traffic \<Rightarrow> time \<Rightarrow> Handler \<times> bool" where
  "traffic_step env h (Arrive a day) now =
     (case Handler_ServeHTTP env (handlerAt h a) (av_Headers a) (av_Body a) (av_Hex a) \<lparr>instant = now, YearDay = day\<rparr> of
        Finished h' r \<Rightarrow> (h', hd_Sent r \<noteq> None)
      | OnHold h' evs c \<Rightarrow> (h', False))"
| "traffic_step env h (Resume creds c res day) now =
     (case resumeHeld env (h\<lparr>h_credentials := creds\<rparr>) c res \<lparr>instant = now, YearDay = day\<rparr> of (h', r) \<Rightarrow> (h', hd_Sent r \<noteq> None))"
| "traffic_step env h (HoldsChanged m) now = (h\<lparr>h_holds := m\<rparr>, False)"
| "traffic_step env h SweepTick now = (sidecarSweep h now, False)"

text \<open>The tool call an input carries, if it is one.\<close>

fun traffic_call :: "proxy_env \<Rightarrow> traffic \<Rightarrow> Call option" where
  "traffic_call env (Arrive a day) =
     (case av_Body a of
        None \<Rightarrow> None
      | Some full \<Rightarrow>
          (case unmarshalRPC (pe_JSON env) (take (2 ^ 20) full) of
             Inl err \<Rightarrow> None
           | Inr req \<Rightarrow>
               if jr_Method req \<noteq> MethodToolsCall then None
               else case ParseToolsCall req of
                   Inl err \<Rightarrow> None
                 | Inr tc \<Rightarrow> (case av_Verifier a (av_Headers a) of Inl err \<Rightarrow> None | Inr i \<Rightarrow> Some (callOf tc i))))"
| "traffic_call env (Resume creds c res day) = Some (callOf (hc_Call c) (hc_Identity c))"
| "traffic_call env (HoldsChanged m) = None"
| "traffic_call env SweepTick = None"

section \<open>What one input does to the gates\<close>

lemma gateEvent_frame:
  "gateEvent g s r m t = (g', e) \<Longrightarrow> g_Registry g' = g_Registry g \<and> g_Rates g' = g_Rates g"
  by (auto simp: gateEvent_def Let_def split: if_splits option.splits prod.splits)

lemma deliverCall_gates:
  assumes "deliverCall env h req tc i d body now = (h', r)"
  shows "untouched (h_gates h) (h_gates h') \<and> hd_Sent r = None \<or>
     charged_once (h_gates h) (h_gates h') (Some (callOf tc i)) now (hd_Sent r \<noteq> None)"
proof (cases "scopeStage env (h_credentials h) d tc body")
  case (ScopeOk tc' b rc mods)
  obtain g e w where ch: "Gates_Charge (h_gates h) (callOf tc i) d now = (g, e, w)" by (metis prod_cases3)
  have "g_Registry (h_gates h') = g_Registry g \<and> g_Rates (h_gates h') = g_Rates g \<and> (hd_Sent r \<noteq> None \<longrightarrow> e = None)"
  proof (cases e)
    case None
    then show ?thesis
      using assms ScopeOk ch
      by (auto simp: deliverCall_def callOf_def Let_def dest: gateEvent_frame split: prod.splits if_splits option.splits)
  next
    case (Some x)
    then show ?thesis
      using assms ScopeOk ch by (auto simp: deliverCall_def callOf_def Let_def dest: gateEvent_frame split: prod.splits)
  qed
  with ch show ?thesis by (auto simp: charged_once_def)
qed (use assms in \<open>auto simp: deliverCall_def untouched_def Let_def\<close>)

lemma handleToolsCall_gates:
  assumes "ParseToolsCall req = Inr tc"
  shows "(\<exists>h' r. handleToolsCall env h req body i hex now = Finished h' r \<and>
       (untouched (h_gates h) (h_gates h') \<and> hd_Sent r = None \<or>
        charged_once (h_gates h) (h_gates h') (Some (callOf tc i)) now (hd_Sent r \<noteq> None))) \<or>
     (\<exists>h' evs c. handleToolsCall env h req body i hex now = OnHold h' evs c \<and> untouched (h_gates h) (h_gates h'))"
proof (cases "Gates_Admit (h_gates h) (callOf tc i) (instant now)")
  case (Some r)
  with assms show ?thesis
    by (auto simp: handleToolsCall_def callOf_def untouched_def Let_def dest: gateEvent_frame split: prod.splits)
next
  case None
  let ?d = "h_engine h (requestOf req tc i)"
  show ?thesis
  proof (cases "parks h ?d")
    case True
    from handleToolsCall_parked [OF assms None this, of env body hex] show ?thesis by (auto simp: untouched_def)
  next
    case False
    obtain h' r where del: "deliverCall env h req tc i ?d body now = (h', r)" by fastforce
    show ?thesis
      using handleToolsCall_not_parked [OF assms None False, of env body hex] del deliverCall_gates [OF del]
      by (simp add: Let_def untouched_def)
  qed
qed

text \<open>A tools/call whose caller is accepted is handled; every other request leaves the gates alone.\<close>

lemma arrive_gates:
  assumes "traffic_step env h (Arrive a day) now = (h', sent)"
  shows "untouched (h_gates h) (h_gates h') \<and> (traffic_call env (Arrive a day) = None \<or> \<not> sent) \<or>
     charged_once (h_gates h) (h_gates h') (traffic_call env (Arrive a day)) \<lparr>instant = now, YearDay = day\<rparr> sent"
proof (cases "\<exists>full req tc. av_Body a = Some full \<and> unmarshalRPC (pe_JSON env) (take (2 ^ 20) full) = Inr req \<and>
    jr_Method req = MethodToolsCall \<and> ParseToolsCall req = Inr tc")
  case True
  then obtain full req tc where q: "av_Body a = Some full" "unmarshalRPC (pe_JSON env) (take (2 ^ 20) full) = Inr req"
    "jr_Method req = MethodToolsCall" "ParseToolsCall req = Inr tc" by blast
  let ?now = "\<lparr>instant = now, YearDay = day\<rparr>"
  from ServeHTTP_toolsCall [OF q(2,3), of "handlerAt h a" "av_Headers a" ?now "av_Hex a"] show ?thesis
  proof (elim disjE exE conjE)
    fix i x
    assume i: "h_verifier (handlerAt h a) (av_Headers a) = Inr i" and eq: "Handler_ServeHTTP env (handlerAt h a) (av_Headers a) (Some full) (av_Hex a) ?now =
      handleToolsCall env (handlerAt h a\<lparr>h_integrity := x\<rparr>) req (take (2 ^ 20) full) i (av_Hex a) ?now"
    have "traffic_call env (Arrive a day) = Some (callOf tc i)"
      using q i by (simp add: handlerAt_def)
    moreover have "h_gates (handlerAt h a\<lparr>h_integrity := x\<rparr>) = h_gates h"
      by (simp add: handlerAt_def)
    ultimately show ?thesis
      using handleToolsCall_gates [OF q(4), of env "handlerAt h a\<lparr>h_integrity := x\<rparr>" "take (2 ^ 20) full" i "av_Hex a" ?now] assms q(1) eq
      by auto
  next
    fix h1 r
    assume r: "Handler_ServeHTTP env (handlerAt h a) (av_Headers a) (Some full) (av_Hex a) ?now = Finished h1 r" "hd_Sent r = None"
      "\<forall>i. h_verifier (handlerAt h a) (av_Headers a) = Inr i \<longrightarrow> \<not> integrityAccepts (h_integrity (handlerAt h a)) i (instant ?now)"
    have "h_gates h1 = h_gates (handlerAt h a)"
      using r q by (cases "h_integrity (handlerAt h a)")
        (auto simp: Handler_ServeHTTP_def integrityAccepts_def Let_def split: sum.splits prod.splits option.splits)
    with r(1,2) assms q(1) show ?thesis by (auto simp: untouched_def handlerAt_def)
  qed
next
  case False
  then have none: "traffic_call env (Arrive a day) = None"
    by (auto split: option.split sum.split)
  have "h_gates h' = h_gates (handlerAt h a)"
    using assms False by (auto simp: Handler_ServeHTTP_def handleToolsCall_def Let_def split: option.splits sum.splits prod.splits if_splits)
  with none show ?thesis by (simp add: untouched_def handlerAt_def)
qed

fun traffic_day :: "traffic \<Rightarrow> int" where
  "traffic_day (Arrive a day) = day"
| "traffic_day (Resume creds c res day) = day"
| "traffic_day i = 0"

lemma traffic_gates:
  assumes "traffic_step env h i now = (h', sent)"
  shows "untouched (h_gates h) (h_gates h') \<and> (traffic_call env i = None \<or> \<not> sent) \<or>
     charged_once (h_gates h) (h_gates h') (traffic_call env i) \<lparr>instant = now, YearDay = traffic_day i\<rparr> sent"
proof (cases i)
  case (Arrive a day)
  with arrive_gates [of env h a day now h' sent] assms show ?thesis by simp
next
  case (Resume creds c res day)
  obtain h1 r where del: "deliverCall env (h\<lparr>h_credentials := creds\<rparr>) (hc_Req c) (hc_Call c) (hc_Identity c) (hc_Decision c) (hc_Body c)
      \<lparr>instant = now, YearDay = day\<rparr> = (h1, r)" by fastforce
  from deliverCall_gates [OF del] del assms Resume show ?thesis
    by (auto simp: resumeHeld_def untouched_def Let_def split: if_splits)
qed (use assms in \<open>auto simp: untouched_def sidecarSweep_def\<close>)

interpretation sidecar_front: charging_front "traffic_step env" h_gates "traffic_call env" traffic_day
  for env
  by unfold_locales (rule traffic_gates)

section \<open>Traffic without a budget tracker\<close>

text \<open>A decision, and an input of a run, with the budgets of the rules taken away.\<close>

definition unbudgeted :: "Decision \<Rightarrow> Decision" where
  "unbudgeted d = d\<lparr>d_MatchedRule := map_option (\<lambda>r. r\<lparr>r_Budget := None\<rparr>) (d_MatchedRule d)\<rparr>"

fun without_budgets :: "traffic \<Rightarrow> traffic" where
  "without_budgets (Arrive a day) = Arrive (a\<lparr>av_Engine := unbudgeted \<circ> av_Engine a\<rparr>) day"
| "without_budgets (Resume creds c res day) = Resume creds (c\<lparr>hc_Decision := unbudgeted (hc_Decision c)\<rparr>) res day"
| "without_budgets i = i"

lemma unbudgeted_sel [simp]:
  "d_Allowed (unbudgeted d) = d_Allowed d" "d_Held (unbudgeted d) = d_Held d" "d_Scoped (unbudgeted d) = d_Scoped d"
  "d_Reason (unbudgeted d) = d_Reason d" "d_Gate (unbudgeted d) = d_Gate d" "d_ReasonClass (unbudgeted d) = d_ReasonClass d"
  "d_RuleID (unbudgeted d) = d_RuleID d" "d_RuleIndex (unbudgeted d) = d_RuleIndex d" "d_Labels (unbudgeted d) = d_Labels d"
  "Option.bind (d_MatchedRule (unbudgeted d)) r_Hold = Option.bind (d_MatchedRule d) r_Hold"
  by (simp_all add: unbudgeted_def) (cases "d_MatchedRule d"; simp)

lemma unbudgeted_event [simp]: "eventWithDecision e (unbudgeted d) i = eventWithDecision e d i"
  unfolding eventWithDecision_def unbudgeted_sel by (rule refl)

lemma unbudgeted_stages [simp]:
  "scopeStage env creds (unbudgeted d) tc body = scopeStage env creds d tc body"
  "needsInspection insp (unbudgeted d) = needsInspection insp d"
  "inspectResponse env insp req tc i (unbudgeted d) b = inspectResponse env insp req tc i d b"
proof -
  have same: "Option.bind (d_MatchedRule (unbudgeted d)) r_Scope = Option.bind (d_MatchedRule d) r_Scope"
    "Option.bind (d_MatchedRule (unbudgeted d)) r_Inspection = Option.bind (d_MatchedRule d) r_Inspection"
    by (cases "d_MatchedRule d"; simp add: unbudgeted_def)+
  show "scopeStage env creds (unbudgeted d) tc body = scopeStage env creds d tc body"
    "needsInspection insp (unbudgeted d) = needsInspection insp d"
    "inspectResponse env insp req tc i (unbudgeted d) b = inspectResponse env insp req tc i d b"
    unfolding scopeStage_def needsInspection_def inspectResponse_def same unbudgeted_sel unbudgeted_event by (rule refl)+
qed

lemma engine_frame:
  "h_upstream (h\<lparr>h_engine := E\<rparr>) = h_upstream h" "h_inspector (h\<lparr>h_engine := E\<rparr>) = h_inspector h"
  "h_gates (h\<lparr>h_engine := E\<rparr>) = h_gates h" "h_credentials (h\<lparr>h_engine := E\<rparr>) = h_credentials h"
  "h_holds (h\<lparr>h_engine := E\<rparr>) = h_holds h" "h_verifier (h\<lparr>h_engine := E\<rparr>) = h_verifier h"
  "h_integrity (h\<lparr>h_engine := E\<rparr>) = h_integrity h" "h_engine (h\<lparr>h_engine := E\<rparr>) = E"
  by simp_all

lemma unbudgeted_intercept [simp]:
  "interceptResponse env (h\<lparr>h_engine := E\<rparr>) req tc i (unbudgeted d) cfg body = interceptResponse env h req tc i d cfg body"
  unfolding interceptResponse_def unbudgeted_stages unbudgeted_event engine_frame by (rule refl)

lemma unbudgeted_charge:
  assumes "g_Budgets g = None"
  shows "Gates_Charge g c (unbudgeted d) now = Gates_Charge g c d now" and "g_Budgets (fst (Gates_Charge g c d now)) = None"
proof -
  have "ruleLimits (unbudgeted d) = ruleLimits d"
    by (cases "d_MatchedRule d") (simp_all add: ruleLimits_def unbudgeted_def Let_def)
  then have rates: "chargeRates g c (unbudgeted d) t = chargeRates g c d t" for t
    by (simp add: chargeRates_def)
  have none: "g_Budgets g' = None" if "chargeRates g c d t = (g', e)" for g' e t
    using that assms by (auto simp: chargeRates_def Let_def split: if_splits option.splits prod.splits)
  have skip: "chargeBudget g' c r now = (g', None)" if "g_Budgets g' = None" for g' r
    using that by (simp add: chargeBudget_def)
  obtain g' e where r: "chargeRates g c d (instant now) = (g', e)" by fastforce
  show "Gates_Charge g c (unbudgeted d) now = Gates_Charge g c d now"
    unfolding Gates_Charge_def rates r by (cases e) (simp_all add: skip none [OF r])
  show "g_Budgets (fst (Gates_Charge g c d now)) = None"
    unfolding Gates_Charge_def r using none [OF r]
    by (cases e) (auto simp: skip Let_def split: option.split prod.split)
qed

lemma gateEvent_Budgets: "gateEvent g s r m t = (g', e) \<Longrightarrow> g_Budgets g' = g_Budgets g"
  by (auto simp: gateEvent_def Let_def split: if_splits option.splits prod.splits)

lemma unbudgeted_deliver:
  assumes "g_Budgets (h_gates h) = None"
  shows "deliverCall env (h\<lparr>h_engine := E\<rparr>) req tc i (unbudgeted d) body now =
      map_prod (\<lambda>h. h\<lparr>h_engine := E\<rparr>) (\<lambda>r. r) (deliverCall env h req tc i d body now)"
    and "g_Budgets (h_gates (fst (deliverCall env h req tc i d body now))) = None"
proof -
  obtain g e w where c: "Gates_Charge (h_gates h) \<lparr>c_Tool = tc_Name tc, c_Subject = id_Subject i, c_Session = id_SessionID i\<rparr> d now = (g, e, w)"
    by (metis prod_cases3)
  have b: "g_Budgets g = None"
    using unbudgeted_charge(2) [OF assms] c by (metis fst_conv)
  have comm: "h\<lparr>h_engine := E, h_gates := g'\<rparr> = h\<lparr>h_gates := g', h_engine := E\<rparr>" for g'
    by simp
  show "deliverCall env (h\<lparr>h_engine := E\<rparr>) req tc i (unbudgeted d) body now =
      map_prod (\<lambda>h. h\<lparr>h_engine := E\<rparr>) (\<lambda>r. r) (deliverCall env h req tc i d body now)"
    unfolding deliverCall_def Let_def unbudgeted_stages unbudgeted_event engine_frame
    by (auto simp: unbudgeted_charge(1) [OF assms] c comm split: scoped.split option.split prod.split)
  show "g_Budgets (h_gates (fst (deliverCall env h req tc i d body now))) = None"
    using assms b unfolding deliverCall_def Let_def c
    by (auto dest: gateEvent_Budgets split: scoped.split option.split prod.split)
qed

text \<open>So what a handler answers is the same, but for its engine and for the rule a parked call keeps.\<close>

fun rewire :: "(Request \<Rightarrow> Decision) \<Rightarrow> served \<Rightarrow> served" where
  "rewire E (Finished h r) = Finished (h\<lparr>h_engine := E\<rparr>) r"
| "rewire E (OnHold h evs c) = OnHold (h\<lparr>h_engine := E\<rparr>) evs (c\<lparr>hc_Decision := unbudgeted (hc_Decision c)\<rparr>)"

lemma unbudgeted_call:
  assumes "g_Budgets (h_gates h) = None"
  shows "handleToolsCall env (h\<lparr>h_engine := unbudgeted \<circ> h_engine h\<rparr>) req body i hex now =
    rewire (unbudgeted \<circ> h_engine h) (handleToolsCall env h req body i hex now)"
proof (cases "ParseToolsCall req")
  case (Inr tc)
  show ?thesis
  proof (cases "Gates_Admit (h_gates h) (callOf tc i) (instant now)")
    case None
    let ?d = "h_engine h (requestOf req tc i)" and ?h = "h\<lparr>h_engine := unbudgeted \<circ> h_engine h\<rparr>"
    have admit: "Gates_Admit (h_gates ?h) (callOf tc i) (instant now) = None" and parks: "parks ?h (unbudgeted ?d) \<longleftrightarrow> parks h ?d"
      using None by (simp_all add: parks_def)
    show ?thesis
    proof (cases "parks h ?d")
      case True
      then obtain m cfg where "d_Held ?d" "h_holds h = Some m" "Option.bind (d_MatchedRule ?d) r_Hold = Some cfg"
        by (auto simp: parks_def)
      then show ?thesis
        using Inr None by (simp add: handleToolsCall_def callOf_def requestOf_def Let_def split: prod.split)
    next
      case False
      then have "\<not> parks ?h (h_engine ?h (requestOf req tc i))" using parks by simp
      note new = handleToolsCall_not_parked [OF Inr admit this, of env body hex]
      show ?thesis
        unfolding new handleToolsCall_not_parked [OF Inr None False, of env body hex]
        by (auto simp: Let_def unbudgeted_deliver(1) [OF assms] split: prod.splits)
    qed
  qed (use Inr in \<open>simp add: handleToolsCall_def callOf_def Let_def split: prod.split\<close>)
qed (simp add: handleToolsCall_def)

lemma unbudgeted_serve:
  assumes "g_Budgets (h_gates h) = None"
  shows "Handler_ServeHTTP env (h\<lparr>h_engine := unbudgeted \<circ> h_engine h\<rparr>) hs raw hex now =
    rewire (unbudgeted \<circ> h_engine h) (Handler_ServeHTTP env h hs raw hex now)"
proof -
  have call: "handleToolsCall env (h\<lparr>h_engine := unbudgeted \<circ> h_engine h, h_integrity := x\<rparr>) req body i hex now =
      rewire (unbudgeted \<circ> h_engine h) (handleToolsCall env (h\<lparr>h_integrity := x\<rparr>) req body i hex now)" for x req body i
  proof -
    have swap: "h\<lparr>h_engine := unbudgeted \<circ> h_engine h, h_integrity := x\<rparr> = h\<lparr>h_integrity := x, h_engine := unbudgeted \<circ> h_engine h\<rparr>"
      by simp
    show ?thesis
      unfolding swap using unbudgeted_call [of "h\<lparr>h_integrity := x\<rparr>" env req body i hex now] assms by simp
  qed
  show ?thesis
    unfolding Handler_ServeHTTP_def engine_frame by (auto simp: Let_def call split: option.split sum.split prod.split)
qed

text \<open>An input leaves a handler without a tracker without one.\<close>

lemma deliver_no_budgets:
  "g_Budgets (h_gates h) = None \<Longrightarrow> deliverCall env h req tc i d body now = (h', r) \<Longrightarrow> g_Budgets (h_gates h') = None"
  using unbudgeted_deliver(2) [of h env req tc i d body now] by simp

lemma call_no_budgets:
  assumes "g_Budgets (h_gates h) = None"
  shows "(case handleToolsCall env h req body i hex now of Finished h' r \<Rightarrow> g_Budgets (h_gates h') = None
    | OnHold h' evs c \<Rightarrow> g_Budgets (h_gates h') = None)"
proof (cases "ParseToolsCall req")
  case (Inr tc)
  show ?thesis
  proof (cases "Gates_Admit (h_gates h) (callOf tc i) (instant now)")
    case None
    show ?thesis
    proof (cases "parks h (h_engine h (requestOf req tc i))")
      case True
      from handleToolsCall_parked [OF Inr None this, of env body hex] assms show ?thesis by auto
    next
      case False
      show ?thesis
        unfolding handleToolsCall_not_parked [OF Inr None False, of env body hex]
        using assms by (auto simp: Let_def dest: deliver_no_budgets split: prod.split)
    qed
  next
    case (Some r)
    with Inr assms show ?thesis
      by (auto simp: handleToolsCall_def callOf_def Let_def dest: gateEvent_Budgets split: prod.split)
  qed
qed (use assms in \<open>simp add: handleToolsCall_def\<close>)

lemma step_no_budgets:
  assumes "g_Budgets (h_gates h) = None" and "traffic_step env h i now = (h', sent)"
  shows "g_Budgets (h_gates h') = None"
proof (cases i)
  case (Arrive a day)
  have "(case Handler_ServeHTTP env (handlerAt h a) hs raw hex t of Finished h' r \<Rightarrow> g_Budgets (h_gates h') = None
      | OnHold h' evs c \<Rightarrow> g_Budgets (h_gates h') = None)" for hs raw hex t
  proof -
    have "g_Budgets (h_gates (handlerAt h a\<lparr>h_integrity := x\<rparr>)) = None" for x
      using assms(1) by (simp add: handlerAt_def)
    note call_no_budgets [OF this]
    then show ?thesis
      unfolding Handler_ServeHTTP_def using assms(1) by (auto simp: Let_def handlerAt_def split: option.split sum.split prod.split)
  qed
  note served = this
  show ?thesis
    using assms(2) served [of "av_Headers a" "av_Body a" "av_Hex a" "\<lparr>instant = now, YearDay = day\<rparr>"]
    unfolding Arrive by (auto split: served.splits)
next
  case (Resume creds c res day)
  have "g_Budgets (h_gates (h\<lparr>h_credentials := creds\<rparr>)) = None" using assms(1) by simp
  note deliver_no_budgets [OF this]
  with assms Resume show ?thesis
    by (auto simp: resumeHeld_def Let_def split: if_splits prod.splits)
qed (use assms in \<open>auto simp: sidecarSweep_def\<close>)

lemma unbudgeted_step:
  assumes "g_Budgets (h_gates h) = None" and "h' = h\<lparr>h_engine := E\<rparr>"
  shows "\<exists>E'. traffic_step env h' (without_budgets i) now = map_prod (\<lambda>h. h\<lparr>h_engine := E'\<rparr>) (\<lambda>b. b) (traffic_step env h i now)"
proof (cases i)
  case (Arrive a day)
  have at: "handlerAt h' (a\<lparr>av_Engine := unbudgeted \<circ> av_Engine a\<rparr>) = (handlerAt h a)\<lparr>h_engine := unbudgeted \<circ> h_engine (handlerAt h a)\<rparr>"
    by (simp add: handlerAt_def assms(2))
  have "g_Budgets (h_gates (handlerAt h a)) = None"
    using assms(1) by (simp add: handlerAt_def)
  note unbudgeted_serve [OF this]
  then show ?thesis
    unfolding Arrive by (intro exI [of _ "unbudgeted \<circ> h_engine (handlerAt h a)"]) (simp add: at split: served.split)
next
  case (Resume creds c res day)
  have "g_Budgets (h_gates (h\<lparr>h_credentials := creds\<rparr>)) = None"
    using assms(1) by simp
  note deliver = unbudgeted_deliver(1) [OF this]
  have "h'\<lparr>h_credentials := creds\<rparr> = (h\<lparr>h_credentials := creds\<rparr>)\<lparr>h_engine := E\<rparr>"
    by (simp add: assms(2))
  then show ?thesis
    unfolding Resume by (intro exI [of _ E]) (simp add: resumeHeld_def Let_def deliver split: prod.split)
qed (use assms(2) in \<open>auto simp: sidecarSweep_def intro: exI [of _ E]\<close>)

lemma unbudgeted_run:
  assumes "g_Budgets (h_gates h) = None" and "\<And>i. counts (without_budgets i) = counts i"
  shows "admitted_by (traffic_step env) counts (h\<lparr>h_engine := E\<rparr>) (map (map_prod without_budgets (\<lambda>t. t)) run) =
    admitted_by (traffic_step env) counts h run"
  using assms(1)
proof (induction run arbitrary: h E)
  case (Cons x run)
  obtain i now where x: "x = (i, now)" by (cases x)
  obtain h' sent where st: "traffic_step env h i now = (h', sent)" by fastforce
  from unbudgeted_step [OF Cons.prems refl, of env E i now] st obtain E' where
    st': "traffic_step env (h\<lparr>h_engine := E\<rparr>) (without_budgets i) now = (h'\<lparr>h_engine := E'\<rparr>, sent)"
    by auto
  show ?case
    using Cons.IH [OF step_no_budgets [OF Cons.prems st]] by (simp add: x st st' assms(2))
qed simp

section \<open>Properties\<close>

text \<open>
  C20. A tool's limit holds for the traffic. If the registry of a started sidecar allows a tool \<open>cap\<close> calls a
  minute (and no registered name contains a zero byte), then in every run of requests, resumed
  calls, changes of the held calls and sweeps in time order, whatever policies, keys and credentials are in
  force along the way, no minute, wherever it starts, contains more than \<open>cap\<close> calls of the tool by one caller
  that were sent upstream.\<close>

theorem sidecar_tool_rate:
  assumes "sidecarMain b = Inr p" and "processHandler te p engine mo = Some h"
    and "Registry_Get (pr_Registry p) tool = Some entry" and "te_MaxCallsPerMin entry = int cap" and "0 < cap" and "tool \<noteq> []"
    and "\<forall>name e. Registry_Get (pr_Registry p) name = Some e \<longrightarrow> CHR 0x00 \<notin> set name"
    and "sorted (map snd run)"
  shows "in_window Minute t (admitted_by (traffic_step env) (calls_tool (traffic_call env) tool subject) h run) \<le> cap"
proof -
  have h: "h_gates h = \<lparr>g_Registry = Some (pr_Registry p), g_Breaker = Some (pr_Breaker p), g_Budgets = pr_Budgets p,
      g_Velocity = pr_Velocity p, g_Rates = Some NewRates\<rparr>"
    using assms(2) by (auto simp: processHandler_def NewHandler_def split: mode.splits)
  have "tool_limited tool cap (h_gates h)"
    using assms(3-7) by (simp add: tool_limited_def limited_def h)
  from sidecar_front.tool_rate [OF this _ assms(8)] show ?thesis by (simp add: h)
qed

lemma demo_registry:
  assumes "cf_ToolRegistryPath cfg \<noteq> []"
  shows "startRegistry (demo_boot a) cfg =
    [(''ls'', \<lparr>te_Name = ''ls'', te_Description = [], te_AllowedScopes = [], te_SignatureHash = [], te_MaxCallsPerMin = 0\<rparr>),
     (''cat'', \<lparr>te_Name = ''cat'', te_Description = [], te_AllowedScopes = [], te_SignatureHash = [], te_MaxCallsPerMin = 1\<rparr>)]"
  using assms by (simp add: startRegistry_def demo_boot_def Registry_LoadFromFile_def Registry_Register_def Registry_New_def)

definition demo_arrival :: arrival where
  "demo_arrival = \<lparr>av_Verifier = (\<lambda>_. Inr (emptyIdentity\<lparr>id_Subject := ''u''\<rparr>)), av_Engine = Evaluate (demo_engine (emptyRule\<lparr>r_Action := ActionAllow\<rparr>)),
     av_Credentials = None, av_Headers = [], av_Body = Some ''A'', av_Hex = ''1''\<rparr>"

definition demo_cat_env :: proxy_env where
  "demo_cat_env = demo_env\<lparr>pe_JSON := demo_json\<lparr>js_unmarshal := \<lambda>_. Inr (VMap [(''method'', VStr ''tools/call''), (''params'', VMap [(''name'', VStr ''cat'')])])\<rparr>\<rparr>"

lemma demo_cat: "calls_tool (traffic_call demo_cat_env) ''cat'' ''u'' (Arrive demo_arrival 1)"
  by (simp add: calls_tool_def demo_arrival_def demo_cat_env_def unmarshalRPC_def emptyRPC_def str_eval decodeString_def MethodToolsCall_def
      ParseToolsCall_def callOf_def Let_def)

lemma sidecar_tool_rate_witness:
  "\<exists>p h. sidecarMain (demo_boot ActionAllow) = Inr p \<and> processHandler demo_token_env p (\<lambda>_. emptyDecision) demo_moment = Some h \<and>
     calls_tool (traffic_call demo_cat_env) ''cat'' ''u'' (Arrive demo_arrival 1) \<and>
     in_window Minute 9 (admitted_by (traffic_step demo_cat_env) (calls_tool (traffic_call demo_cat_env) ''cat'' ''u'') h
       [(Arrive demo_arrival 1, 0), (SweepTick, 4), (Arrive demo_arrival 1, 9)]) \<le> 1"
proof -
  obtain cfg m where p: "sidecarMain (demo_boot ActionAllow) =
      Inr (sidecarProcess (demo_boot ActionAllow) cfg [] (demo_spec ActionAllow) SVNoop (SidecarMode ''up'' m))"
    "cf_ToolRegistryPath cfg \<noteq> []"
    using demo_process by blast
  let ?p = "sidecarProcess (demo_boot ActionAllow) cfg [] (demo_spec ActionAllow) SVNoop (SidecarMode ''up'' m)"
  obtain h where h: "processHandler demo_token_env ?p (\<lambda>_. emptyDecision) demo_moment = Some h"
    by (simp add: processHandler_def process_parts)
  have reg: "pr_Registry ?p =
    [(''ls'', \<lparr>te_Name = ''ls'', te_Description = [], te_AllowedScopes = [], te_SignatureHash = [], te_MaxCallsPerMin = 0\<rparr>),
     (''cat'', \<lparr>te_Name = ''cat'', te_Description = [], te_AllowedScopes = [], te_SignatureHash = [], te_MaxCallsPerMin = 1\<rparr>)]"
    unfolding process_parts by (rule demo_registry [OF p(2)])
  have "in_window Minute 9 (admitted_by (traffic_step demo_cat_env) (calls_tool (traffic_call demo_cat_env) ''cat'' ''u'') h
       [(Arrive demo_arrival 1, 0), (SweepTick, 4), (Arrive demo_arrival 1, 9)]) \<le> 1"
    by (rule sidecar_tool_rate [OF p(1) h]) (auto simp: reg Registry_Get_def split: if_splits)
  with p(1) h demo_cat show ?thesis by blast
qed

text \<open>
  C40. Late budgets are not enforced. Suppose a controller is configured, or no rule of the policy a sidecar reads at
  its start has a budget. Then budgets have no effect on its traffic: in every run of requests, resumed calls and sweeps, whatever
  policies come into force along the way and whatever budgets their rules carry, the calls of a tool by a caller that are sent
  upstream are, at the same times, those that would be sent had all those budgets been taken out of the policies.\<close>

theorem late_budgets_unenforced:
  assumes "sidecarMain b = Inr p" and "processHandler te p engine mo = Some h"
    and "cf_ControllerAddr (pr_Config p) \<noteq> [] \<or> (\<forall>r \<in> set (ps_Rules (pr_Spec p)). r_Budget r = None)"
  shows "admitted_by (traffic_step env) (calls_tool (traffic_call env) tool subject) h run =
    admitted_by (traffic_step env) (calls_tool (traffic_call env) tool subject) h (map (map_prod without_budgets (\<lambda>t. t)) run)"
proof -
  from assms(1) obtain cfg sinks v m where p: "p = sidecarProcess b cfg sinks
      (startupSpec (bt_Loader b) (cf_PolicyPath cfg) (fst (bt_PolicyReads b))) v m"
    by (rule sidecarMain_process)
  have "pr_Budgets p = None"
    using assms(3) unfolding p process_parts by (auto simp: startBudgets_def)
  then have none: "g_Budgets (h_gates h) = None"
    using assms(2) by (auto simp: processHandler_def NewHandler_def split: mode.splits)
  have same: "calls_tool (traffic_call env) tool subject (without_budgets i) = calls_tool (traffic_call env) tool subject i" for i
    by (cases i) (simp_all add: calls_tool_def split: option.split sum.split)
  have "h\<lparr>h_engine := h_engine h\<rparr> = h" by simp
  with unbudgeted_run [where counts = "calls_tool (traffic_call env) tool subject" and E = "h_engine h" and run = run, OF none same, of env]
  show ?thesis by simp
qed

text \<open>A policy that comes into force later, and whose rule allows one call an hour.\<close>

definition demo_late_budget :: arrival where
  "demo_late_budget = demo_arrival\<lparr>av_Engine := Evaluate (demo_engine (emptyRule\<lparr>r_Action := ActionAllow, r_Budget := Some \<lparr>PerIdentity =
     Some \<lparr>MaxCallsPerHour = 1, MaxCallsPerDay = 1, MaxTokensPerDay = 0\<rparr>, PerSession = None, OnExhausted = []\<rparr>\<rparr>))\<rparr>"

lemma late_budgets_unenforced_witness:
  "\<exists>p h. sidecarMain (demo_boot ActionAllow) = Inr p \<and> processHandler demo_token_env p (\<lambda>_. emptyDecision) demo_moment = Some h \<and>
     admitted_by (traffic_step demo_env) (calls_tool (traffic_call demo_env) ''ls'' ''u'') h
       [(Arrive demo_late_budget 1, 0), (Arrive demo_late_budget 1, 9)] =
     admitted_by (traffic_step demo_env) (calls_tool (traffic_call demo_env) ''ls'' ''u'') h
       (map (map_prod without_budgets (\<lambda>t. t)) [(Arrive demo_late_budget 1, 0), (Arrive demo_late_budget 1, 9)])"
proof -
  obtain cfg m where p: "sidecarMain (demo_boot ActionAllow) =
      Inr (sidecarProcess (demo_boot ActionAllow) cfg [] (demo_spec ActionAllow) SVNoop (SidecarMode ''up'' m))"
    using demo_process by blast
  let ?p = "sidecarProcess (demo_boot ActionAllow) cfg [] (demo_spec ActionAllow) SVNoop (SidecarMode ''up'' m)"
  obtain h where h: "processHandler demo_token_env ?p (\<lambda>_. emptyDecision) demo_moment = Some h"
    by (simp add: processHandler_def process_parts)
  have "\<forall>r \<in> set (ps_Rules (pr_Spec ?p)). r_Budget r = None"
    unfolding process_parts by (simp add: demo_spec_def emptyRule_def)
  then have "cf_ControllerAddr (pr_Config ?p) \<noteq> [] \<or> (\<forall>r \<in> set (ps_Rules (pr_Spec ?p)). r_Budget r = None)" ..
  from late_budgets_unenforced [OF p h this, of demo_env "''ls''" "''u''" "[(Arrive demo_late_budget 1, 0), (Arrive demo_late_budget 1, 9)]"]
  show ?thesis using p h by blast
qed

end
