(* ===== verification/ArbiterTraffic.thy ===== *)
theory ArbiterTraffic
  imports ArbiterMain Traffic
begin

text \<open>
  What the decision service does with a sequence of checks. Its gates last from check to check; the keys
  of its run token verifier may be fetched anew between any two of them, and the minute's sweep ticks.
\<close>

section \<open>Runs\<close>

text \<open>A check comes with the keys the verifier has then, the time at which a run token is verified and the day.\<close>

datatype check_input =
    CheckCall "JWKSVerifier option" time CheckRequest int
  | CheckSweep

text \<open>One input: the gates after it, and whether an enforcing server let Envoy forward the call.\<close>

fun check_step :: "json_lib \<Rightarrow> arbiter_boot \<Rightarrow> arbiter \<Rightarrow> Gates \<Rightarrow> check_input \<Rightarrow> time \<Rightarrow> Gates \<times> bool" where
  "check_step js b a g (CheckCall keys t0 req day) now =
     (case Server_Check js (arbiterAt b a g keys t0) req \<lparr>instant = now, YearDay = day\<rparr> of
        None \<Rightarrow> (g, False)
      | Some (s', evs, resp) \<Rightarrow> (sv_gates s', sv_mode (ar_Server a) = ModeEnforce \<and> \<not> is_denied resp))"
| "check_step js b a g CheckSweep now = (sv_gates (arbiterSweep (arbiterAt b a g None 0) now), False)"

text \<open>The call a check is about, once its target, its operation and its run are settled.\<close>

definition settled_call :: "Extauthz.Server \<Rightarrow> Translated \<Rightarrow> Call option" where
  "settled_call s t =
     (case verifyTarget s t of
        Inl r \<Rightarrow> None
      | Inr t1 \<Rightarrow>
          (case nameOperation s t1 of
             (t2, Some r) \<Rightarrow> None
           | (t2, None) \<Rightarrow> (case checkRun s t2 of Inl r \<Rightarrow> None | Inr t3 \<Rightarrow> Some (callFor s t3))))"

fun check_call :: "json_lib \<Rightarrow> arbiter_boot \<Rightarrow> arbiter \<Rightarrow> check_input \<Rightarrow> Call option" where
  "check_call js b a (CheckCall keys t0 req day) =
     (case Translate js req of
        (Some t, None) \<Rightarrow> settled_call (arbiterAt b a (sv_gates (ar_Server a)) keys t0) t
      | _ \<Rightarrow> None)"
| "check_call js b a CheckSweep = None"

fun check_day :: "check_input \<Rightarrow> int" where
  "check_day (CheckCall keys t0 req day) = day"
| "check_day CheckSweep = 0"

section \<open>What one check does to the gates\<close>

lemma gates_irrelevant:
  "verifyTarget (s\<lparr>sv_gates := g\<rparr>) = verifyTarget s" "nameOperation (s\<lparr>sv_gates := g\<rparr>) = nameOperation s"
  "checkRun (s\<lparr>sv_gates := g\<rparr>) = checkRun s" "callFor (s\<lparr>sv_gates := g\<rparr>) = callFor s"
  unfolding fun_eq_iff verifyTarget_def nameOperation_def checkRun_def verifyRun_def callFor_def by simp_all

lemma settled_call_gates: "settled_call (arbiterAt b a g keys t0) = settled_call (arbiterAt b a g' keys t0)"
proof -
  have "arbiterAt b a g keys t0 = (arbiterAt b a g' keys t0)\<lparr>sv_gates := g\<rparr>"
    by (simp add: arbiterAt_def)
  then show ?thesis by (simp only: fun_eq_iff settled_call_def gates_irrelevant) simp
qed

lemma announceTrip_untouched:
  "announceTrip s t c r = Some (s', evs) \<Longrightarrow> untouched (sv_gates s) (sv_gates s')"
  by (auto simp: announceTrip_def untouched_def Let_def split: if_splits option.splits prod.splits)

lemma decideAdmitted_gates:
  "untouched (sv_gates s) (sv_gates (dc_Server (decideAdmitted s t c now))) \<and> \<not> d_Allowed (dc_Decision (decideAdmitted s t c now)) \<or>
   charged_once (sv_gates s) (sv_gates (dc_Server (decideAdmitted s t c now))) (Some c) now (d_Allowed (dc_Decision (decideAdmitted s t c now)))"
proof (cases "d_Allowed (sv_engine s (tr_Policy t))")
  case True
  obtain g e w where ch: "Gates_Charge (sv_gates s) c (sv_engine s (tr_Policy t)) now = (g, e, w)" by (metis prod_cases3)
  with True have "sv_gates (dc_Server (decideAdmitted s t c now)) = g \<and> (d_Allowed (dc_Decision (decideAdmitted s t c now)) \<longrightarrow> e = None)"
    by (cases e) (simp_all add: decideAdmitted_def)
  with ch show ?thesis by (auto simp: charged_once_def)
qed (simp add: decideAdmitted_def untouched_def)

lemma decide_gates:
  assumes "unbound t" and "Server_decide s t now = Some dc"
  shows "untouched (sv_gates s) (sv_gates (dc_Server dc)) \<and> \<not> d_Allowed (dc_Decision dc) \<or>
    charged_once (sv_gates s) (sv_gates (dc_Server dc)) (settled_call s t) now (d_Allowed (dc_Decision dc))"
  using assms(1)
proof (cases rule: Server_decide_cases [where s = s and now = now])
  case (stopped t' r)
  with assms(2) show ?thesis by (auto simp: untouched_def)
next
  case (unadmitted t1 t2 t3 r s' evs)
  with assms(2) announceTrip_untouched [OF unadmitted(6)] show ?thesis by auto
next
  case (admitted t1 t2 t3)
  then have "settled_call s t = Some (callFor s t3)" "dc = decideAdmitted s t3 (callFor s t3) now"
    using assms(2) by (simp_all add: settled_call_def)
  with decideAdmitted_gates [of s t3 "callFor s t3" now] show ?thesis by simp
qed

lemma check_gates:
  assumes "check_step js b a g i now = (g', sent)"
  shows "untouched g g' \<and> (check_call js b a i = None \<or> \<not> sent) \<or>
    charged_once g g' (check_call js b a i) \<lparr>instant = now, YearDay = check_day i\<rparr> sent"
proof (cases i)
  case (CheckCall keys t0 req day)
  let ?s = "arbiterAt b a g keys t0" and ?now = "\<lparr>instant = now, YearDay = day\<rparr>"
  have s: "sv_gates ?s = g" "sv_mode ?s = sv_mode (ar_Server a)" by (simp_all add: arbiterAt_def)
  show ?thesis
  proof (cases rule: Server_Check_cases [of js req ?s ?now])
    case (unread tr err)
    then have "check_call js b a i = None" "g' = g"
      using assms CheckCall s by (auto split: option.split)
    then show ?thesis by (simp add: untouched_def)
  next
    case (decided t dc)
    have call: "check_call js b a i = settled_call ?s t"
      using decided(1) CheckCall settled_call_gates [of b a "sv_gates (ar_Server a)" keys t0 g] by simp
    have g': "g' = sv_gates (dc_Server dc)" and ok: "sent \<Longrightarrow> d_Allowed (dc_Decision dc)"
      using assms CheckCall decided(4) respond_denied [of ?s "dc_Decision dc"] s by auto
    have day: "check_day i = day" by (simp add: CheckCall)
    from decide_gates [OF decided(2,3), unfolded s(1)] show ?thesis
      unfolding call g' day using ok by (blast intro: charged_once_weaken)
  qed
qed (use assms in \<open>auto simp: untouched_def arbiterSweep_def arbiterAt_def\<close>)

interpretation arbiter_front: charging_front "check_step js b a" "\<lambda>g. g" "check_call js b a" check_day
  for js b a
  by unfold_locales (rule check_gates)

lemma buildGates_rates: "buildGates b spec = Inr g \<Longrightarrow> g_Rates g = Some NewRates"
  by (auto simp: buildGates_def Let_def split: option.splits prod.splits)

section \<open>Properties\<close>

text \<open>
  C21. A tool's limit holds for what an enforcing arbiter lets through. If the decision service started in
  enforce mode with a registry that allows a tool \<open>cap\<close> calls a minute (and no registered name contains a
  zero byte), then in every run of checks and sweeps in time order, whatever keys the run token verifier has
  along the way, no minute, wherever it starts, contains more than \<open>cap\<close> calls of the tool by one
  attested workload that Envoy was not told to refuse.\<close>

theorem arbiter_tool_rate:
  assumes "arbiterMain b = Inr a" and "ab_LookupEnv b ''NULLFIELD_EXTAUTHZ_MODE'' = Some ''enforce''"
    and "g_Registry (sv_gates (ar_Server a)) = Some reg" and "Registry_Get reg tool = Some entry"
    and "te_MaxCallsPerMin entry = int cap" and "0 < cap" and "tool \<noteq> []"
    and "\<forall>name e. Registry_Get reg name = Some e \<longrightarrow> CHR 0x00 \<notin> set name"
    and "sorted (map snd run)"
  shows "sv_mode (ar_Server a) = ModeEnforce \<and>
     in_window Minute t (admitted_by (check_step js b a) (calls_tool (check_call js b a) tool subject) (sv_gates (ar_Server a)) run) \<le> cap"
proof -
  obtain spec where g: "buildGates b spec = Inr (sv_gates (ar_Server a))" and mode: "sv_mode (ar_Server a) = ModeEnforce"
    by (rule arbiter_started [OF assms(1,2) option.rel_refl [OF same_settings_refl]])
  note rates = buildGates_rates [OF g]
  have "tool_limited tool cap (sv_gates (ar_Server a))"
    using assms(3-8) by (simp add: tool_limited_def limited_def)
  from arbiter_front.tool_rate [OF this rates assms(9)] mode show ?thesis by blast
qed

text \<open>The demonstration arbiter with a registry, and checks of a tools/call.\<close>

definition demo_entry :: ToolRegistryEntry where
  "demo_entry = \<lparr>te_Name = ''cat'', te_Description = [], te_AllowedScopes = [], te_SignatureHash = [], te_MaxCallsPerMin = 1\<rparr>"

definition demo_limited :: arbiter_boot where
  "demo_limited = demo_arbiter_with (Some ''reg'')
     (Inr \<lparr>tr_APIVersion = [], tr_Kind = [], tr_Metadata = \<lparr>md_Name = [], md_Namespace = [], md_Labels = []\<rparr>, tr_Tools = [demo_entry]\<rparr>)"

definition demo_cat_check :: check_input where
  "demo_cat_check = CheckCall None 0 \<lparr>ck_Http = Some \<lparr>hr_Method = ''POST'', hr_Path = ''/'', hr_Host = ''api.x'',
       hr_Headers = [], hr_Size = 0, hr_Body = ''A'', hr_RawBody = []\<rparr>, ck_SourcePrincipal = demo_peer, ck_DestinationAddress = []\<rparr> 1"

lemma demo_limited_gates:
  "buildGates demo_limited (demo_spec ActionAllow) = Inr \<lparr>g_Registry = Some [(''cat'', demo_entry)], g_Breaker = None, g_Budgets = None,
     g_Velocity = None, g_Rates = Some NewRates\<rparr>"
  by (simp add: buildGates_def demo_limited_def demo_arbiter_with_def runBreaker_def startBudgets_def startVelocity_def demo_spec_def
      emptyRule_def Registry_LoadFromFile_def Registry_Register_def Registry_New_def demo_entry_def)

lemma demo_cat_parsed:
  "\<exists>t. Translate (pe_JSON demo_cat_env) \<lparr>ck_Http = Some \<lparr>hr_Method = ''POST'', hr_Path = ''/'', hr_Host = ''api.x'',
       hr_Headers = [], hr_Size = 0, hr_Body = ''A'', hr_RawBody = []\<rparr>, ck_SourcePrincipal = demo_peer, ck_DestinationAddress = []\<rparr> = (Some t, None) \<and>
     tr_Destination t = [] \<and> q_ToolName (tr_Policy t) = ''cat'' \<and> tr_Attestation t = MeshAttester_Attest demo_peer"
  by (simp add: Translate_def attestPeer_def demo_attest BodyTruncated_def PartialBodyHeader_def bodyOf_def parseMCPToolsCall_def
      TrimSpace_def is_space_def demo_cat_env_def unmarshalRPC_def emptyRPC_def str_eval decodeString_def MethodToolsCall_def ParseToolsCall_def Let_def)
    (simp add: demo_peer_def)

lemma demo_cat_called:
  assumes "sv_operations (ar_Server a) = None"
  shows "calls_tool (check_call (pe_JSON demo_cat_env) demo_limited a) ''cat'' demo_peer demo_cat_check"
proof -
  let ?s = "arbiterAt demo_limited a (sv_gates (ar_Server a)) None 0"
  obtain t where t: "Translate (pe_JSON demo_cat_env) \<lparr>ck_Http = Some \<lparr>hr_Method = ''POST'', hr_Path = ''/'', hr_Host = ''api.x'',
       hr_Headers = [], hr_Size = 0, hr_Body = ''A'', hr_RawBody = []\<rparr>, ck_SourcePrincipal = demo_peer, ck_DestinationAddress = []\<rparr> = (Some t, None)"
    "tr_Destination t = []" "q_ToolName (tr_Policy t) = ''cat''" "tr_Attestation t = MeshAttester_Attest demo_peer"
    using demo_cat_parsed by blast
  have "verifyTarget ?s t = Inr t" "nameOperation ?s t = (t, None)" "checkRun ?s t = Inr t"
    using t(2) assms by (simp_all add: verifyTarget_def nameOperation_def checkRun_def arbiterAt_def split: option.split)
  then have "settled_call ?s t = Some (callFor ?s t)" by (simp add: settled_call_def)
  with t show ?thesis by (simp add: calls_tool_def demo_cat_check_def callFor_def demo_attest)
qed

lemma arbiter_tool_rate_witness:
  "\<exists>a. arbiterMain demo_limited = Inr a \<and>
     calls_tool (check_call (pe_JSON demo_cat_env) demo_limited a) ''cat'' demo_peer demo_cat_check \<and>
     in_window Minute 9 (admitted_by (check_step (pe_JSON demo_cat_env) demo_limited a)
       (calls_tool (check_call (pe_JSON demo_cat_env) demo_limited a) ''cat'' demo_peer) (sv_gates (ar_Server a))
       [(demo_cat_check, 0), (CheckSweep, 4), (demo_cat_check, 9)]) \<le> 1"
proof -
  obtain a s where a: "arbiterMain demo_limited = Inr a" "ar_Server a = s" "sv_operations s = None"
    "sv_gates s = \<lparr>g_Registry = Some [(''cat'', demo_entry)], g_Breaker = None, g_Budgets = None, g_Velocity = None, g_Rates = Some NewRates\<rparr>"
    using demo_arbiter_starts_with [OF demo_limited_gates [unfolded demo_limited_def]] unfolding demo_limited_def by blast
  have mode: "ab_LookupEnv demo_limited ''NULLFIELD_EXTAUTHZ_MODE'' = Some ''enforce''"
    by (simp add: demo_limited_def demo_arbiter_with_def)
  have reg: "g_Registry (sv_gates (ar_Server a)) = Some [(''cat'', demo_entry)]" "Registry_Get [(''cat'', demo_entry)] ''cat'' = Some demo_entry"
    "te_MaxCallsPerMin demo_entry = int 1"
    by (simp_all add: a(2,4) Registry_Get_def demo_entry_def)
  have "in_window Minute 9 (admitted_by (check_step (pe_JSON demo_cat_env) demo_limited a)
       (calls_tool (check_call (pe_JSON demo_cat_env) demo_limited a) ''cat'' demo_peer) (sv_gates (ar_Server a))
       [(demo_cat_check, 0), (CheckSweep, 4), (demo_cat_check, 9)]) \<le> 1"
    by (rule arbiter_tool_rate [OF a(1) mode reg, THEN conjunct2]) (auto simp: Registry_Get_def split: if_splits)
  with a(1,2,3) demo_cat_called show ?thesis by blast
qed

end
