(* ===== verification/ControllerMain.thy ===== *)
theory ControllerMain
  imports ArbiterMain
begin

text \<open>
  The controller process (\<open>cmd/nullfield-controller/main.go\<close>): from the environment to the server of
  theory \<open>Controller\<close> and the watcher of theory \<open>CrdWatcher\<close>; and what the two kinds of process do to each
  other: what a sidecar reports, and what the watcher publishes for a sidecar to load.
\<close>

section \<open>Starting\<close>

record controller_boot =
  ct_Getenv :: environ
  ct_CA :: file_read
  ct_HasCerts :: "string \<Rightarrow> bool"
  ct_NamespaceFile :: file_read
  ct_Listen :: "string \<Rightarrow> string option"

record controller_process =
  cp_GRPCAddr :: string
  cp_AdminAddr :: string
  cp_HealthAddr :: string
  cp_Server :: Server
  cp_Watcher :: "(Watcher \<times> string \<times> duration) option"

definition crdInterval :: "environ \<Rightarrow> duration" where
  "crdInterval getenv =
     (case ParseDuration (envOr getenv ''NULLFIELD_CRD_WATCH_INTERVAL'' ''30s'') of Inl _ \<Rightarrow> 30 * Second | Inr d \<Rightarrow> d)"

text \<open>The watcher, the base URL of its client and its interval; none if it is not asked for or cannot be made.\<close>

definition startWatcher :: "controller_boot \<Rightarrow> (Watcher \<times> string \<times> duration) option" where
  "startWatcher b =
     (let env = envOr (ct_Getenv b) in
      if env ''NULLFIELD_CRD_WATCH'' [] \<noteq> ''true'' then None
      else case NewWatcher \<lparr>wc_Namespace = env ''NULLFIELD_CRD_WATCH_NAMESPACE'' [], wc_ActiveTargetCM = env ''NULLFIELD_ACTIVE_TARGET_CM'' [],
                  wc_ActiveTargetCMKey = env ''NULLFIELD_ACTIVE_TARGET_KEY'' ''policy.yaml'',
                  wc_ActiveTargetLabel = env ''NULLFIELD_ACTIVE_TARGET_LABEL'' []\<rparr>
                (ct_Getenv b ''KUBERNETES_SERVICE_HOST'') (ct_Getenv b ''KUBERNETES_SERVICE_PORT'')
                (ct_CA b) (ct_HasCerts b) (ct_NamespaceFile b) of
          Inl err \<Rightarrow> None
        | Inr (w, api) \<Rightarrow> Some (w, api, crdInterval (ct_Getenv b)))"

definition controllerMain :: "controller_boot \<Rightarrow> string + controller_process" where
  "controllerMain b =
     (let env = envOr (ct_Getenv b); grpcAddr = env ''NULLFIELD_CONTROLLER_GRPC_ADDR'' '':9092'' in
      case ct_Listen b grpcAddr of
        Some err \<Rightarrow> Inl err
      | None \<Rightarrow>
          Inr \<lparr>cp_GRPCAddr = grpcAddr, cp_AdminAddr = env ''NULLFIELD_CONTROLLER_ADMIN_ADDR'' '':9093'',
               cp_HealthAddr = env ''NULLFIELD_CONTROLLER_HEALTH_ADDR'' '':9091'',
               cp_Server = initialServer (env ''NULLFIELD_ALERTING_WEBHOOK'' []), cp_Watcher = startWatcher b\<rparr>)"

text \<open>
  The watcher's goroutine: a pass, then one per tick. \<open>time.NewTicker\<close> panics on an interval that is not
  positive, which ends the process: \<open>None\<close>, after the first pass.
\<close>

definition watcherGoroutine :: "watch_env \<Rightarrow> Watcher \<Rightarrow> duration \<Rightarrow> nat \<Rightarrow> (Watcher \<times> history) option" where
  "watcherGoroutine env w interval ticks = (if interval \<le> 0 then None else Some (Watcher_Run env w [] ticks))"

lemma interval_panics:
  assumes "ct_Getenv b ''NULLFIELD_CRD_WATCH_INTERVAL'' = ''0''" and "startWatcher b = Some (w, api, interval)"
  shows "watcherGoroutine env w interval ticks = None"
proof -
  have "crdInterval (ct_Getenv b) = 0"
    using assms(1) by (simp add: crdInterval_def envOr_def ParseDuration_def)
  then have "interval = 0"
    using assms(2) by (auto simp: startWatcher_def Let_def split: if_splits sum.splits)
  then show ?thesis by (simp add: watcherGoroutine_def)
qed

section \<open>The controller's log of events\<close>

text \<open>A step of the controller puts at most one event in front of those it has kept.\<close>

definition logged :: "nat \<Rightarrow> Server \<Rightarrow> Server \<Rightarrow> nat \<Rightarrow> bool" where
  "logged n s s' k \<longleftrightarrow> ring_ok n (srv_Events s') \<and>
     (\<exists>fresh. length fresh \<le> k \<and> ring_recent (srv_Events s') = take n (fresh @ ring_recent (srv_Events s)))"

lemma logged_refl: "ring_ok n (srv_Events s) \<Longrightarrow> srv_Events s' = srv_Events s \<Longrightarrow> logged n s s' k"
  unfolding logged_def by (intro conjI exI [of _ "[]"]) (auto simp: ring_ok_def)

lemma logged_add: "ring_ok n (srv_Events s) \<Longrightarrow> srv_Events s' = EventBuffer_Add (srv_Events s) e now \<Longrightarrow> logged n s s' (Suc 0)"
  unfolding logged_def by (intro conjI exI [of _ "[stamped e now]"]) (auto simp: ring_ok_Add ring_Add)

lemma logged_trans:
  assumes "logged n s s' j" and "logged n s' s'' k"
  shows "logged n s s'' (j + k)"
proof -
  obtain f1 f2 where f: "length f1 \<le> j" "ring_recent (srv_Events s') = take n (f1 @ ring_recent (srv_Events s))"
    "length f2 \<le> k" "ring_recent (srv_Events s'') = take n (f2 @ ring_recent (srv_Events s'))"
    using assms unfolding logged_def by blast
  have "ring_recent (srv_Events s'') = take n ((f2 @ f1) @ ring_recent (srv_Events s))"
    unfolding f(2,4) by (simp add: min_def take_append)
  then show ?thesis
    using assms(2) f(1,3) unfolding logged_def by (intro conjI exI [of _ "f2 @ f1"]) auto
qed

lemma Server_add_Events [simp]: "srv_Events (Server_add s e now) = EventBuffer_Add (srv_Events s) e now"
  by (simp add: Server_add_def)

lemma Server_alert_Events: "Server_alert marshal s e now = (s', a) \<Longrightarrow> srv_Events s' = srv_Events s"
  by (auto simp: Server_alert_def split: prod.splits)

lemma admin_Events: "controllerAdmin s holdIDs budgetIDs meth path ty xApprover now = (s', r, d) \<Longrightarrow> srv_Events s' = srv_Events s"
  by (auto simp: controllerAdmin_def Let_def split: if_splits prod.splits)

lemma server_logged:
  assumes "ring_ok n (srv_Events s)"
  shows "logged n s (fst (server_exec marshal s x now)) (Suc 0)"
proof (cases x)
  case (GCheckBudget req day)
  then have "\<exists>e t. srv_Events (fst (server_exec marshal s x now)) = EventBuffer_Add (srv_Events s) e t"
    by (auto simp: Server_CheckBudget_def Let_def dest!: Server_alert_Events split: prod.split) blast+
  then show ?thesis using logged_add [OF assms] by blast
next
  case (GCreateHold req hex)
  then have "\<exists>e t. srv_Events (fst (server_exec marshal s x now)) = EventBuffer_Add (srv_Events s) e t"
    by (auto simp: Server_CreateHold_def Let_def dest!: Server_alert_Events split: prod.split) blast+
  then show ?thesis using logged_add [OF assms] by blast
next
  case (GReportEvent req)
  then have "\<exists>e t. srv_Events (fst (server_exec marshal s x now)) = EventBuffer_Add (srv_Events s) e t"
    by (auto simp: Server_ReportEvent_def Let_def dest!: Server_alert_Events split: prod.split) blast+
  then show ?thesis using logged_add [OF assms] by blast
next
  case (GRegisterSidecar req)
  then have "\<exists>e t. srv_Events (fst (server_exec marshal s x now)) = EventBuffer_Add (srv_Events s) e t"
    by (auto simp: Server_RegisterSidecar_def Let_def)
  then show ?thesis using logged_add [OF assms] by blast
qed (auto intro!: logged_refl [OF assms] simp: sweepTick_def dest: admin_Events split: prod.split)

abbreviation controller_run :: "marshal \<Rightarrow> Server \<Rightarrow> (server_op \<times> time) list \<Rightarrow> Server" where
  "controller_run marshal \<equiv> foldl (\<lambda>s (x, now). fst (server_exec marshal s x now))"

lemma run_logged: "ring_ok n (srv_Events s) \<Longrightarrow> logged n s (controller_run marshal s xs) (length xs)"
proof (induction xs arbitrary: s)
  case Nil
  then show ?case by (simp add: logged_refl)
next
  case (Cons x xs)
  obtain y t where x: "x = (y, t)" by force
  have "logged n s (fst (server_exec marshal s y t)) (Suc 0)"
    by (rule server_logged [OF Cons.prems])
  moreover from this have "logged n (fst (server_exec marshal s y t)) (controller_run marshal (fst (server_exec marshal s y t)) xs) (length xs)"
    by (intro Cons.IH) (simp add: logged_def)
  ultimately show ?case
    using logged_trans by (fastforce simp: x)
qed

lemma in_take_append: "length xs < k \<Longrightarrow> x \<in> set (take k (xs @ x # ys))"
  by (cases "k - length xs") auto

text \<open>Such a step keeps an event listed while fewer than the limit have come after it.\<close>

lemma listed_after:
  assumes "logged n s s' k" and "ring_recent (srv_Events s) = e # rest" and "k < n" and "int k < limit" and "of_type ty e"
  shows "e \<in> set (EventBuffer_List (srv_Events s') ty limit)"
proof -
  obtain fresh where f: "length fresh \<le> k" "ring_recent (srv_Events s') = take n (fresh @ e # rest)" "ring_ok n (srv_Events s')"
    using assms(1,2) unfolding logged_def by auto
  then have r: "ring_recent (srv_Events s') = fresh @ e # take (n - Suc (length fresh)) rest"
    using assms(3) by (cases "n - length fresh") (auto intro: arg_cong [where f = "\<lambda>i. take i rest"])
  then have c: "eb_count (srv_Events s') = Suc (length fresh + length (take (n - Suc (length fresh)) rest))"
    by (metis length_ring_recent length_append length_Cons add_Suc_right)
  define m where "m = length (filter (of_type ty) fresh)"
  have "m \<le> length fresh" by (simp add: m_def)
  then have "m < (if limit \<le> 0 \<or> int (eb_count (srv_Events s')) < limit then eb_count (srv_Events s') else nat limit)"
    using assms(4) f(1) c by auto
  then show ?thesis
    unfolding EventBuffer_List_def Let_def listFrom_entries [OF f(3)] r m_def
    using assms(5) in_take_append by fastforce
qed

section \<open>The sidecar's policy file\<close>

lemma latest_snoc: "latest le cur (reads @ [r]) = (case engine_of le r of None \<Rightarrow> latest le cur reads | Some e \<Rightarrow> Some e)"
  by (induction reads arbitrary: cur) (simp_all split: option.split)

text \<open>A sidecar that could load its policy at the start follows its file.\<close>

lemma engine_follows_file:
  assumes "inj_on (le_sha le) {d. Inr d \<in> set (read # reads)}" and "path \<noteq> []" and "le_load le read = Inr s0"
  shows "activeEngine (engineTicks le (chooseEngine le zero path spec read read) (map (\<lambda>r. (r, r)) reads)) =
    map_option Evaluate (latest le (Some (NewRuleEngine (le_cel le) (ps_Rules s0))) reads)"
proof -
  obtain data where d: "read = Inr data"
    using assms(3) by (auto simp: le_load_iff)
  define l where "l = fst (LoadInitial le (NewHotLoader zero) read read)"
  have l: "hl_engine l = Some (NewRuleEngine (le_cel le) (ps_Rules s0))" "hl_lastHash l = le_sha le data"
    using assms(3) by (simp_all add: l_def LoadInitial_def d ignoreErr_def Let_def)
  have "loader_ok le {d. Inr d \<in> set (read # reads)} l"
    unfolding loader_ok_def using l assms(3) by (intro bexI [of _ data]) (simp_all add: engine_of_def d)
  moreover have "chooseEngine le zero path spec read read = HotEngine l"
    using assms(2,3) by (simp add: chooseEngine_def LoadInitial_def l_def Let_def)
  ultimately show ?thesis
    using Watch_latest [OF assms(1), of l reads] l(1) by (simp add: hotLoaderEngine_Evaluate_def)
qed

lemma process_engine_follows_file:
  assumes "sidecarMain b = Inr p" and "bt_PolicyReads b = (first, read, read)" and "le_load (bt_Loader b) read = Inr s0"
    and "inj_on (le_sha (bt_Loader b)) {d. Inr d \<in> set (read # reads)}"
  shows "activeEngine (engineTicks (bt_Loader b) (pr_Engine p) (map (\<lambda>r. (r, r)) reads)) =
    map_option Evaluate (latest (bt_Loader b) (Some (NewRuleEngine (le_cel (bt_Loader b)) (ps_Rules s0))) reads)"
proof -
  from assms(1) obtain cfg sinks v m where c: "Config_Load (bt_Getenv b) = Inr cfg"
    "p = sidecarProcess b cfg sinks (startupSpec (bt_Loader b) (cf_PolicyPath cfg) (fst (bt_PolicyReads b))) v m"
    by (rule sidecarMain_process)
  have "cf_PolicyPath cfg \<noteq> []"
    using Load_settings(4) [OF c(1)] by (simp add: envOr_def)
  from engine_follows_file [OF assms(4) this assms(3)] show ?thesis
    unfolding c(2) process_parts assms(2) by simp
qed

section \<open>Policies written as YAML and read back\<close>

text \<open>
  The fields of a rule that decide are strings, booleans, numbers and pointers to structs of those, which the codec
  gives back as they were. Only the conditions on claims are of type \<open>any\<close>: they are a map, whose order is not kept,
  and a number in it may come back as another type of number, but not as one that is printed otherwise; of
  a condition the engine uses a string, or how the value of \<open>contains\<close> is printed.
\<close>

definition claim_test :: "goval \<Rightarrow> string + string option" where
  "claim_test condition = (case condition of VStr s \<Rightarrow> Inl s | VMap m \<Rightarrow> Inr (map_option Sprint (map_of m ''contains'')) | _ \<Rightarrow> Inr None)"

definition when_agrees :: "WhenCondition \<Rightarrow> WhenCondition \<Rightarrow> bool" where
  "when_agrees w w' \<longleftrightarrow> w_IdentityType w = w_IdentityType w' \<and> w_Provider w = w_Provider w' \<and>
     map_prod (\<lambda>key. key) claim_test ` set (w_Claims w) = map_prod (\<lambda>key. key) claim_test ` set (w_Claims w')"

definition rule_agrees :: "Rule \<Rightarrow> Rule \<Rightarrow> bool" where
  "rule_agrees r r' \<longleftrightarrow> r_Action r = r_Action r' \<and> r_MCPMethod r = r_MCPMethod r' \<and> r_ToolNames r = r_ToolNames r' \<and>
     r_RequireIdentity r = r_RequireIdentity r' \<and> r_CELExpression r = r_CELExpression r' \<and> r_Identity r = r_Identity r' \<and>
     r_Delegation r = r_Delegation r' \<and> rel_option when_agrees (r_When r) (r_When r')"

definition yaml_reads_back :: "watch_env \<Rightarrow> bool" where
  "yaml_reads_back env \<longleftrightarrow> (\<forall>pol y pol'. we_YamlArtifact env (APolicy pol) = Inr y \<longrightarrow> we_DecodePolicy env y = Inr pol' \<longrightarrow>
     list_all2 rule_agrees (ps_Rules (np_Spec pol)) (ps_Rules (np_Spec pol')) \<and>
     (ps_RunToken (np_Spec pol) = None \<longrightarrow> ps_RunToken (np_Spec pol') = None))"

lemma claim_meets_test:
  assumes "claim_test condition = claim_test condition'"
  shows "claim_meets claims key condition \<longleftrightarrow> claim_meets claims key condition'"
proof -
  have "claim_meets claims key c \<longleftrightarrow> (case claim_test c of
      Inl s \<Rightarrow> mget claims key = VStr s \<or> s = [] \<and> (\<forall>u. mget claims key \<noteq> VStr u)
    | Inr None \<Rightarrow> True
    | Inr (Some p) \<Rightarrow> (\<exists>xs. mget claims key = VArr xs \<and> (\<exists>x \<in> set xs. Sprint x = p)) \<or>
        (\<exists>xs. mget claims key = VStrs xs \<and> p \<in> set xs) \<or> (\<exists>s. mget claims key = VStr s \<and> sublist p s))" for c
    unfolding claim_meets_def claim_test_def by (cases c) (auto split: option.split)
  with assms show ?thesis by simp
qed

lemma claims_agree:
  assumes "map_prod (\<lambda>key. key) claim_test ` set cs \<subseteq> map_prod (\<lambda>key. key) claim_test ` set cs'"
    and "\<forall>(key, condition) \<in> set cs'. claim_meets claims key condition"
  shows "\<forall>(key, condition) \<in> set cs. claim_meets claims key condition"
proof safe
  fix key condition
  assume "(key, condition) \<in> set cs"
  then have "(key, claim_test condition) \<in> map_prod (\<lambda>key. key) claim_test ` set cs'"
    using assms(1) by force
  then obtain condition' where "(key, condition') \<in> set cs'" "claim_test condition = claim_test condition'"
    by auto
  with assms(2) show "claim_meets claims key condition"
    using claim_meets_test by blast
qed

lemma when_agrees_meets:
  assumes "when_agrees w w'"
  shows "when_meets w who \<longleftrightarrow> when_meets w' who"
proof -
  have eq: "map_prod (\<lambda>key. key) claim_test ` set (w_Claims w) = map_prod (\<lambda>key. key) claim_test ` set (w_Claims w')"
    using assms by (simp add: when_agrees_def)
  have "w_Claims w = [] \<longleftrightarrow> w_Claims w' = []"
    using eq by (metis image_is_empty set_empty)
  moreover have "(\<forall>(key, condition) \<in> set (w_Claims w). claim_meets claims key condition) \<longleftrightarrow>
      (\<forall>(key, condition) \<in> set (w_Claims w'). claim_meets claims key condition)" for claims
    by (rule iffI; rule claims_agree; (simp only: eq order_refl)?)
  ultimately show ?thesis
    using assms unfolding when_agrees_def when_meets_def by simp
qed

lemma rule_agrees_verdict:
  assumes "rule_agrees r r'"
  shows "rule_verdict cel r req = rule_verdict cel r' req"
proof -
  have "aimed_at r req \<longleftrightarrow> aimed_at r' req"
    using assms when_agrees_meets unfolding rule_agrees_def aimed_at_def
    by (cases "r_When r"; cases "r_When r'") auto
  moreover have "cel_says cel r req v \<longleftrightarrow> cel_says cel r' req v" for v
    using assms by (simp add: rule_agrees_def cel_says_def)
  moreover have "delegation_meets r who \<longleftrightarrow> delegation_meets r' who" for who
    using assms by (simp add: rule_agrees_def delegation_meets_def)
  ultimately show ?thesis
    using assms unfolding rule_verdict_def by (simp add: rule_agrees_def)
qed

lemma rules_agree_verdict: "list_all2 rule_agrees rs rs' \<Longrightarrow> policy_verdict cel rs req = policy_verdict cel rs' req"
  by (induction rule: list_all2_induct) (auto simp: rule_agrees_verdict split: option.split)

lemma rules_agree_Evaluate:
  assumes "list_all2 rule_agrees rs rs'"
  shows "verdict_of (Evaluate (NewRuleEngine cel rs) req) = verdict_of (Evaluate (NewRuleEngine cel rs') req)"
proof -
  let ?f = "\<lambda>d. (d_Allowed d, d_Held d, d_Scoped d, d_ReasonClass d)"
  have "?f (Evaluate (NewRuleEngine cel rs) req) = ?f (Evaluate (NewRuleEngine cel rs') req)"
    unfolding Evaluate_verdict by (rule rules_agree_verdict [OF assms])
  then show ?thesis by (simp add: verdict_of_def)
qed

lemma rule_agrees_refl: "rule_agrees r r"
  by (simp add: rule_agrees_def when_agrees_def option.rel_refl)

lemma compiled_policy_no_run: "Flow_Compile doc = Inr a \<Longrightarrow> ps_RunToken (np_Spec (art_Policy a)) = None"
  by (erule Flow_Compile_parts) simp

lemma compiled_policy_verdict:
  assumes "Flow_Compile doc = Inr a"
  shows "verdict_of (Evaluate (NewRuleEngine cel (ps_Rules (np_Spec (art_Policy a)))) req) =
    flow_verdict (flowRequiresIdentity (af_Spec doc)) (fs_Tools (af_Spec doc)) req"
  using assms by (rule Flow_Compile_parts) (simp add: compiled_verdict)

end
