(* ===== verification/Commands.thy ===== *)
theory Commands
  imports ControllerMain
begin

text \<open>
  The commands (\<open>main\<close> of the binaries): a process either ends with a status or goes on to serve. The
  sidecar and the controller first look for the flag that makes them the health check of their own container
  (\<open>internal/healthprobe\<close>); \<open>get\<close> is the HTTP client of that check.
\<close>

datatype 'p command = Exit nat | Serve 'p

definition served_or_failed :: "'e + 'p \<Rightarrow> 'p command" where
  "served_or_failed r = (case r of Inl err \<Rightarrow> Exit 1 | Inr p \<Rightarrow> Serve p)"

definition sidecarCommand :: "(string \<Rightarrow> string + nat) \<Rightarrow> string list \<Rightarrow> ('h, 'w) boot \<Rightarrow> ('h, 'w) process command" where
  "sidecarCommand get args b =
     (if probe_Requested args then Exit (probe_Run get (bt_Getenv b ''NULLFIELD_ADMIN_ADDR'') ''9091'')
      else served_or_failed (sidecarMain b))"

definition controllerCommand :: "(string \<Rightarrow> string + nat) \<Rightarrow> string list \<Rightarrow> controller_boot \<Rightarrow> controller_process command" where
  "controllerCommand get args b =
     (if probe_Requested args then Exit (probe_Run get (ct_Getenv b ''NULLFIELD_CONTROLLER_HEALTH_ADDR'') ''9091'')
      else served_or_failed (controllerMain b))"

definition arbiterCommand :: "arbiter_boot \<Rightarrow> arbiter command" where
  "arbiterCommand b = served_or_failed (arbiterMain b)"

text \<open>The controller's health and metrics server.\<close>

definition controllerHealth :: "string \<Rightarrow> admin_reply" where
  "controllerHealth path =
     (if path = ''/healthz'' \<or> path = ''/readyz'' then AdminText ''ok'' 200
      else if path = ''/metrics'' then AdminMetrics
      else AdminText ''404 page not found'' 404)"

text \<open>The HTTP servers: what they listen on and how long a request may take. A limit of 0 is none.\<close>

record http_server =
  hs_Addr :: string
  hs_ReadTimeout :: duration
  hs_WriteTimeout :: duration
  hs_IdleTimeout :: duration

definition proxyServer :: "('h, 'w) process \<Rightarrow> http_server" where
  "proxyServer p = \<lparr>hs_Addr = cf_ListenAddr (pr_Config p), hs_ReadTimeout = 30 * Second,
     hs_WriteTimeout = pr_WriteTimeout p, hs_IdleTimeout = 120 * Second\<rparr>"

definition adminServer :: "('h, 'w) process \<Rightarrow> http_server" where
  "adminServer p = \<lparr>hs_Addr = cf_AdminAddr (pr_Config p), hs_ReadTimeout = 0, hs_WriteTimeout = 0, hs_IdleTimeout = 0\<rparr>"

definition controllerAdminServer :: "controller_process \<Rightarrow> http_server" where
  "controllerAdminServer p = \<lparr>hs_Addr = cp_AdminAddr p, hs_ReadTimeout = 15 * Second,
     hs_WriteTimeout = 10 * Minute, hs_IdleTimeout = 120 * Second\<rparr>"

definition controllerHealthServer :: "controller_process \<Rightarrow> http_server" where
  "controllerHealthServer p = \<lparr>hs_Addr = cp_HealthAddr p, hs_ReadTimeout = 0, hs_WriteTimeout = 0, hs_IdleTimeout = 0\<rparr>"

section \<open>The check finds the server\<close>

text \<open>
  An address that a variable sets, or else the default port: the probe asks the port the server listens on.
\<close>

lemma probe_port:
  assumes "envOr getenv key '':9091'' = host @ '':'' @ port" and "CHR '':'' \<notin> set port" and "port \<noteq> []"
  shows "URLFor (getenv key) ''9091'' = ''http://127.0.0.1:'' @ port @ ''/healthz''"
proof (cases "getenv key = []")
  case True
  with assms(1) have "'':9091'' = host @ '':'' @ port" by (simp add: envOr_def)
  then have "port = ''9091''"
    using assms(2) by (cases host) (auto simp: append_eq_Cons_conv Cons_eq_append_conv)
  with True show ?thesis by (simp add: URLFor_def)
next
  case False
  with assms URLFor_port [OF assms(2,3), of host "''9091''"] show ?thesis by (simp add: envOr_def)
qed

text \<open>
  A health check of a running sidecar, made from its own container, succeeds: the probe asks the admin
  server at the port it was told to listen on, which answers whatever the state of the process.
\<close>

theorem healthcheck_finds_sidecar:
  assumes "sidecarMain b = Inr p" and "probe_Requested args"
    and "cf_AdminAddr (pr_Config p) = host @ '':'' @ port" and "CHR '':'' \<notin> set port" and "port \<noteq> []"
    and "sidecarAdmin holds ids ''GET'' ''/healthz'' approver now = (holds', AdminText txt status, res)"
    and "get (''http://127.0.0.1:'' @ port @ ''/healthz'') = Inr status"
  shows "sidecarCommand get args b = Exit 0"
proof -
  from assms(1) obtain cfg sinks v m where cfg: "Config_Load (bt_Getenv b) = Inr cfg"
    and p: "p = sidecarProcess b cfg sinks (startupSpec (bt_Loader b) (cf_PolicyPath cfg) (fst (bt_PolicyReads b))) v m"
    by (rule sidecarMain_process)
  have "envOr (bt_Getenv b) ''NULLFIELD_ADMIN_ADDR'' '':9091'' = host @ '':'' @ port"
    using Load_settings [OF cfg] assms(3) unfolding p process_parts by simp
  from probe_port [OF this assms(4,5)] assms(2,6,7) show ?thesis
    by (simp add: sidecarCommand_def probe_Run_def sidecarAdmin_def)
qed

theorem healthcheck_finds_controller:
  assumes "controllerMain b = Inr p" and "probe_Requested args"
    and "cp_HealthAddr p = host @ '':'' @ port" and "CHR '':'' \<notin> set port" and "port \<noteq> []"
    and "controllerHealth ''/healthz'' = AdminText txt status"
    and "get (''http://127.0.0.1:'' @ port @ ''/healthz'') = Inr status"
  shows "controllerCommand get args b = Exit 0"
proof -
  have "envOr (ct_Getenv b) ''NULLFIELD_CONTROLLER_HEALTH_ADDR'' '':9091'' = host @ '':'' @ port"
    using assms(1,3) by (auto simp: controllerMain_def Let_def split: option.splits)
  from probe_port [OF this assms(4,5)] assms(2,6,7) show ?thesis
    by (simp add: controllerCommand_def probe_Run_def controllerHealth_def)
qed

end
