(* ===== verification/Spec2Isabelle.thy ===== *)
theory Spec2Isabelle
  imports Injector AuditExport GatewayMain ArbiterTraffic Commands
begin

text \<open>
  \<^bold>\<open>nullfield\<close> stands between agents and the tools they call over MCP. A call reaches it through one
  of three front doors: the sidecar proxy in the pod of a tool server, the gateway in front of several
  servers, or the decision service Envoy asks. Each identifies the caller, asks the gates that admit a call
  (registry, breaker), evaluates a policy, asks the gates that charge it (rates, budgets, velocity),
  and then forwards, refuses, rewrites or parks it, and audits what it did. A controller keeps
  holds, budgets, events and sidecars for many sidecars, and turns Kubernetes resources into policies; a
  compiler makes policies out of flows; a webhook injects the sidecar.

  \<^bold>\<open>Theories.\<close> In the order of their imports; paths are under \<open>src/\<close>.

  \<^item> \<open>Prelude\<close>, \<open>Values\<close>, \<open>Types\<close>, \<open>Durations\<close>: instants, Go's strings and the functions of \<open>strings\<close>,
    \<open>strconv\<close> and \<open>time\<close> that are called (durations are parsed and printed), 64-bit wrap-around, values of type \<open>any\<close>, the policy documents
    (\<open>api/v1alpha1/types.go\<close>); and \<open>sliding_limiter\<close>, the interface of everything that admits at
    most so many calls in a window.
  \<^item> \<open>Identity\<close>, \<open>RunToken\<close>, \<open>Tokens\<close> (\<open>pkg/identity\<close>): verifiers and attesters, as locales with the sources'
    implementations as interpretations; session binding, replay detection, run tokens, key sets, issuers, and the
    texts of their errors.
  \<^item> \<open>Policy\<close> (\<open>pkg/policy/engine.go\<close>, \<open>rules.go\<close>, \<open>cel.go\<close>): first-match evaluation and its guards.
  \<^item> \<open>Registry\<close>, \<open>Circuit\<close>, \<open>Anomaly\<close>, \<open>Budget\<close>, \<open>Gates\<close> (the packages of these names): the gates.
  \<^item> \<open>Mcp\<close>, \<open>Scope\<close>, \<open>Inspection\<close>, \<open>Hold\<close>, \<open>AuditLog\<close>, \<open>Operations\<close> (the packages of these names, and
    \<open>pkg/proxy/audit_context.go\<close>): the envelope, rewriting, inspection, parked calls, events, operation names.
  \<^item> \<open>Proxy\<close>, \<open>Gateway\<close> (\<open>pkg/proxy\<close>) and \<open>Extauthz\<close> (\<open>pkg/extauthz\<close>): the front doors.
  \<^item> \<open>PolicyLoader\<close> (\<open>pkg/policy/loader.go\<close>, \<open>watcher.go\<close>), \<open>FlowCompiler\<close> (\<open>pkg/flow\<close>), \<open>CrdWatcher\<close>
    (\<open>pkg/crdwatcher\<close>, \<open>pkg/kube\<close>): where policies come from.
  \<^item> \<open>ControllerStores\<close>, \<open>ControllerEvents\<close>, \<open>Controller\<close> (\<open>pkg/controller\<close>, \<open>pkg/budget/remote.go\<close>): the controller.
  \<^item> \<open>Signals\<close> (\<open>pkg/signals\<close>), \<open>AuditExport\<close> (\<open>pkg/audit/otel.go\<close> and the log), \<open>Credentials\<close>
    (\<open>pkg/credentials\<close>): what leaves the process, and the secrets that enter it.
  \<^item> \<open>Configuration\<close> (\<open>internal/config\<close>, \<open>internal/healthprobe\<close>), \<open>Injector\<close> (\<open>pkg/injector\<close> and its command),
    \<open>SidecarMain\<close>, \<open>ArbiterMain\<close>, \<open>ControllerMain\<close> (\<open>cmd/nullfield\<close>, \<open>cmd/nullfield-extauthz\<close>,
    \<open>cmd/nullfield-controller\<close>): the processes, from their environment to what they serve. A started
    sidecar has moments: the clock, the key caches and the state of its credential providers, which differ
    from request to request, and the handler that serves then.
  \<^item> \<open>GatewayMain\<close>: the process in gateway mode, from the routes file to the route that serves a call.
  \<^item> \<open>Charging\<close>, \<open>Traffic\<close>, \<open>ArbiterTraffic\<close>: the interface \<open>charging_front\<close> of a front door that charges a call at
    most once, for which the limit of a tool is proved; its interpretations on sequences of requests,
    resumed calls and sweeps of a started sidecar, and of checks and sweeps of a started arbiter.
  \<^item> \<open>Commands\<close>: the commands, with their health check, and the settings of the HTTP servers.
  \<^item> This theory: what crosses processes, from a flow resource to a sidecar's decision, from a sidecar's event to
    the operator's list, and from an operator's approval to the parked call.

  \<^bold>\<open>How the code is rendered.\<close> A struct is a record, an enumeration of Go strings a string or a datatype, a
  pointer an option, a nil map \<open>None\<close> where the code tells it from an empty one. An operation is a function from
  the state to the state and its results; a function that can fail returns a sum with the error on the left; a panic
  is the outcome \<open>None\<close> (or \<open>Panicked\<close>). A critical section is one step, and what runs concurrently is a
  list of such steps in any order. Names are the sources', with the receiver's type in front of a method.
  Whatever is not the program's is an argument: the clock (one reading per call of \<open>time.Now\<close>), random
  bytes, the order in which Go ranges over a map where it matters, the content of a file at each
  read (policies, registries and the routes' policies all go through the loader), the environment, the answers of HTTP and gRPC peers, and the third-party libraries: CEL, JWT, YAML and JSON
  codecs, regular expressions, SHA-256, HMAC, URLs, OpenTelemetry. What a theorem relies on of them is one of its
  hypotheses.

  \<^bold>\<open>What the theorems show.\<close> For each front door, exactly when a call is forwarded, that it is audited then and
  only then, and that a parked call needs an approval and passes the charging gates again. That an observing
  server predicts an enforcing one, and that the decision service never panics. That the decision is what the
  first rule says that says anything of the call (\<open>rule_verdict\<close>, the meaning of a rule without the engine) and
  an allowed call met every guard of its rule; that the engine in force is that of the last acceptable document of
  its file, and that a reload fails safe. That windows bound what they count, whatever the interleaving, in
  process and in the controller, whose store refines the tracker. That a hold is answered once. That the flow compiler
  preserves meaning, that the watcher publishes only what is accepted and applies only what a flow of its last listing
  asks for. That rewriting a call changes only its arguments. That signals
  keep their order, drain, are retried finitely often, and reach a webhook signed; that cached credentials are current and genuine. That an
  injected pod is not injected again and its sidecar comes up as configured. For the processes: a running
  sidecar, a gateway, or an enforcing arbiter, forwards only what an accepted document allows to a caller
  whose token the configured issuers vouch for, whatever its files, key caches and gates did since; no minute
  of a sidecar's or an arbiter's traffic lets through more calls of a tool by one caller than the registry allows; a published flow decides what a sidecar does; a reported event is shown in all its fields; an approval releases a call. Some theorems record
  where the code falls short of its documentation (batches; budgets that are not in the first policy document, which have no
  effect on a sidecar's traffic). That a field is accepted does not mean that it is enforced: \<open>spec_admissible\<close> says what the loader
  checks, and \<open>hold.onTimeout\<close> passes it although nothing reads it.

  \<^bold>\<open>Hypotheses on libraries.\<close> JWT: a token the library accepts has the header and claims an unverified
  reading shows, was verified under a key it was given, and meets the options for issuer and expiry (\<open>jwt_documented\<close>). YAML: a
  policy that is written and read back has rules that agree in what they decide on, where the order of claim conditions and the
  type of numbers in them may change (\<open>yaml_reads_back\<close>). SHA-256: different hashes for the documents one sidecar has read. Nothing is assumed of JSON.

  \<^bold>\<open>Simplifications.\<close> One reading of the clock serves all the gates of a call, where each gate of the code reads it anew;
  \<open>EqualFold\<close> and \<open>ToLower\<close> fold ASCII letters only; the count of a breaker is an unbounded integer; a CEL program or
  an engine that \<open>NewRuleEngine\<close> cannot produce (nil) is an error or absent rather than a panic; \<open>flow_verdict\<close>, what a flow says,
  takes from the compiler that credentials make a tool \<open>SCOPE\<close> and when an identity is required.

  \<^bold>\<open>Termination and bounds.\<close> Every definition is total; loops that are not structural have a measure
  (\<open>listFrom\<close>, \<open>lastSlashFrom\<close>, \<open>parseTerms\<close>). The retry loop of a signal is a partial function whose
  termination after five attempts is a theorem. No fuel is used. Go's \<open>int\<close> is \<open>int\<close> where a length
  or a configured number is meant, and wrapped to 64 (\<open>wrap64\<close>) or 32 bits (\<open>wrap32\<close>) where it is computed.

  \<^bold>\<open>Not modelled.\<close> The HTTP and gRPC servers themselves: accepting connections, enforcing their time limits (the
  limits are in \<open>Commands\<close>), shutting down. The bytes on the wire beyond the documents a codec delivers; contexts
  and their cancellation; log lines other than the audit log, and with them \<open>describePeer\<close> of
  \<open>extauthz\<close>; the generated protobuf code; the host name a Kubernetes Event carries; \<open>setRequestBody\<close>, which
  puts the body back for the reverse proxy, and \<open>responseRecorder\<close>, which nothing calls. They are third-party
  code or effects no decision depends on. Within one request the credentials are read in the state they had when it came
  in: that one fetch of a request fills the cache for the next fetch of the same request is not shown,
  which changes no value a fetch returns as long as the source does not change in between.
\<close>

section \<open>Flow to sidecar\<close>

text \<open>
  C8. What a flow says is what the sidecar does. Suppose the controller, in any pass and whatever the
  API server answers, writes a config map with the three documents of a flow, and a running sidecar
  that could load its policy when it started polls its file once it holds that policy document. Then
  the flow is a resource of the last listing of flows the controller received before it wrote, one of that namespace
  whose name the config map carries; and from then on every request gets from the sidecar's engine
  the verdict that flow gives it, whatever the file held before. (A policy written as YAML and read back has rules
  that agree with the written ones in what they decide on, \<open>yaml_reads_back\<close>; SHA-256 gives
  different hashes to the documents the sidecar has read; controller and sidecar share the decoder and the CEL library.)\<close>

theorem flow_governs_sidecar:
  assumes "snd (Watcher_Run env w [] n) = pre @ r # post" and "kh_Body r = Some (KVal (configMapObj ns cm (flowData c y t) ls))"
    and codec: "yaml_reads_back env"
    and "sidecarMain b = Inr p" and "bt_PolicyReads b = (first, read, read)" and "le_load (bt_Loader b) read = Inr s0"
    and "inj_on (le_sha (bt_Loader b)) {d. Inr d \<in> set (read # reads @ [Inr y])}"
    and "le_decode (bt_Loader b) = we_DecodePolicy env" and "le_cel (bt_Loader b) = we_CEL env"
  shows "\<exists>obj doc name engine. current_flow env (cw_namespace w) pre obj \<and>
     parseAgenticFlow env obj (cw_namespace w) = Inr (doc, name, ns) \<and> cm = ''nullfield-flow-'' @ name \<and>
     activeEngine (engineTicks (bt_Loader b) (pr_Engine p) (map (\<lambda>x. (x, x)) (reads @ [Inr y]))) = Some engine \<and>
     (\<forall>req. verdict_of (engine req) = flow_verdict (flowRequiresIdentity (af_Spec doc)) (fs_Tools (af_Spec doc)) req)"
proof -
  from assms(1,2) obtain obj doc name spec where d: "current_flow env (cw_namespace w) pre obj"
      "compiled_flow env (cw_namespace w) obj doc name ns c y t" "cm = ''nullfield-flow-'' @ name" "accepts env y = Inr spec"
    by (rule Run_flow_map)
  from d(2) obtain a where a: "parseAgenticFlow env obj (cw_namespace w) = Inr (doc, name, ns)"
    "Flow_Compile doc = Inr a" "we_YamlArtifact env (APolicy (art_Policy a)) = Inr y"
    unfolding compiled_flow_def by blast
  from d(4) obtain pol where pol: "we_DecodePolicy env y = Inr pol" "spec_admissible (we_CEL env) (np_Spec pol)"
    by (auto simp: accepts_def ParseSpec_iff)
  have agree: "list_all2 rule_agrees (ps_Rules (np_Spec (art_Policy a))) (ps_Rules (np_Spec pol))" "ps_RunToken (np_Spec pol) = None"
    using codec a(3) pol(1) compiled_policy_no_run [OF a(2)] unfolding yaml_reads_back_def by blast+
  have "le_load (bt_Loader b) (Inr y) = Inr (np_Spec pol)"
    using agree(2) pol assms(8,9) by (simp add: le_load_iff)
  then have "engine_of (bt_Loader b) (Inr y) = Some (NewRuleEngine (we_CEL env) (ps_Rules (np_Spec pol)))"
    using assms(9) by (simp add: engine_of_def)
  then have "activeEngine (engineTicks (bt_Loader b) (pr_Engine p) (map (\<lambda>x. (x, x)) (reads @ [Inr y]))) =
      Some (Evaluate (NewRuleEngine (we_CEL env) (ps_Rules (np_Spec pol))))"
    unfolding process_engine_follows_file [OF assms(4-7)] latest_snoc by simp
  moreover have "verdict_of (Evaluate (NewRuleEngine (we_CEL env) (ps_Rules (np_Spec pol))) req) =
      flow_verdict (flowRequiresIdentity (af_Spec doc)) (fs_Tools (af_Spec doc)) req" for req
    using compiled_policy_verdict [OF a(2)] rules_agree_Evaluate [OF agree(1)] by metis
  ultimately show ?thesis
    using d(1,3) a(1) by blast
qed

text \<open>The demonstration controller publishes the policy of its flow, and a sidecar that shares its codec loads it.\<close>

definition demo_shared :: "string loader_env" where
  "demo_shared = demo_loader\<lparr>le_decode := we_DecodePolicy demo_watch\<rparr>"

lemma demo_shared_load: "le_load demo_shared (Inr ActionAllow) = Inr (demo_spec ActionAllow)"
proof -
  have "ActionAllow \<noteq> ''P''" by (simp add: ActionAllow_def)
  with demo_load [of ActionAllow] show ?thesis
    by (simp add: le_load_iff demo_shared_def) (simp add: demo_watch_def)
qed

lemma demo_reads_back: "yaml_reads_back demo_watch"
proof -
  have "pol = pol'" if "we_YamlArtifact demo_watch (APolicy pol) = Inr y" "we_DecodePolicy demo_watch y = Inr pol'" for pol y pol'
    using that by (auto simp: demo_watch_def split: if_splits)
  then show ?thesis
    unfolding yaml_reads_back_def using rule_agrees_refl by (metis list.rel_refl)
qed

lemma flow_governs_sidecar_witness:
  "\<exists>p engine pre obj (doc :: AgenticFlow). sidecarMain ((demo_boot ActionAllow)\<lparr>bt_Loader := demo_shared\<rparr>) = Inr p \<and>
     current_flow demo_watch (cw_namespace demo_watcher) pre obj \<and>
     activeEngine (engineTicks demo_shared (pr_Engine p) [(Inl ''gone'', Inl ''gone''), (Inr ''P'', Inr ''P'')]) = Some engine \<and>
     (\<forall>req. verdict_of (engine req) = flow_verdict (flowRequiresIdentity (af_Spec doc)) (fs_Tools (af_Spec doc)) req)"
proof -
  let ?b = "(demo_boot ActionAllow)\<lparr>bt_Loader := demo_shared\<rparr>"
  obtain p where p: "sidecarMain ?b = Inr p"
    using demo_process_with [OF demo_shared_load] by blast
  obtain q1 q2 u1 x q3 u2 ns cm ls rest where flows: "syncAgenticFlows demo_watch demo_watcher [] =
      [q1, q2, demo_req ''PUT'' u1 ''application/json'' (Some (KArtifact x)), q3,
       demo_req ''PUT'' u2 ''application/json'' (Some (KVal (configMapObj ns cm (flowData [] ''P'' []) ls))), rest]"
    using demo_flows by blast
  define r where "r = demo_req ''PUT'' u2 ''application/json'' (Some (KVal (configMapObj ns cm (flowData [] ''P'' []) ls)))"
  have body: "kh_Body r = Some (KVal (configMapObj ns cm (flowData [] ''P'' []) ls))"
    by (simp add: r_def)
  obtain more_q tail where run: "snd (Watcher_Run demo_watch demo_watcher [] 0) = (syncAgenticFlows demo_watch demo_watcher [] @ more_q) @ tail"
    using demo_run demo_policies by metis
  obtain pre post where split: "snd (Watcher_Run demo_watch demo_watcher [] 0) = pre @ r # post"
    using run unfolding flows r_def [symmetric] append.simps by (metis append_Cons append_Nil)
  have boot: "bt_PolicyReads ?b = (Inr ActionAllow, Inr ActionAllow, Inr ActionAllow)" "bt_Loader ?b = demo_shared"
    "inj_on (le_sha demo_shared) D" "le_decode demo_shared = we_DecodePolicy demo_watch" "le_cel demo_shared = we_CEL demo_watch" for D
    by (simp_all add: demo_boot_def demo_shared_def demo_loader_def demo_watch_def inj_on_def)
  have "\<exists>obj doc name engine. current_flow demo_watch (cw_namespace demo_watcher) pre obj \<and>
     parseAgenticFlow demo_watch obj (cw_namespace demo_watcher) = Inr (doc, name, ns) \<and> cm = ''nullfield-flow-'' @ name \<and>
     activeEngine (engineTicks (bt_Loader ?b) (pr_Engine p) (map (\<lambda>x. (x, x)) ([Inl ''gone''] @ [Inr ''P'']))) = Some engine \<and>
     (\<forall>req. verdict_of (engine req) = flow_verdict (flowRequiresIdentity (af_Spec doc)) (fs_Tools (af_Spec doc)) req)"
    by (rule flow_governs_sidecar [OF split body demo_reads_back p boot(1)]) (simp_all only: boot demo_shared_load)
  then show ?thesis
    unfolding boot(2) using p by simp blast
qed

section \<open>Sidecar to controller\<close>

text \<open>
  C10. What a sidecar audits reaches the operator. A sidecar with a controller configured has the emitter that
  reports to it; and from a started controller, after anything it has done, an event that is
  reported is in the list the operator is shown (all events, or those of its type), and each of the sixteen
  fields of what is shown is the sidecar's (the rule index cut to 32 bits), as long as fewer than two hundred further
  steps have followed, whatever they are. (What the report has no field for, such as the error, stays with the sidecar.)\<close>

theorem report_reaches_operator:
  assumes "sidecarMain b = Inr p" and "cf_ControllerAddr (pr_Config p) \<noteq> []" and "controllerMain cb = Inr cp"
    and "s = controller_run marshal (cp_Server cp) before" and "s' = fst (server_exec marshal s (GReportEvent (controllerEmitter_Emit e)) now)"
    and "length later < 200" and "ev_Time e = Some t" and "ty \<in> {[], eventTypeName (ev_Type e)}"
  shows "ControllerEmitter \<in> set (pr_Emitters p) \<and>
     (\<exists>evs. controllerAdmin (controller_run marshal s' later) holdIDs budgetIDs ''GET'' ''/admin/events'' ty who now' =
          (controller_run marshal s' later, CEvents evs, None) \<and>
        \<lparr>ae_EventType = eventTypeName (ev_Type e), ae_Method = ev_Method e, ae_Tool = ev_ToolName e, ae_Identity = ev_Identity e,
          ae_SessionID = ev_SessionID e, ae_Gate = ev_Gate e, ae_ReasonClass = ev_ReasonClass e,
          ae_RuleIndex = int32PtrFromIntPtr (ev_RuleIndex e), ae_RuleID = ev_RuleID e, ae_PolicyRef = ev_PolicyRef e,
          ae_RegistryRef = ev_RegistryRef e, ae_Route = ev_Route e, ae_Labels = ev_Labels e, ae_Reason = ev_Reason e,
          ae_Target = ev_Target e, ae_Timestamp = Some t\<rparr> \<in> set evs)"
proof -
  let ?x = "reportedEvent (controllerEmitter_Emit e) now"
  from assms(1) obtain cfg sinks v m where "p = sidecarProcess b cfg sinks
      (startupSpec (bt_Loader b) (cf_PolicyPath cfg) (fst (bt_PolicyReads b))) v m"
    by (rule sidecarMain_process)
  then have emitter: "ControllerEmitter \<in> set (pr_Emitters p)"
    using assms(2) by (auto simp: sidecarProcess_def startEmitters_def Let_def split: prod.splits)
  have "srv_Events (cp_Server cp) = NewEventBuffer 0"
    using assms(3) by (auto simp: controllerMain_def initialServer_def Let_def split: option.splits)
  then have "ring_ok 1000 (srv_Events (cp_Server cp))"
    using ring_ok_New [of 0] by (simp add: NewEventBuffer_def DefaultEventBufferSize_def)
  from run_logged [OF this, of marshal before] have ok: "ring_ok 1000 (srv_Events s)"
    unfolding assms(4) logged_def by blast
  have "srv_Events s' = EventBuffer_Add (srv_Events s) ?x now"
    unfolding assms(5) by (auto simp: Server_ReportEvent_def Let_def dest!: Server_alert_Events split: prod.split)
  moreover have "stamped ?x now = ?x"
    by (simp add: stamped_def reportedEvent_def)
  ultimately have s': "ring_ok 1000 (srv_Events s')" "\<exists>rest. ring_recent (srv_Events s') = ?x # rest"
    using ring_ok_Add [OF ok] ring_Add [OF ok] by simp_all
  have "of_type ty ?x"
    using assms(8) by (auto simp: of_type_def reportedEvent_def controllerEmitter_Emit_def)
  with s'(2) assms(6) have mem: "?x \<in> set (EventBuffer_List (srv_Events (controller_run marshal s' later)) ty 200)"
    using listed_after [OF run_logged [OF s'(1), of marshal later]] by fastforce
  have shown: "controllerAdmin (controller_run marshal s' later) holdIDs budgetIDs ''GET'' ''/admin/events'' ty who now' =
      (controller_run marshal s' later, CEvents (EventBuffer_List (srv_Events (controller_run marshal s' later)) ty 200), None)"
    by (simp add: controllerAdmin_def)
  have x: "?x =
       \<lparr>ae_EventType = eventTypeName (ev_Type e), ae_Method = ev_Method e, ae_Tool = ev_ToolName e, ae_Identity = ev_Identity e,
          ae_SessionID = ev_SessionID e, ae_Gate = ev_Gate e, ae_ReasonClass = ev_ReasonClass e,
          ae_RuleIndex = int32PtrFromIntPtr (ev_RuleIndex e), ae_RuleID = ev_RuleID e, ae_PolicyRef = ev_PolicyRef e,
          ae_RegistryRef = ev_RegistryRef e, ae_Route = ev_Route e, ae_Labels = ev_Labels e, ae_Reason = ev_Reason e,
          ae_Target = ev_Target e, ae_Timestamp = Some t\<rparr>"
    using assms(7) by (simp add: reportedEvent_def controllerEmitter_Emit_def optionalRuleIndex_def split: option.split)
  show ?thesis
    using emitter shown mem [unfolded x] by (intro conjI exI)
qed

text \<open>A sidecar that reports to a controller at \<open>c\<close>.\<close>

definition demo_reporting :: "(string, nat) boot" where
  "demo_reporting = (demo_boot ActionAllow)\<lparr>bt_Getenv := (\<lambda>k. if k = ''NULLFIELD_CONTROLLER_ADDR'' then ''c'' else [])\<rparr>"

lemma demo_reporting_starts: "\<exists>p. sidecarMain demo_reporting = Inr p \<and> cf_ControllerAddr (pr_Config p) \<noteq> []"
proof -
  let ?env = "bt_Getenv demo_reporting"
  obtain cfg where cfg: "Config_Load ?env = Inr cfg" "cf_RoutesPath cfg = []" "cf_IdentityJWKSURL cfg = []" "\<not> cf_IdentityTrustHeader cfg"
    by (simp add: demo_reporting_def Config_Load_def envConfig_def envOr_def Atoi_def digit_value_def splitAudiences_def Let_def)
  have c: "cf_ControllerAddr cfg = ''c''" "cf_PolicyPath cfg \<noteq> []"
    using Load_settings(4,7) [OF cfg(1)] by (simp_all add: envOr_def demo_reporting_def)
  have s: "startupSpec (bt_Loader demo_reporting) (cf_PolicyPath cfg) (fst (bt_PolicyReads demo_reporting)) = demo_spec ActionAllow"
    using c(2) by (simp add: demo_reporting_def demo_boot_def startupSpec_def demo_load) (simp add: demo_spec_def)
  have v: "chooseVerifier cfg (demo_spec ActionAllow) = Inr SVNoop"
    using cfg by (simp add: chooseVerifier_def demo_spec_def envIdentity_def VerifierFromEnv_def)
  have f: "FromEnv (bt_Signals demo_reporting) \<lparr>so_Emits = sidecarEmits, so_KubeEvents = False\<rparr> = Inr []"
    by (simp add: FromEnv_def demo_reporting_def demo_boot_def kubeChannel_def webhookChannel_def Let_def)
  have b: "bt_ParseURL demo_reporting x = Inr ''up''" "bt_Dial demo_reporting x = None" for x
    by (simp_all add: demo_reporting_def demo_boot_def)
  have "\<exists>m. sidecarMain demo_reporting = Inr (sidecarProcess demo_reporting cfg [] (demo_spec ActionAllow) SVNoop m)"
    unfolding sidecarMain_def cfg(1) sum.case f s b using cfg(2) v by (simp add: Let_def chooseMode_def) blast
  then show ?thesis
    using c(1) by (auto simp: process_parts)
qed

definition demo_refusal :: Event where
  "demo_refusal = (event EventToolDenied)\<lparr>ev_ToolName := ''rm'', ev_Route := ''/tools'', ev_Reason := ''denied by policy'', ev_Time := Some 5\<rparr>"

definition demo_controller :: controller_boot where
  "demo_controller = \<lparr>ct_Getenv = (\<lambda>_. []), ct_CA = Inl [], ct_HasCerts = (\<lambda>_. False), ct_NamespaceFile = Inl [], ct_Listen = (\<lambda>_. None)\<rparr>"

lemma report_reaches_operator_witness:
  "\<exists>cp evs s. controllerMain demo_controller = Inr cp \<and>
     s = controller_run (\<lambda>_. Inl []) (cp_Server cp) [(GReportEvent (controllerEmitter_Emit demo_refusal), 6), (GSweep, 60)] \<and>
     controllerAdmin s [] [] ''GET'' ''/admin/events'' ''tool.denied'' [] 70 = (s, CEvents evs, None) \<and>
     (\<exists>x \<in> set evs. ae_Tool x = ''rm'' \<and> ae_Route x = ''/tools'' \<and> ae_Reason x = ''denied by policy'')"
proof -
  obtain p where p: "sidecarMain demo_reporting = Inr p" "cf_ControllerAddr (pr_Config p) \<noteq> []"
    using demo_reporting_starts by blast
  obtain cp where cp: "controllerMain demo_controller = Inr cp"
    by (simp add: controllerMain_def demo_controller_def Let_def)
  have e: "ev_Time demo_refusal = Some 5" "''tool.denied'' \<in> {[], eventTypeName (ev_Type demo_refusal)}"
    "ev_ToolName demo_refusal = ''rm''" "ev_Route demo_refusal = ''/tools''" "ev_Reason demo_refusal = ''denied by policy''"
    by (simp_all add: demo_refusal_def event_def)
  from report_reaches_operator [OF p cp, where before = "[]" and later = "[(GSweep, 60)]" and now = 6, OF refl refl _ e(1,2),
      where marshal = "\<lambda>_. Inl []" and holdIDs = "[]" and budgetIDs = "[]" and who = "[]" and now' = 70]
  show ?thesis
    using cp by (simp add: e(3-5) del: server_exec.simps) (metis AuditEvent.select_convs(3,12,14))
qed

section \<open>Operator to sidecar\<close>

text \<open>An approval at the admin endpoint answers a pending hold whose identifier has no slash.\<close>

lemma admin_approves:
  assumes "hm_pending m hid = Some r" and "CHR ''/'' \<notin> set hid" and "hid \<noteq> []"
  shows "admin_holds m ids ''POST'' (''/admin/holds/'' @ hid @ ''/approve'') who now =
    Some (fst (Manager_Approve m hid (if who = [] then ''admin-api'' else who) now), StatusReply ''approved'' hid,
      Some (hid, \<lparr>rs_Approved = True, rs_By = (if who = [] then ''admin-api'' else who)\<rparr>))"
proof -
  let ?path = "''/admin/holds/'' @ hid @ ''/approve''"
  have slash: "CHR ''/'' \<in> set (hid @ ''/approve'')" "CHR ''/'' \<notin> set ''history''"
    by simp_all
  have path: "?path \<noteq> ''/admin/holds''" "?path \<noteq> ''/admin/holds/history''"
    using slash by (simp, metis append_Cons append_Nil same_append_eq)
  have "Split CHR ''/'' (hid @ ''/approve'') = [hid, ''approve'']"
    using Split_append [OF assms(2), of "''approve''"] by simp
  then have "admin_item m ''POST'' (hid @ ''/approve'') who now =
      (fst (Manager_Approve m hid (if who = [] then ''admin-api'' else who) now), StatusReply ''approved'' hid,
        Some (hid, \<lparr>rs_Approved = True, rs_By = (if who = [] then ''admin-api'' else who)\<rparr>))"
    using assms(1,3) by (simp add: admin_item_def Manager_Approve_def Manager_resolve_def Let_def)
  then show ?thesis
    using path unfolding admin_holds_def TrimPrefix_append by simp
qed

text \<open>
  C9. An operator can release a parked call. A tools/call the sidecar parks is pending in its hold manager
  under the identifier its event announces; and as long as it is, approving that identifier at the admin
  endpoint takes it out of the pending calls and hands its handler a resolution, with which the call is
  sent exactly if its scope succeeds and the charging gates let it through at that moment.\<close>

theorem operator_releases_parked_call:
  assumes "unmarshalRPC (pe_JSON env) (take (2 ^ 20) raw) = Inr req" and "jr_Method req = MethodToolsCall"
    and "Handler_ServeHTTP env h hs (Some raw) hex now = OnHold h1 evs c" and "CHR ''/'' \<notin> set hex"
    and "hm_pending m (hc_ID c) = Some r"
  shows "(\<exists>m1 r1. h_holds h1 = Some m1 \<and> hm_pending m1 (hc_ID c) = Some r1) \<and>
     (\<exists>m' res. sidecarAdmin (Some m) ids ''POST'' (''/admin/holds/'' @ hc_ID c @ ''/approve'') who t =
          (Some m', AdminHolds (StatusReply ''approved'' (hc_ID c)), Some (hc_ID c, res)) \<and> hm_pending m' (hc_ID c) = None \<and>
        (hd_Sent (snd (resumeHeld env h2 c res now2)) = Some (u, b) \<longleftrightarrow>
           u = h_upstream h2 \<and>
           (\<exists>tc' rc mods. scopeStage env (h_credentials h2) (hc_Decision c) (hc_Call c) (take (2 ^ 20) raw) = ScopeOk tc' b rc mods) \<and>
           (\<exists>g w. Gates_Charge (h_gates h2) (callOf (hc_Call c) (hc_Identity c)) (hc_Decision c) now2 = (g, None, w))))"
proof -
  from assms(1-3) obtain m1 r1 where parked: "hc_Body c = take (2 ^ 20) raw" "hc_ID c = generateID hex"
    "h_holds h1 = Some m1" "hm_pending m1 (hc_ID c) = Some r1"
    by (rule ServeHTTP_parked)
  let ?who = "if who = [] then ''admin-api'' else who"
  let ?path = "''/admin/holds/'' @ hc_ID c @ ''/approve''"
  have "CHR ''/'' \<notin> set (hc_ID c)" "hc_ID c \<noteq> []"
    using assms(4) parked(2) by (simp_all add: generateID_def)
  note approve = admin_approves [OF assms(5) this, of ids who t]
  have "sidecarAdmin (Some m) ids ''POST'' ?path who t =
      (Some (fst (Manager_Approve m (hc_ID c) ?who t)), AdminHolds (StatusReply ''approved'' (hc_ID c)),
        Some (hc_ID c, \<lparr>rs_Approved = True, rs_By = ?who\<rparr>))"
    unfolding sidecarAdmin_def option.case approve by simp
  moreover have "hm_pending (fst (Manager_Approve m (hc_ID c) ?who t)) (hc_ID c) = None"
    using assms(5) by (simp add: Manager_Approve_def Manager_resolve_def archiveHold_def Let_def)
  ultimately show ?thesis
    using parked(3,4) resumeHeld_sent_iff [of env h2 c "\<lparr>rs_Approved = True, rs_By = ?who\<rparr>" now2 u b] unfolding parked(1)
    by (metis Resolution.select_convs(1))
qed

lemma operator_releases_parked_call_witness:
  "\<exists>h1 evs c m m' res. Handler_ServeHTTP demo_env (demo_handler demo_hold_rule) [] (Some ''A'') ''1'' \<lparr>instant = 0, YearDay = 1\<rparr> =
       OnHold h1 evs c \<and> h_holds h1 = Some m \<and>
     sidecarAdmin (Some m) [] ''POST'' (''/admin/holds/'' @ hc_ID c @ ''/approve'') ''op'' 5 =
       (Some m', AdminHolds (StatusReply ''approved'' (hc_ID c)), Some (hc_ID c, res)) \<and> hm_pending m' (hc_ID c) = None"
proof -
  obtain h1 evs c m r where held: "Handler_ServeHTTP demo_env (demo_handler demo_hold_rule) [] (Some ''A'') ''1''
      \<lparr>instant = 0, YearDay = 1\<rparr> = OnHold h1 evs c" "h_holds h1 = Some m" "hm_pending m (hc_ID c) = Some r"
    by (simp add: Handler_ServeHTTP_def demo_request [simplified] handleToolsCall_def Proxy.demo_parse
        demo_handler_def NewHandler_def demo_engine_def demo_hold_rule_def policy_eval gates_eval
        Manager_Hold_def Let_def action_defs)
  have "jr_Method \<lparr>jr_JSONRPC = [], jr_ID = VInt 7, jr_Method = MethodToolsCall,
     jr_Params = Some (VMap [(''name'', VStr ''ls'')])\<rparr> = MethodToolsCall" "CHR ''/'' \<notin> set ''1''"
    by simp_all
  with operator_releases_parked_call [OF demo_request _ held(1) _ held(3), where who = "''op''" and ids = "[]" and t = 5] held
  show ?thesis by metis
qed

end
